(* ===== verification/OMA_Prelude.thy ===== *)
theory OMA_Prelude
  imports Complex_Main "HOL-Library.AList" "HOL-Library.List_Lexorder" "HOL-Library.Product_Lexorder"
begin

text \<open>
  Shared vocabulary of the development.

  \<^item> \<open>ustr\<close> is a Python \<open>str\<close>: the list of its code points. \<open>U ''abc''\<close> is an ASCII literal;
    a literal with CJK characters lists its code points.
  \<^item> \<open>exn\<close> is a raised exception: its class and its message. \<open>isa\<close> is Python's subclass test, so
    \<open>caught e cs\<close> decides whether \<open>except (c1, c2, ...)\<close> handles \<open>e\<close>.
  \<^item> \<open>'a res\<close> is the outcome of a call, \<open>bnd\<close> sequences two calls that share a state: an exception
    keeps the state reached so far, as it does in Python.
  \<^item> A Python \<open>dict\<close> is an association list in insertion order. \<open>AList.update\<close> overwrites in place
    or appends, \<open>map_of\<close> reads, \<open>AList.delete\<close> pops.
  \<^item> \<open>json\<close> is a JSON-like Python value; floats are the rationals they denote.
  \<^item> Instants (\<open>datetime\<close> with a time zone) are integers: microseconds since the epoch.
\<close>

text \<open>Keys are pairs; quantifiers over them stay as they are.\<close>

declare split_paired_All [simp del] split_paired_Ex [simp del]

section \<open>Strings\<close>

type_synonym ustr = "nat list"

definition U :: "string \<Rightarrow> ustr" where
  "U s = map (of_char :: char \<Rightarrow> nat) s"

lemma U_eq_iff [simp]: "U a = U b \<longleftrightarrow> a = b"
proof
  assume "U a = U b"
  then show "a = b"
    unfolding U_def by (rule map_injective) (auto intro: injI)
qed simp

lemma U_Nil [simp]: "U [] = []"
  by (simp add: U_def)

lemma U_eq_Nil [simp]: "U a = [] \<longleftrightarrow> a = []"
  by (simp add: U_def)

lemma Nil_eq_U [simp]: "[] = U a \<longleftrightarrow> a = []"
  by (auto simp: U_def)

section \<open>Exceptions and results\<close>

datatype exn_class =
    ExceptionC | CancelledErr
  | KeyErr | ValueErr | TypeErr | AttributeErr | RuntimeErr | TimeoutErr | PermissionErr
  | UnicodeErr | JsonDecodeErr | ValidationErr | UnsafeFileErr | SensitiveDataErr
  | InvalidSsoTokenErr | ConnectorUnavailableErr | GitLabConnectorErr | KnowledgeMcpErr
  | TaskCancelledErr | SsoTokenUnavailableErr | IntegrityErr | MultipleResultsErr | HttpxErr | OsErr | OverflowErr
  | HTTPException int

text \<open>
  The superclasses of each class, \<open>ExceptionC\<close> being \<open>Exception\<close>. \<open>CancelledErr\<close> is
  \<open>asyncio.CancelledError\<close>, a \<open>BaseException\<close> that no \<open>except Exception\<close> handles.
\<close>

fun supers :: "exn_class \<Rightarrow> exn_class list" where
  "supers ExceptionC = []"
| "supers CancelledErr = []"
| "supers UnicodeErr = [ValueErr, ExceptionC]"
| "supers JsonDecodeErr = [ValueErr, ExceptionC]"
| "supers ValidationErr = [ValueErr, ExceptionC]"
| "supers UnsafeFileErr = [ValueErr, ExceptionC]"
| "supers SensitiveDataErr = [ValueErr, ExceptionC]"
| "supers InvalidSsoTokenErr = [ValueErr, ExceptionC]"
| "supers ConnectorUnavailableErr = [RuntimeErr, ExceptionC]"
| "supers GitLabConnectorErr = [RuntimeErr, ExceptionC]"
| "supers KnowledgeMcpErr = [RuntimeErr, ExceptionC]"
| "supers TaskCancelledErr = [RuntimeErr, ExceptionC]"
| "supers SsoTokenUnavailableErr = [RuntimeErr, ExceptionC]"
| "supers _ = [ExceptionC]"

definition isa :: "exn_class \<Rightarrow> exn_class \<Rightarrow> bool" where
  "isa c d \<longleftrightarrow> c = d \<or> d \<in> set (supers c)"

datatype exn = Exn (exn_class: exn_class) (exn_msg: ustr)

definition caught :: "exn \<Rightarrow> exn_class list \<Rightarrow> bool" where
  "caught e cs \<longleftrightarrow> (\<exists>c \<in> set cs. isa (exn_class e) c)"

type_synonym 'a res = "exn + 'a"

definition bnd :: "'a res \<times> 's \<Rightarrow> ('a \<Rightarrow> 's \<Rightarrow> 'b res \<times> 's) \<Rightarrow> 'b res \<times> 's" where
  "bnd m k = (case m of (Inl e, s) \<Rightarrow> (Inl e, s) | (Inr x, s) \<Rightarrow> k x s)"

lemma bnd_simps [simp]:
  "bnd (Inl e, s) k = (Inl e, s)"
  "bnd (Inr x, s) k = k x s"
  by (simp_all add: bnd_def)

lemma bnd_keeps: "P (snd m) \<Longrightarrow> (\<And>x s. m = (Inr x, s) \<Longrightarrow> P s \<Longrightarrow> P (snd (k x s))) \<Longrightarrow> P (snd (bnd m k))"
  by (cases m; cases "fst m") auto

lemma bnd_Inr_iff:
  "bnd m k = (Inr y, s') \<longleftrightarrow> (\<exists>x s. m = (Inr x, s) \<and> k x s = (Inr y, s'))"
  by (cases m; cases "fst m") (auto simp: bnd_def)

lemma bnd_Inl_iff:
  "bnd m k = (Inl e, s') \<longleftrightarrow>
     m = (Inl e, s') \<or> (\<exists>x s. m = (Inr x, s) \<and> k x s = (Inl e, s'))"
  by (cases m; cases "fst m") (auto simp: bnd_def)

lemmas bnd_iff = bnd_Inr_iff bnd_Inl_iff

section \<open>Python values\<close>

text \<open>
  The values of \<open>float\<close>: the finite floats as the numbers they denote (the type also has the rationals that no
  float denotes), the zero with a sign, the infinities and \<open>NaN\<close>. \<open>==\<close> and \<open><\<close> do not tell the zeros apart and are
  false of \<open>NaN\<close>.
\<close>

datatype py_float = Rational rat | Minus_zero | Pos_inf | Neg_inf | NaN

fun float_place :: "py_float \<Rightarrow> (int \<times> rat) option" where
  "float_place (Rational x) = Some (0, x)"
| "float_place Minus_zero = Some (0, 0)"
| "float_place Pos_inf = Some (1, 0)"
| "float_place Neg_inf = Some (- 1, 0)"
| "float_place NaN = None"

definition float_eq :: "py_float \<Rightarrow> py_float \<Rightarrow> bool" where
  "float_eq a b \<longleftrightarrow> float_place a \<noteq> None \<and> float_place a = float_place b"

definition float_lt :: "py_float \<Rightarrow> py_float \<Rightarrow> bool" where
  "float_lt a b \<longleftrightarrow>
     (case (float_place a, float_place b) of
        (Some (i, x), Some (j, y)) \<Rightarrow> i < j \<or> i = j \<and> x < y
      | _ \<Rightarrow> False)"

text \<open>\<open>min\<close> and \<open>max\<close> of a list that is not empty: the first of the least and of the greatest, unless there is a \<open>NaN\<close>.\<close>

fun py_min :: "py_float list \<Rightarrow> py_float" where
  "py_min [] = NaN"
| "py_min (x # xs) = foldl (\<lambda>least v. if float_lt v least then v else least) x xs"

fun py_max :: "py_float list \<Rightarrow> py_float" where
  "py_max [] = NaN"
| "py_max (x # xs) = foldl (\<lambda>greatest v. if float_lt greatest v then v else greatest) x xs"

lemma float_lt_trans: "float_lt a b \<Longrightarrow> float_lt b c \<Longrightarrow> float_lt a c"
  by (auto simp: float_lt_def split: option.splits)

lemma float_lt_irrefl [simp]: "\<not> float_lt a a"
  by (auto simp: float_lt_def split: option.split)

lemma float_eqI: "a \<noteq> NaN \<Longrightarrow> b \<noteq> NaN \<Longrightarrow> \<not> float_lt a b \<Longrightarrow> \<not> float_lt b a \<Longrightarrow> float_eq a b"
  by (cases a; cases b) (auto simp: float_lt_def float_eq_def)

text \<open>What such a loop ends with is a member that no member precedes.\<close>

lemma foldl_extreme:
  assumes trans: "\<And>a b c. lt a b \<Longrightarrow> lt b c \<Longrightarrow> lt a c" and irrefl: "\<And>a. \<not> lt a a"
  defines "tip \<equiv> foldl (\<lambda>m v. if lt v m then v else m)"
  shows "(tip x xs = x \<or> lt (tip x xs) x) \<and> tip x xs \<in> insert x (set xs) \<and>
    (\<forall>v \<in> insert x (set xs). \<not> lt v (tip x xs))"
proof (induction xs arbitrary: x)
  case Nil
  then show ?case by (simp add: tip_def irrefl)
next
  case (Cons y ys)
  show ?case
  proof (cases "lt y x")
    case True
    have step: "tip x (y # ys) = tip y ys" using True by (simp add: tip_def)
    have "lt (tip y ys) x" using Cons [of y] True trans by metis
    moreover from this have "\<not> lt x (tip y ys)" using trans irrefl by blast
    ultimately show ?thesis using Cons [of y] unfolding step by simp
  next
    case False
    have step: "tip x (y # ys) = tip x ys" using False by (simp add: tip_def)
    have "\<not> lt y (tip x ys)" using Cons [of x] False trans by metis
    then show ?thesis using Cons [of x] unfolding step by auto
  qed
qed

lemma py_min_least: "xs \<noteq> [] \<Longrightarrow> py_min xs \<in> set xs \<and> (\<forall>v \<in> set xs. \<not> float_lt v (py_min xs))"
  using foldl_extreme [where lt = float_lt, OF float_lt_trans float_lt_irrefl] by (cases xs) auto

lemma py_max_greatest: "xs \<noteq> [] \<Longrightarrow> py_max xs \<in> set xs \<and> (\<forall>v \<in> set xs. \<not> float_lt (py_max xs) v)"
  using foldl_extreme [where lt = "\<lambda>a b. float_lt b a"] float_lt_trans by (cases xs) auto

text \<open>Without \<open>NaN\<close> only the members matter.\<close>

lemma py_extremes_eq:
  assumes "set xs = set ys" "xs \<noteq> []" "NaN \<notin> set xs"
  shows "float_eq (py_min xs) (py_min ys)" "float_eq (py_max xs) (py_max ys)"
proof -
  have "ys \<noteq> []" using assms(1,2) by auto
  with py_min_least [of xs] py_min_least [of ys] py_max_greatest [of xs] py_max_greatest [of ys] assms
  show "float_eq (py_min xs) (py_min ys)" "float_eq (py_max xs) (py_max ys)"
    by (intro float_eqI; metis)+
qed

datatype json =
    JNull
  | JBool bool
  | JInt int
  | JFloat py_float
  | JStr ustr
  | JList "json list"
  | JObj "(ustr \<times> json) list"

type_synonym jdict = "(ustr \<times> json) list"

type_synonym instant = int

definition seconds :: "int \<Rightarrow> int" where
  "seconds n = n * 1000000"

section \<open>Queries\<close>

text \<open>
  \<open>result.scalar_one_or_none()\<close> of the rows a \<open>SELECT ... WHERE\<close> returned: none, the only one, or
  \<open>MultipleResultsFound\<close>.
\<close>

fun scalar_one_or_none :: "'r list \<Rightarrow> 'r option res" where
  "scalar_one_or_none [] = Inr None"
| "scalar_one_or_none [r] = Inr (Some r)"
| "scalar_one_or_none _ = Inl (Exn MultipleResultsErr [])"

text \<open>The object-relational mapper writes a changed row back by its primary key.\<close>

definition update_row :: "('r \<Rightarrow> 'k) \<Rightarrow> 'r \<Rightarrow> 'r list \<Rightarrow> 'r list" where
  "update_row key r rows = map (\<lambda>x. if key x = key r then r else x) rows"

lemma update_row_keys [simp]: "map key (update_row key r rows) = map key rows"
  by (induction rows) (auto simp: update_row_def)

lemma length_update_row [simp]: "length (update_row key r rows) = length rows"
  by (simp add: update_row_def)

lemma set_update_row:
  "set (update_row key r rows) =
     {x \<in> set rows. key x \<noteq> key r} \<union> (if key r \<in> key ` set rows then {r} else {})"
  by (auto simp: update_row_def image_iff)

lemma distinct_key_unique:
  assumes "distinct (map key rows)" "x \<in> set rows" "y \<in> set rows" "key x = key y"
  shows "x = y"
  using assms by (auto simp: distinct_map inj_on_def)

lemma filter_distinct_key:
  assumes "distinct (map key rows)" "\<forall>x \<in> set rows. P x \<longrightarrow> key x = k"
  shows "filter P rows = [] \<or> (\<exists>r \<in> set rows. P r \<and> filter P rows = [r])"
  using assms
proof (induction rows)
  case (Cons a rows)
  show ?case
  proof (cases "P a")
    case True
    with Cons.prems have "\<forall>x \<in> set rows. \<not> P x" by (metis image_eqI list.simps(9) distinct.simps(2) list.set_intros(1,2) set_map)
    then have "filter P rows = []" by (simp add: filter_empty_conv)
    with True show ?thesis by simp
  next
    case False
    with Cons show ?thesis by auto
  qed
qed simp

lemma find_distinct_key:
  assumes "distinct (map key rows)" "r \<in> set rows" "P r" "\<forall>x \<in> set rows. P x \<longrightarrow> key x = key r"
  shows "find P rows = Some r"
proof (cases "find P rows")
  case None
  with assms(2,3) show ?thesis by (simp add: find_None_iff)
next
  case (Some x)
  then have "x \<in> set rows" "P x" by (auto simp: find_Some_iff)
  with assms distinct_key_unique [OF assms(1)] Some show ?thesis by blast
qed

lemma find_cong_set: "(\<And>x. x \<in> set xs \<Longrightarrow> P x = Q x) \<Longrightarrow> find P xs = find Q xs"
  by (rule find_cong) auto

lemma find_SomeD: "find P xs = Some x \<Longrightarrow> x \<in> set xs \<and> P x"
  by (auto simp: find_Some_iff)

lemma filter_scalar:
  assumes "distinct (map key rows)" "\<forall>x \<in> set rows. P x \<longrightarrow> key x = k"
  shows "scalar_one_or_none (filter P rows) = Inr (find P rows)"
  using filter_distinct_key [OF assms]
proof
  assume "filter P rows = []"
  then have "find P rows = None" by (simp add: filter_empty_conv find_None_iff)
  with \<open>filter P rows = []\<close> show ?thesis by simp
next
  assume "\<exists>r \<in> set rows. P r \<and> filter P rows = [r]"
  then obtain r where r: "r \<in> set rows" "P r" "filter P rows = [r]" by blast
  then have "find P rows = Some r"
    using assms by (intro find_distinct_key) auto
  with r show ?thesis by simp
qed

lemma find_update_row:
  assumes "distinct (map key rows)" "old \<in> set rows" "key new = key old"
    and "\<forall>x \<in> set rows. P x \<longrightarrow> key x = k" "P new \<longleftrightarrow> P old"
  shows "find P (update_row key new rows) = (if P old then Some new else find P rows)"
proof (cases "P old")
  case True
  have "new \<in> set (update_row key new rows)"
    using assms(2,3) by (auto simp: set_update_row image_iff)
  then have "find P (update_row key new rows) = Some new"
    using assms True by (intro find_distinct_key [where key = key]) (auto simp: set_update_row)
  with True show ?thesis by simp
next
  case False
  show ?thesis
  proof (cases "find P rows")
    case None
    then have "\<forall>x \<in> set (update_row key new rows). \<not> P x"
      using False assms(5) by (auto simp: find_None_iff set_update_row)
    then have "find P (update_row key new rows) = None" by (simp add: find_None_iff)
    with False None show ?thesis by simp
  next
    case (Some x)
    then have x: "x \<in> set rows" "P x" by (auto simp: find_Some_iff)
    with False have "x \<noteq> old" by auto
    with x assms(1,2) have "key x \<noteq> key new"
      using distinct_key_unique [OF assms(1)] assms(3) by auto
    with x assms False Some show ?thesis
      by (auto simp: set_update_row intro!: find_distinct_key [where key = key])
  qed
qed

section \<open>Dictionaries\<close>

lemma map_of_AList_update [simp]: "map_of (AList.update k v d) = (map_of d)(k \<mapsto> v)"
  by (rule AList.update_conv')

lemma map_of_AList_delete [simp]: "map_of (AList.delete k d) = (map_of d)(k := None)"
  by (rule AList.delete_conv')

lemma set_AList_update: "set (AList.update k v d) \<subseteq> insert (k, v) (set d)"
  by (induction d) auto

end
