(* ===== verification/Identity.thy ===== *)
theory Identity
  imports OMA_Prelude
begin

text \<open>
  The request context (\<open>app/schemas/assistant.py\<close>), the permission check
  (\<open>app/services/permissions.py\<close>) and the audit trail (\<open>app/services/audit.py\<close> with
  \<open>SqlAlchemyAuditRepository\<close>). Every service of the application takes the caller's
  context as an argument; nothing the model writes can change it.
\<close>

section \<open>Request context\<close>

record request_context =
  rc_request_id :: ustr
  rc_thread_id :: ustr
  rc_tenant_id :: ustr
  rc_operator_id :: ustr
  rc_employee_id :: "ustr option"
  rc_department_id :: "ustr option"
  rc_role_ids :: "ustr list"
  rc_permission_scopes :: "ustr set"
  rc_locale :: ustr
  rc_timezone :: ustr
  rc_trace_id :: ustr

text \<open>
  The constructor with every optional field at its default; the two generated identifiers
  (\<open>uuid4\<close>) are arguments.
\<close>

definition RequestContext :: "ustr \<Rightarrow> ustr \<Rightarrow> ustr \<Rightarrow> ustr \<Rightarrow> ustr \<Rightarrow> request_context" where
  "RequestContext request_id trace_id thread_id tenant_id operator_id =
     \<lparr>rc_request_id = request_id, rc_thread_id = thread_id, rc_tenant_id = tenant_id,
      rc_operator_id = operator_id, rc_employee_id = None, rc_department_id = None,
      rc_role_ids = [], rc_permission_scopes = {}, rc_locale = U ''zh-CN'',
      rc_timezone = U ''Asia/Shanghai'', rc_trace_id = trace_id\<rparr>"

section \<open>Permissions\<close>

definition permission_require :: "request_context \<Rightarrow> ustr \<Rightarrow> unit res" where
  "permission_require context scope =
     (if scope \<notin> rc_permission_scopes context
      then Inl (Exn PermissionErr (U ''missing required permission: '' @ scope))
      else Inr ())"

lemma permission_require_Inr [simp]:
  "permission_require c s = Inr u \<longleftrightarrow> s \<in> rc_permission_scopes c"
  by (cases u) (simp add: permission_require_def)

section \<open>Audit\<close>

record audit_record =
  ar_action :: ustr
  ar_tenant_id :: ustr
  ar_operator_id :: ustr
  ar_target_id :: ustr

text \<open>A row of \<open>audit_logs\<close>, written by \<open>SqlAlchemyAuditRepository.record\<close>.\<close>

record audit_log =
  al_action :: ustr
  al_tenant_id :: ustr
  al_created_by :: ustr
  al_target_id :: ustr
  al_trace_id :: ustr

text \<open>
  \<open>AuditService\<close>: the in-process list, and the table when a repository is configured
  (\<open>None\<close> when it is not).
\<close>

record audit_service =
  au_records :: "audit_record list"
  au_repository :: "audit_log list option"

definition audit_repository_record ::
  "ustr \<Rightarrow> request_context \<Rightarrow> ustr \<Rightarrow> audit_log list \<Rightarrow> audit_log list" where
  "audit_repository_record action context target_id logs =
     logs @ [\<lparr>al_action = action, al_tenant_id = rc_tenant_id context,
              al_created_by = rc_operator_id context, al_target_id = target_id,
              al_trace_id = rc_trace_id context\<rparr>]"

definition audit_record_event ::
  "ustr \<Rightarrow> request_context \<Rightarrow> ustr \<Rightarrow> audit_service \<Rightarrow> audit_service" where
  "audit_record_event action context target_id a =
     (let a1 = a\<lparr>au_records := au_records a @
                   [\<lparr>ar_action = action, ar_tenant_id = rc_tenant_id context,
                     ar_operator_id = rc_operator_id context, ar_target_id = target_id\<rparr>]\<rparr>
      in case au_repository a1 of
           None \<Rightarrow> a1
         | Some logs \<Rightarrow>
             a1\<lparr>au_repository := Some (audit_repository_record action context target_id logs)\<rparr>)"

lemma audit_records_append:
  "au_records (audit_record_event act c t a) = au_records a @
     [\<lparr>ar_action = act, ar_tenant_id = rc_tenant_id c, ar_operator_id = rc_operator_id c,
       ar_target_id = t\<rparr>]"
  by (simp add: audit_record_event_def Let_def split: option.split)

lemma audit_repository_append:
  "au_repository (audit_record_event act c t a) =
     map_option (audit_repository_record act c t) (au_repository a)"
  by (simp add: audit_record_event_def Let_def split: option.split)

end
