(* ===== verification/Approvals.thy ===== *)
theory Approvals
  imports Identity
begin

text \<open>
  Human approvals: \<open>ApprovalService\<close> with its in-process repository (\<open>app/services/approvals.py\<close>) and
  \<open>SqlAlchemyApprovalRepository\<close> over the table \<open>approval_tasks\<close> (\<open>app/repositories/persistence.py\<close>).

  The locale \<open>approval_store\<close> is what the service relies on. Both repositories meet it, so a request
  enables at most one decision, whatever the order of the calls. \<open>sql_decide\<close> reads the pending row and
  commits the decision; the two halves are separate definitions because other transactions can run in
  between.
\<close>

section \<open>Records and repositories\<close>

datatype approval_status = Pending | Approved | Rejected

record approval_record =
  ap_target_type :: ustr
  ap_target_id :: ustr
  ap_tenant_id :: ustr
  ap_status :: approval_status
  ap_comment :: "ustr option"

type_synonym approval_key = "ustr \<times> ustr \<times> ustr"

definition pending_record :: "ustr \<Rightarrow> ustr \<Rightarrow> request_context \<Rightarrow> approval_record" where
  "pending_record ty i c =
     \<lparr>ap_target_type = ty, ap_target_id = i, ap_tenant_id = rc_tenant_id c, ap_status = Pending,
      ap_comment = None\<rparr>"

definition decided :: "bool \<Rightarrow> approval_status" where
  "decided approved = (if approved then Approved else Rejected)"

text \<open>The repository protocol; \<open>aq_create_pending\<close> also gets the identifier a new row would draw.\<close>

record 's approval_repo =
  aq_create_pending :: "ustr \<Rightarrow> ustr \<Rightarrow> ustr \<Rightarrow> request_context \<Rightarrow> 's \<Rightarrow> approval_record res \<times> 's"
  aq_get_pending :: "ustr \<Rightarrow> ustr \<Rightarrow> request_context \<Rightarrow> 's \<Rightarrow> approval_record option res \<times> 's"
  aq_decide :: "ustr \<Rightarrow> ustr \<Rightarrow> bool \<Rightarrow> ustr option \<Rightarrow> request_context \<Rightarrow> 's \<Rightarrow> approval_record res \<times> 's"

subsection \<open>In process\<close>

type_synonym mem_approvals = "(approval_key \<times> approval_record) list"

definition mem_create_pending ::
  "ustr \<Rightarrow> ustr \<Rightarrow> ustr \<Rightarrow> request_context \<Rightarrow> mem_approvals \<Rightarrow> approval_record res \<times> mem_approvals" where
  "mem_create_pending uuid ty i c s =
     (let record = pending_record ty i c
      in (Inr record, AList.update (rc_tenant_id c, ty, i) record s))"

definition mem_get_pending ::
  "ustr \<Rightarrow> ustr \<Rightarrow> request_context \<Rightarrow> mem_approvals \<Rightarrow> approval_record option res \<times> mem_approvals" where
  "mem_get_pending ty i c s =
     (case map_of s (rc_tenant_id c, ty, i) of
        None \<Rightarrow> (Inr None, s)
      | Some record \<Rightarrow> (Inr (if ap_status record = Pending then Some record else None), s))"

definition mem_decide ::
  "ustr \<Rightarrow> ustr \<Rightarrow> bool \<Rightarrow> ustr option \<Rightarrow> request_context \<Rightarrow> mem_approvals \<Rightarrow>
   approval_record res \<times> mem_approvals" where
  "mem_decide ty i approved comment c s =
     bnd (mem_get_pending ty i c s)
       (\<lambda>current s. case current of
          None \<Rightarrow> (Inl (Exn KeyErr i), s)
        | Some _ \<Rightarrow>
            (let record = \<lparr>ap_target_type = ty, ap_target_id = i, ap_tenant_id = rc_tenant_id c,
                           ap_status = decided approved, ap_comment = comment\<rparr>
             in (Inr record, AList.update (rc_tenant_id c, ty, i) record s)))"

definition mem_approval_repo :: "mem_approvals approval_repo" where
  "mem_approval_repo =
     \<lparr>aq_create_pending = mem_create_pending, aq_get_pending = mem_get_pending, aq_decide = mem_decide\<rparr>"

subsection \<open>In the database\<close>

record approval_task =
  at_id :: ustr
  at_tenant_id :: ustr
  at_created_by :: ustr
  at_target_type :: ustr
  at_target_id :: ustr
  at_status :: approval_status
  at_comment :: "ustr option"
  at_version :: int

definition to_record :: "approval_task \<Rightarrow> approval_record" where
  "to_record r =
     \<lparr>ap_target_type = at_target_type r, ap_target_id = at_target_id r, ap_tenant_id = at_tenant_id r,
      ap_status = at_status r, ap_comment = at_comment r\<rparr>"

text \<open>The query all three methods run.\<close>

definition pending_row :: "approval_key \<Rightarrow> approval_task \<Rightarrow> bool" where
  "pending_row k r \<longleftrightarrow>
     (at_tenant_id r, at_target_type r, at_target_id r) = k \<and> at_status r = Pending"

definition select_pending :: "approval_key \<Rightarrow> approval_task list \<Rightarrow> approval_task option res" where
  "select_pending k rows = scalar_one_or_none (filter (pending_row k) rows)"

definition sql_create_pending ::
  "ustr \<Rightarrow> ustr \<Rightarrow> ustr \<Rightarrow> request_context \<Rightarrow> approval_task list \<Rightarrow>
   approval_record res \<times> approval_task list" where
  "sql_create_pending uuid ty i c rows =
     (case select_pending (rc_tenant_id c, ty, i) rows of
        Inl e \<Rightarrow> (Inl e, rows)
      | Inr (Some record) \<Rightarrow> (Inr (to_record record), rows)
      | Inr None \<Rightarrow>
          if uuid \<in> at_id ` set rows then (Inl (Exn IntegrityErr []), rows)
          else
            (let record = \<lparr>at_id = uuid, at_tenant_id = rc_tenant_id c, at_created_by = rc_operator_id c,
                           at_target_type = ty, at_target_id = i, at_status = Pending,
                           at_comment = None, at_version = 1\<rparr>
             in (Inr (to_record record), rows @ [record])))"

definition sql_get_pending ::
  "ustr \<Rightarrow> ustr \<Rightarrow> request_context \<Rightarrow> approval_task list \<Rightarrow>
   approval_record option res \<times> approval_task list" where
  "sql_get_pending ty i c rows =
     (map_sum id (map_option to_record) (select_pending (rc_tenant_id c, ty, i) rows), rows)"

text \<open>
  \<open>decide\<close>: the first half is the query, the second sets the fields and commits, which updates the row
  with that primary key (no column is declared as a version check).
\<close>

definition sql_decide_commit ::
  "bool \<Rightarrow> ustr option \<Rightarrow> approval_task \<Rightarrow> approval_task list \<Rightarrow>
   approval_record res \<times> approval_task list" where
  "sql_decide_commit approved comment record rows =
     (let record = record\<lparr>at_status := decided approved, at_comment := comment,
                          at_version := at_version record + 1\<rparr>
      in (Inr (to_record record), update_row at_id record rows))"

definition sql_decide ::
  "ustr \<Rightarrow> ustr \<Rightarrow> bool \<Rightarrow> ustr option \<Rightarrow> request_context \<Rightarrow> approval_task list \<Rightarrow>
   approval_record res \<times> approval_task list" where
  "sql_decide ty i approved comment c rows =
     (case select_pending (rc_tenant_id c, ty, i) rows of
        Inl e \<Rightarrow> (Inl e, rows)
      | Inr None \<Rightarrow> (Inl (Exn KeyErr i), rows)
      | Inr (Some record) \<Rightarrow> sql_decide_commit approved comment record rows)"

definition sql_approval_repo :: "approval_task list approval_repo" where
  "sql_approval_repo =
     \<lparr>aq_create_pending = sql_create_pending, aq_get_pending = sql_get_pending, aq_decide = sql_decide\<rparr>"

section \<open>The service\<close>

definition approval_request ::
  "'s approval_repo \<Rightarrow> ustr \<Rightarrow> ustr \<Rightarrow> ustr \<Rightarrow> request_context \<Rightarrow> 's \<Rightarrow> approval_record res \<times> 's" where
  "approval_request A uuid ty i c s = aq_create_pending A uuid ty i c s"

definition require_pending ::
  "'s approval_repo \<Rightarrow> ustr \<Rightarrow> ustr \<Rightarrow> request_context \<Rightarrow> 's \<Rightarrow> approval_record res \<times> 's" where
  "require_pending A ty i c s =
     bnd (aq_get_pending A ty i c s)
       (\<lambda>record s. case record of None \<Rightarrow> (Inl (Exn KeyErr i), s) | Some r \<Rightarrow> (Inr r, s))"

definition approval_decide ::
  "'s approval_repo \<Rightarrow> ustr \<Rightarrow> ustr \<Rightarrow> bool \<Rightarrow> ustr option \<Rightarrow> request_context \<Rightarrow> 's \<Rightarrow>
   approval_record res \<times> 's" where
  "approval_decide A ty i approved comment c s = aq_decide A ty i approved comment c s"

section \<open>The contract\<close>

locale approval_store =
  fixes A :: "'s approval_repo"
    and pend :: "'s \<Rightarrow> approval_key \<Rightarrow> bool"
    and inv :: "'s \<Rightarrow> bool"
    and fresh :: "'s \<Rightarrow> ustr \<Rightarrow> bool"
  assumes create: "inv s \<Longrightarrow> fresh s u \<Longrightarrow>
      \<exists>s'. aq_create_pending A u ty i c s = (Inr (pending_record ty i c), s') \<and> inv s' \<and>
        (\<forall>k. pend s' k \<longleftrightarrow> k = (rc_tenant_id c, ty, i) \<or> pend s k) \<and>
        (\<forall>v. v \<noteq> u \<longrightarrow> fresh s v \<longrightarrow> fresh s' v)"
    and get: "inv s \<Longrightarrow>
      aq_get_pending A ty i c s =
        (Inr (if pend s (rc_tenant_id c, ty, i) then Some (pending_record ty i c) else None), s)"
    and decide_missing: "inv s \<Longrightarrow> \<not> pend s (rc_tenant_id c, ty, i) \<Longrightarrow>
      aq_decide A ty i ok comment c s = (Inl (Exn KeyErr i), s)"
    and decide: "inv s \<Longrightarrow> pend s (rc_tenant_id c, ty, i) \<Longrightarrow>
      \<exists>s'. aq_decide A ty i ok comment c s =
          (Inr ((pending_record ty i c)\<lparr>ap_status := decided ok, ap_comment := comment\<rparr>), s') \<and>
        inv s' \<and> (\<forall>k. pend s' k \<longleftrightarrow> pend s k \<and> k \<noteq> (rc_tenant_id c, ty, i)) \<and>
        (\<forall>v. fresh s v \<longrightarrow> fresh s' v)"

text \<open>Any sequence of calls, and how many decisions about \<open>k\<close> it makes.\<close>

datatype approval_call =
    Request ustr ustr ustr request_context
  | Decide ustr ustr bool "ustr option" request_context

fun call_key :: "approval_call \<Rightarrow> approval_key" where
  "call_key (Request u ty i c) = (rc_tenant_id c, ty, i)"
| "call_key (Decide ty i ok comment c) = (rc_tenant_id c, ty, i)"

fun is_request :: "approval_call \<Rightarrow> bool" where
  "is_request (Request u ty i c) = True"
| "is_request (Decide ty i ok comment c) = False"

fun run_call :: "'s approval_repo \<Rightarrow> approval_call \<Rightarrow> 's \<Rightarrow> approval_record res \<times> 's" where
  "run_call A (Request u ty i c) s = approval_request A u ty i c s"
| "run_call A (Decide ty i ok comment c) s = approval_decide A ty i ok comment c s"

fun run_calls :: "'s approval_repo \<Rightarrow> approval_call list \<Rightarrow> 's \<Rightarrow> approval_record res list \<times> 's" where
  "run_calls A [] s = ([], s)"
| "run_calls A (x # xs) s =
     (case run_call A x s of (r, s) \<Rightarrow> (case run_calls A xs s of (rs, s) \<Rightarrow> (r # rs, s)))"

fun request_ids :: "approval_call list \<Rightarrow> ustr list" where
  "request_ids [] = []"
| "request_ids (Request u ty i c # xs) = u # request_ids xs"
| "request_ids (Decide ty i ok comment c # xs) = request_ids xs"

definition requests :: "approval_key \<Rightarrow> approval_call list \<Rightarrow> nat" where
  "requests k xs = length (filter (\<lambda>x. is_request x \<and> call_key x = k) xs)"

definition decisions :: "approval_key \<Rightarrow> approval_call list \<Rightarrow> approval_record res list \<Rightarrow> nat" where
  "decisions k xs rs =
     length (filter (\<lambda>(x, r). \<not> is_request x \<and> call_key x = k \<and> \<not> isl r) (zip xs rs))"

context approval_store
begin

lemma request_pends:
  assumes "inv s" "fresh s u"
  shows "fst (require_pending A ty i c (snd (approval_request A u ty i c s))) = Inr (pending_record ty i c)"
proof -
  from create [OF assms, of ty i c] obtain s' where
    "aq_create_pending A u ty i c s = (Inr (pending_record ty i c), s')" "inv s'"
    "pend s' (rc_tenant_id c, ty, i)"
    by blast
  with get [OF this(2), of ty i c] show ?thesis
    by (simp add: require_pending_def approval_request_def)
qed

lemma decide_consumes:
  assumes "inv s" "approval_decide A ty i ok comment c s = (Inr r, s')"
  shows "require_pending A ty i c s' = (Inl (Exn KeyErr i), s')"
    and "approval_decide A ty i ok' comment' c s' = (Inl (Exn KeyErr i), s')"
proof -
  have p: "pend s (rc_tenant_id c, ty, i)"
    using decide_missing [OF assms(1), of c ty i ok comment] assms(2)
    by (cases "pend s (rc_tenant_id c, ty, i)") (simp_all add: approval_decide_def)
  from decide [OF assms(1) p, of ok comment] assms(2) have s': "inv s'" "\<not> pend s' (rc_tenant_id c, ty, i)"
    by (auto simp: approval_decide_def)
  show "require_pending A ty i c s' = (Inl (Exn KeyErr i), s')"
    using get [OF s'(1), of ty i c] s'(2) by (simp add: require_pending_def)
  show "approval_decide A ty i ok' comment' c s' = (Inl (Exn KeyErr i), s')"
    using decide_missing [OF s'] by (simp add: approval_decide_def)
qed

lemma decisions_bounded:
  assumes "inv s" "distinct (request_ids xs)" "\<forall>u \<in> set (request_ids xs). fresh s u"
    and "run_calls A xs s = (rs, s')"
  shows "decisions k xs rs + of_bool (pend s' k) \<le> requests k xs + of_bool (pend s k)"
  using assms
proof (induction xs arbitrary: s rs)
  case Nil
  then show ?case by (simp add: decisions_def requests_def)
next
  case (Cons x xs)
  obtain r s1 where x: "run_call A x s = (r, s1)" by fastforce
  obtain rs1 where xs: "run_calls A xs s1 = (rs1, s')" "rs = r # rs1"
    using Cons.prems(4) x by (auto split: prod.splits)
  have tail: "distinct (request_ids xs)" "\<forall>u \<in> set (request_ids xs). fresh s u"
    using Cons.prems(2,3) by (cases x; simp)+
  show ?case
  proof (cases x)
    case (Request u ty i c)
    from create [OF Cons.prems(1), of u ty i c] x Cons.prems(3)
    have s1: "inv s1" "\<forall>k. pend s1 k \<longleftrightarrow> k = (rc_tenant_id c, ty, i) \<or> pend s k"
      "\<forall>v. v \<noteq> u \<longrightarrow> fresh s v \<longrightarrow> fresh s1 v"
      by (auto simp: Request approval_request_def)
    have "\<forall>v \<in> set (request_ids xs). fresh s1 v"
      using s1(3) tail(2) Cons.prems(2) by (auto simp: Request)
    from Cons.IH [OF s1(1) tail(1) this xs(1)] show ?thesis
      by (cases "pend s k") (auto simp: xs(2) Request decisions_def requests_def s1(2))
  next
    case (Decide ty i ok comment c)
    show ?thesis
    proof (cases "pend s (rc_tenant_id c, ty, i)")
      case True
      from decide [OF Cons.prems(1) True, of ok comment] x
      have s1: "inv s1" "\<forall>k. pend s1 k \<longleftrightarrow> pend s k \<and> k \<noteq> (rc_tenant_id c, ty, i)"
        "\<forall>v. fresh s v \<longrightarrow> fresh s1 v" "\<not> isl r"
        by (auto simp: Decide approval_decide_def)
      from s1(3) tail(2) have "\<forall>v \<in> set (request_ids xs). fresh s1 v" by blast
      from Cons.IH [OF s1(1) tail(1) this xs(1)] True show ?thesis
        by (cases "k = (rc_tenant_id c, ty, i)")
           (simp_all add: xs(2) Decide decisions_def requests_def s1(2,4))
    next
      case False
      from decide_missing [OF Cons.prems(1) False] x have r: "isl r" "s1 = s"
        by (auto simp: Decide approval_decide_def)
      from Cons.IH [OF Cons.prems(1) tail xs(1) [unfolded r(2)]] r(1) show ?thesis
        by (simp add: xs(2) Decide decisions_def requests_def)
    qed
  qed
qed

end

section \<open>Both repositories meet it\<close>

definition mem_pend :: "mem_approvals \<Rightarrow> approval_key \<Rightarrow> bool" where
  "mem_pend s k = (case map_of s k of None \<Rightarrow> False | Some r \<Rightarrow> ap_status r = Pending)"

text \<open>A stored record describes its own key, and a pending one has no comment.\<close>

definition mem_approvals_wf :: "mem_approvals \<Rightarrow> bool" where
  "mem_approvals_wf s \<longleftrightarrow>
     (\<forall>k r. map_of s k = Some r \<longrightarrow>
        (ap_tenant_id r, ap_target_type r, ap_target_id r) = k \<and>
        (ap_status r = Pending \<longrightarrow> ap_comment r = None))"

lemma decided_not_pending [simp]: "decided b \<noteq> Pending"
  by (simp add: decided_def)

lemma mem_pend_update:
  "mem_pend (AList.update k r s) k' = (if k' = k then ap_status r = Pending else mem_pend s k')"
  by (simp add: mem_pend_def)

lemma mem_get_pending_eq:
  assumes "mem_approvals_wf s"
  shows "mem_get_pending ty i c s =
    (Inr (if mem_pend s (rc_tenant_id c, ty, i) then Some (pending_record ty i c) else None), s)"
proof (cases "map_of s (rc_tenant_id c, ty, i)")
  case (Some r)
  with assms have "(ap_tenant_id r, ap_target_type r, ap_target_id r) = (rc_tenant_id c, ty, i)"
    "ap_status r = Pending \<longrightarrow> ap_comment r = None"
    unfolding mem_approvals_wf_def by blast+
  with Some show ?thesis
    by (cases r) (simp add: mem_get_pending_def mem_pend_def pending_record_def)
qed (simp add: mem_get_pending_def mem_pend_def)

lemma mem_approvals_wf_update:
  assumes "mem_approvals_wf s" "(ap_tenant_id r, ap_target_type r, ap_target_id r) = k"
    and "ap_status r = Pending \<longrightarrow> ap_comment r = None"
  shows "mem_approvals_wf (AList.update k r s)"
  using assms unfolding mem_approvals_wf_def by (metis fun_upd_apply map_of_AList_update option.inject)

interpretation mem_approval: approval_store mem_approval_repo mem_pend mem_approvals_wf "\<lambda>s u. True"
proof (unfold_locales, goal_cases)
  case (1 s u ty i c)
  then show ?case
    by (auto simp: mem_approval_repo_def mem_create_pending_def Let_def mem_pend_update
        pending_record_def intro!: mem_approvals_wf_update)
next
  case (2 s ty i c)
  then show ?case by (simp add: mem_approval_repo_def mem_get_pending_eq)
next
  case (3 s c ty i ok comment)
  then show ?case by (simp add: mem_approval_repo_def mem_decide_def mem_get_pending_eq)
next
  case (4 s c ty i ok comment)
  then show ?case
    by (auto simp: mem_approval_repo_def mem_decide_def mem_get_pending_eq Let_def mem_pend_update
        pending_record_def intro!: mem_approvals_wf_update)
qed

definition sql_pend :: "approval_task list \<Rightarrow> approval_key \<Rightarrow> bool" where
  "sql_pend rows k \<longleftrightarrow> (\<exists>r \<in> set rows. pending_row k r)"

definition sql_approvals_wf :: "approval_task list \<Rightarrow> bool" where
  "sql_approvals_wf rows \<longleftrightarrow>
     distinct (map at_id rows) \<and>
     (\<forall>r \<in> set rows. \<forall>r' \<in> set rows. \<forall>k. pending_row k r \<longrightarrow> pending_row k r' \<longrightarrow> r = r') \<and>
     (\<forall>r \<in> set rows. at_status r = Pending \<longrightarrow> at_comment r = None)"

lemma to_record_pending:
  assumes "sql_approvals_wf rows" "r \<in> set rows" "pending_row (rc_tenant_id c, ty, i) r"
  shows "to_record r = pending_record ty i c"
  using assms by (auto simp: sql_approvals_wf_def pending_row_def to_record_def pending_record_def)

lemma select_pending_cases:
  assumes "sql_approvals_wf rows"
  obtains (none) "\<not> sql_pend rows k" "select_pending k rows = Inr None"
  | (some) r where "r \<in> set rows" "pending_row k r" "sql_pend rows k"
      "select_pending k rows = Inr (Some r)"
proof (cases "sql_pend rows k")
  case False
  then have "filter (pending_row k) rows = []"
    by (auto simp: sql_pend_def filter_empty_conv)
  with False none show ?thesis by (simp add: select_pending_def)
next
  case True
  then obtain r where r: "r \<in> set rows" "pending_row k r" by (auto simp: sql_pend_def)
  have "\<forall>x \<in> set rows. pending_row k x \<longrightarrow> at_id x = at_id r"
    using assms r unfolding sql_approvals_wf_def by blast
  moreover have "distinct (map at_id rows)" using assms by (simp add: sql_approvals_wf_def)
  ultimately have "select_pending k rows = Inr (find (pending_row k) rows)"
    and "find (pending_row k) rows = Some r"
    unfolding select_pending_def
    using filter_scalar [of at_id rows "pending_row k"] find_distinct_key [of at_id rows r] r by blast+
  with r True some show ?thesis by simp
qed

lemma sql_create_pending_eq:
  assumes "sql_approvals_wf rows" "uuid \<notin> at_id ` set rows"
  shows "\<exists>rows'. sql_create_pending uuid ty i c rows = (Inr (pending_record ty i c), rows') \<and>
    sql_approvals_wf rows' \<and> (\<forall>k. sql_pend rows' k \<longleftrightarrow> k = (rc_tenant_id c, ty, i) \<or> sql_pend rows k) \<and>
    at_id ` set rows' \<subseteq> insert uuid (at_id ` set rows)"
  using assms(1)
proof (cases rule: select_pending_cases [where k = "(rc_tenant_id c, ty, i)"])
  case none
  define row where "row =
     \<lparr>at_id = uuid, at_tenant_id = rc_tenant_id c, at_created_by = rc_operator_id c,
      at_target_type = ty, at_target_id = i, at_status = Pending, at_comment = None, at_version = 1\<rparr>"
  have "sql_create_pending uuid ty i c rows = (Inr (to_record row), rows @ [row])"
    using none assms(2) by (simp add: sql_create_pending_def row_def Let_def)
  moreover have "to_record row = pending_record ty i c"
    by (simp add: row_def to_record_def pending_record_def)
  moreover have p: "pending_row k row \<longleftrightarrow> k = (rc_tenant_id c, ty, i)" for k
    by (auto simp: pending_row_def row_def)
  moreover have "sql_approvals_wf (rows @ [row])"
    unfolding sql_approvals_wf_def
  proof (intro conjI ballI allI impI)
    show "distinct (map at_id (rows @ [row]))"
      using assms by (simp add: sql_approvals_wf_def row_def)
    show "at_comment r = None" if "r \<in> set (rows @ [row])" "at_status r = Pending" for r
      using that assms(1) by (auto simp: sql_approvals_wf_def row_def)
    show "r = r'" if "r \<in> set (rows @ [row])" "r' \<in> set (rows @ [row])" "pending_row k r" "pending_row k r'"
      for r r' k
    proof -
      have "\<not> pending_row k x" if "x \<in> set rows" "pending_row k row" for x
        using that none(1) p [of k] unfolding sql_pend_def by blast
      moreover have "r = row \<or> r \<in> set rows" "r' = row \<or> r' \<in> set rows" using that(1,2) by auto
      ultimately show ?thesis using that(3,4) assms(1) unfolding sql_approvals_wf_def by blast
    qed
  qed
  ultimately show ?thesis
    by (intro exI [of _ "rows @ [row]"]) (auto simp: sql_pend_def row_def)
next
  case (some r)
  then show ?thesis
    using assms(1) to_record_pending [OF assms(1) some(1,2)]
    by (auto simp: sql_create_pending_def)
qed

lemma sql_decide_eq:
  assumes "sql_approvals_wf rows" "sql_pend rows (rc_tenant_id c, ty, i)"
  shows "\<exists>rows'. sql_decide ty i ok comment c rows =
      (Inr ((pending_record ty i c)\<lparr>ap_status := decided ok, ap_comment := comment\<rparr>), rows') \<and>
    sql_approvals_wf rows' \<and> (\<forall>k. sql_pend rows' k \<longleftrightarrow> sql_pend rows k \<and> k \<noteq> (rc_tenant_id c, ty, i)) \<and>
    at_id ` set rows' = at_id ` set rows"
  using assms(1)
proof (cases rule: select_pending_cases [where k = "(rc_tenant_id c, ty, i)"])
  case none
  with assms(2) show ?thesis by simp
next
  case (some r)
  define new where "new = r\<lparr>at_status := decided ok, at_comment := comment, at_version := at_version r + 1\<rparr>"
  let ?rows = "update_row at_id new rows"
  have id: "at_id new = at_id r" and np: "\<not> pending_row k new" for k
    by (simp_all add: new_def pending_row_def)
  have in_rows: "x \<in> set ?rows \<longleftrightarrow> x = new \<or> x \<in> set rows \<and> x \<noteq> r" for x
    using some(1) assms(1) distinct_key_unique [of at_id rows]
    by (auto simp: set_update_row id sql_approvals_wf_def image_iff)
  have "sql_decide ty i ok comment c rows = (Inr (to_record new), ?rows)"
    using some by (simp add: sql_decide_def sql_decide_commit_def new_def Let_def)
  moreover have "to_record new = (pending_record ty i c)\<lparr>ap_status := decided ok, ap_comment := comment\<rparr>"
    using to_record_pending [OF assms(1) some(1,2)]
    by (simp add: new_def to_record_def pending_record_def)
  moreover have "sql_approvals_wf ?rows"
    unfolding sql_approvals_wf_def
  proof (intro conjI ballI allI impI)
    show "distinct (map at_id ?rows)" using assms(1) by (simp add: sql_approvals_wf_def)
    show "at_comment x = None" if "x \<in> set ?rows" "at_status x = Pending" for x
      using that assms(1) unfolding in_rows by (auto simp: sql_approvals_wf_def new_def)
    show "x = y" if "x \<in> set ?rows" "y \<in> set ?rows" "pending_row k x" "pending_row k y" for x y k
      using that assms(1) np unfolding in_rows sql_approvals_wf_def by metis
  qed
  moreover have "sql_pend ?rows k \<longleftrightarrow> sql_pend rows k \<and> k \<noteq> (rc_tenant_id c, ty, i)" for k
  proof -
    have "x = r" if "x \<in> set rows" "pending_row (rc_tenant_id c, ty, i) x" for x
      using that some(1,2) assms(1) unfolding sql_approvals_wf_def by blast
    moreover have "k = (rc_tenant_id c, ty, i)" if "pending_row k r"
      using that some(2) by (simp add: pending_row_def)
    ultimately show ?thesis unfolding sql_pend_def Bex_def in_rows using np by blast
  qed
  moreover have "at_id ` set ?rows = at_id ` set rows"
    by (metis set_map update_row_keys)
  ultimately show ?thesis by (intro exI [of _ ?rows]) simp
qed

interpretation sql_approval: approval_store sql_approval_repo sql_pend sql_approvals_wf
  "\<lambda>rows u. u \<notin> at_id ` set rows"
proof (unfold_locales, goal_cases)
  case (1 s u ty i c)
  from sql_create_pending_eq [OF this, of ty i c] show ?case
    by (simp add: sql_approval_repo_def) blast
next
  case (2 s ty i c)
  from 2 show ?case
    by (cases rule: select_pending_cases [where k = "(rc_tenant_id c, ty, i)"])
       (use to_record_pending [OF 2] in \<open>simp_all add: sql_approval_repo_def sql_get_pending_def\<close>)
next
  case (3 s c ty i ok comment)
  then show ?case
    by (cases rule: select_pending_cases [where k = "(rc_tenant_id c, ty, i)"])
       (simp_all add: sql_approval_repo_def sql_decide_def)
next
  case (4 s c ty i ok comment)
  from sql_decide_eq [OF this, of ok comment] show ?case by (auto simp: sql_approval_repo_def)
qed

section \<open>Properties\<close>

text \<open>
  In the database, over any sequence of calls of the service, decisions about a target never
  outnumber the requests for it: an approval is consumed by the first decision, in whatever order
  requests and decisions of all tenants arrive.
\<close>

theorem sql_decisions_need_requests:
  assumes "distinct (request_ids xs)" "run_calls sql_approval_repo xs [] = (rs, rows)"
  shows "decisions k xs rs + of_bool (sql_pend rows k) \<le> requests k xs"
  using sql_approval.decisions_bounded [OF _ assms(1) _ assms(2), of k]
  by (simp add: sql_approvals_wf_def sql_pend_def)

definition approval_demo :: "approval_call list" where
  "approval_demo =
     (let c = RequestContext [] [] (U ''th'') (U ''tenant-a'') (U ''op-a'') in
      [Request (U ''a1'') (U ''assistant_thread'') (U ''th'') c,
       Decide (U ''assistant_thread'') (U ''th'') True None c,
       Decide (U ''assistant_thread'') (U ''th'') False None c])"

theorem sql_decisions_need_requests_witness:
  "decisions (U ''tenant-a'', U ''assistant_thread'', U ''th'') approval_demo
     (fst (run_calls sql_approval_repo approval_demo [])) \<le> 1"
proof -
  have "requests (U ''tenant-a'', U ''assistant_thread'', U ''th'') approval_demo = 1"
    "distinct (request_ids approval_demo)"
    by (simp_all add: approval_demo_def requests_def RequestContext_def Let_def)
  moreover obtain rs s where run: "run_calls sql_approval_repo approval_demo [] = (rs, s)" by fastforce
  moreover note sql_decisions_need_requests [OF _ run, of "(U ''tenant-a'', U ''assistant_thread'', U ''th'')"]
  ultimately show ?thesis by simp
qed

text \<open>The in-process repository has the same property.\<close>

theorem mem_decisions_need_requests:
  assumes "distinct (request_ids xs)" "run_calls mem_approval_repo xs [] = (rs, s)"
  shows "decisions k xs rs + of_bool (mem_pend s k) \<le> requests k xs"
  using mem_approval.decisions_bounded [OF _ assms(1) _ assms(2), of k]
  by (simp add: mem_approvals_wf_def mem_pend_def)

theorem mem_decisions_need_requests_witness:
  "decisions (U ''tenant-a'', U ''assistant_thread'', U ''th'') approval_demo
     (fst (run_calls mem_approval_repo approval_demo [])) \<le> 1"
proof -
  have "requests (U ''tenant-a'', U ''assistant_thread'', U ''th'') approval_demo = 1"
    "distinct (request_ids approval_demo)"
    by (simp_all add: approval_demo_def requests_def RequestContext_def Let_def)
  moreover obtain rs s where run: "run_calls mem_approval_repo approval_demo [] = (rs, s)" by fastforce
  moreover note mem_decisions_need_requests [OF _ run, of "(U ''tenant-a'', U ''assistant_thread'', U ''th'')"]
  ultimately show ?thesis by simp
qed

text \<open>
  The two halves of \<open>decide\<close> are not protected against each other: when two transactions both read
  the pending row before either commits, both report their decision as made, and the second one
  overwrites the first.
\<close>

theorem sql_concurrent_decisions_both_succeed:
  assumes "sql_approvals_wf rows" "sql_pend rows k"
  shows "\<exists>r. select_pending k rows = Inr (Some r) \<and>
    (let (out1, rows1) = sql_decide_commit True None r rows;
         (out2, rows2) = sql_decide_commit False None r rows1
     in map_sum id ap_status out1 = Inr Approved \<and> map_sum id ap_status out2 = Inr Rejected \<and>
        (\<exists>r' \<in> set rows2. at_id r' = at_id r \<and> at_status r' = Rejected))"
  using assms(1)
proof (cases rule: select_pending_cases [where k = k])
  case (some r)
  let ?a = "r\<lparr>at_status := Approved, at_comment := None, at_version := at_version r + 1\<rparr>"
  let ?b = "r\<lparr>at_status := Rejected, at_comment := None, at_version := at_version r + 1\<rparr>"
  let ?rows = "update_row at_id ?a rows"
  have "at_id ?b \<in> at_id ` set ?rows"
    unfolding set_map [symmetric] update_row_keys using some(1) by simp
  then have "?b \<in> set (update_row at_id ?b ?rows)" by (simp add: set_update_row)
  moreover have "sql_decide_commit True None r rows = (Inr (to_record ?a), ?rows)"
    "sql_decide_commit False None r ?rows = (Inr (to_record ?b), update_row at_id ?b ?rows)"
    by (simp_all add: sql_decide_commit_def decided_def Let_def)
  ultimately show ?thesis
    using some(4) by (intro exI [of _ r]) (auto simp: to_record_def intro: bexI [of _ ?b])
qed (use assms(2) in simp)

theorem sql_concurrent_decisions_both_succeed_witness:
  "\<exists>r. select_pending (U ''tenant-a'', U ''assistant_thread'', U ''th'')
      (snd (run_calls sql_approval_repo (take 1 approval_demo) [])) = Inr (Some r)"
proof -
  let ?rows = "snd (run_calls sql_approval_repo (take 1 approval_demo) [])"
  have "?rows = [\<lparr>at_id = U ''a1'', at_tenant_id = U ''tenant-a'', at_created_by = U ''op-a'',
      at_target_type = U ''assistant_thread'', at_target_id = U ''th'', at_status = Pending,
      at_comment = None, at_version = 1\<rparr>]"
    by (simp add: approval_demo_def approval_request_def sql_approval_repo_def sql_create_pending_def
        select_pending_def RequestContext_def Let_def)
  then have "sql_approvals_wf ?rows" "sql_pend ?rows (U ''tenant-a'', U ''assistant_thread'', U ''th'')"
    by (auto simp: sql_approvals_wf_def sql_pend_def pending_row_def)
  from sql_concurrent_decisions_both_succeed [OF this] show ?thesis by blast
qed

end
