(* ===== verification/Approval_Spec.thy ===== *)
theory Approval_Spec
  imports Approvals
begin

text \<open>
  What \<open>ApprovalService\<close> promises, as a specification on the set of targets that wait for a decision, and that
  the service implements it over either repository. The repositories store more (decided records, versions,
  rows of the past); none of it shows in an answer.
\<close>

section \<open>The specification\<close>

text \<open>The calls of the service: \<open>request\<close> and \<open>decide\<close>, and \<open>require_pending\<close>.\<close>

datatype service_call =
    Change approval_call
  | Check ustr ustr request_context

fun service_ids :: "service_call list \<Rightarrow> ustr list" where
  "service_ids [] = []"
| "service_ids (Change x # xs) = request_ids [x] @ service_ids xs"
| "service_ids (Check ty i c # xs) = service_ids xs"

fun spec_call :: "service_call \<Rightarrow> approval_key set \<Rightarrow> approval_record res \<times> approval_key set" where
  "spec_call (Change (Request u ty i c)) waiting =
     (Inr (pending_record ty i c), insert (rc_tenant_id c, ty, i) waiting)"
| "spec_call (Change (Decide ty i ok comment c)) waiting =
     (if (rc_tenant_id c, ty, i) \<in> waiting
      then (Inr ((pending_record ty i c)\<lparr>ap_status := decided ok, ap_comment := comment\<rparr>),
            waiting - {(rc_tenant_id c, ty, i)})
      else (Inl (Exn KeyErr i), waiting))"
| "spec_call (Check ty i c) waiting =
     (if (rc_tenant_id c, ty, i) \<in> waiting then Inr (pending_record ty i c) else Inl (Exn KeyErr i), waiting)"

fun spec_calls :: "service_call list \<Rightarrow> approval_key set \<Rightarrow> approval_record res list \<times> approval_key set" where
  "spec_calls [] waiting = ([], waiting)"
| "spec_calls (x # xs) waiting =
     (case spec_call x waiting of (r, waiting) \<Rightarrow>
        (case spec_calls xs waiting of (rs, waiting) \<Rightarrow> (r # rs, waiting)))"

section \<open>The service\<close>

fun service_answer :: "'s approval_repo \<Rightarrow> service_call \<Rightarrow> 's \<Rightarrow> approval_record res \<times> 's" where
  "service_answer A (Change x) s = run_call A x s"
| "service_answer A (Check ty i c) s = require_pending A ty i c s"

fun service_answers :: "'s approval_repo \<Rightarrow> service_call list \<Rightarrow> 's \<Rightarrow> approval_record res list \<times> 's" where
  "service_answers A [] s = ([], s)"
| "service_answers A (x # xs) s =
     (case service_answer A x s of (r, s) \<Rightarrow> (case service_answers A xs s of (rs, s) \<Rightarrow> (r # rs, s)))"

section \<open>Refinement\<close>

context approval_store
begin

definition waiting :: "'s \<Rightarrow> approval_key set" where
  "waiting s = {k. pend s k}"

text \<open>Each call commutes with the abstraction, and uses up no identifier but its own.\<close>

lemma service_answer_refines:
  assumes "inv s" "\<forall>u \<in> set (service_ids [x]). fresh s u"
  shows "\<exists>r s'. service_answer A x s = (r, s') \<and> spec_call x (waiting s) = (r, waiting s') \<and> inv s' \<and>
    (\<forall>v. v \<notin> set (service_ids [x]) \<longrightarrow> fresh s v \<longrightarrow> fresh s' v)"
proof (cases x)
  case (Check ty i c)
  then show ?thesis
    using get [OF assms(1), of ty i c] assms(1) by (auto simp: require_pending_def waiting_def)
next
  case (Change y)
  show ?thesis
  proof (cases y)
    case (Request u ty i c)
    have "fresh s u" using assms(2) by (simp add: Change Request)
    from create [OF assms(1) this, of ty i c] show ?thesis
      by (auto simp: Change Request approval_request_def waiting_def)
  next
    case (Decide ty i ok comment c)
    show ?thesis
    proof (cases "pend s (rc_tenant_id c, ty, i)")
      case True
      from decide [OF assms(1) True, of ok comment] True show ?thesis
        by (auto simp: Change Decide approval_decide_def waiting_def)
    next
      case False
      with decide_missing [OF assms(1) False] assms(1) show ?thesis
        by (simp add: Change Decide approval_decide_def waiting_def)
    qed
  qed
qed

lemma service_answers_refine:
  assumes "inv s" "distinct (service_ids xs)" "\<forall>u \<in> set (service_ids xs). fresh s u"
  shows "\<exists>rs s'. service_answers A xs s = (rs, s') \<and> spec_calls xs (waiting s) = (rs, waiting s') \<and> inv s'"
  using assms
proof (induction xs arbitrary: s)
  case (Cons x xs)
  have ids: "service_ids (x # xs) = service_ids [x] @ service_ids xs" by (cases x) simp_all
  from Cons.prems(3) have "\<forall>u \<in> set (service_ids [x]). fresh s u" by (simp add: ids)
  from service_answer_refines [OF Cons.prems(1) this] obtain r s1 where
    s1: "service_answer A x s = (r, s1)" "spec_call x (waiting s) = (r, waiting s1)" "inv s1"
      "\<forall>v. v \<notin> set (service_ids [x]) \<longrightarrow> fresh s v \<longrightarrow> fresh s1 v"
    by blast
  have "distinct (service_ids xs)" "\<forall>u \<in> set (service_ids xs). fresh s1 u"
    using Cons.prems(2,3) s1(4) unfolding ids by auto
  from Cons.IH [OF s1(3) this] s1(1,2) show ?case by auto
qed simp

end

section \<open>Properties\<close>

text \<open>
  C11: Both repositories implement the same specification: over any sequence of requests, checks and decisions
  of all tenants (each new row with its own identifier), the service answers as if all it kept were the set of
  targets that wait for a decision, and it answers the same in process and over the database.
\<close>

theorem approval_service_refines_spec:
  assumes "distinct (service_ids xs)"
  shows "fst (service_answers mem_approval_repo xs []) = fst (spec_calls xs {}) \<and>
    fst (service_answers sql_approval_repo xs []) = fst (spec_calls xs {}) \<and>
    {k. mem_pend (snd (service_answers mem_approval_repo xs [])) k} = snd (spec_calls xs {}) \<and>
    {k. sql_pend (snd (service_answers sql_approval_repo xs [])) k} = snd (spec_calls xs {})"
proof -
  have empty: "mem_approval.waiting [] = {}" "sql_approval.waiting [] = {}" "mem_approvals_wf []" "sql_approvals_wf []"
    by (simp_all add: mem_approval.waiting_def sql_approval.waiting_def mem_pend_def sql_pend_def
        mem_approvals_wf_def sql_approvals_wf_def)
  obtain rs s where m: "service_answers mem_approval_repo xs [] = (rs, s)" "spec_calls xs {} = (rs, mem_approval.waiting s)"
    using mem_approval.service_answers_refine [OF empty(3) assms] empty(1) by auto
  obtain rs' rows where d: "service_answers sql_approval_repo xs [] = (rs', rows)" "spec_calls xs {} = (rs', sql_approval.waiting rows)"
    using sql_approval.service_answers_refine [OF empty(4) assms] empty(2) by auto
  show ?thesis
    using m(2) d(2) by (simp add: m(1) d(1) mem_approval.waiting_def sql_approval.waiting_def)
qed

theorem approval_service_refines_spec_witness:
  "map isl (fst (service_answers sql_approval_repo
     (Check (U ''assistant_thread'') (U ''th'') (RequestContext [] [] [] (U ''tenant-a'') [])
      # map Change approval_demo) [])) = [True, False, False, True]"
proof -
  have "distinct (service_ids (Check (U ''assistant_thread'') (U ''th'') (RequestContext [] [] [] (U ''tenant-a'') [])
      # map Change approval_demo))"
    by (simp add: approval_demo_def Let_def)
  from approval_service_refines_spec [OF this] show ?thesis
    by (simp add: approval_demo_def Let_def)
qed

end
