(* ===== verification/Py_Text.thy ===== *)
theory Py_Text
  imports OMA_Prelude "HOL-Library.Sublist"
begin

text \<open>
  The operations on \<open>str\<close> and on JSON-like values that the application uses: white space, \<open>strip\<close>,
  \<open>split\<close>, \<open>splitlines\<close>, \<open>join\<close>, \<open>in\<close>, \<open>str(n)\<close>, \<open>d.get(k)\<close>, \<open>d[k]\<close>, truth values.
\<close>

section \<open>White space\<close>

text \<open>\<open>c.isspace()\<close>: the code points Python 3 treats as white space, for \<open>strip\<close>, \<open>split\<close> and \<open>\s\<close>.\<close>

definition is_space :: "nat \<Rightarrow> bool" where
  "is_space c \<longleftrightarrow>
     (9 \<le> c \<and> c \<le> 13) \<or> (28 \<le> c \<and> c \<le> 32) \<or> c = 133 \<or> c = 160 \<or> c = 5760 \<or>
     (8192 \<le> c \<and> c \<le> 8202) \<or> c = 8232 \<or> c = 8233 \<or> c = 8239 \<or> c = 8287 \<or> c = 12288"

definition lstrip :: "ustr \<Rightarrow> ustr" where
  "lstrip s = dropWhile is_space s"

definition rstrip :: "ustr \<Rightarrow> ustr" where
  "rstrip s = rev (dropWhile is_space (rev s))"

definition strip :: "ustr \<Rightarrow> ustr" where
  "strip s = rstrip (lstrip s)"

lemma rstrip_Nil [simp]: "rstrip [] = []" and lstrip_Nil [simp]: "lstrip [] = []"
  and strip_Nil [simp]: "strip [] = []"
  by (simp_all add: rstrip_def lstrip_def strip_def)

lemma rstrip_prefix: "prefix (rstrip s) s"
  unfolding rstrip_def using suffix_dropWhile [of is_space "rev s"]
  by (metis rev_rev_ident suffix_to_prefix)

lemma lstrip_suffix: "suffix (lstrip s) s"
  unfolding lstrip_def by (rule suffix_dropWhile)

lemma rstrip_last: "rstrip s \<noteq> [] \<Longrightarrow> \<not> is_space (last (rstrip s))"
  unfolding rstrip_def using hd_dropWhile [of is_space "rev s"] by (simp add: last_rev)

lemma lstrip_hd: "lstrip s \<noteq> [] \<Longrightarrow> \<not> is_space (hd (lstrip s))"
  unfolding lstrip_def by (rule hd_dropWhile)

lemma rstrip_id: "s \<noteq> [] \<Longrightarrow> \<not> is_space (last s) \<Longrightarrow> rstrip s = s"
  unfolding rstrip_def by (cases s rule: rev_cases) auto

lemma strip_hd: "strip s \<noteq> [] \<Longrightarrow> \<not> is_space (hd (strip s))"
proof -
  assume ne: "strip s \<noteq> []"
  have "prefix (strip s) (lstrip s)" by (simp add: strip_def rstrip_prefix)
  with ne have "hd (strip s) = hd (lstrip s)" "lstrip s \<noteq> []"
    by (auto simp: prefix_def)
  then show ?thesis using lstrip_hd by simp
qed

lemma strip_idem [simp]: "strip (strip s) = strip s"
proof (cases "strip s = []")
  case False
  then have "lstrip (strip s) = strip s"
    using strip_hd [OF False] by (cases "strip s") (simp_all add: lstrip_def)
  moreover have "rstrip (strip s) = strip s"
    using False rstrip_last [of "lstrip s"] by (intro rstrip_id) (simp_all add: strip_def)
  ultimately show ?thesis unfolding strip_def [of "strip s"] by simp
qed simp

section \<open>Splitting and joining\<close>

text \<open>\<open>s.split()\<close>: the maximal runs of characters that are not white space.\<close>

fun split_acc :: "ustr \<Rightarrow> ustr \<Rightarrow> ustr list" where
  "split_acc acc [] = (if acc = [] then [] else [rev acc])"
| "split_acc acc (c # cs) =
     (if is_space c then (if acc = [] then [] else [rev acc]) @ split_acc [] cs
      else split_acc (c # acc) cs)"

definition str_split :: "ustr \<Rightarrow> ustr list" where
  "str_split s = split_acc [] s"

lemma split_acc_words:
  assumes "\<forall>c \<in> set acc. \<not> is_space c" "w \<in> set (split_acc acc s)"
  shows "w \<noteq> [] \<and> (\<forall>c \<in> set w. \<not> is_space c)"
  using assms
proof (induction acc s rule: split_acc.induct)
  case (1 acc)
  then show ?case by (cases acc) auto
next
  case (2 acc c cs)
  show ?case
  proof (cases "is_space c")
    case True
    show ?thesis
    proof (cases "w \<in> set (split_acc [] cs)")
      case True
      with \<open>is_space c\<close> 2(1) show ?thesis by simp
    next
      case False
      with \<open>is_space c\<close> 2(4) have "w = rev acc" "acc \<noteq> []"
        by (simp_all split: if_splits)
      with 2(3) show ?thesis by simp
    qed
  next
    case False
    then show ?thesis
      by (intro 2(2)) (use 2(3,4) in simp_all)
  qed
qed

lemma str_split_words: "w \<in> set (str_split s) \<Longrightarrow> w \<noteq> [] \<and> (\<forall>c \<in> set w. \<not> is_space c)"
  using split_acc_words [of "[]"] by (simp add: str_split_def)

text \<open>\<open>sep.join(parts)\<close>.\<close>

fun join :: "ustr \<Rightarrow> ustr list \<Rightarrow> ustr" where
  "join sep [] = []"
| "join sep [s] = s"
| "join sep (s # t # ss) = s @ sep @ join sep (t # ss)"

text \<open>\<open>p in s\<close>.\<close>

fun contains :: "ustr \<Rightarrow> ustr \<Rightarrow> bool" where
  "contains p [] \<longleftrightarrow> p = []"
| "contains p (c # cs) \<longleftrightarrow> prefix p (c # cs) \<or> contains p cs"

lemma contains_sublist: "contains p s \<longleftrightarrow> sublist p s"
  by (induction s) (auto simp: sublist_Cons_right)

text \<open>The line boundaries of \<open>s.splitlines()\<close>; a carriage return swallows a following line feed.\<close>

definition is_linebreak :: "nat \<Rightarrow> bool" where
  "is_linebreak c \<longleftrightarrow>
     (10 \<le> c \<and> c \<le> 13) \<or> (28 \<le> c \<and> c \<le> 30) \<or> c = 133 \<or> c = 8232 \<or> c = 8233"

fun lines_acc :: "ustr \<Rightarrow> ustr \<Rightarrow> ustr list" where
  "lines_acc acc [] = (if acc = [] then [] else [rev acc])"
| "lines_acc acc [c] = (if is_linebreak c then [rev acc] else [rev (c # acc)])"
| "lines_acc acc (c # d # cs) =
     (if c = 13 \<and> d = 10 then rev acc # lines_acc [] cs
      else if is_linebreak c then rev acc # lines_acc [] (d # cs)
      else lines_acc (c # acc) (d # cs))"

definition splitlines :: "ustr \<Rightarrow> ustr list" where
  "splitlines s = lines_acc [] s"

lemma linebreak_space: "is_linebreak c \<Longrightarrow> is_space c"
  by (auto simp: is_linebreak_def is_space_def)

section \<open>Numbers as text\<close>

fun nat_dec :: "nat \<Rightarrow> ustr" where
  "nat_dec n = (if n < 10 then [48 + n] else nat_dec (n div 10) @ [48 + n mod 10])"

declare nat_dec.simps [simp del]

definition dec :: "int \<Rightarrow> ustr" where
  "dec n = (if n < 0 then 45 # nat_dec (nat (- n)) else nat_dec (nat n))"

definition is_digit :: "nat \<Rightarrow> bool" where
  "is_digit c \<longleftrightarrow> 48 \<le> c \<and> c \<le> 57"

lemma nat_dec_digits: "\<forall>c \<in> set (nat_dec n). is_digit c"
proof (induction n rule: nat_dec.induct)
  case (1 n)
  show ?case
  proof (cases "n < 10")
    case True
    then show ?thesis by (subst nat_dec.simps) (simp add: is_digit_def)
  next
    case False
    with 1 show ?thesis by (subst nat_dec.simps) (auto simp: is_digit_def)
  qed
qed

lemma nat_dec_nonempty: "nat_dec n \<noteq> []"
  by (subst nat_dec.simps) simp

text \<open>Reading the digits back gives the number.\<close>

definition undec :: "ustr \<Rightarrow> nat" where
  "undec s = foldl (\<lambda>n c. 10 * n + (c - 48)) 0 s"

lemma undec_nat_dec [simp]: "undec (nat_dec n) = n"
proof (induction n rule: nat_dec.induct)
  case (1 n)
  show ?case
  proof (cases "n < 10")
    case True
    then show ?thesis by (subst nat_dec.simps) (simp add: undec_def)
  next
    case False
    with 1 show ?thesis by (subst nat_dec.simps) (simp add: undec_def)
  qed
qed

lemma nat_dec_inj: "nat_dec m = nat_dec n \<Longrightarrow> m = n"
  by (metis undec_nat_dec)

section \<open>JSON-like values\<close>

text \<open>
  \<open>str(v)\<close>. Strings, numbers, booleans and \<open>None\<close> are written out; \<open>rep\<close> stands for
  \<open>repr\<close> of a float, a list or a dictionary.
\<close>

fun py_str :: "(json \<Rightarrow> ustr) \<Rightarrow> json \<Rightarrow> ustr" where
  "py_str rep (JStr s) = s"
| "py_str rep (JInt n) = dec n"
| "py_str rep (JBool b) = (if b then U ''True'' else U ''False'')"
| "py_str rep JNull = U ''None''"
| "py_str rep v = rep v"

fun truthy :: "json \<Rightarrow> bool" where
  "truthy JNull = False"
| "truthy (JBool b) = b"
| "truthy (JInt n) = (n \<noteq> 0)"
| "truthy (JFloat x) = (x \<notin> {Rational 0, Minus_zero})"
| "truthy (JStr s) = (s \<noteq> [])"
| "truthy (JList xs) = (xs \<noteq> [])"
| "truthy (JObj d) = (d \<noteq> [])"

definition is_dict :: "json \<Rightarrow> bool" where
  "is_dict v \<longleftrightarrow> (\<exists>d. v = JObj d)"

lemma is_dict_code [code]:
  "is_dict v = (case v of JObj d \<Rightarrow> True | _ \<Rightarrow> False)"
  by (cases v) (auto simp: is_dict_def)

text \<open>\<open>d[k]\<close> raises \<open>KeyError\<close>; \<open>d.get(k, default)\<close> does not.\<close>

definition getitem :: "jdict \<Rightarrow> ustr \<Rightarrow> json res" where
  "getitem d k = (case map_of d k of None \<Rightarrow> Inl (Exn KeyErr k) | Some v \<Rightarrow> Inr v)"

definition get_default :: "jdict \<Rightarrow> ustr \<Rightarrow> json \<Rightarrow> json" where
  "get_default d k v = (case map_of d k of None \<Rightarrow> v | Some w \<Rightarrow> w)"

end
