(* ===== verification/Task_Queue.thy ===== *)
theory Task_Queue
  imports Identity
begin

text \<open>
  The background tasks of \<open>app/services/runtime_state.py\<close>: the task object, the interface every
  store of tasks implements (\<open>RuntimeStateRepository\<close>), the in-memory store
  (\<open>InMemoryRuntimeStateRepository\<close>) and the service on top (\<open>BackgroundTaskService\<close>).

  Python hands out references. The in-memory store returns the very object it keeps, so an
  assignment to a field of a task that a worker holds changes the stored task; the database
  store returns a copy. The interface makes this explicit: \<open>tr_obj\<close> reads the object behind a
  handle and \<open>tr_assign\<close> writes it. In memory a handle is an address of the object store
  \<open>mq_heap\<close>; in \<open>Task_Queue_Sql\<close> it is the copy itself.

  Clock readings (\<open>datetime.now().astimezone()\<close>) and fresh identifiers (\<open>uuid4\<close>) are arguments.
\<close>

section \<open>The task object\<close>

datatype task_status = Queued | Running | Retry_wait | Succeeded | Failed | Cancelled

record background_task =
  bt_task_id :: ustr
  bt_tenant_id :: ustr
  bt_kind :: ustr
  bt_operator_id :: ustr
  bt_status :: task_status
  bt_progress :: int
  bt_error_code :: "ustr option"
  bt_payload :: "jdict option"
  bt_result :: "jdict option"
  bt_attempts :: int
  bt_max_attempts :: int
  bt_available_at :: "instant option"
  bt_locked_at :: "instant option"
  bt_locked_by :: "ustr option"
  bt_cancel_requested :: bool
  bt_finished_at :: "instant option"

section \<open>The repository interface\<close>

record ('s, 'h) task_repo =
  tr_obj :: "'s \<Rightarrow> 'h \<Rightarrow> background_task"
  tr_assign :: "'h \<Rightarrow> background_task \<Rightarrow> 's \<Rightarrow> 'h \<times> 's"
  tr_new :: "background_task \<Rightarrow> 's \<Rightarrow> 'h \<times> 's"
  tr_save_task :: "'h \<Rightarrow> request_context \<Rightarrow> instant \<Rightarrow> 's \<Rightarrow> 'h res \<times> 's"
  tr_get_task :: "ustr \<Rightarrow> request_context \<Rightarrow> 's \<Rightarrow> 'h option res \<times> 's"
  tr_claim_next :: "ustr \<Rightarrow> instant \<Rightarrow> int \<Rightarrow> 's \<Rightarrow> 'h option res \<times> 's"
  tr_save_claimed :: "'h \<Rightarrow> instant \<Rightarrow> 's \<Rightarrow> 'h res \<times> 's"
  tr_request_cancel :: "ustr \<Rightarrow> request_context \<Rightarrow> instant \<Rightarrow> 's \<Rightarrow> 'h option res \<times> 's"

section \<open>The in-memory repository\<close>

record mem_queue =
  mq_heap :: "background_task list"
  mq_tasks :: "((ustr \<times> ustr) \<times> nat) list"

definition mem_obj :: "mem_queue \<Rightarrow> nat \<Rightarrow> background_task" where
  "mem_obj q r = mq_heap q ! r"

definition mem_assign :: "nat \<Rightarrow> background_task \<Rightarrow> mem_queue \<Rightarrow> nat \<times> mem_queue" where
  "mem_assign r t q = (r, q\<lparr>mq_heap := (mq_heap q)[r := t]\<rparr>)"

definition mem_new :: "background_task \<Rightarrow> mem_queue \<Rightarrow> nat \<times> mem_queue" where
  "mem_new t q = (length (mq_heap q), q\<lparr>mq_heap := mq_heap q @ [t]\<rparr>)"

definition mem_save_task ::
  "nat \<Rightarrow> request_context \<Rightarrow> instant \<Rightarrow> mem_queue \<Rightarrow> nat res \<times> mem_queue" where
  "mem_save_task r context now q =
     (Inr r, q\<lparr>mq_tasks :=
        AList.update (rc_tenant_id context, bt_task_id (mem_obj q r)) r (mq_tasks q)\<rparr>)"

definition mem_get_task ::
  "ustr \<Rightarrow> request_context \<Rightarrow> mem_queue \<Rightarrow> nat option res \<times> mem_queue" where
  "mem_get_task task_id context q =
     (Inr (map_of (mq_tasks q) (rc_tenant_id context, task_id)), q)"

text \<open>\<open>stale_running\<close> of \<open>claim_next_task\<close>: a running task whose lease has run out.\<close>

definition stale_running :: "instant \<Rightarrow> int \<Rightarrow> background_task \<Rightarrow> bool" where
  "stale_running now lease t \<longleftrightarrow>
     bt_status t = Running \<and>
     (case bt_locked_at t of None \<Rightarrow> False | Some l \<Rightarrow> l \<le> now - seconds lease)"

definition claim_skips :: "instant \<Rightarrow> int \<Rightarrow> background_task \<Rightarrow> bool" where
  "claim_skips now lease t \<longleftrightarrow>
     \<not> stale_running now lease t \<and>
     (bt_status t \<notin> {Queued, Retry_wait} \<or>
      (case bt_available_at t of None \<Rightarrow> now | Some a \<Rightarrow> a) > now)"

definition claimed_task :: "ustr \<Rightarrow> instant \<Rightarrow> background_task \<Rightarrow> background_task" where
  "claimed_task worker_id now t =
     t\<lparr>bt_status := Running, bt_attempts := bt_attempts t + 1,
       bt_progress := max (bt_progress t) 5,
       bt_locked_by := Some worker_id, bt_locked_at := Some now\<rparr>"

definition cancelled_task :: "instant \<Rightarrow> background_task \<Rightarrow> background_task" where
  "cancelled_task now t = t\<lparr>bt_status := Cancelled, bt_finished_at := Some now\<rparr>"

definition expired_task :: "instant \<Rightarrow> background_task \<Rightarrow> background_task" where
  "expired_task now t =
     t\<lparr>bt_status := Failed, bt_error_code := Some (U ''TASK_LEASE_EXPIRED''),
       bt_finished_at := Some now\<rparr>"

text \<open>The loop of \<open>claim_next_task\<close> over the stored tasks, in insertion order.\<close>

fun claim_scan ::
  "ustr \<Rightarrow> instant \<Rightarrow> int \<Rightarrow> nat list \<Rightarrow> background_task list \<Rightarrow>
   nat option \<times> background_task list" where
  "claim_scan w now lease [] h = (None, h)"
| "claim_scan w now lease (r # rs) h =
     (let t = h ! r in
      if claim_skips now lease t then claim_scan w now lease rs h
      else if bt_cancel_requested t then
        claim_scan w now lease rs (h[r := cancelled_task now t])
      else if stale_running now lease t \<and> bt_attempts t \<ge> bt_max_attempts t then
        claim_scan w now lease rs (h[r := expired_task now t])
      else (Some r, h[r := claimed_task w now t]))"

definition mem_claim_next ::
  "ustr \<Rightarrow> instant \<Rightarrow> int \<Rightarrow> mem_queue \<Rightarrow> nat option res \<times> mem_queue" where
  "mem_claim_next worker_id now lease q =
     (case claim_scan worker_id now lease (map snd (mq_tasks q)) (mq_heap q) of
        (found, h) \<Rightarrow> (Inr found, q\<lparr>mq_heap := h\<rparr>))"

definition mem_save_claimed ::
  "nat \<Rightarrow> instant \<Rightarrow> mem_queue \<Rightarrow> nat res \<times> mem_queue" where
  "mem_save_claimed r now q =
     (let key = (bt_tenant_id (mem_obj q r), bt_task_id (mem_obj q r)) in
      if map_of (mq_tasks q) key = None
      then (Inl (Exn KeyErr (bt_task_id (mem_obj q r))), q)
      else (Inr r, q\<lparr>mq_tasks := AList.update key r (mq_tasks q)\<rparr>))"

definition mem_request_cancel ::
  "ustr \<Rightarrow> request_context \<Rightarrow> instant \<Rightarrow> mem_queue \<Rightarrow> nat option res \<times> mem_queue" where
  "mem_request_cancel task_id context now q =
     (case map_of (mq_tasks q) (rc_tenant_id context, task_id) of
        None \<Rightarrow> (Inr None, q)
      | Some r \<Rightarrow>
          (let t = (mem_obj q r)\<lparr>bt_cancel_requested := True\<rparr>;
               t' = (if bt_status t \<in> {Queued, Retry_wait} then cancelled_task now t else t)
           in (Inr (Some r), q\<lparr>mq_heap := (mq_heap q)[r := t']\<rparr>)))"

definition mem_repo :: "(mem_queue, nat) task_repo" where
  "mem_repo =
     \<lparr>tr_obj = mem_obj, tr_assign = mem_assign, tr_new = mem_new,
      tr_save_task = mem_save_task, tr_get_task = mem_get_task,
      tr_claim_next = mem_claim_next, tr_save_claimed = mem_save_claimed,
      tr_request_cancel = mem_request_cancel\<rparr>"

definition mem_empty :: mem_queue where
  "mem_empty = \<lparr>mq_heap = [], mq_tasks = []\<rparr>"

section \<open>The service\<close>

text \<open>The object \<open>create\<close> constructs.\<close>

definition new_task ::
  "ustr \<Rightarrow> instant \<Rightarrow> ustr \<Rightarrow> request_context \<Rightarrow> jdict option \<Rightarrow> int \<Rightarrow> background_task" where
  "new_task uuid now kind context payload max_attempts =
     \<lparr>bt_task_id = uuid, bt_tenant_id = rc_tenant_id context, bt_kind = kind,
      bt_operator_id = rc_operator_id context, bt_status = Queued, bt_progress = 0,
      bt_error_code = None,
      bt_payload = Some (case payload of None \<Rightarrow> [] | Some p \<Rightarrow> p),
      bt_result = None, bt_attempts = 0, bt_max_attempts = max_attempts,
      bt_available_at = Some now, bt_locked_at = None, bt_locked_by = None,
      bt_cancel_requested = False, bt_finished_at = None\<rparr>"

definition task_create ::
  "('s, 'h) task_repo \<Rightarrow> ustr \<Rightarrow> instant \<Rightarrow> ustr \<Rightarrow> request_context \<Rightarrow> jdict option \<Rightarrow> int \<Rightarrow>
   's \<Rightarrow> 'h res \<times> 's" where
  "task_create R uuid now kind context payload max_attempts s =
     (if max_attempts < 1 then (Inl (Exn ValueErr (U ''max_attempts must be positive'')), s)
      else
        (case tr_new R (new_task uuid now kind context payload max_attempts) s of
           (h, s1) \<Rightarrow> tr_save_task R h context now s1))"

definition task_get ::
  "('s, 'h) task_repo \<Rightarrow> ustr \<Rightarrow> request_context \<Rightarrow> 's \<Rightarrow> 'h res \<times> 's" where
  "task_get R task_id context s =
     bnd (tr_get_task R task_id context s)
       (\<lambda>t s. case t of None \<Rightarrow> (Inl (Exn KeyErr task_id), s) | Some h \<Rightarrow> (Inr h, s))"

definition task_update ::
  "('s, 'h) task_repo \<Rightarrow> instant \<Rightarrow> ustr \<Rightarrow> task_status \<Rightarrow> int \<Rightarrow> request_context \<Rightarrow>
   ustr option \<Rightarrow> 's \<Rightarrow> 'h res \<times> 's" where
  "task_update R now task_id status progress context error_code s =
     bnd (task_get R task_id context s)
       (\<lambda>h s.
          if \<not> (0 \<le> progress \<and> progress \<le> 100)
          then (Inl (Exn ValueErr (U ''progress must be between 0 and 100'')), s)
          else
            (case tr_assign R h
                    ((tr_obj R s h)\<lparr>bt_status := status, bt_progress := progress,
                                    bt_error_code := error_code\<rparr>) s of
               (h, s) \<Rightarrow> tr_save_task R h context now s))"

definition task_cancel ::
  "('s, 'h) task_repo \<Rightarrow> instant \<Rightarrow> ustr \<Rightarrow> request_context \<Rightarrow> 's \<Rightarrow> 'h res \<times> 's" where
  "task_cancel R now task_id context s =
     bnd (tr_request_cancel R task_id context now s)
       (\<lambda>t s. case t of None \<Rightarrow> (Inl (Exn KeyErr task_id), s) | Some h \<Rightarrow> (Inr h, s))"

definition task_claim ::
  "('s, 'h) task_repo \<Rightarrow> instant \<Rightarrow> ustr \<Rightarrow> int \<Rightarrow> 's \<Rightarrow> 'h option res \<times> 's" where
  "task_claim R now worker_id lease s = tr_claim_next R worker_id now lease s"

text \<open>The field assignments of \<open>succeed\<close> and \<open>fail\<close>.\<close>

definition succeeded_task :: "instant \<Rightarrow> jdict \<Rightarrow> background_task \<Rightarrow> background_task" where
  "succeeded_task now result t =
     t\<lparr>bt_status := Succeeded, bt_progress := 100, bt_result := Some result,
       bt_error_code := None, bt_locked_at := None, bt_locked_by := None,
       bt_finished_at := Some now\<rparr>"

definition failed_task ::
  "instant \<Rightarrow> ustr \<Rightarrow> int \<Rightarrow> background_task \<Rightarrow> background_task" where
  "failed_task now error_code retry_delay t0 =
     (let t = t0\<lparr>bt_error_code := Some error_code, bt_locked_at := None, bt_locked_by := None\<rparr> in
      if bt_cancel_requested t
      then t\<lparr>bt_status := Cancelled, bt_finished_at := Some now\<rparr>
      else if bt_attempts t < bt_max_attempts t
      then t\<lparr>bt_status := Retry_wait, bt_available_at := Some (now + seconds (max 0 retry_delay))\<rparr>
      else t\<lparr>bt_status := Failed, bt_finished_at := Some now\<rparr>)"

text \<open>
  \<open>succeed\<close> and \<open>fail\<close> change the caller's object and then save it; the caller keeps the changed
  object even when saving raises, so it is part of the result.
\<close>

definition task_succeed ::
  "('s, 'h) task_repo \<Rightarrow> instant \<Rightarrow> 'h \<Rightarrow> jdict \<Rightarrow> 's \<Rightarrow> 'h res \<times> 'h \<times> 's" where
  "task_succeed R now h result s =
     (case tr_assign R h (succeeded_task now result (tr_obj R s h)) s of
        (h, s) \<Rightarrow> (case tr_save_claimed R h now s of (r, s) \<Rightarrow> (r, h, s)))"

definition task_fail ::
  "('s, 'h) task_repo \<Rightarrow> instant \<Rightarrow> 'h \<Rightarrow> ustr \<Rightarrow> int \<Rightarrow> 's \<Rightarrow> 'h res \<times> 'h \<times> 's" where
  "task_fail R now h error_code retry_delay s =
     (case tr_assign R h (failed_task now error_code retry_delay (tr_obj R s h)) s of
        (h, s) \<Rightarrow> (case tr_save_claimed R h now s of (r, s) \<Rightarrow> (r, h, s)))"

section \<open>Well-formed tasks and stores\<close>

abbreviation bt_key :: "background_task \<Rightarrow> ustr \<times> ustr" where
  "bt_key t \<equiv> (bt_tenant_id t, bt_task_id t)"

abbreviation terminal :: "task_status \<Rightarrow> bool" where
  "terminal s \<equiv> s \<in> {Succeeded, Failed, Cancelled}"

text \<open>
  What every stored task satisfies: attempts stay within the budget, a task that waits for a
  worker still has an attempt left, a running task carries its lease, a finished one its time.
\<close>

definition task_inv :: "background_task \<Rightarrow> bool" where
  "task_inv t \<longleftrightarrow>
     0 \<le> bt_attempts t \<and> bt_attempts t \<le> bt_max_attempts t \<and>
     (bt_status t \<in> {Queued, Retry_wait} \<longrightarrow> bt_attempts t < bt_max_attempts t) \<and>
     (bt_status t = Running \<longrightarrow>
        bt_locked_at t \<noteq> None \<and> bt_locked_by t \<noteq> None \<and> 0 < bt_attempts t) \<and>
     (terminal (bt_status t) \<longrightarrow> bt_finished_at t \<noteq> None) \<and>
     0 \<le> bt_progress t \<and> bt_progress t \<le> 100 \<and> 1 \<le> bt_max_attempts t"

definition mem_wf :: "mem_queue \<Rightarrow> bool" where
  "mem_wf q \<longleftrightarrow>
     distinct (map fst (mq_tasks q)) \<and>
     (\<forall>(k, r) \<in> set (mq_tasks q). r < length (mq_heap q) \<and> bt_key (mq_heap q ! r) = k)"

definition mem_view :: "mem_queue \<Rightarrow> ustr \<times> ustr \<Rightarrow> background_task option" where
  "mem_view q k = map_option (mem_obj q) (map_of (mq_tasks q) k)"

text \<open>A claim takes the first task that is claimable, and settles the ones it walks past.\<close>

definition claimable :: "instant \<Rightarrow> int \<Rightarrow> background_task \<Rightarrow> bool" where
  "claimable now lease t \<longleftrightarrow>
     \<not> claim_skips now lease t \<and> \<not> bt_cancel_requested t \<and>
     \<not> (stale_running now lease t \<and> bt_attempts t \<ge> bt_max_attempts t)"

definition swept_task :: "instant \<Rightarrow> int \<Rightarrow> background_task \<Rightarrow> background_task" where
  "swept_task now lease t =
     (if claim_skips now lease t then t
      else if bt_cancel_requested t then cancelled_task now t
      else expired_task now t)"

lemma task_key_simps [simp]:
  "bt_tenant_id (claimed_task w now t) = bt_tenant_id t"
  "bt_task_id (claimed_task w now t) = bt_task_id t"
  "bt_tenant_id (cancelled_task now t) = bt_tenant_id t"
  "bt_task_id (cancelled_task now t) = bt_task_id t"
  "bt_tenant_id (expired_task now t) = bt_tenant_id t"
  "bt_task_id (expired_task now t) = bt_task_id t"
  "bt_tenant_id (succeeded_task now r t) = bt_tenant_id t"
  "bt_task_id (succeeded_task now r t) = bt_task_id t"
  "bt_tenant_id (failed_task now e d t) = bt_tenant_id t"
  "bt_task_id (failed_task now e d t) = bt_task_id t"
  "bt_tenant_id (swept_task now lease t) = bt_tenant_id t"
  "bt_task_id (swept_task now lease t) = bt_task_id t"
  by (simp_all add: claimed_task_def cancelled_task_def expired_task_def succeeded_task_def
      failed_task_def swept_task_def Let_def)

lemma claimable_status:
  "claimable now lease t \<Longrightarrow> bt_status t \<in> {Queued, Retry_wait, Running}"
  by (auto simp: claimable_def claim_skips_def stale_running_def)

lemma claimed_task_inv:
  assumes "task_inv t" "claimable now lease t"
  shows "task_inv (claimed_task w now t)"
  using assms
  by (auto simp: task_inv_def claimable_def claim_skips_def claimed_task_def max_def)

lemma cancelled_task_inv: "task_inv t \<Longrightarrow> task_inv (cancelled_task now t)"
  by (auto simp: task_inv_def cancelled_task_def)

lemma expired_task_inv: "task_inv t \<Longrightarrow> task_inv (expired_task now t)"
  by (auto simp: task_inv_def expired_task_def)

lemma swept_task_inv: "task_inv t \<Longrightarrow> task_inv (swept_task now lease t)"
  by (simp add: swept_task_def cancelled_task_inv expired_task_inv)

lemma succeeded_task_inv: "task_inv t \<Longrightarrow> task_inv (succeeded_task now r t)"
  by (auto simp: task_inv_def succeeded_task_def)

lemma failed_task_inv: "task_inv t \<Longrightarrow> task_inv (failed_task now e d t)"
  by (auto simp: task_inv_def failed_task_def Let_def)

lemma request_cancel_inv: "task_inv t \<Longrightarrow> task_inv (t\<lparr>bt_cancel_requested := True\<rparr>)"
  by (simp add: task_inv_def)

lemmas task_invs = claimed_task_inv cancelled_task_inv expired_task_inv swept_task_inv
  succeeded_task_inv failed_task_inv request_cancel_inv

section \<open>What a claim does\<close>

text \<open>The scan never leaves the addresses it is given, and never changes the number of objects.\<close>

lemma claim_scan_length: "length (snd (claim_scan w now lease rs h)) = length h"
  by (induction rs arbitrary: h) (auto simp: Let_def)

lemma claim_scan_correct:
  assumes "distinct rs" "\<forall>r \<in> set rs. r < length h"
  shows "claim_scan w now lease rs h =
    (let first = find (\<lambda>r. claimable now lease (h ! r)) rs;
         passed = takeWhile (\<lambda>r. \<not> claimable now lease (h ! r)) rs
     in (first,
         map (\<lambda>i. if first = Some i then claimed_task w now (h ! i)
                  else if i \<in> set passed then swept_task now lease (h ! i)
                  else h ! i) [0..<length h]))"
  using assms
proof (induction rs arbitrary: h)
  case Nil
  then show ?case by (simp add: map_nth)
next
  case (Cons r rs)
  then have r: "r < length h" "r \<notin> set rs" by auto
  show ?case
  proof (cases "claimable now lease (h ! r)")
    case True
    then have scan: "claim_scan w now lease (r # rs) h = (Some r, h[r := claimed_task w now (h ! r)])"
      by (auto simp: claimable_def Let_def)
    have "h[r := claimed_task w now (h ! r)] =
        map (\<lambda>i. if r = i then claimed_task w now (h ! i) else h ! i) [0..<length h]"
      by (rule nth_equalityI) (simp_all add: nth_list_update)
    with True show ?thesis
      by (simp only: scan) simp
  next
    case False
    define h' where "h' = h[r := swept_task now lease (h ! r)]"
    have scan: "claim_scan w now lease (r # rs) h = claim_scan w now lease rs h'"
      using False r by (auto simp: h'_def claimable_def swept_task_def Let_def)
    have same: "h' ! i = h ! i" if "i \<in> set rs" for i
      using that r by (auto simp: h'_def nth_list_update)
    have find: "find (\<lambda>i. claimable now lease (h' ! i)) rs =
        find (\<lambda>i. claimable now lease (h ! i)) rs"
      by (rule find_cong) (simp_all add: same)
    have take: "takeWhile (\<lambda>i. \<not> claimable now lease (h' ! i)) rs =
        takeWhile (\<lambda>i. \<not> claimable now lease (h ! i)) rs"
      by (rule takeWhile_cong) (simp_all add: same)
    have notr: "find (\<lambda>i. claimable now lease (h ! i)) rs \<noteq> Some r"
      "r \<notin> set (takeWhile (\<lambda>i. \<not> claimable now lease (h ! i)) rs)"
      using r by (auto simp: find_Some_iff dest: set_takeWhileD)
    have IH: "claim_scan w now lease rs h' =
       (let first = find (\<lambda>r. claimable now lease (h' ! r)) rs;
            passed = takeWhile (\<lambda>r. \<not> claimable now lease (h' ! r)) rs
        in (first,
         map (\<lambda>i. if first = Some i then claimed_task w now (h' ! i)
                  else if i \<in> set passed then swept_task now lease (h' ! i)
                  else h' ! i) [0..<length h']))"
      using Cons.prems by (intro Cons.IH) (auto simp: h'_def)
    have h'_r: "h' ! r = swept_task now lease (h ! r)" and len: "length h' = length h"
      using r by (simp_all add: h'_def)
    have other: "h' ! i = h ! i" if "i \<noteq> r" for i
      using that by (simp add: h'_def)
    have point: "(if find (\<lambda>i. claimable now lease (h ! i)) rs = Some i
          then claimed_task w now (h' ! i)
          else if i \<in> set (takeWhile (\<lambda>i. \<not> claimable now lease (h ! i)) rs)
          then swept_task now lease (h' ! i) else h' ! i) =
        (if find (\<lambda>i. claimable now lease (h ! i)) rs = Some i
          then claimed_task w now (h ! i)
          else if i \<in> insert r (set (takeWhile (\<lambda>i. \<not> claimable now lease (h ! i)) rs))
          then swept_task now lease (h ! i) else h ! i)" for i
      using notr h'_r other by (cases "i = r") simp_all
    show ?thesis
      unfolding scan IH find take Let_def using False by (simp add: len point)
  qed
qed

section \<open>The contract of a task store\<close>

text \<open>
  \<open>view\<close> is the stored task of a key (tenant, task id), \<open>valid\<close> tells which handles the store has
  given out. \<open>saved_as\<close> lists the fields a save of a claimed task writes: a store may keep the
  attempt counter, the payload and the kind it already has.
\<close>

definition saved_as :: "background_task \<Rightarrow> background_task \<Rightarrow> bool" where
  "saved_as t u \<longleftrightarrow>
     bt_key t = bt_key u \<and>
     bt_status t = bt_status u \<and> bt_progress t = bt_progress u \<and>
     bt_error_code t = bt_error_code u \<and> bt_result t = bt_result u \<and>
     bt_locked_at t = bt_locked_at u \<and> bt_locked_by t = bt_locked_by u \<and>
     bt_cancel_requested t = bt_cancel_requested u \<and> bt_finished_at t = bt_finished_at u"

lemma saved_as_refl [simp]: "saved_as t t"
  by (simp add: saved_as_def)

definition cancel_effect :: "instant \<Rightarrow> background_task \<Rightarrow> background_task" where
  "cancel_effect now t =
     (let t = t\<lparr>bt_cancel_requested := True\<rparr>
      in if bt_status t \<in> {Queued, Retry_wait} then cancelled_task now t else t)"

lemma cancel_effect_key [simp]:
  "bt_tenant_id (cancel_effect now t) = bt_tenant_id t"
  "bt_task_id (cancel_effect now t) = bt_task_id t"
  by (simp_all add: cancel_effect_def Let_def cancelled_task_def)

lemma cancel_effect_inv: "task_inv t \<Longrightarrow> task_inv (cancel_effect now t)"
  by (simp add: cancel_effect_def Let_def task_invs)

locale task_store =
  fixes R :: "('s, 'h) task_repo"
    and view :: "'s \<Rightarrow> ustr \<times> ustr \<Rightarrow> background_task option"
    and inv :: "'s \<Rightarrow> bool"
    and valid :: "'s \<Rightarrow> 'h \<Rightarrow> bool"
  assumes view_key: "inv s \<Longrightarrow> view s k = Some t \<Longrightarrow> bt_key t = k"
    and assign: "inv s \<Longrightarrow> valid s h \<Longrightarrow> bt_key t = bt_key (tr_obj R s h) \<Longrightarrow>
      tr_assign R h t s = (h', s') \<Longrightarrow>
      inv s' \<and> valid s' h' \<and> tr_obj R s' h' = t \<and>
      (\<forall>k. k \<noteq> bt_key t \<longrightarrow> view s' k = view s k) \<and>
      (\<forall>k. view s' k = None \<longleftrightarrow> view s k = None)"
    and save_claimed_missing: "inv s \<Longrightarrow> valid s h \<Longrightarrow> view s (bt_key (tr_obj R s h)) = None \<Longrightarrow>
      tr_save_claimed R h now s = (Inl (Exn KeyErr (bt_task_id (tr_obj R s h))), s)"
    and save_claimed: "inv s \<Longrightarrow> valid s h \<Longrightarrow> view s (bt_key (tr_obj R s h)) \<noteq> None \<Longrightarrow>
      \<exists>s' t. tr_save_claimed R h now s = (Inr h, s') \<and> inv s' \<and>
        view s' (bt_key (tr_obj R s h)) = Some t \<and> saved_as t (tr_obj R s h) \<and>
        (\<forall>k. k \<noteq> bt_key (tr_obj R s h) \<longrightarrow> view s' k = view s k)"
    and get: "inv s \<Longrightarrow>
      (case view s (rc_tenant_id c, i) of
         None \<Rightarrow> tr_get_task R i c s = (Inr None, s)
       | Some t \<Rightarrow> \<exists>h. tr_get_task R i c s = (Inr (Some h), s) \<and> valid s h \<and> tr_obj R s h = t)"
    and claim_inv: "inv s \<Longrightarrow> tr_claim_next R w now lease s = (r, s') \<Longrightarrow>
      inv s' \<and> (\<exists>found. r = Inr found)"
    and claim_took: "inv s \<Longrightarrow> tr_claim_next R w now lease s = (Inr (Some h), s') \<Longrightarrow>
      \<exists>t. view s (bt_key t) = Some t \<and> claimable now lease t \<and> valid s' h \<and>
        tr_obj R s' h = claimed_task w now t \<and> view s' (bt_key t) = Some (claimed_task w now t)"
    and claim_others: "inv s \<Longrightarrow> tr_claim_next R w now lease s = (Inr found, s') \<Longrightarrow>
      view s k = Some t \<Longrightarrow>
      view s' k \<in> {Some t, Some (swept_task now lease t)} \<or>
      claimable now lease t \<and> view s' k = Some (claimed_task w now t)"
    and cancel: "inv s \<Longrightarrow>
      (case view s (rc_tenant_id c, i) of
         None \<Rightarrow> tr_request_cancel R i c now s = (Inr None, s)
       | Some t \<Rightarrow> \<exists>h s'. tr_request_cancel R i c now s = (Inr (Some h), s') \<and> inv s' \<and>
           valid s' h \<and> tr_obj R s' h = cancel_effect now t \<and>
           view s' (rc_tenant_id c, i) = Some (cancel_effect now t) \<and>
           (\<forall>k. k \<noteq> (rc_tenant_id c, i) \<longrightarrow> view s' k = view s k))"
begin

text \<open>A claim never changes a task that has finished.\<close>

lemma claim_keeps_terminal:
  assumes "inv s" "tr_claim_next R w now lease s = (r, s')"
    and "view s k = Some t" "terminal (bt_status t)"
  shows "view s' k = Some t"
proof -
  from assms obtain found where r: "r = Inr found"
    using claim_inv by blast
  have "\<not> claimable now lease t" "swept_task now lease t = t"
    using assms(4) by (auto simp: claimable_def swept_task_def claim_skips_def stale_running_def)
  with claim_others [OF assms(1) assms(2) [unfolded r] assms(3)] show ?thesis by auto
qed

text \<open>\<open>fail\<close> and \<open>succeed\<close> store the changed object, or report that the task is gone.\<close>

lemma fail_stores:
  assumes "inv s" "valid s h" "view s (bt_key (tr_obj R s h)) \<noteq> None"
  shows "\<exists>h' s' t. task_fail R now h e d s = (Inr h', h', s') \<and> inv s' \<and>
     view s' (bt_key (tr_obj R s h)) = Some t \<and>
     saved_as t (failed_task now e d (tr_obj R s h)) \<and>
     (\<forall>k. k \<noteq> bt_key (tr_obj R s h) \<longrightarrow> view s' k = view s k)"
proof -
  let ?t = "failed_task now e d (tr_obj R s h)"
  obtain h' s1 where a: "tr_assign R h ?t s = (h', s1)" by fastforce
  from assign [OF assms(1,2) _ a] have 1: "inv s1" "valid s1 h'" "tr_obj R s1 h' = ?t"
    "\<forall>k. k \<noteq> bt_key ?t \<longrightarrow> view s1 k = view s k" "\<forall>k. view s1 k = None \<longleftrightarrow> view s k = None"
    by simp_all
  with assms(3) have "view s1 (bt_key (tr_obj R s1 h')) \<noteq> None" by simp
  from save_claimed [OF 1(1,2) this, of now] obtain s' t where
    "tr_save_claimed R h' now s1 = (Inr h', s')" "inv s'"
    "view s' (bt_key ?t) = Some t" "saved_as t ?t"
    "\<forall>k. k \<noteq> bt_key ?t \<longrightarrow> view s' k = view s1 k"
    unfolding 1(3) by blast
  with a 1(4) show ?thesis by (auto simp: task_fail_def)
qed

lemma succeed_stores:
  assumes "inv s" "valid s h" "view s (bt_key (tr_obj R s h)) \<noteq> None"
  shows "\<exists>h' s' t. task_succeed R now h r s = (Inr h', h', s') \<and> inv s' \<and>
     view s' (bt_key (tr_obj R s h)) = Some t \<and>
     saved_as t (succeeded_task now r (tr_obj R s h)) \<and>
     (\<forall>k. k \<noteq> bt_key (tr_obj R s h) \<longrightarrow> view s' k = view s k)"
proof -
  let ?t = "succeeded_task now r (tr_obj R s h)"
  obtain h' s1 where a: "tr_assign R h ?t s = (h', s1)" by fastforce
  from assign [OF assms(1,2) _ a] have 1: "inv s1" "valid s1 h'" "tr_obj R s1 h' = ?t"
    "\<forall>k. k \<noteq> bt_key ?t \<longrightarrow> view s1 k = view s k" "\<forall>k. view s1 k = None \<longleftrightarrow> view s k = None"
    by simp_all
  with assms(3) have "view s1 (bt_key (tr_obj R s1 h')) \<noteq> None" by simp
  from save_claimed [OF 1(1,2) this, of now] obtain s' t where
    "tr_save_claimed R h' now s1 = (Inr h', s')" "inv s'"
    "view s' (bt_key ?t) = Some t" "saved_as t ?t"
    "\<forall>k. k \<noteq> bt_key ?t \<longrightarrow> view s' k = view s1 k"
    unfolding 1(3) by blast
  with a 1(4) show ?thesis by (auto simp: task_succeed_def)
qed

end

section \<open>The in-memory store meets the contract\<close>

definition mem_valid :: "mem_queue \<Rightarrow> nat \<Rightarrow> bool" where
  "mem_valid q r \<longleftrightarrow> r < length (mq_heap q)"

lemma mem_wfD:
  assumes "mem_wf q" "map_of (mq_tasks q) k = Some r"
  shows "r < length (mq_heap q)" "bt_key (mq_heap q ! r) = k"
  using assms map_of_SomeD [OF assms(2)] by (auto simp: mem_wf_def)

lemma mem_wf_inj:
  assumes "mem_wf q" "map_of (mq_tasks q) k = Some r" "map_of (mq_tasks q) k' = Some r"
  shows "k = k'"
  using mem_wfD(2) [OF assms(1,2)] mem_wfD(2) [OF assms(1,3)] by simp

lemma mem_wf_heap_update:
  assumes "mem_wf q" "r < length (mq_heap q)" "bt_key t = bt_key (mq_heap q ! r)"
  shows "mem_wf (q\<lparr>mq_heap := (mq_heap q)[r := t]\<rparr>)"
  using assms by (fastforce simp: mem_wf_def nth_list_update)

lemma mem_wf_bind:
  assumes "mem_wf q" "r < length (mq_heap q)"
  shows "mem_wf (q\<lparr>mq_tasks := AList.update (bt_key (mq_heap q ! r)) r (mq_tasks q)\<rparr>)"
  using assms by (auto simp: mem_wf_def AList.distinct_update dest!: set_mp [OF set_AList_update])

lemma mem_wf_refs:
  assumes "mem_wf q"
  shows "distinct (map snd (mq_tasks q))" "\<forall>r \<in> set (map snd (mq_tasks q)). r < length (mq_heap q)"
proof -
  have "map fst (mq_tasks q) = map (\<lambda>r. bt_key (mq_heap q ! r)) (map snd (mq_tasks q))"
    using assms by (auto simp: mem_wf_def)
  moreover have "distinct (map fst (mq_tasks q))"
    using assms by (simp add: mem_wf_def)
  ultimately have "distinct (map (\<lambda>r. bt_key (mq_heap q ! r)) (map snd (mq_tasks q)))"
    by metis
  then show "distinct (map snd (mq_tasks q))"
    unfolding distinct_map by blast
  show "\<forall>r \<in> set (map snd (mq_tasks q)). r < length (mq_heap q)"
    using assms by (auto simp: mem_wf_def)
qed

text \<open>The heap after a claim, address by address.\<close>

lemma mem_claim_result:
  assumes "mem_wf q" "mem_claim_next w now lease q = (res, q')"
  defines "refs \<equiv> map snd (mq_tasks q)"
  shows "res = Inr (find (\<lambda>r. claimable now lease (mq_heap q ! r)) refs)"
    and "mq_tasks q' = mq_tasks q" and "length (mq_heap q') = length (mq_heap q)"
    and "\<And>r. r < length (mq_heap q) \<Longrightarrow> mq_heap q' ! r =
      (if find (\<lambda>r. claimable now lease (mq_heap q ! r)) refs = Some r
       then claimed_task w now (mq_heap q ! r)
       else if r \<in> set (takeWhile (\<lambda>r. \<not> claimable now lease (mq_heap q ! r)) refs)
       then swept_task now lease (mq_heap q ! r)
       else mq_heap q ! r)"
  using assms(2) claim_scan_correct [OF mem_wf_refs [OF assms(1)], of w now lease]
  by (auto simp: mem_claim_next_def refs_def Let_def)

lemma find_claimable_ref:
  assumes "find P (map snd (mq_tasks q)) = Some r" "mem_wf q"
  shows "P r \<and> map_of (mq_tasks q) (bt_key (mq_heap q ! r)) = Some r \<and> r < length (mq_heap q)"
proof -
  from assms(1) have "r \<in> set (map snd (mq_tasks q))" "P r"
    by (auto simp: find_Some_iff)
  then obtain k where "(k, r) \<in> set (mq_tasks q)" by auto
  with assms(2) have "map_of (mq_tasks q) k = Some r" "k = bt_key (mq_heap q ! r)"
    "r < length (mq_heap q)"
    by (auto simp: mem_wf_def)
  with \<open>P r\<close> show ?thesis by simp
qed

lemma mem_claim_wf:
  assumes "mem_wf q" "mem_claim_next w now lease q = (res, q')"
  shows "mem_wf q'"
proof -
  note c = mem_claim_result [OF assms]
  have "bt_key (mq_heap q' ! r) = bt_key (mq_heap q ! r)" if "r < length (mq_heap q)" for r
    using c(4) [OF that] by simp
  with c(2,3) assms(1) show ?thesis by (fastforce simp: mem_wf_def)
qed

text \<open>Writing one object changes the view of its own key only.\<close>

lemma mem_view_write:
  assumes "mem_wf q" "k \<noteq> bt_key (mq_heap q ! r)"
  shows "mem_view (q\<lparr>mq_heap := (mq_heap q)[r := t]\<rparr>) k = mem_view q k"
proof (cases "map_of (mq_tasks q) k")
  case (Some a)
  then have "a \<noteq> r" using mem_wfD(2) [OF assms(1)] assms(2) by blast
  with Some show ?thesis by (simp add: mem_view_def mem_obj_def)
qed (simp add: mem_view_def)

lemma mem_obj_tasks [simp]: "mem_obj (q\<lparr>mq_tasks := d\<rparr>) = mem_obj q"
  by (simp add: fun_eq_iff mem_obj_def)

lemma mem_request_cancel_eq:
  "mem_request_cancel i c now q =
     (case map_of (mq_tasks q) (rc_tenant_id c, i) of
        None \<Rightarrow> (Inr None, q)
      | Some r \<Rightarrow>
          (Inr (Some r), q\<lparr>mq_heap := (mq_heap q)[r := cancel_effect now (mem_obj q r)]\<rparr>))"
  by (simp add: mem_request_cancel_def cancel_effect_def Let_def split: option.split)

interpretation mem: task_store mem_repo mem_view mem_wf mem_valid
proof (unfold_locales, goal_cases)
  case (1 s k t)
  then show ?case by (auto simp: mem_view_def mem_obj_def dest: mem_wfD)
next
  case (2 s h t h' s')
  then have h': "h' = h" "s' = s\<lparr>mq_heap := (mq_heap s)[h := t]\<rparr>" "h < length (mq_heap s)"
    "bt_key t = bt_key (mq_heap s ! h)"
    by (auto simp: mem_repo_def mem_assign_def mem_valid_def mem_obj_def)
  show ?case
    unfolding h'(1,2) using h'(3,4) 2(1)
    by (simp add: mem_repo_def mem_valid_def mem_obj_def mem_wf_heap_update mem_view_write)
       (simp add: mem_view_def)
next
  case (3 s h now)
  then show ?case by (simp add: mem_repo_def mem_save_claimed_def mem_view_def Let_def)
next
  case (4 s h now)
  then show ?case
    by (auto simp: mem_repo_def mem_save_claimed_def mem_view_def mem_valid_def mem_obj_def Let_def
        intro!: mem_wf_bind)
next
  case (5 s i c)
  then show ?case
    by (auto simp: mem_repo_def mem_get_task_def mem_view_def mem_valid_def
        dest: mem_wfD split: option.splits)
next
  case (6 s w now lease r s')
  then show ?case
    by (auto simp: mem_repo_def intro: mem_claim_wf dest: mem_claim_result(1))
next
  case (7 s w now lease h s')
  then have c: "mem_claim_next w now lease s = (Inr (Some h), s')"
    by (simp add: mem_repo_def)
  note r = mem_claim_result [OF 7(1) c]
  have f: "find (\<lambda>r. claimable now lease (mq_heap s ! r)) (map snd (mq_tasks s)) = Some h"
    using r(1) by simp
  from find_claimable_ref [OF f 7(1)] r(2-4) f show ?case
    by (auto simp: mem_view_def mem_obj_def mem_valid_def mem_repo_def)
next
  case (8 s w now lease found s' k t)
  then have c: "mem_claim_next w now lease s = (Inr found, s')"
    by (simp add: mem_repo_def)
  note r = mem_claim_result [OF 8(1) c]
  from 8(3) obtain h where h: "map_of (mq_tasks s) k = Some h" "t = mq_heap s ! h"
    by (auto simp: mem_view_def mem_obj_def)
  then have "h < length (mq_heap s)" using 8(1) by (auto dest: mem_wfD)
  from r(4) [OF this] r(2) h 8(1) show ?case
    by (auto simp: mem_view_def mem_obj_def dest!: find_claimable_ref)
next
  case (9 s i c now)
  show ?case
  proof (cases "map_of (mq_tasks s) (rc_tenant_id c, i)")
    case None
    then show ?thesis by (simp add: mem_view_def mem_repo_def mem_request_cancel_def)
  next
    case (Some r)
    note r = mem_wfD [OF 9 Some]
    have "mem_wf (s\<lparr>mq_heap := (mq_heap s)[r := cancel_effect now (mq_heap s ! r)]\<rparr>)"
      by (rule mem_wf_heap_update) (use 9 r in simp_all)
    moreover have "tr_request_cancel mem_repo i c now s =
        (Inr (Some r), s\<lparr>mq_heap := (mq_heap s)[r := cancel_effect now (mq_heap s ! r)]\<rparr>)"
      using Some
      by (simp add: mem_repo_def mem_request_cancel_eq mem_obj_def)
    moreover have "mem_view s (rc_tenant_id c, i) = Some (mq_heap s ! r)"
      using Some by (simp add: mem_view_def mem_obj_def)
    ultimately show ?thesis
      using Some r 9
      by (simp add: mem_view_write mem_valid_def) (simp add: mem_view_def mem_obj_def mem_repo_def)
  qed
qed

end
