(* ===== verification/Task_Queue_Runs.thy ===== *)
theory Task_Queue_Runs
  imports Task_Queue
begin

text \<open>
  Executions of the in-memory task queue: a step relation with one rule per service call, its
  reachable states, and what holds in all of them (the task invariant, the order of claims, that a
  cancellation is final, that the retry budget is kept).
\<close>

section \<open>Executions of the in-memory queue\<close>

text \<open>
  One rule per service call. The error branches of the worker first write a field of the task
  they hold and then call \<open>fail\<close>; the event loop runs nothing in between, so the two are one step.
  A handle may be any object a claim has ever returned, in particular that of a worker whose lease
  has expired. \<open>create\<close> draws a fresh identifier.
\<close>

inductive mem_step :: "mem_queue \<Rightarrow> mem_queue \<Rightarrow> bool" where
  create: "map_of (mq_tasks q) (rc_tenant_id c, uuid) = None \<Longrightarrow>
    task_create mem_repo uuid now kind c payload m q = (r, q') \<Longrightarrow> mem_step q q'"
| cancel: "task_cancel mem_repo now i c q = (r', q') \<Longrightarrow> mem_step q q'"
| claim: "task_claim mem_repo now w lease q = (f, q') \<Longrightarrow> mem_step q q'"
| succeed: "mem_valid q h \<Longrightarrow> task_succeed mem_repo now h res q = (r, h', q') \<Longrightarrow> mem_step q q'"
| fail: "mem_valid q h \<Longrightarrow> task_fail mem_repo now h e d q = (r, h', q') \<Longrightarrow> mem_step q q'"
| fail_cancelled: "mem_valid q h \<Longrightarrow>
    mem_assign h ((mem_obj q h)\<lparr>bt_cancel_requested := True\<rparr>) q = (h1, q1) \<Longrightarrow>
    task_fail mem_repo now h1 e d q1 = (r, h', q') \<Longrightarrow> mem_step q q'"
| fail_for_good: "mem_valid q h \<Longrightarrow>
    mem_assign h ((mem_obj q h)\<lparr>bt_attempts := bt_max_attempts (mem_obj q h)\<rparr>) q = (h1, q1) \<Longrightarrow>
    task_fail mem_repo now h1 e d q1 = (r, h', q') \<Longrightarrow> mem_step q q'"

inductive mem_reachable :: "mem_queue \<Rightarrow> bool" where
  init: "mem_reachable mem_empty"
| step: "mem_reachable q \<Longrightarrow> mem_step q q' \<Longrightarrow> mem_reachable q'"

definition mem_inv :: "mem_queue \<Rightarrow> bool" where
  "mem_inv q \<longleftrightarrow> mem_wf q \<and> (\<forall>t \<in> set (mq_heap q). task_inv t)"

lemma mem_inv_empty: "mem_inv mem_empty"
  by (simp add: mem_inv_def mem_wf_def mem_empty_def)

text \<open>Every call either leaves the store alone or rewrites objects in place.\<close>

lemma mem_inv_write:
  assumes "mem_inv q" "mem_valid q h" "task_inv t" "bt_key t = bt_key (mem_obj q h)"
  shows "mem_inv (q\<lparr>mq_heap := (mq_heap q)[h := t]\<rparr>)"
  using assms
  by (auto simp: mem_inv_def mem_valid_def mem_obj_def intro: mem_wf_heap_update
      dest!: set_mp [OF set_update_subset_insert])

lemma mem_inv_bind:
  assumes "mem_inv q" "mem_valid q h"
  shows "mem_inv (q\<lparr>mq_tasks := AList.update (bt_key (mem_obj q h)) h (mq_tasks q)\<rparr>)"
  using assms by (simp add: mem_inv_def mem_valid_def mem_obj_def mem_wf_bind)

lemma mem_save_claimed_cases:
  "snd (mem_save_claimed h now q) \<in>
     {q, q\<lparr>mq_tasks := AList.update (bt_key (mem_obj q h)) h (mq_tasks q)\<rparr>}"
  by (simp add: mem_save_claimed_def Let_def)

lemma mem_inv_finish:
  assumes "mem_inv q" "mem_valid q h" "task_inv t" "bt_key t = bt_key (mem_obj q h)"
  shows "mem_inv (snd (mem_save_claimed h now (q\<lparr>mq_heap := (mq_heap q)[h := t]\<rparr>)))"
proof -
  let ?q = "q\<lparr>mq_heap := (mq_heap q)[h := t]\<rparr>"
  have "mem_inv ?q" "mem_valid ?q h"
    using mem_inv_write [OF assms] assms(2) by (simp_all add: mem_valid_def)
  with mem_inv_bind [of ?q h] mem_save_claimed_cases [of h now ?q] show ?thesis
    by (metis empty_iff insertE)
qed

lemma mem_obj_inv: "mem_inv q \<Longrightarrow> mem_valid q h \<Longrightarrow> task_inv (mem_obj q h)"
  by (simp add: mem_inv_def mem_valid_def mem_obj_def)

lemma mem_fail_eq:
  "task_fail mem_repo now h e d q =
     (case mem_save_claimed h now
        (q\<lparr>mq_heap := (mq_heap q)[h := failed_task now e d (mem_obj q h)]\<rparr>) of
        (r, s) \<Rightarrow> (r, h, s))"
  by (simp add: task_fail_def mem_repo_def mem_assign_def)

lemma mem_succeed_eq:
  "task_succeed mem_repo now h x q =
     (case mem_save_claimed h now
        (q\<lparr>mq_heap := (mq_heap q)[h := succeeded_task now x (mem_obj q h)]\<rparr>) of
        (r, s) \<Rightarrow> (r, h, s))"
  by (simp add: task_succeed_def mem_repo_def mem_assign_def)

lemma fail_for_good_inv:
  "task_inv t \<Longrightarrow> task_inv (failed_task now e d (t\<lparr>bt_attempts := bt_max_attempts t\<rparr>))"
  by (auto simp: task_inv_def failed_task_def Let_def)

lemma mem_claim_inv:
  assumes "mem_inv q" "mem_claim_next w now lease q = (f, q')"
  shows "mem_inv q'"
proof -
  from assms(1) have wf: "mem_wf q" and inv: "\<forall>t \<in> set (mq_heap q). task_inv t"
    by (simp_all add: mem_inv_def)
  note c = mem_claim_result [OF wf assms(2)]
  have "task_inv (mq_heap q' ! r)" if r: "r < length (mq_heap q)" for r
  proof -
    from inv r have "task_inv (mq_heap q ! r)" by simp
    then show ?thesis
      unfolding c(4) [OF r]
      by (auto simp: find_Some_iff intro: swept_task_inv claimed_task_inv)
  qed
  with c(3) have "\<forall>t \<in> set (mq_heap q'). task_inv t"
    by (auto simp: in_set_conv_nth)
  with mem_claim_wf [OF wf assms(2)] show ?thesis by (simp add: mem_inv_def)
qed

section \<open>What executions never undo\<close>

text \<open>
  \<open>later_task t u\<close>: \<open>u\<close> is a later state of the object \<open>t\<close>. A cancellation request stays, attempts
  only grow.
\<close>

definition later_task :: "background_task \<Rightarrow> background_task \<Rightarrow> bool" where
  "later_task t u \<longleftrightarrow>
     bt_key u = bt_key t \<and> bt_kind u = bt_kind t \<and> bt_max_attempts u = bt_max_attempts t \<and>
     bt_attempts t \<le> bt_attempts u \<and> (bt_cancel_requested t \<longrightarrow> bt_cancel_requested u)"

lemma later_task_refl [simp]: "later_task t t"
  by (simp add: later_task_def)

lemma later_task_trans: "later_task t u \<Longrightarrow> later_task u v \<Longrightarrow> later_task t v"
  by (auto simp: later_task_def)

lemma later_task_ops [simp]:
  "later_task t (claimed_task w now t)"
  "later_task t (swept_task now lease t)"
  "later_task t (succeeded_task now r t)"
  "later_task t (failed_task now e d t)"
  "later_task t (cancel_effect now t)"
  "later_task t (failed_task now e d (t\<lparr>bt_cancel_requested := True\<rparr>))"
  "bt_attempts t \<le> bt_max_attempts t \<Longrightarrow>
     later_task t (failed_task now e d (t\<lparr>bt_attempts := bt_max_attempts t\<rparr>))"
  by (simp_all add: later_task_def claimed_task_def swept_task_def cancelled_task_def
      expired_task_def succeeded_task_def failed_task_def cancel_effect_def Let_def)

definition heap_later :: "mem_queue \<Rightarrow> mem_queue \<Rightarrow> bool" where
  "heap_later q q' \<longleftrightarrow>
     (\<forall>r < length (mq_heap q). r < length (mq_heap q') \<and>
        later_task (mq_heap q ! r) (mq_heap q' ! r))"

lemma heap_later_refl [simp]: "heap_later q q"
  by (simp add: heap_later_def)

lemma heap_later_trans: "heap_later q q1 \<Longrightarrow> heap_later q1 q2 \<Longrightarrow> heap_later q q2"
  by (meson heap_later_def later_task_trans)

lemma heap_later_write:
  "mem_valid q h \<Longrightarrow> later_task (mem_obj q h) t \<Longrightarrow>
     heap_later q (q\<lparr>mq_heap := (mq_heap q)[h := t]\<rparr>)"
  by (auto simp: heap_later_def mem_valid_def mem_obj_def nth_list_update)

lemma heap_later_finish:
  assumes "mem_valid q h" "later_task (mem_obj q h) t"
  shows "heap_later q (snd (mem_save_claimed h now (q\<lparr>mq_heap := (mq_heap q)[h := t]\<rparr>)))"
  using heap_later_write [OF assms]
  by (simp add: mem_save_claimed_def Let_def heap_later_def)

text \<open>
  Every step is one of four: nothing happens; a new object is bound to a fresh key; one object is
  rewritten in place (and saved); a claim scans the queue.
\<close>

definition mem_rewrite :: "nat \<Rightarrow> background_task \<Rightarrow> mem_queue \<Rightarrow> mem_queue" where
  "mem_rewrite h t q = q\<lparr>mq_heap := (mq_heap q)[h := t]\<rparr>"

lemma mem_fail_finish:
  assumes "task_fail mem_repo now h e d q = (r, h', q')"
  shows "q' = snd (mem_save_claimed h now (mem_rewrite h (failed_task now e d (mem_obj q h)) q))"
  using assms by (simp add: mem_fail_eq mem_rewrite_def split: prod.splits)

lemma mem_fail_finish_after:
  assumes "mem_valid q h" "mem_assign h t q = (h1, q1)" "task_fail mem_repo now h1 e d q1 = (r, h', q')"
  shows "q' = snd (mem_save_claimed h now (mem_rewrite h (failed_task now e d t) q))"
  using assms
  by (auto simp: mem_fail_eq mem_rewrite_def mem_assign_def mem_obj_def mem_valid_def
      split: prod.splits)

lemma mem_step_cases:
  assumes "mem_step q q'" "mem_inv q"
  obtains (stay) "q' = q"
  | (fresh) t where "task_inv t" "map_of (mq_tasks q) (bt_key t) = None"
      "q' = q\<lparr>mq_heap := mq_heap q @ [t],
              mq_tasks := AList.update (bt_key t) (length (mq_heap q)) (mq_tasks q)\<rparr>"
  | (rewrite) h t now where "mem_valid q h" "task_inv t" "later_task (mem_obj q h) t"
      "q' \<in> {mem_rewrite h t q, snd (mem_save_claimed h now (mem_rewrite h t q))}"
  | (claim) w now lease f where "mem_claim_next w now lease q = (f, q')"
  using assms(1)
proof cases
  case (create c uuid now kind payload m r)
  let ?t = "new_task uuid now kind c payload m"
  show ?thesis
  proof (cases "m < 1")
    case True
    with create show ?thesis by (intro stay) (simp add: task_create_def)
  next
    case False
    then show ?thesis
      using create
      by (intro fresh [of ?t])
         (auto simp: task_create_def mem_repo_def mem_new_def mem_save_task_def mem_obj_def
           new_task_def task_inv_def)
  qed
next
  case (cancel now i c r')
  show ?thesis
  proof (cases "map_of (mq_tasks q) (rc_tenant_id c, i)")
    case None
    with cancel show ?thesis
      by (intro stay) (simp add: task_cancel_def mem_repo_def mem_request_cancel_eq)
  next
    case (Some h)
    with assms(2) have "mem_valid q h"
      by (auto simp: mem_inv_def mem_valid_def dest: mem_wfD(1))
    with Some cancel assms(2) show ?thesis
      by (intro rewrite [of h "cancel_effect now (mem_obj q h)" now])
         (simp_all add: task_cancel_def mem_repo_def mem_request_cancel_eq mem_rewrite_def
           cancel_effect_inv mem_obj_inv)
  qed
next
  case (claim now w lease f)
  then show ?thesis by (intro that(4)) (simp add: task_claim_def mem_repo_def)
next
  case (succeed h now res r h')
  then have "q' = snd (mem_save_claimed h now (mem_rewrite h (succeeded_task now res (mem_obj q h)) q))"
    by (simp add: mem_succeed_eq mem_rewrite_def split: prod.splits)
  with succeed assms(2) show ?thesis
    by (intro rewrite [of h "succeeded_task now res (mem_obj q h)" now])
       (auto simp: mem_obj_inv intro: succeeded_task_inv)
next
  case (fail h now e d r h')
  with mem_fail_finish [OF fail(2)] assms(2) show ?thesis
    by (intro rewrite [of h "failed_task now e d (mem_obj q h)" now])
       (auto simp: mem_obj_inv intro: failed_task_inv)
next
  case (fail_cancelled h h1 q1 now e d r h')
  have "task_inv (mem_obj q h)"
    using mem_obj_inv assms(2) fail_cancelled(1) by blast
  with mem_fail_finish_after [OF fail_cancelled] show ?thesis
    by (intro rewrite [of h "failed_task now e d ((mem_obj q h)\<lparr>bt_cancel_requested := True\<rparr>)" now])
       (auto simp: fail_cancelled(1) intro: failed_task_inv request_cancel_inv)
next
  case (fail_for_good h h1 q1 now e d r h')
  have "task_inv (mem_obj q h)"
    using mem_obj_inv assms(2) fail_for_good(1) by blast
  with mem_fail_finish_after [OF fail_for_good] show ?thesis
    by (intro rewrite [of h "failed_task now e d
          ((mem_obj q h)\<lparr>bt_attempts := bt_max_attempts (mem_obj q h)\<rparr>)" now])
       (auto simp: fail_for_good(1) task_inv_def [of "mem_obj q h"] intro: fail_for_good_inv)
qed

lemma later_task_key: "later_task t u \<Longrightarrow> bt_key u = bt_key t"
  by (simp add: later_task_def)

lemma mem_step_inv:
  assumes "mem_step q q'" "mem_inv q"
  shows "mem_inv q'"
  using assms
proof (cases rule: mem_step_cases)
  case (fresh t)
  let ?q = "q\<lparr>mq_heap := mq_heap q @ [t]\<rparr>"
  have "mem_inv ?q" "mem_valid ?q (length (mq_heap q))"
    using assms(2) fresh(1) by (fastforce simp: mem_inv_def mem_wf_def nth_append mem_valid_def)+
  from mem_inv_bind [OF this] fresh(3) show ?thesis by (simp add: mem_obj_def)
next
  case (rewrite h t now)
  with assms(2) later_task_key [OF rewrite(3)] show ?thesis
    by (auto simp: mem_rewrite_def intro: mem_inv_write mem_inv_finish)
next
  case (claim w now lease f)
  with assms(2) show ?thesis by (rule mem_claim_inv)
qed (use assms in simp)

lemma mem_step_later:
  assumes "mem_step q q'" "mem_inv q"
  shows "heap_later q q'"
  using assms
proof (cases rule: mem_step_cases)
  case (fresh t)
  then show ?thesis by (simp add: heap_later_def nth_append)
next
  case (rewrite h t now)
  then show ?thesis
    by (auto simp: mem_rewrite_def intro: heap_later_write heap_later_finish)
next
  case (claim w now lease f)
  from assms(2) have "mem_wf q" by (simp add: mem_inv_def)
  from mem_claim_result(3,4) [OF this claim] show ?thesis
    by (auto simp: heap_later_def)
qed simp

text \<open>Every object is the stored one of its key: identifiers are never reused.\<close>

definition mem_bound :: "mem_queue \<Rightarrow> bool" where
  "mem_bound q \<longleftrightarrow> (\<forall>r < length (mq_heap q). map_of (mq_tasks q) (bt_key (mq_heap q ! r)) = Some r)"

lemma mem_step_tasks:
  assumes "mem_step q q'" "mem_inv q" "mem_bound q"
  shows "mem_bound q' \<and> (\<forall>k r. map_of (mq_tasks q) k = Some r \<longrightarrow> map_of (mq_tasks q') k = Some r)"
proof -
  have same: ?thesis if "mq_tasks q' = mq_tasks q" "length (mq_heap q') = length (mq_heap q)"
    using mem_step_later [OF assms(1,2)] assms(3) that
    by (auto simp: heap_later_def later_task_def mem_bound_def)
  show ?thesis
    using assms(1,2)
  proof (cases rule: mem_step_cases)
    case (fresh t)
    then have "bt_key (mq_heap q ! r) \<noteq> bt_key t" if "r < length (mq_heap q)" for r
      using that assms(3) by (auto simp: mem_bound_def)
    with fresh assms(3) show ?thesis
      by (auto simp: mem_bound_def nth_append less_Suc_eq)
  next
    case (rewrite h t now)
    then have "map_of (mq_tasks q) (bt_key t) = Some h"
      using assms(3) later_task_key [OF rewrite(3)]
      by (simp add: mem_bound_def mem_valid_def mem_obj_def)
    with rewrite(1,4) have "mq_tasks q' = mq_tasks q \<and> length (mq_heap q') = length (mq_heap q)"
      by (auto simp: mem_rewrite_def mem_save_claimed_def mem_obj_def mem_valid_def Let_def
          AList.update_triv)
    with same show ?thesis by blast
  next
    case (claim w now lease f)
    with assms(2) show ?thesis
      by (intro same) (simp_all add: mem_inv_def mem_claim_result(2,3))
  qed (use assms in simp)
qed

lemma mem_reachable_inv: "mem_reachable q \<Longrightarrow> mem_inv q"
  by (induction rule: mem_reachable.induct) (auto intro: mem_inv_empty mem_step_inv)

lemma mem_reachable_bound: "mem_reachable q \<Longrightarrow> mem_bound q"
proof (induction rule: mem_reachable.induct)
  case init
  then show ?case by (simp add: mem_bound_def mem_empty_def)
next
  case (step q q')
  then show ?case using mem_step_tasks mem_reachable_inv by blast
qed

lemma mem_steps_later:
  assumes "mem_step\<^sup>*\<^sup>* q q'" "mem_reachable q"
  shows "mem_reachable q' \<and> heap_later q q' \<and>
    (\<forall>k r. map_of (mq_tasks q) k = Some r \<longrightarrow> map_of (mq_tasks q') k = Some r)"
  using assms
proof (induction rule: rtranclp_induct)
  case (step q1 q2)
  then have q1: "mem_reachable q1" by simp
  note inv = mem_reachable_inv [OF q1] mem_reachable_bound [OF q1]
  have "heap_later q q2"
    using step mem_step_later [OF _ inv(1)] heap_later_trans by blast
  moreover have "mem_reachable q2" using q1 step(2) by (rule mem_reachable.step)
  ultimately show ?case
    using step mem_step_tasks [OF step(2) inv] by simp
qed simp

lemma mem_view_inv:
  assumes "mem_reachable q" "mem_view q k = Some t"
  shows "task_inv t \<and> bt_key t = k"
proof -
  from mem_reachable_inv [OF assms(1)] have inv: "mem_inv q" .
  from assms(2) obtain h where h: "map_of (mq_tasks q) k = Some h" "t = mem_obj q h"
    by (auto simp: mem_view_def)
  with inv have "mem_valid q h" "bt_key t = k"
    by (auto simp: mem_inv_def mem_valid_def mem_obj_def dest: mem_wfD)
  with h inv mem_obj_inv show ?thesis by blast
qed

text \<open>The later state of a stored task.\<close>

lemma mem_view_later:
  assumes "mem_step\<^sup>*\<^sup>* q q'" "mem_reachable q" "mem_view q k = Some t"
  shows "\<exists>u. mem_view q' k = Some u \<and> later_task t u"
proof -
  from assms(3) obtain r where r: "map_of (mq_tasks q) k = Some r" "t = mq_heap q ! r"
    by (auto simp: mem_view_def mem_obj_def)
  have "mem_wf q" using mem_reachable_inv [OF assms(2)] by (simp add: mem_inv_def)
  with r have len: "r < length (mq_heap q)" by (auto dest: mem_wfD)
  from mem_steps_later [OF assms(1,2)] have "heap_later q q'"
    and keep: "map_of (mq_tasks q) k = Some r \<Longrightarrow> map_of (mq_tasks q') k = Some r" by blast+
  with len r show ?thesis
    by (simp add: heap_later_def mem_view_def mem_obj_def)
qed

section \<open>Properties of the in-memory queue\<close>

text \<open>Concrete queues for the witnesses: one task created, then claimed, or then cancelled.\<close>

definition demo_context :: request_context where
  "demo_context = RequestContext (U ''r'') (U ''tr'') (U ''thread'') (U ''tenant-a'') (U ''op-a'')"

definition demo_created :: mem_queue where
  "demo_created =
     snd (task_create mem_repo (U ''t1'') 100 (U ''example'') demo_context None 2 mem_empty)"

definition demo_cancelled :: mem_queue where
  "demo_cancelled = snd (task_cancel mem_repo 200 (U ''t1'') demo_context demo_created)"

definition demo_second :: mem_queue where
  "demo_second =
     snd (task_create mem_repo (U ''t2'') 300 (U ''example'') demo_context None 2 demo_cancelled)"

lemmas mem_defs = mem_repo_def mem_obj_def mem_assign_def mem_new_def mem_save_task_def
  mem_get_task_def mem_claim_next_def mem_save_claimed_def mem_request_cancel_def mem_empty_def
  mem_view_def

lemmas service_defs = task_create_def task_get_def task_cancel_def task_claim_def
  task_succeed_def task_fail_def new_task_def succeeded_task_def failed_task_def
  claimed_task_def cancelled_task_def expired_task_def stale_running_def claim_skips_def

lemmas demo_defs = demo_context_def demo_created_def demo_cancelled_def demo_second_def
  RequestContext_def

lemma demo_created_reachable: "mem_reachable demo_created"
  unfolding demo_created_def
  by (rule mem_reachable.step [OF mem_reachable.init mem_step.create [OF _ prod.collapse [symmetric]]])
     (simp add: mem_empty_def)

lemma demo_cancelled_step: "mem_step demo_created demo_cancelled"
  unfolding demo_cancelled_def by (rule mem_step.cancel [OF prod.collapse [symmetric]])

lemma demo_second_step: "mem_step demo_cancelled demo_second"
  unfolding demo_second_def
  by (rule mem_step.create [OF _ prod.collapse [symmetric]])
     (simp add: demo_defs mem_defs service_defs)

lemma demo_created_view:
  "mem_view demo_created (U ''tenant-a'', U ''t1'') =
     Some (new_task (U ''t1'') 100 (U ''example'') demo_context None 2)"
  by (simp add: demo_defs mem_defs task_create_def new_task_def)

text \<open>
  C9: In every state the in-memory queue can reach, through any interleaving of create, cancel, claim
  and the workers' succeed and fail (a worker whose lease has expired included), every stored task is
  filed under its own tenant and id, its attempts stay between 0 and its budget, a task waiting for a
  worker has an attempt left, a running one carries its lease and its worker, and a finished one its
  finishing time.
\<close>

theorem mem_queue_invariant:
  assumes "mem_reachable q" "mem_view q k = Some t"
  shows "bt_key t = k \<and> 0 \<le> bt_attempts t \<and> bt_attempts t \<le> bt_max_attempts t \<and>
    (bt_status t \<in> {Queued, Retry_wait} \<longrightarrow> bt_attempts t < bt_max_attempts t) \<and>
    (bt_status t = Running \<longrightarrow> bt_locked_at t \<noteq> None \<and> bt_locked_by t \<noteq> None) \<and>
    (terminal (bt_status t) \<longrightarrow> bt_finished_at t \<noteq> None) \<and>
    0 \<le> bt_progress t \<and> bt_progress t \<le> 100"
  using mem_view_inv [OF assms] by (simp add: task_inv_def)

theorem mem_queue_invariant_witness:
  "mem_view demo_created (U ''tenant-a'', U ''t1'') \<noteq> None \<and>
   bt_attempts (the (mem_view demo_created (U ''tenant-a'', U ''t1''))) <
   bt_max_attempts (the (mem_view demo_created (U ''tenant-a'', U ''t1'')))"
  using mem_queue_invariant [OF demo_created_reachable demo_created_view]
  by (simp add: demo_created_view new_task_def)

text \<open>
  A claim on the in-memory queue returns the first claimable task in insertion order (queued or
  waiting for a retry that is due, or running with an expired lease and attempts left, and not asked to
  be cancelled) and marks it running under the claiming worker; the tasks it walks past are settled (an
  eligible one whose cancellation was requested becomes cancelled, an expired one without attempts left
  fails) and all other tasks stay as they are.
\<close>

theorem mem_claim_first_claimable:
  assumes "mem_reachable q" "task_claim mem_repo now w lease q = (r, q')"
  defines "refs \<equiv> map snd (mq_tasks q)"
  defines "first \<equiv> find (\<lambda>h. claimable now lease (mem_obj q h)) refs"
  shows "r = Inr first \<and>
    (\<forall>k h. map_of (mq_tasks q) k = Some h \<longrightarrow>
      mem_view q' k = Some
        (if first = Some h then claimed_task w now (mem_obj q h)
         else if h \<in> set (takeWhile (\<lambda>h. \<not> claimable now lease (mem_obj q h)) refs)
         then swept_task now lease (mem_obj q h)
         else mem_obj q h))"
proof -
  have wf: "mem_wf q" using mem_reachable_inv [OF assms(1)] by (simp add: mem_inv_def)
  have c: "mem_claim_next w now lease q = (r, q')"
    using assms(2) by (simp add: task_claim_def mem_repo_def)
  note res = mem_claim_result [OF wf c]
  have "r = Inr first"
    using res(1) by (simp add: first_def refs_def mem_obj_def)
  moreover have "mem_view q' k = Some
        (if first = Some h then claimed_task w now (mem_obj q h)
         else if h \<in> set (takeWhile (\<lambda>h. \<not> claimable now lease (mem_obj q h)) refs)
         then swept_task now lease (mem_obj q h)
         else mem_obj q h)" if "map_of (mq_tasks q) k = Some h" for k h
    using that res(2) res(4) [OF mem_wfD(1) [OF wf that]]
    by (simp add: mem_view_def first_def refs_def mem_obj_def)
  ultimately show ?thesis by blast
qed

theorem mem_claim_first_claimable_witness:
  "fst (task_claim mem_repo 400 (U ''w1'') 360 demo_second) = Inr (Some 1) \<and>
   mem_view (snd (task_claim mem_repo 400 (U ''w1'') 360 demo_second)) (U ''tenant-a'', U ''t2'') =
     Some (claimed_task (U ''w1'') 400 (mem_obj demo_second 1))"
proof -
  have "mem_step\<^sup>*\<^sup>* demo_created demo_second"
    using demo_cancelled_step demo_second_step by auto
  from mem_steps_later [OF this demo_created_reachable] have reach: "mem_reachable demo_second" by simp
  have second: "map_of (mq_tasks demo_second) (U ''tenant-a'', U ''t2'') = Some 1"
    "find (\<lambda>h. claimable 400 360 (mem_obj demo_second h)) (map snd (mq_tasks demo_second)) = Some 1"
    by (simp_all add: demo_defs mem_defs service_defs claimable_def)
  from mem_claim_first_claimable [OF reach prod.collapse [symmetric], of 400 "U ''w1''" 360] second
  show ?thesis by simp
qed

text \<open>
  In the in-memory queue a cancellation request is final: once it is recorded on a stored task,
  no claim by any worker, after any further execution of the queue, returns that task again.
\<close>

theorem mem_cancel_is_final:
  assumes "mem_reachable q" "mem_view q k = Some t" "bt_cancel_requested t"
    and "mem_step\<^sup>*\<^sup>* q q1" "task_claim mem_repo now w lease q1 = (Inr (Some h), q2)"
  shows "bt_key (mem_obj q2 h) \<noteq> k"
proof
  assume k: "bt_key (mem_obj q2 h) = k"
  have "mem_wf q1"
    using mem_steps_later [OF assms(4,1)] mem_reachable_inv by (simp add: mem_inv_def)
  moreover have "tr_claim_next mem_repo w now lease q1 = (Inr (Some h), q2)"
    using assms(5) by (simp add: task_claim_def)
  ultimately obtain u where u: "mem_view q1 (bt_key u) = Some u" "claimable now lease u"
    "tr_obj mem_repo q2 h = claimed_task w now u"
    using mem.claim_took by blast
  then have "bt_key u = k" using k by (simp add: mem_repo_def)
  with u(1) mem_view_later [OF assms(4,1,2)] assms(3) have "bt_cancel_requested u"
    by (auto simp: later_task_def)
  with u(2) show False by (simp add: claimable_def)
qed

theorem mem_cancel_is_final_witness:
  "fst (task_claim mem_repo 400 (U ''w1'') 360 demo_second) = Inr (Some 1) \<and>
   bt_key (mem_obj (snd (task_claim mem_repo 400 (U ''w1'') 360 demo_second)) 1)
     \<noteq> (U ''tenant-a'', U ''t1'')"
proof -
  have reach: "mem_reachable demo_cancelled"
    using demo_created_reachable demo_cancelled_step by (rule mem_reachable.step)
  have view: "mem_view demo_cancelled (U ''tenant-a'', U ''t1'') = Some (mem_obj demo_cancelled 0)"
    "bt_cancel_requested (mem_obj demo_cancelled 0)"
    by (simp_all add: demo_defs mem_defs service_defs)
  have claim: "fst (task_claim mem_repo 400 (U ''w1'') 360 demo_second) = Inr (Some 1)"
    by (simp add: demo_defs mem_defs service_defs)
  then have "task_claim mem_repo 400 (U ''w1'') 360 demo_second =
      (Inr (Some 1), snd (task_claim mem_repo 400 (U ''w1'') 360 demo_second))"
    by (metis prod.collapse)
  from mem_cancel_is_final [OF reach view r_into_rtranclp [of mem_step, OF demo_second_step] this] claim
  show ?thesis by blast
qed

text \<open>
  The number of times a key was handed to a worker along an execution.
\<close>

inductive mem_claims :: "ustr \<times> ustr \<Rightarrow> nat \<Rightarrow> mem_queue \<Rightarrow> bool" for k where
  none: "mem_claims k 0 mem_empty"
| other: "mem_claims k n q \<Longrightarrow> mem_step q q' \<Longrightarrow> mem_claims k n q'"
| claimed: "mem_claims k n q \<Longrightarrow> task_claim mem_repo now w lease q = (Inr (Some h), q') \<Longrightarrow>
    bt_key (mem_obj q' h) = k \<Longrightarrow> mem_claims k (Suc n) q'"

lemma mem_claims_attempts:
  "mem_claims k n q \<Longrightarrow> mem_reachable q \<and>
     (case mem_view q k of None \<Rightarrow> n = 0 | Some t \<Rightarrow> int n \<le> bt_attempts t)"
proof (induction rule: mem_claims.induct)
  case none
  show ?case using mem_reachable.init by (simp add: mem_view_def mem_empty_def)
next
  case (other n q q')
  then have reach: "mem_reachable q'" by (blast intro: mem_reachable.step)
  show ?case
  proof (cases "mem_view q k")
    case None
    with other.IH have "n = 0" by simp
    with reach mem_view_inv [OF reach] show ?thesis
      by (fastforce simp: task_inv_def split: option.splits)
  next
    case (Some t)
    from mem_view_later [OF r_into_rtranclp [of mem_step, OF other.hyps(2)] _ Some] other.IH reach Some
    show ?thesis by (auto simp: later_task_def)
  qed
next
  case (claimed n q now w lease h q')
  then have wf: "mem_wf q" using mem_reachable_inv by (simp add: mem_inv_def)
  have "tr_claim_next mem_repo w now lease q = (Inr (Some h), q')"
    using claimed.hyps(2) by (simp add: task_claim_def)
  from mem.claim_took [OF wf this] obtain u where u: "mem_view q (bt_key u) = Some u"
    "tr_obj mem_repo q' h = claimed_task w now u"
    "mem_view q' (bt_key u) = Some (claimed_task w now u)"
    by blast
  with claimed.hyps(3) have "bt_key u = k" by (simp add: mem_repo_def)
  with u claimed.IH have "int (Suc n) \<le> bt_attempts (claimed_task w now u)"
    by (simp add: claimed_task_def)
  moreover have "mem_reachable q'"
    using claimed mem_step.claim by (blast intro: mem_reachable.step)
  ultimately show ?case using u \<open>bt_key u = k\<close> by simp
qed

text \<open>
  The retry budget of the in-memory queue holds: along any execution a task is handed to workers
  at most \<open>max_attempts\<close> times, whatever the workers do and however often leases expire.
\<close>

theorem mem_retry_budget:
  assumes "mem_claims k n q" "mem_view q k = Some t"
  shows "int n \<le> bt_max_attempts t"
proof -
  from mem_claims_attempts [OF assms(1)] assms(2)
  have "mem_reachable q" "int n \<le> bt_attempts t" by simp_all
  with mem_view_inv [OF _ assms(2)] show ?thesis by (simp add: task_inv_def)
qed

theorem mem_retry_budget_witness:
  "fst (task_claim mem_repo 200 (U ''w1'') 360 demo_created) = Inr (Some 0) \<and>
   int 1 \<le> bt_max_attempts
     (mem_obj (snd (task_claim mem_repo 200 (U ''w1'') 360 demo_created)) 0)"
proof -
  let ?q = "snd (task_claim mem_repo 200 (U ''w1'') 360 demo_created)"
  let ?k = "(U ''tenant-a'', U ''t1'')"
  have "mem_step mem_empty demo_created"
    unfolding demo_created_def
    by (rule mem_step.create [OF _ prod.collapse [symmetric]]) (simp add: mem_empty_def)
  then have zero: "mem_claims ?k 0 demo_created"
    by (rule mem_claims.other [OF mem_claims.none])
  have claim: "fst (task_claim mem_repo 200 (U ''w1'') 360 demo_created) = Inr (Some 0)"
    and key: "bt_key (mem_obj ?q 0) = ?k" and view: "mem_view ?q ?k = Some (mem_obj ?q 0)"
    by (simp_all add: demo_defs mem_defs service_defs)
  then have "task_claim mem_repo 200 (U ''w1'') 360 demo_created = (Inr (Some 0), ?q)"
    by (metis prod.collapse)
  from mem_claims.claimed [OF zero this key] have "mem_claims ?k 1 ?q" by simp
  from mem_retry_budget [OF this view] claim show ?thesis by blast
qed

end
