(* ===== verification/Task_Queue_Sql.thy ===== *)
theory Task_Queue_Sql
  imports Task_Queue
begin

text \<open>
  The tasks of \<open>SqlAlchemyRuntimeStateRepository\<close> (\<open>app/repositories/runtime.py\<close>) over the table
  \<open>background_tasks\<close> (\<open>app/models/persistence.py\<close>).

  A table is the list of its rows; \<open>SELECT ... WHERE\<close> is a filter, \<open>ORDER BY ... LIMIT 1\<close> the head of
  a stable sort. Each method runs in one transaction, so it is one step. \<open>sq_locked\<close> holds the ids of
  the rows that other open transactions have locked at that moment: \<open>SKIP LOCKED\<close> passes over them,
  the plain \<open>FOR UPDATE\<close> of the other methods waits for them. The store hands out copies
  (\<open>_to_task\<close>), so the handle of a task is the copy and assigning to it does not touch the table.
\<close>

section \<open>The table\<close>

record task_row =
  tk_id :: ustr
  tk_tenant_id :: ustr
  tk_created_by :: ustr
  tk_created_at :: instant
  tk_version :: int
  tk_kind :: ustr
  tk_status :: task_status
  tk_progress :: int
  tk_error_code :: "ustr option"
  tk_payload :: jdict
  tk_result :: "jdict option"
  tk_attempts :: int
  tk_max_attempts :: int
  tk_available_at :: instant
  tk_locked_at :: "instant option"
  tk_locked_by :: "ustr option"
  tk_cancel_requested :: bool
  tk_finished_at :: "instant option"

record sql_queue =
  sq_rows :: "task_row list"
  sq_locked :: "ustr set"

definition to_task :: "task_row \<Rightarrow> background_task" where
  "to_task row =
     \<lparr>bt_task_id = tk_id row, bt_tenant_id = tk_tenant_id row, bt_kind = tk_kind row,
      bt_operator_id = tk_created_by row, bt_status = tk_status row,
      bt_progress = tk_progress row, bt_error_code = tk_error_code row,
      bt_payload = Some (tk_payload row), bt_result = tk_result row,
      bt_attempts = tk_attempts row, bt_max_attempts = tk_max_attempts row,
      bt_available_at = Some (tk_available_at row), bt_locked_at = tk_locked_at row,
      bt_locked_by = tk_locked_by row, bt_cancel_requested = tk_cancel_requested row,
      bt_finished_at = tk_finished_at row\<rparr>"

section \<open>The repository\<close>

text \<open>The query both \<open>save_claimed_task\<close>, \<open>request_task_cancel\<close> and \<open>get_task\<close> run.\<close>

definition select_task :: "ustr \<Rightarrow> ustr \<Rightarrow> sql_queue \<Rightarrow> task_row option res" where
  "select_task tenant_id task_id s =
     scalar_one_or_none
       (filter (\<lambda>r. tk_id r = task_id \<and> tk_tenant_id r = tenant_id) (sq_rows s))"

definition write_task :: "task_row \<Rightarrow> sql_queue \<Rightarrow> sql_queue" where
  "write_task row s = s\<lparr>sq_rows := update_row tk_id row (sq_rows s)\<rparr>"

definition sql_save_task ::
  "background_task \<Rightarrow> request_context \<Rightarrow> instant \<Rightarrow> sql_queue \<Rightarrow>
   background_task res \<times> sql_queue" where
  "sql_save_task task context now s =
     (let available = (case bt_available_at task of None \<Rightarrow> now | Some a \<Rightarrow> a);
          payload = (case bt_payload task of None \<Rightarrow> [] | Some p \<Rightarrow> p)
      in case find (\<lambda>r. tk_id r = bt_task_id task) (sq_rows s) of
        None \<Rightarrow>
          (Inr task, s\<lparr>sq_rows := sq_rows s @
            [\<lparr>tk_id = bt_task_id task, tk_tenant_id = rc_tenant_id context,
              tk_created_by = rc_operator_id context, tk_created_at = now, tk_version = 1,
              tk_kind = bt_kind task, tk_status = bt_status task,
              tk_progress = bt_progress task, tk_error_code = bt_error_code task,
              tk_payload = payload, tk_result = bt_result task,
              tk_attempts = bt_attempts task, tk_max_attempts = bt_max_attempts task,
              tk_available_at = available, tk_locked_at = bt_locked_at task,
              tk_locked_by = bt_locked_by task,
              tk_cancel_requested = bt_cancel_requested task,
              tk_finished_at = bt_finished_at task\<rparr>]\<rparr>)
      | Some row \<Rightarrow>
          if tk_tenant_id row \<noteq> rc_tenant_id context
          then (Inl (Exn KeyErr (bt_task_id task)), s)
          else (Inr task, write_task
            (row\<lparr>tk_status := bt_status task, tk_progress := bt_progress task,
                 tk_error_code := bt_error_code task, tk_payload := payload,
                 tk_result := bt_result task, tk_attempts := bt_attempts task,
                 tk_max_attempts := bt_max_attempts task, tk_available_at := available,
                 tk_locked_at := bt_locked_at task, tk_locked_by := bt_locked_by task,
                 tk_cancel_requested := bt_cancel_requested task,
                 tk_finished_at := bt_finished_at task,
                 tk_version := tk_version row + 1\<rparr>) s))"

definition sql_get_task ::
  "ustr \<Rightarrow> request_context \<Rightarrow> sql_queue \<Rightarrow> background_task option res \<times> sql_queue" where
  "sql_get_task task_id context s =
     (map_sum id (map_option to_task) (select_task (rc_tenant_id context) task_id s), s)"

text \<open>The \<open>WHERE\<close> clause of \<open>claim_next_task\<close>; a comparison with \<open>NULL\<close> is not true.\<close>

definition sql_eligible :: "instant \<Rightarrow> int \<Rightarrow> task_row \<Rightarrow> bool" where
  "sql_eligible now lease r \<longleftrightarrow>
     (tk_status r \<in> {Queued, Retry_wait} \<and> tk_available_at r \<le> now) \<or>
     (tk_status r = Running \<and>
      (case tk_locked_at r of None \<Rightarrow> False | Some l \<Rightarrow> l \<le> now - seconds lease))"

definition sql_claim_next ::
  "ustr \<Rightarrow> instant \<Rightarrow> int \<Rightarrow> sql_queue \<Rightarrow> background_task option res \<times> sql_queue" where
  "sql_claim_next worker_id now lease s =
     (case sort_key (\<lambda>r. (tk_available_at r, tk_created_at r))
             (filter (\<lambda>r. sql_eligible now lease r \<and> tk_id r \<notin> sq_locked s) (sq_rows s)) of
        [] \<Rightarrow> (Inr None, s)
      | row # _ \<Rightarrow>
          if tk_cancel_requested row then
            (Inr None, write_task
               (row\<lparr>tk_status := Cancelled, tk_finished_at := Some now,
                    tk_version := tk_version row + 1\<rparr>) s)
          else if tk_status row = Running \<and> tk_attempts row \<ge> tk_max_attempts row then
            (Inr None, write_task
               (row\<lparr>tk_status := Failed, tk_error_code := Some (U ''TASK_LEASE_EXPIRED''),
                    tk_finished_at := Some now, tk_version := tk_version row + 1\<rparr>) s)
          else
            (let row' = row\<lparr>tk_status := Running, tk_attempts := tk_attempts row + 1,
                            tk_progress := max (tk_progress row) 5,
                            tk_locked_by := Some worker_id, tk_locked_at := Some now,
                            tk_version := tk_version row + 1\<rparr>
             in (Inr (Some (to_task row')), write_task row' s)))"

definition sql_save_claimed ::
  "background_task \<Rightarrow> instant \<Rightarrow> sql_queue \<Rightarrow> background_task res \<times> sql_queue" where
  "sql_save_claimed task now s =
     (case select_task (bt_tenant_id task) (bt_task_id task) s of
        Inl e \<Rightarrow> (Inl e, s)
      | Inr None \<Rightarrow> (Inl (Exn KeyErr (bt_task_id task)), s)
      | Inr (Some row) \<Rightarrow>
          (Inr task, write_task
            (row\<lparr>tk_status := bt_status task, tk_progress := bt_progress task,
                 tk_error_code := bt_error_code task, tk_result := bt_result task,
                 tk_available_at := (case bt_available_at task of None \<Rightarrow> now | Some a \<Rightarrow> a),
                 tk_locked_at := bt_locked_at task, tk_locked_by := bt_locked_by task,
                 tk_cancel_requested := bt_cancel_requested task,
                 tk_finished_at := bt_finished_at task,
                 tk_version := tk_version row + 1\<rparr>) s))"

definition sql_request_cancel ::
  "ustr \<Rightarrow> request_context \<Rightarrow> instant \<Rightarrow> sql_queue \<Rightarrow>
   background_task option res \<times> sql_queue" where
  "sql_request_cancel task_id context now s =
     (case select_task (rc_tenant_id context) task_id s of
        Inl e \<Rightarrow> (Inl e, s)
      | Inr None \<Rightarrow> (Inr None, s)
      | Inr (Some row) \<Rightarrow>
          (let r1 = row\<lparr>tk_cancel_requested := True\<rparr>;
               r2 = (if tk_status r1 \<in> {Queued, Retry_wait}
                     then r1\<lparr>tk_status := Cancelled, tk_finished_at := Some now\<rparr> else r1);
               r3 = r2\<lparr>tk_version := tk_version r2 + 1\<rparr>
           in (Inr (Some (to_task r3)), write_task r3 s)))"

definition sql_repo :: "(sql_queue, background_task) task_repo" where
  "sql_repo =
     \<lparr>tr_obj = (\<lambda>s t. t), tr_assign = (\<lambda>h t s. (t, s)), tr_new = (\<lambda>t s. (t, s)),
      tr_save_task = sql_save_task, tr_get_task = sql_get_task,
      tr_claim_next = sql_claim_next, tr_save_claimed = sql_save_claimed,
      tr_request_cancel = sql_request_cancel\<rparr>"

section \<open>The table meets the contract\<close>

abbreviation tk_key :: "task_row \<Rightarrow> ustr \<times> ustr" where
  "tk_key r \<equiv> (tk_tenant_id r, tk_id r)"

definition sql_wf :: "sql_queue \<Rightarrow> bool" where
  "sql_wf s \<longleftrightarrow> distinct (map tk_id (sq_rows s))"

definition sql_row :: "sql_queue \<Rightarrow> ustr \<times> ustr \<Rightarrow> task_row option" where
  "sql_row s k = find (\<lambda>r. tk_key r = k) (sq_rows s)"

definition sql_view :: "sql_queue \<Rightarrow> ustr \<times> ustr \<Rightarrow> background_task option" where
  "sql_view s k = map_option to_task (sql_row s k)"

lemma to_task_key [simp]:
  "bt_tenant_id (to_task r) = tk_tenant_id r"
  "bt_task_id (to_task r) = tk_id r"
  by (simp_all add: to_task_def)

lemma sql_row_SomeD: "sql_row s k = Some r \<Longrightarrow> r \<in> set (sq_rows s) \<and> tk_key r = k"
  by (auto simp: sql_row_def dest: find_SomeD)

lemma sql_row_of: "sql_wf s \<Longrightarrow> r \<in> set (sq_rows s) \<Longrightarrow> sql_row s (tk_key r) = Some r"
  unfolding sql_row_def sql_wf_def by (rule find_distinct_key [where key = tk_id]) auto

lemma select_task_eq: "sql_wf s \<Longrightarrow> select_task t i s = Inr (sql_row s (t, i))"
  unfolding select_task_def sql_row_def sql_wf_def
  by (subst filter_scalar [where key = tk_id and k = i]) (auto intro: find_cong_set)

lemma write_task_wf [simp]: "sql_wf (write_task r s) = sql_wf s"
  by (simp add: sql_wf_def write_task_def)

text \<open>Writing back a changed row replaces the row of its key and no other.\<close>

lemma sql_row_write:
  assumes "sql_wf s" "row \<in> set (sq_rows s)" "tk_key new = tk_key row"
  shows "sql_row (write_task new s) k = (if k = tk_key row then Some new else sql_row s k)"
proof -
  have "\<forall>x \<in> set (sq_rows s). tk_key x = k \<longrightarrow> tk_id x = snd k" by auto
  with find_update_row [of tk_id "sq_rows s" row new "\<lambda>r. tk_key r = k" "snd k"] assms
  show ?thesis by (auto simp: sql_wf_def sql_row_def write_task_def)
qed

lemma sql_view_write:
  assumes "sql_wf s" "row \<in> set (sq_rows s)" "tk_key new = tk_key row"
  shows "sql_view (write_task new s) k = (if k = tk_key row then Some (to_task new) else sql_view s k)"
  using sql_row_write [OF assms] by (simp add: sql_view_def)

lemma sql_eligible_iff: "sql_eligible now lease r \<longleftrightarrow> \<not> claim_skips now lease (to_task r)"
  by (auto simp: sql_eligible_def claim_skips_def stale_running_def to_task_def
      split: option.splits)

text \<open>
  The three outcomes of a claim: nothing eligible and unlocked; the first eligible row is settled and
  nothing is returned; the first eligible row is claimed.
\<close>

definition first_eligible :: "instant \<Rightarrow> int \<Rightarrow> sql_queue \<Rightarrow> task_row option" where
  "first_eligible now lease s =
     (case sort_key (\<lambda>r. (tk_available_at r, tk_created_at r))
             (filter (\<lambda>r. sql_eligible now lease r \<and> tk_id r \<notin> sq_locked s) (sq_rows s)) of
        [] \<Rightarrow> None | r # _ \<Rightarrow> Some r)"

lemma first_eligible_Some:
  assumes "first_eligible now lease s = Some r"
  shows "r \<in> set (sq_rows s) \<and> sql_eligible now lease r \<and> tk_id r \<notin> sq_locked s \<and>
    (\<forall>x \<in> set (sq_rows s). sql_eligible now lease x \<and> tk_id x \<notin> sq_locked s \<longrightarrow>
       (tk_available_at r, tk_created_at r) \<le> (tk_available_at x, tk_created_at x))"
proof -
  let ?f = "\<lambda>r. (tk_available_at r, tk_created_at r)"
  let ?xs = "filter (\<lambda>r. sql_eligible now lease r \<and> tk_id r \<notin> sq_locked s) (sq_rows s)"
  obtain rs where sorted: "sort_key ?f ?xs = r # rs"
    using assms by (auto simp: first_eligible_def split: list.splits)
  then have set: "set (r # rs) = set ?xs" by (metis set_sort)
  have "sorted (map ?f (r # rs))" using sorted by (metis sorted_sort_key)
  then have "\<forall>x \<in> set (r # rs). ?f r \<le> ?f x" by auto
  then have "\<forall>x \<in> set ?xs. ?f r \<le> ?f x" unfolding set .
  moreover have "r \<in> set ?xs" using set by auto
  ultimately show ?thesis by simp
qed

lemma first_eligible_None:
  "first_eligible now lease s = None \<longleftrightarrow>
     (\<forall>x \<in> set (sq_rows s). sql_eligible now lease x \<longrightarrow> tk_id x \<in> sq_locked s)"
proof -
  have "sort_key f xs = [] \<longleftrightarrow> xs = []" for f :: "task_row \<Rightarrow> instant \<times> instant" and xs
    by (metis length_0_conv length_sort)
  then have "first_eligible now lease s = None \<longleftrightarrow>
      filter (\<lambda>r. sql_eligible now lease r \<and> tk_id r \<notin> sq_locked s) (sq_rows s) = []"
    by (simp add: first_eligible_def split: list.split) (metis list.distinct(1))
  then show ?thesis by (auto simp: filter_empty_conv)
qed

definition bump_version :: "task_row \<Rightarrow> task_row" where
  "bump_version r = r\<lparr>tk_version := tk_version r + 1\<rparr>"

lemma sql_claim_cases:
  assumes "sql_claim_next w now lease s = (res, s')"
  obtains (idle) "first_eligible now lease s = None" "res = Inr None" "s' = s"
  | (sweep) row row' where "first_eligible now lease s = Some row"
      "\<not> claimable now lease (to_task row)" "res = Inr None" "s' = write_task row' s"
      "tk_key row' = tk_key row" "to_task row' = swept_task now lease (to_task row)"
  | (take) row row' where "first_eligible now lease s = Some row"
      "claimable now lease (to_task row)" "res = Inr (Some (to_task row'))"
      "s' = write_task row' s" "tk_key row' = tk_key row"
      "to_task row' = claimed_task w now (to_task row)"
proof (cases "first_eligible now lease s")
  case None
  then show ?thesis using assms idle
    by (auto simp: sql_claim_next_def first_eligible_def split: list.splits)
next
  case (Some row)
  then obtain rs where
    rs: "sort_key (\<lambda>r. (tk_available_at r, tk_created_at r))
      (filter (\<lambda>r. sql_eligible now lease r \<and> tk_id r \<notin> sq_locked s) (sq_rows s)) = row # rs"
    by (auto simp: first_eligible_def split: list.splits)
  from first_eligible_Some [OF Some] have el: "sql_eligible now lease row" by simp
  then have not_skip: "\<not> claim_skips now lease (to_task row)" by (simp add: sql_eligible_iff)
  have stale: "stale_running now lease (to_task row) \<longleftrightarrow> tk_status row = Running"
    using el by (auto simp: sql_eligible_def stale_running_def to_task_def)
  consider (c) "tk_cancel_requested row"
    | (e) "\<not> tk_cancel_requested row" "tk_status row = Running" "tk_attempts row \<ge> tk_max_attempts row"
    | (t) "\<not> tk_cancel_requested row"
        "\<not> (tk_status row = Running \<and> tk_attempts row \<ge> tk_max_attempts row)"
    by blast
  then show ?thesis
  proof cases
    case c
    then show ?thesis using assms not_skip
      by (intro sweep [OF Some, of "bump_version
            (row\<lparr>tk_status := Cancelled, tk_finished_at := Some now\<rparr>)"])
         (auto simp: sql_claim_next_def rs claimable_def swept_task_def
          cancelled_task_def to_task_def bump_version_def)
  next
    case e
    then show ?thesis using assms not_skip stale
      by (intro sweep [OF Some, of "bump_version
            (row\<lparr>tk_status := Failed, tk_error_code := Some (U ''TASK_LEASE_EXPIRED''),
                 tk_finished_at := Some now\<rparr>)"])
         (auto simp: sql_claim_next_def rs claimable_def swept_task_def
          expired_task_def to_task_def bump_version_def)
  next
    case t
    then show ?thesis using assms not_skip stale
      by (intro take [OF Some, of "bump_version
            (row\<lparr>tk_status := Running, tk_attempts := tk_attempts row + 1,
                 tk_progress := max (tk_progress row) 5, tk_locked_by := Some w,
                 tk_locked_at := Some now\<rparr>)"])
         (auto simp: sql_claim_next_def rs claimable_def claimed_task_def to_task_def
          bump_version_def Let_def)
  qed
qed

lemma sql_claim_wf:
  assumes "sql_wf s" "sql_claim_next w now lease s = (res, s')"
  shows "sql_wf s'"
  using assms(2) by (cases rule: sql_claim_cases) (use assms(1) in simp_all)

interpretation sql: task_store sql_repo sql_view sql_wf "\<lambda>s t. True"
proof (unfold_locales, goal_cases)
  case (1 s k t)
  then show ?case by (auto simp: sql_view_def dest: sql_row_SomeD)
next
  case (2 s h t h' s')
  then show ?case by (simp add: sql_repo_def)
next
  case (3 s h now)
  then show ?case
    by (simp add: sql_repo_def sql_save_claimed_def select_task_eq sql_view_def)
next
  case (4 s h now)
  then obtain row where row: "sql_row s (bt_key h) = Some row"
    by (auto simp: sql_repo_def sql_view_def)
  then have r: "row \<in> set (sq_rows s)" "tk_key row = bt_key h"
    by (auto dest: sql_row_SomeD)
  define new where "new = bump_version
    (row\<lparr>tk_status := bt_status h, tk_progress := bt_progress h,
         tk_error_code := bt_error_code h, tk_result := bt_result h,
         tk_available_at := (case bt_available_at h of None \<Rightarrow> now | Some a \<Rightarrow> a),
         tk_locked_at := bt_locked_at h, tk_locked_by := bt_locked_by h,
         tk_cancel_requested := bt_cancel_requested h, tk_finished_at := bt_finished_at h\<rparr>)"
  have "sql_save_claimed h now s = (Inr h, write_task new s)"
    using 4(1) row by (simp add: sql_save_claimed_def select_task_eq new_def bump_version_def)
  moreover have "tk_key new = tk_key row" "saved_as (to_task new) h"
    using r by (auto simp: new_def bump_version_def saved_as_def to_task_def)
  ultimately show ?case
    using 4(1) r sql_view_write [OF 4(1) r(1)] by (auto simp: sql_repo_def)
next
  case (5 s i c)
  then show ?case
    by (auto simp: sql_repo_def sql_get_task_def select_task_eq sql_view_def split: option.splits)
next
  case (6 s w now lease r s')
  then have c: "sql_claim_next w now lease s = (r, s')" by (simp add: sql_repo_def)
  from c sql_claim_wf [OF 6(1) c] show ?case by (cases rule: sql_claim_cases) auto
next
  case (7 s w now lease h s')
  then have "sql_claim_next w now lease s = (Inr (Some h), s')" by (simp add: sql_repo_def)
  then show ?case
  proof (cases rule: sql_claim_cases)
    case (take row row')
    from first_eligible_Some [OF take(1)] have row: "row \<in> set (sq_rows s)" by simp
    from sql_row_of [OF 7(1) row] have "sql_view s (tk_key row) = Some (to_task row)"
      by (simp add: sql_view_def)
    with take sql_view_write [OF 7(1) row take(5)] show ?thesis
      by (auto simp: sql_repo_def intro!: exI [of _ "to_task row"])
  qed auto
next
  case (8 s w now lease found s' k t)
  then have "sql_claim_next w now lease s = (Inr found, s')" by (simp add: sql_repo_def)
  then show ?case
  proof (cases rule: sql_claim_cases)
    case idle
    with 8(3) show ?thesis by simp
  next
    case (sweep row row')
    from first_eligible_Some [OF sweep(1)] have row: "row \<in> set (sq_rows s)" by simp
    from sql_row_of [OF 8(1) row] have "sql_view s (tk_key row) = Some (to_task row)"
      by (simp add: sql_view_def)
    with 8(3) sweep sql_view_write [OF 8(1) row sweep(5)] show ?thesis
      by (cases "k = tk_key row") auto
  next
    case (take row row')
    from first_eligible_Some [OF take(1)] have row: "row \<in> set (sq_rows s)" by simp
    from sql_row_of [OF 8(1) row] have "sql_view s (tk_key row) = Some (to_task row)"
      by (simp add: sql_view_def)
    with 8(3) take sql_view_write [OF 8(1) row take(5)] show ?thesis
      by (cases "k = tk_key row") auto
  qed
next
  case (9 s i c now)
  show ?case
  proof (cases "sql_row s (rc_tenant_id c, i)")
    case None
    with 9 show ?thesis
      by (simp add: sql_repo_def sql_request_cancel_def select_task_eq sql_view_def)
  next
    case (Some row)
    then have r: "row \<in> set (sq_rows s)" "tk_key row = (rc_tenant_id c, i)"
      by (auto dest: sql_row_SomeD)
    define new where "new = bump_version
      (if tk_status row \<in> {Queued, Retry_wait}
       then row\<lparr>tk_cancel_requested := True, tk_status := Cancelled, tk_finished_at := Some now\<rparr>
       else row\<lparr>tk_cancel_requested := True\<rparr>)"
    have "sql_request_cancel i c now s = (Inr (Some (to_task new)), write_task new s)"
      using 9 Some
      by (simp add: sql_request_cancel_def select_task_eq new_def bump_version_def Let_def)
    moreover have n: "tk_key new = tk_key row" "to_task new = cancel_effect now (to_task row)"
      by (auto simp: new_def bump_version_def cancel_effect_def cancelled_task_def to_task_def)
    moreover note sql_view_write [OF 9 r(1) n(1)]
    moreover have "sql_view s (rc_tenant_id c, i) = Some (to_task row)"
      using Some by (simp add: sql_view_def)
    ultimately show ?thesis
      using 9 r(2) by (simp add: sql_repo_def)
  qed
qed

end
