(* ===== verification/Task_Worker.thy ===== *)
theory Task_Worker
  imports Py_Text Task_Queue_Runs Task_Queue_Sql
begin

text \<open>
  \<open>app/services/task_worker.py\<close>: the worker that claims a task, runs its handler and records the
  outcome.

  A handler is awaited under \<open>asyncio.timeout\<close>; an expired timeout is the outcome \<open>TimeoutErr\<close>. While
  a handler is awaited other tasks of the event loop and other processes run: a handler is any function
  of the whole store state, so it also stands for what they do to the store meanwhile. Successive
  readings of the clock are \<open>clk 0\<close> (claim), \<open>clk 1\<close> (\<open>succeed\<close>) and \<open>clk 2\<close> (\<open>fail\<close>).
\<close>

type_synonym ('s, 'h) task_handler = "'h \<Rightarrow> request_context \<Rightarrow> 's \<Rightarrow> jdict res \<times> 's"

record ('s, 'h) task_worker =
  wk_handlers :: "(ustr \<times> ('s, 'h) task_handler) list"
  wk_worker_id :: ustr
  wk_lease_timeout :: int
  wk_retry_delay :: int

section \<open>One round of the worker\<close>

definition task_context :: "ustr \<Rightarrow> ustr \<Rightarrow> background_task \<Rightarrow> request_context" where
  "task_context request_id trace_id t =
     RequestContext request_id trace_id (U ''task:'' @ bt_task_id t) (bt_tenant_id t)
       (if bt_operator_id t = [] then U ''system-worker'' else bt_operator_id t)"

text \<open>
  The body of the \<open>try\<close>. The caller's object is part of the result: it is the task as the \<open>except\<close>
  clauses see it.
\<close>

definition run_body ::
  "('s, 'h) task_repo \<Rightarrow> ('s, 'h) task_handler \<Rightarrow> request_context \<Rightarrow> (nat \<Rightarrow> instant) \<Rightarrow>
   'h \<Rightarrow> 's \<Rightarrow> unit res \<times> 'h \<times> 's" where
  "run_body R handler context clk h s =
     (case handler h context s of
        (Inl e, s) \<Rightarrow> (Inl e, h, s)
      | (Inr result, s) \<Rightarrow>
         (case task_get R (bt_task_id (tr_obj R s h)) context s of
            (Inl e, s) \<Rightarrow> (Inl e, h, s)
          | (Inr latest, s) \<Rightarrow>
              if bt_cancel_requested (tr_obj R s latest) then
                (case tr_assign R h ((tr_obj R s h)\<lparr>bt_cancel_requested := True\<rparr>) s of
                   (h, s) \<Rightarrow> (Inl (Exn TaskCancelledErr []), h, s))
              else
                (case task_succeed R (clk 1) h result s of
                   (Inl e, h, s) \<Rightarrow> (Inl e, h, s)
                 | (Inr _, h, s) \<Rightarrow> (Inr (), h, s))))"

definition report_failure ::
  "('s, 'h) task_repo \<Rightarrow> instant \<Rightarrow> 'h \<Rightarrow> ustr \<Rightarrow> int \<Rightarrow> 's \<Rightarrow> bool res \<times> 's" where
  "report_failure R now h code delay s =
     (case task_fail R now h code delay s of
        (Inl e, _, s) \<Rightarrow> (Inl e, s)
      | (Inr _, _, s) \<Rightarrow> (Inr True, s))"

text \<open>The \<open>except\<close> clauses, in their order.\<close>

definition run_except ::
  "('s, 'h) task_repo \<Rightarrow> int \<Rightarrow> instant \<Rightarrow> exn \<Rightarrow> 'h \<Rightarrow> 's \<Rightarrow> bool res \<times> 's" where
  "run_except R retry_delay now e h s =
     (if caught e [TaskCancelledErr] then
        (case tr_assign R h ((tr_obj R s h)\<lparr>bt_cancel_requested := True\<rparr>) s of
           (h, s) \<Rightarrow> report_failure R now h (U ''TASK_CANCELLED'') 0 s)
      else if caught e [TimeoutErr] then
        report_failure R now h (U ''TASK_TIMEOUT'') retry_delay s
      else if caught e [KeyErr, TypeErr, ValueErr] then
        (case tr_assign R h ((tr_obj R s h)\<lparr>bt_attempts := bt_max_attempts (tr_obj R s h)\<rparr>) s of
           (h, s) \<Rightarrow> report_failure R now h (U ''INVALID_TASK_PAYLOAD'') 0 s)
      else if caught e [ExceptionC] then
        report_failure R now h (U ''TASK_EXECUTION_FAILED'') retry_delay s
      else (Inl e, s))"

text \<open>What \<open>run_once\<close> does with a task it has claimed.\<close>

definition process_task ::
  "('s, 'h) task_repo \<Rightarrow> ('s, 'h) task_worker \<Rightarrow> (nat \<Rightarrow> instant) \<Rightarrow> ustr \<times> ustr \<Rightarrow>
   'h \<Rightarrow> 's \<Rightarrow> bool res \<times> 's" where
  "process_task R w clk ids h s =
     (let t = tr_obj R s h; context = task_context (fst ids) (snd ids) t in
      case map_of (wk_handlers w) (bt_kind t) of
        None \<Rightarrow>
          (case tr_assign R h (t\<lparr>bt_attempts := bt_max_attempts t\<rparr>) s of
             (h, s) \<Rightarrow> report_failure R (clk 2) h (U ''TASK_HANDLER_NOT_FOUND'') 0 s)
      | Some handler \<Rightarrow>
          (case run_body R handler context clk h s of
             (Inr _, h, s) \<Rightarrow> (Inr True, s)
           | (Inl e, h, s) \<Rightarrow> run_except R (wk_retry_delay w) (clk 2) e h s))"

definition run_once ::
  "('s, 'h) task_repo \<Rightarrow> ('s, 'h) task_worker \<Rightarrow> (nat \<Rightarrow> instant) \<Rightarrow> ustr \<times> ustr \<Rightarrow> 's \<Rightarrow>
   bool res \<times> 's" where
  "run_once R w clk ids s =
     (case task_claim R (clk 0) (wk_worker_id w) (wk_lease_timeout w) s of
        (Inl e, s) \<Rightarrow> (Inl e, s)
      | (Inr None, s) \<Rightarrow> (Inr False, s)
      | (Inr (Some h), s) \<Rightarrow> process_task R w clk ids h s)"

section \<open>What a round leaves in the store\<close>

text \<open>
  The task a round writes, from the task \<open>t\<close> the worker holds, the outcome of the handler and whether
  the stored task has a cancellation request after the handler. That request counts only when the handler
  returned; after an exception only the task the worker holds is consulted (by \<open>fail\<close>).
\<close>

definition settled_task ::
  "int \<Rightarrow> (nat \<Rightarrow> instant) \<Rightarrow> jdict res \<Rightarrow> bool \<Rightarrow> background_task \<Rightarrow> background_task" where
  "settled_task retry_delay clk out cancel t =
     (case out of
        Inr result \<Rightarrow>
          if cancel
          then failed_task (clk 2) (U ''TASK_CANCELLED'') 0 (t\<lparr>bt_cancel_requested := True\<rparr>)
          else succeeded_task (clk 1) result t
      | Inl e \<Rightarrow>
          if caught e [TaskCancelledErr]
          then failed_task (clk 2) (U ''TASK_CANCELLED'') 0 (t\<lparr>bt_cancel_requested := True\<rparr>)
          else if caught e [TimeoutErr]
          then failed_task (clk 2) (U ''TASK_TIMEOUT'') retry_delay t
          else if caught e [KeyErr, TypeErr, ValueErr]
          then failed_task (clk 2) (U ''INVALID_TASK_PAYLOAD'') 0
                 (t\<lparr>bt_attempts := bt_max_attempts t\<rparr>)
          else failed_task (clk 2) (U ''TASK_EXECUTION_FAILED'') retry_delay t)"

lemma settled_task_status:
  "bt_status (settled_task d clk out cancel t) \<in> {Succeeded, Failed, Cancelled, Retry_wait}"
  by (simp add: settled_task_def succeeded_task_def failed_task_def Let_def split: sum.split)

lemma settled_task_key [simp]:
  "bt_tenant_id (settled_task d clk out cancel t) = bt_tenant_id t"
  "bt_task_id (settled_task d clk out cancel t) = bt_task_id t"
  by (simp_all add: settled_task_def split: sum.split)

lemma caught_cancelled [simp]: "caught (Exn TaskCancelledErr m) [TaskCancelledErr]"
  by (simp add: caught_def isa_def)

lemma task_context_tenant [simp]: "rc_tenant_id (task_context a b t) = bt_tenant_id t"
  by (simp add: task_context_def RequestContext_def)

context task_store
begin

lemma assign_all:
  assumes "inv s" "valid s h" "bt_key t = bt_key (tr_obj R s h)" "view s (bt_key t) \<noteq> None"
  shows "\<exists>h' s'. tr_assign R h t s = (h', s') \<and> inv s' \<and> valid s' h' \<and> tr_obj R s' h' = t \<and>
    view s' (bt_key t) \<noteq> None \<and> (\<forall>k. k \<noteq> bt_key t \<longrightarrow> view s' k = view s k)"
proof -
  obtain h' s' where a: "tr_assign R h t s = (h', s')" by fastforce
  from assign [OF assms(1-3) a] assms(4) a show ?thesis by metis
qed

lemma report_failure_stores:
  assumes "inv s" "valid s h" "view s (bt_key (tr_obj R s h)) \<noteq> None"
  shows "\<exists>s' u. report_failure R now h c d s = (Inr True, s') \<and> inv s' \<and>
     view s' (bt_key (tr_obj R s h)) = Some u \<and> saved_as u (failed_task now c d (tr_obj R s h)) \<and>
     (\<forall>k. k \<noteq> bt_key (tr_obj R s h) \<longrightarrow> view s' k = view s k)"
  using fail_stores [OF assms, of now c d] by (auto simp: report_failure_def)

text \<open>Writing a field of the held task and then reporting the failure.\<close>

lemma assign_then_fail:
  assumes "inv s" "valid s h" "view s (bt_key (tr_obj R s h)) \<noteq> None"
    and "bt_key t = bt_key (tr_obj R s h)"
  shows "\<exists>s' u. (case tr_assign R h t s of (h, s) \<Rightarrow> report_failure R now h c d s) = (Inr True, s') \<and>
     inv s' \<and> view s' (bt_key t) = Some u \<and> saved_as u (failed_task now c d t) \<and>
     (\<forall>k. k \<noteq> bt_key t \<longrightarrow> view s' k = view s k)"
proof -
  from assign_all [OF assms(1,2,4)] assms(3,4) obtain h1 s1 where
    1: "tr_assign R h t s = (h1, s1)" "inv s1" "valid s1 h1" "tr_obj R s1 h1 = t"
      "view s1 (bt_key t) \<noteq> None" "\<forall>k. k \<noteq> bt_key t \<longrightarrow> view s1 k = view s k"
    by auto
  from report_failure_stores [OF 1(2,3), of now c d] 1 show ?thesis by auto
qed

text \<open>
  The whole \<open>try\<close> statement. The handler may have done anything to the store as long as the store is
  still well formed, the held object is still valid and the task has not been deleted.
\<close>

lemma process_task_outcome:
  assumes handler: "map_of (wk_handlers w) (bt_kind (tr_obj R s h)) = Some f"
    and run: "f h (task_context (fst ids) (snd ids) (tr_obj R s h)) s = (out, s1)"
    and s1: "inv s1" "valid s1 h" "bt_key (tr_obj R s1 h) = bt_key (tr_obj R s h)"
      "view s1 (bt_key (tr_obj R s h)) = Some v"
    and known: "\<forall>e. out = Inl e \<longrightarrow> isa (exn_class e) ExceptionC"
  shows "\<exists>s' u. process_task R w clk ids h s = (Inr True, s') \<and> inv s' \<and>
    view s' (bt_key (tr_obj R s h)) = Some u \<and>
    saved_as u (settled_task (wk_retry_delay w) clk out (bt_cancel_requested v) (tr_obj R s1 h)) \<and>
    (\<forall>k. k \<noteq> bt_key (tr_obj R s h) \<longrightarrow> view s' k = view s1 k)"
proof -
  let ?c = "task_context (fst ids) (snd ids) (tr_obj R s h)"
  let ?t = "tr_obj R s1 h"
  have here: "view s1 (bt_key ?t) \<noteq> None" using s1(3,4) by simp
  note aft = assign_then_fail [OF s1(1,2) here] and rep = report_failure_stores [OF s1(1,2) here]
  show ?thesis
  proof (cases out)
    case (Inl e)
    have body: "process_task R w clk ids h s = run_except R (wk_retry_delay w) (clk 2) e h s1"
      using handler run by (simp add: process_task_def run_body_def Let_def Inl)
    have "isa (exn_class e) ExceptionC" using known Inl by simp
    then have last: "caught e [ExceptionC]" by (simp add: caught_def)
    consider (canc) "caught e [TaskCancelledErr]"
      | (timeout) "\<not> caught e [TaskCancelledErr]" "caught e [TimeoutErr]"
      | (invalid) "\<not> caught e [TaskCancelledErr]" "\<not> caught e [TimeoutErr]"
          "caught e [KeyErr, TypeErr, ValueErr]"
      | (other) "\<not> caught e [TaskCancelledErr]" "\<not> caught e [TimeoutErr]"
          "\<not> caught e [KeyErr, TypeErr, ValueErr]"
      by blast
    then show ?thesis
    proof cases
      case canc
      with aft [of "?t\<lparr>bt_cancel_requested := True\<rparr>" "clk 2" "U ''TASK_CANCELLED''" 0] s1(3)
      show ?thesis by (simp add: body run_except_def settled_task_def Inl)
    next
      case timeout
      with rep [of "clk 2" "U ''TASK_TIMEOUT''" "wk_retry_delay w"] s1(3)
      show ?thesis by (simp add: body run_except_def settled_task_def Inl)
    next
      case invalid
      with aft [of "?t\<lparr>bt_attempts := bt_max_attempts ?t\<rparr>" "clk 2" "U ''INVALID_TASK_PAYLOAD''" 0] s1(3)
      show ?thesis by (simp add: body run_except_def settled_task_def Inl)
    next
      case other
      with rep [of "clk 2" "U ''TASK_EXECUTION_FAILED''" "wk_retry_delay w"] s1(3) last
      show ?thesis by (simp add: body run_except_def settled_task_def Inl)
    qed
  next
    case (Inr result)
    have "view s1 (rc_tenant_id ?c, bt_task_id ?t) = Some v" using s1(3,4) by simp
    with get [OF s1(1), of "bt_task_id ?t" ?c] obtain l where
      l: "tr_get_task R (bt_task_id ?t) ?c s1 = (Inr (Some l), s1)" "tr_obj R s1 l = v"
      by auto
    show ?thesis
    proof (cases "bt_cancel_requested v")
      case True
      define t1 where "t1 = ?t\<lparr>bt_cancel_requested := True\<rparr>"
      have k1: "bt_key t1 = bt_key ?t" by (simp add: t1_def)
      from assign_all [OF s1(1,2) k1] here k1 obtain h2 s2 where
        2: "tr_assign R h t1 s1 = (h2, s2)" "inv s2" "valid s2 h2" "tr_obj R s2 h2 = t1"
          "view s2 (bt_key t1) \<noteq> None" "\<forall>k. k \<noteq> bt_key t1 \<longrightarrow> view s2 k = view s1 k"
        by auto
      have body: "run_body R f ?c clk h s = (Inl (Exn TaskCancelledErr []), h2, s2)"
        using run l True 2(1) by (simp add: run_body_def task_get_def Inr t1_def)
      have "bt_key (t1\<lparr>bt_cancel_requested := True\<rparr>) = bt_key (tr_obj R s2 h2)"
        using 2(4) by simp
      from assign_then_fail [OF 2(2,3) _ this, of "clk 2" "U ''TASK_CANCELLED''" 0] 2(4-6)
      have "\<exists>s' u. run_except R (wk_retry_delay w) (clk 2) (Exn TaskCancelledErr []) h2 s2 =
          (Inr True, s') \<and> inv s' \<and> view s' (bt_key t1) = Some u \<and>
          saved_as u (failed_task (clk 2) (U ''TASK_CANCELLED'') 0 t1) \<and>
          (\<forall>k. k \<noteq> bt_key t1 \<longrightarrow> view s' k = view s1 k)"
        by (auto simp: run_except_def t1_def)
      then show ?thesis
        using handler body True s1(3)
        by (simp add: process_task_def Let_def settled_task_def Inr t1_def)
    next
      case False
      from succeed_stores [OF s1(1,2) here, of "clk 1" result] obtain h' s' u where
        "task_succeed R (clk 1) h result s1 = (Inr h', h', s')" "inv s'"
        "view s' (bt_key ?t) = Some u" "saved_as u (succeeded_task (clk 1) result ?t)"
        "\<forall>k. k \<noteq> bt_key ?t \<longrightarrow> view s' k = view s1 k"
        by blast
      then show ?thesis
        using handler run l False s1(3)
        by (simp add: process_task_def run_body_def task_get_def Let_def settled_task_def Inr)
    qed
  qed
qed

text \<open>A task without a registered handler fails for good.\<close>

lemma process_task_unknown_kind:
  assumes "map_of (wk_handlers w) (bt_kind (tr_obj R s h)) = None"
    and "inv s" "valid s h" "view s (bt_key (tr_obj R s h)) \<noteq> None"
  shows "\<exists>s' u. process_task R w clk ids h s = (Inr True, s') \<and> inv s' \<and>
    view s' (bt_key (tr_obj R s h)) = Some u \<and>
    saved_as u (failed_task (clk 2) (U ''TASK_HANDLER_NOT_FOUND'') 0
      ((tr_obj R s h)\<lparr>bt_attempts := bt_max_attempts (tr_obj R s h)\<rparr>)) \<and>
    (\<forall>k. k \<noteq> bt_key (tr_obj R s h) \<longrightarrow> view s' k = view s k)"
  using assign_then_fail [OF assms(2-4), of
      "(tr_obj R s h)\<lparr>bt_attempts := bt_max_attempts (tr_obj R s h)\<rparr>" "clk 2"
      "U ''TASK_HANDLER_NOT_FOUND''" 0] assms(1)
  by (simp add: process_task_def Let_def)

end

section \<open>Properties of the worker\<close>

lemma run_once_claimed:
  assumes "task_claim R (clk 0) (wk_worker_id w) (wk_lease_timeout w) s = (Inr (Some h), s1)"
  shows "run_once R w clk ids s = process_task R w clk ids h s1"
  using assms by (simp add: run_once_def)

text \<open>One queued task of the example kind, and a worker for it, for the witnesses.\<close>

definition demo_row :: task_row where
  "demo_row =
     \<lparr>tk_id = U ''t1'', tk_tenant_id = U ''tenant-a'', tk_created_by = U ''op-a'',
      tk_created_at = 100, tk_version = 1, tk_kind = U ''example'', tk_status = Queued,
      tk_progress = 0, tk_error_code = None, tk_payload = [], tk_result = None,
      tk_attempts = 0, tk_max_attempts = 2, tk_available_at = 100, tk_locked_at = None,
      tk_locked_by = None, tk_cancel_requested = False, tk_finished_at = None\<rparr>"

definition demo_table :: sql_queue where
  "demo_table = \<lparr>sq_rows = [demo_row], sq_locked = {}\<rparr>"

definition demo_worker :: "('s, 'h) task_handler \<Rightarrow> ('s, 'h) task_worker" where
  "demo_worker f =
     \<lparr>wk_handlers = [(U ''example'', f)], wk_worker_id = U ''w1'', wk_lease_timeout = 360,
      wk_retry_delay = 10\<rparr>"

definition demo_done :: "('s, 'h) task_handler" where
  "demo_done h context s = (Inr [], s)"

definition demo_clock :: "nat \<Rightarrow> instant" where
  "demo_clock n = 200"

definition demo_claimed :: background_task where
  "demo_claimed = claimed_task (U ''w1'') 200 (to_task demo_row)"

definition demo_claimed_table :: sql_queue where
  "demo_claimed_table = snd (sql_claim_next (U ''w1'') 200 360 demo_table)"

lemma demo_sql_claim:
  "task_claim sql_repo (demo_clock 0) (wk_worker_id (demo_worker f)) (wk_lease_timeout (demo_worker f)) demo_table =
     (Inr (Some demo_claimed), demo_claimed_table)"
  by (simp add: task_claim_def sql_repo_def demo_worker_def demo_clock_def demo_claimed_table_def demo_table_def
      sql_claim_next_def sql_eligible_def demo_row_def demo_claimed_def claimed_task_def to_task_def)

lemma demo_sql_view:
  "sql_wf demo_table" "sql_wf demo_claimed_table"
  "sql_view demo_claimed_table (U ''tenant-a'', U ''t1'') = Some demo_claimed"
  "bt_key demo_claimed = (U ''tenant-a'', U ''t1'')" "bt_kind demo_claimed = U ''example''"
  by (simp_all add: sql_wf_def demo_claimed_table_def demo_table_def sql_claim_next_def
      sql_eligible_def demo_row_def demo_claimed_def claimed_task_def to_task_def sql_view_def
      sql_row_def write_task_def update_row_def Let_def)

lemma demo_worker_handler: "map_of (wk_handlers (demo_worker f)) (U ''example'') = Some f"
  by (simp add: demo_worker_def)

text \<open>
  C10: With the database store, a round of the worker that has claimed a task of a kind with a registered handler
  ends by recording the outcome in the task's row (\<open>settled_task\<close>), provided that the handler returned or raised an
  \<open>Exception\<close>, and that what it and other processes did to the table meanwhile left it well formed and the row in it.
  The task is recorded as cancelled when the handler raised \<open>TaskCancelled\<close>, or returned while the stored task
  had been cancelled, and as succeeded with the result when it returned otherwise. After any other exception the
  stored task is not looked at again, so a cancellation stored meanwhile is lost: unless the copy the worker claimed
  already asked for it, an invalid payload (\<open>KeyError\<close>, \<open>TypeError\<close>, \<open>ValueError\<close>) fails the task for good, and a
  timeout or another exception gives a retry, or a failure on the last attempt, with the stable error code. The row
  is no longer running and no other row is touched.
\<close>

theorem sql_run_once_outcome:
  assumes "sql_wf s"
    and "task_claim sql_repo (clk 0) (wk_worker_id w) (wk_lease_timeout w) s = (Inr (Some t), s1)"
    and "map_of (wk_handlers w) (bt_kind t) = Some f"
    and "f t (task_context (fst ids) (snd ids) t) s1 = (out, s2)"
    and "sql_wf s2" "sql_view s2 (bt_key t) = Some v"
    and "\<forall>e. out = Inl e \<longrightarrow> isa (exn_class e) ExceptionC"
  shows "\<exists>s' u. run_once sql_repo w clk ids s = (Inr True, s') \<and>
    sql_view s' (bt_key t) = Some u \<and>
    saved_as u (settled_task (wk_retry_delay w) clk out (bt_cancel_requested v) t) \<and>
    bt_status u \<noteq> Running \<and>
    (\<forall>k. k \<noteq> bt_key t \<longrightarrow> sql_view s' k = sql_view s2 k)"
proof -
  have obj: "tr_obj sql_repo s t = t" for s by (simp add: sql_repo_def)
  from sql.process_task_outcome [where w = w and h = t and s = s1 and f = f and ids = ids
      and out = out and ?s1.0 = s2 and v = v and clk = clk, unfolded obj, OF assms(3,4,5) _ _ assms(6,7)]
  obtain s' u where su: "process_task sql_repo w clk ids t s1 = (Inr True, s')"
    "sql_view s' (bt_key t) = Some u"
    "saved_as u (settled_task (wk_retry_delay w) clk out (bt_cancel_requested v) t)"
    "\<forall>k. k \<noteq> bt_key t \<longrightarrow> sql_view s' k = sql_view s2 k"
    by auto
  from su(3) settled_task_status [of "wk_retry_delay w" clk out "bt_cancel_requested v" t]
  have "bt_status u \<noteq> Running" by (auto simp: saved_as_def)
  with su run_once_claimed [of sql_repo clk w, OF assms(2)] show ?thesis by auto
qed

theorem sql_run_once_outcome_witness:
  "\<exists>s' u. run_once sql_repo (demo_worker demo_done) demo_clock (U ''r'', U ''tr'') demo_table =
      (Inr True, s') \<and>
    sql_view s' (U ''tenant-a'', U ''t1'') = Some u \<and> bt_status u = Succeeded"
proof -
  have "\<exists>s' u. run_once sql_repo (demo_worker demo_done) demo_clock (U ''r'', U ''tr'') demo_table =
      (Inr True, s') \<and> sql_view s' (bt_key demo_claimed) = Some u \<and>
    saved_as u (settled_task (wk_retry_delay (demo_worker demo_done :: (sql_queue, background_task) task_worker))
      demo_clock (Inr []) (bt_cancel_requested demo_claimed) demo_claimed) \<and>
    bt_status u \<noteq> Running \<and>
    (\<forall>k. k \<noteq> bt_key demo_claimed \<longrightarrow> sql_view s' k = sql_view demo_claimed_table k)"
    by (rule sql_run_once_outcome [where f = demo_done and ?s1.0 = demo_claimed_table])
       (simp_all add: demo_sql_view demo_worker_handler demo_sql_claim demo_done_def)
  moreover have "\<not> bt_cancel_requested demo_claimed"
    by (simp add: demo_claimed_def claimed_task_def demo_row_def to_task_def)
  ultimately show ?thesis
    by (auto simp: demo_sql_view saved_as_def settled_task_def succeeded_task_def)
qed

text \<open>
  With the in-memory store a cancellation requested while the handler runs is honoured: the task
  ends as cancelled whatever the handler returned and whichever \<open>Exception\<close> it raised.
\<close>

theorem mem_run_once_honours_cancel:
  assumes "mem_wf s"
    and "task_claim mem_repo (clk 0) (wk_worker_id w) (wk_lease_timeout w) s = (Inr (Some h), s1)"
    and "map_of (wk_handlers w) (bt_kind (mem_obj s1 h)) = Some f"
    and "f h (task_context (fst ids) (snd ids) (mem_obj s1 h)) s1 = (out, s2)"
    and "mem_wf s2" "mem_valid s2 h" "mem_view s2 (bt_key (mem_obj s1 h)) = Some (mem_obj s2 h)"
    and "bt_cancel_requested (mem_obj s2 h)"
    and "\<forall>e. out = Inl e \<longrightarrow> isa (exn_class e) ExceptionC"
  shows "\<exists>s' u. run_once mem_repo w clk ids s = (Inr True, s') \<and>
    mem_view s' (bt_key (mem_obj s1 h)) = Some u \<and> bt_status u = Cancelled \<and>
    bt_finished_at u = Some (clk 2)"
proof -
  have obj: "tr_obj mem_repo = mem_obj" by (simp add: mem_repo_def)
  have key: "bt_key (mem_obj s2 h) = bt_key (mem_obj s1 h)"
    using mem.view_key [OF assms(5,7)] .
  from mem.process_task_outcome [where w = w and h = h and s = s1 and f = f and ids = ids
      and out = out and ?s1.0 = s2 and v = "mem_obj s2 h" and clk = clk, unfolded obj,
      OF assms(3,4,5,6) key assms(7,9)]
  obtain s' u where su: "process_task mem_repo w clk ids h s1 = (Inr True, s')"
    "mem_view s' (bt_key (mem_obj s1 h)) = Some u"
    "saved_as u (settled_task (wk_retry_delay w) clk out True (mem_obj s2 h))"
    using assms(8) by auto
  from su(3) assms(8) have "bt_status u = Cancelled \<and> bt_finished_at u = Some (clk 2)"
    by (auto simp: saved_as_def settled_task_def failed_task_def Let_def split: sum.splits if_splits)
  with su run_once_claimed [of mem_repo clk w, OF assms(2)] show ?thesis by auto
qed

text \<open>A handler that is cancelled from outside while it runs and then exceeds its timeout.\<close>

definition demo_overrun :: "('s, 'h) task_repo \<Rightarrow> ('s, 'h) task_handler" where
  "demo_overrun R h context s =
     (Inl (Exn TimeoutErr []),
      snd (task_cancel R 250 (bt_task_id (tr_obj R s h)) context s))"

theorem mem_run_once_honours_cancel_witness:
  "\<exists>s' u. run_once mem_repo (demo_worker (demo_overrun mem_repo)) demo_clock (U ''r'', U ''tr'')
      demo_created = (Inr True, s') \<and>
    mem_view s' (U ''tenant-a'', U ''t1'') = Some u \<and> bt_status u = Cancelled"
proof -
  let ?w = "demo_worker (demo_overrun mem_repo)"
  let ?s1 = "snd (mem_claim_next (U ''w1'') 200 360 demo_created)"
  let ?c = "task_context (U ''r'') (U ''tr'') (mem_obj ?s1 0)"
  let ?s2 = "snd (demo_overrun mem_repo 0 ?c ?s1)"
  have claim: "task_claim mem_repo (demo_clock 0) (wk_worker_id ?w) (wk_lease_timeout ?w) demo_created =
      (Inr (Some 0), ?s1)"
    by (simp add: demo_defs mem_defs service_defs demo_worker_def demo_clock_def)
  have key: "bt_key (mem_obj ?s1 0) = (U ''tenant-a'', U ''t1'')" "bt_kind (mem_obj ?s1 0) = U ''example''"
    by (simp_all add: demo_defs mem_defs service_defs)
  have s2: "mem_wf ?s2" "mem_valid ?s2 0" "mem_view ?s2 (U ''tenant-a'', U ''t1'') = Some (mem_obj ?s2 0)"
    "bt_cancel_requested (mem_obj ?s2 0)"
    by (simp_all add: demo_defs mem_defs service_defs demo_overrun_def task_context_def mem_wf_def
        mem_valid_def)
  have wf: "mem_wf demo_created"
    using mem_reachable_inv [OF demo_created_reachable] by (simp add: mem_inv_def)
  have "\<exists>s' u. run_once mem_repo ?w demo_clock (U ''r'', U ''tr'') demo_created = (Inr True, s') \<and>
    mem_view s' (bt_key (mem_obj ?s1 0)) = Some u \<and> bt_status u = Cancelled \<and>
    bt_finished_at u = Some (demo_clock 2)"
    by (rule mem_run_once_honours_cancel [where s = demo_created and clk = demo_clock and w = ?w
          and h = 0 and ?s1.0 = ?s1 and f = "demo_overrun mem_repo"
          and out = "Inl (Exn TimeoutErr [])" and ?s2.0 = ?s2 and ids = "(U ''r'', U ''tr'')"])
       (use s2 key wf claim in \<open>simp_all add: demo_worker_handler, simp_all add: demo_overrun_def isa_def\<close>)
  then show ?thesis unfolding key by blast
qed

text \<open>
  With the database store the same request is lost: the worker holds a copy, and when its handler
  fails for another reason (a timeout or any error other than cancellation) while attempts are left, the
  failure record overwrites the stored request. The task waits for a retry and the request is gone.
\<close>

theorem sql_run_once_loses_cancel:
  assumes "sql_wf s"
    and "task_claim sql_repo (clk 0) (wk_worker_id w) (wk_lease_timeout w) s = (Inr (Some t), s1)"
    and "map_of (wk_handlers w) (bt_kind t) = Some f"
    and "f t (task_context (fst ids) (snd ids) t) s1 = (Inl e, s2)"
    and "caught e [TimeoutErr]" "\<not> caught e [TaskCancelledErr]" "isa (exn_class e) ExceptionC"
    and "sql_wf s2" "sql_view s2 (bt_key t) = Some v" "bt_cancel_requested v"
    and "\<not> bt_cancel_requested t" "bt_attempts t < bt_max_attempts t"
  shows "\<exists>s' u. run_once sql_repo w clk ids s = (Inr True, s') \<and>
    sql_view s' (bt_key t) = Some u \<and> bt_status u = Retry_wait \<and> \<not> bt_cancel_requested u"
proof -
  have obj: "tr_obj sql_repo s t = t" for s by (simp add: sql_repo_def)
  from sql.process_task_outcome [where w = w and h = t and s = s1 and f = f and ids = ids
      and out = "Inl e" and ?s1.0 = s2 and v = v and clk = clk, unfolded obj,
      OF assms(3,4,8) _ _ assms(9)] assms(7)
  obtain s' u where su: "process_task sql_repo w clk ids t s1 = (Inr True, s')"
    "sql_view s' (bt_key t) = Some u"
    "saved_as u (settled_task (wk_retry_delay w) clk (Inl e) (bt_cancel_requested v) t)"
    by auto
  from su(3) assms(5,6,11,12) have "bt_status u = Retry_wait \<and> \<not> bt_cancel_requested u"
    by (auto simp: saved_as_def settled_task_def failed_task_def Let_def)
  with su run_once_claimed [of sql_repo clk w, OF assms(2)] show ?thesis by auto
qed

theorem sql_run_once_loses_cancel_witness:
  "\<exists>s' u. run_once sql_repo (demo_worker (demo_overrun sql_repo)) demo_clock (U ''r'', U ''tr'')
      demo_table = (Inr True, s') \<and>
    sql_view s' (U ''tenant-a'', U ''t1'') = Some u \<and> bt_status u = Retry_wait \<and>
    \<not> bt_cancel_requested u"
proof -
  let ?c = "task_context (U ''r'') (U ''tr'') demo_claimed"
  let ?s2 = "snd (demo_overrun sql_repo demo_claimed ?c demo_claimed_table)"
  have s2: "sql_wf ?s2" "sql_view ?s2 (U ''tenant-a'', U ''t1'') =
      Some (demo_claimed\<lparr>bt_cancel_requested := True\<rparr>)"
    by (simp_all add: demo_overrun_def task_cancel_def sql_repo_def sql_request_cancel_def
        select_task_def demo_claimed_table_def demo_table_def sql_claim_next_def sql_eligible_def
        demo_row_def demo_claimed_def claimed_task_def to_task_def sql_view_def sql_row_def sql_wf_def
        write_task_def update_row_def Let_def task_context_def RequestContext_def)
  have facts: "bt_attempts demo_claimed < bt_max_attempts demo_claimed"
    "\<not> bt_cancel_requested demo_claimed"
    by (simp_all add: demo_claimed_def claimed_task_def demo_row_def to_task_def)
  have "\<exists>s' u. run_once sql_repo (demo_worker (demo_overrun sql_repo)) demo_clock (U ''r'', U ''tr'')
      demo_table = (Inr True, s') \<and>
    sql_view s' (bt_key demo_claimed) = Some u \<and> bt_status u = Retry_wait \<and> \<not> bt_cancel_requested u"
    by (rule sql_run_once_loses_cancel [where f = "demo_overrun sql_repo" and ?s1.0 = demo_claimed_table
          and ?s2.0 = ?s2 and e = "Exn TimeoutErr []" and v = "demo_claimed\<lparr>bt_cancel_requested := True\<rparr>"])
       (use s2 facts in \<open>simp_all add: demo_sql_view demo_worker_handler demo_sql_claim
          demo_overrun_def isa_def caught_def\<close>)
  then show ?thesis unfolding demo_sql_view .
qed

end
