(* ===== verification/Task_Fleet.thy ===== *)
theory Task_Fleet
  imports Task_Worker
begin

text \<open>
  Several worker processes over the database queue, with time.

  The state is the table, a common clock and the copy of the task each worker process is running. Every
  transaction is one step, as it is in the database: the API creates and cancels tasks, a worker claims
  one, a worker writes the outcome of the one it holds (\<open>save_claimed_task\<close> with the fields its handler's
  outcome gives it, see \<open>settled_task\<close>), a worker dies, other transactions lock rows, time passes.

  \<open>run_worker\<close> refuses to start unless \<open>TASK_WORKER_LEASE_SECONDS\<close> exceeds
  \<open>TASK_WORKER_TIMEOUT_SECONDS\<close>. What that is for is the discipline of a run: a worker writes the outcome
  of a task before its lease on it has run out. Runs that keep it satisfy the invariant below; nothing in
  the table enforces it, so the runs without it are shown as well.
\<close>

record fleet =
  fl_now :: instant
  fl_table :: sql_queue
  fl_held :: "nat \<Rightarrow> background_task option"

definition lease_held :: "int \<Rightarrow> instant \<Rightarrow> background_task \<Rightarrow> bool" where
  "lease_held lease now t \<longleftrightarrow>
     (case bt_locked_at t of None \<Rightarrow> False | Some l \<Rightarrow> now < l + seconds lease)"

text \<open>The copy a worker process that holds \<open>t\<close> may write back at time \<open>now\<close>.\<close>

definition worker_writes :: "instant \<Rightarrow> background_task \<Rightarrow> background_task \<Rightarrow> bool" where
  "worker_writes now t t' \<longleftrightarrow>
     (\<exists>d out cancel. t' = settled_task d (\<lambda>_. now) out cancel t) \<or>
     t' = failed_task now (U ''TASK_HANDLER_NOT_FOUND'') 0 (t\<lparr>bt_attempts := bt_max_attempts t\<rparr>)"

definition fleet_start :: "instant \<Rightarrow> fleet" where
  "fleet_start now = \<lparr>fl_now = now, fl_table = \<lparr>sq_rows = [], sq_locked = {}\<rparr>, fl_held = (\<lambda>_. None)\<rparr>"

inductive fleet_step :: "bool \<Rightarrow> int \<Rightarrow> fleet \<Rightarrow> fleet \<Rightarrow> bool" for disciplined lease where
  tick: "fl_now f \<le> now \<Longrightarrow> fleet_step disciplined lease f (f\<lparr>fl_now := now\<rparr>)"
| lock: "fleet_step disciplined lease f (f\<lparr>fl_table := (fl_table f)\<lparr>sq_locked := l\<rparr>\<rparr>)"
| create: "uuid \<notin> tk_id ` set (sq_rows (fl_table f)) \<Longrightarrow>
    task_create sql_repo uuid (fl_now f) kind c payload m (fl_table f) = (r, tab) \<Longrightarrow>
    fleet_step disciplined lease f (f\<lparr>fl_table := tab\<rparr>)"
| cancel: "task_cancel sql_repo (fl_now f) i c (fl_table f) = (r, tab) \<Longrightarrow>
    fleet_step disciplined lease f (f\<lparr>fl_table := tab\<rparr>)"
| claim: "fl_held f p = None \<Longrightarrow>
    task_claim sql_repo (fl_now f) w lease (fl_table f) = (Inr found, tab) \<Longrightarrow>
    fleet_step disciplined lease f (f\<lparr>fl_table := tab, fl_held := (fl_held f)(p := found)\<rparr>)"
| finish: "fl_held f p = Some t \<Longrightarrow> disciplined \<longrightarrow> lease_held lease (fl_now f) t \<Longrightarrow>
    worker_writes (fl_now f) t t' \<Longrightarrow>
    sql_save_claimed t' (fl_now f) (fl_table f) = (r', tab) \<Longrightarrow>
    fleet_step disciplined lease f (f\<lparr>fl_table := tab, fl_held := (fl_held f)(p := None)\<rparr>)"
| crash: "fleet_step disciplined lease f (f\<lparr>fl_held := (fl_held f)(p := None)\<rparr>)"

inductive fleet_reachable :: "bool \<Rightarrow> int \<Rightarrow> fleet \<Rightarrow> bool" for disciplined lease where
  init: "fleet_reachable disciplined lease (fleet_start now)"
| step: "fleet_reachable disciplined lease f \<Longrightarrow> fleet_step disciplined lease f f' \<Longrightarrow>
    fleet_reachable disciplined lease f'"

section \<open>The effect of each transaction on the stored tasks\<close>

lemma sql_view_append:
  assumes "tk_id r \<notin> tk_id ` set (sq_rows s)"
  shows "sql_view (s\<lparr>sq_rows := sq_rows s @ [r]\<rparr>) k =
    (if k = tk_key r then Some (to_task r) else sql_view s k)"
proof -
  have "find P (xs @ [r]) = (case find P xs of None \<Rightarrow> if P r then Some r else None | Some x \<Rightarrow> Some x)"
    for P and xs :: "task_row list"
    by (induction xs) auto
  moreover have "sql_row s (tk_key r) = None"
    unfolding sql_row_def find_None_iff using assms by (metis Pair_inject imageI)
  ultimately show ?thesis
    by (auto simp: sql_view_def sql_row_def split: option.split)
qed

lemma sql_create_effect:
  assumes "sql_wf s" "uuid \<notin> tk_id ` set (sq_rows s)"
    and "task_create sql_repo uuid now kind c payload m s = (r, s')"
  shows "sql_wf s' \<and> (s' = s \<or>
    (\<exists>u. task_inv u \<and> (\<forall>k. sql_view s' k = (if k = (rc_tenant_id c, uuid) then Some u else sql_view s k))) \<and>
      sql_view s (rc_tenant_id c, uuid) = None)"
proof (cases "m < 1")
  case True
  then show ?thesis using assms by (simp add: task_create_def)
next
  case False
  define row where "row =
     \<lparr>tk_id = uuid, tk_tenant_id = rc_tenant_id c, tk_created_by = rc_operator_id c,
      tk_created_at = now, tk_version = 1, tk_kind = kind, tk_status = Queued, tk_progress = 0,
      tk_error_code = None, tk_payload = (case payload of None \<Rightarrow> [] | Some p \<Rightarrow> p),
      tk_result = None, tk_attempts = 0, tk_max_attempts = m, tk_available_at = now,
      tk_locked_at = None, tk_locked_by = None, tk_cancel_requested = False,
      tk_finished_at = None\<rparr>"
  have none: "find (\<lambda>r. tk_id r = uuid) (sq_rows s) = None"
    using assms(2) by (auto simp: find_None_iff)
  have s': "s' = s\<lparr>sq_rows := sq_rows s @ [row]\<rparr>"
    using assms(3) False none
    by (auto simp: task_create_def sql_repo_def new_task_def sql_save_task_def row_def)
  have key: "tk_key row = (rc_tenant_id c, uuid)" "tk_id row = uuid" by (simp_all add: row_def)
  have view: "sql_view s' k = (if k = (rc_tenant_id c, uuid) then Some (to_task row) else sql_view s k)"
    for k
    unfolding s' key(1) [symmetric] by (rule sql_view_append) (use assms(2) key in simp)
  have "task_inv (to_task row)"
    using False by (simp add: task_inv_def to_task_def row_def)
  moreover have "sql_wf s'"
    using assms(1,2) key(2) by (simp add: s' sql_wf_def)
  moreover have "sql_view s (rc_tenant_id c, uuid) = None"
    using assms(2) by (force simp: sql_view_def sql_row_def find_None_iff)
  ultimately show ?thesis using view by blast
qed

lemma sql_cancel_effect:
  assumes "sql_wf s" "task_cancel sql_repo now i c s = (r, s')"
  shows "sql_wf s' \<and> (s' = s \<or> (\<exists>t. sql_view s (rc_tenant_id c, i) = Some t \<and>
    (\<forall>k. sql_view s' k = (if k = (rc_tenant_id c, i) then Some (cancel_effect now t) else sql_view s k))))"
  using sql.cancel [OF assms(1), where c = c and i = i and now = now] assms
  by (auto simp: task_cancel_def split: option.splits)

text \<open>\<open>save_claimed_task\<close> keeps the stored attempts and budget, whatever the copy says.\<close>

lemma sql_save_claimed_effect:
  assumes "sql_wf s" "sql_save_claimed t now s = (r, s')"
  shows "sql_wf s' \<and>
    (sql_view s (bt_key t) = None \<longrightarrow> s' = s) \<and>
    (\<forall>v. sql_view s (bt_key t) = Some v \<longrightarrow>
      (\<exists>u. (\<forall>k. sql_view s' k = (if k = bt_key t then Some u else sql_view s k)) \<and>
        saved_as u t \<and> bt_attempts u = bt_attempts v \<and> bt_max_attempts u = bt_max_attempts v))"
proof (cases "sql_row s (bt_key t)")
  case None
  then show ?thesis using assms
    by (simp add: sql_save_claimed_def select_task_eq sql_view_def)
next
  case (Some row)
  then have r: "row \<in> set (sq_rows s)" "tk_key row = bt_key t"
    by (auto dest: sql_row_SomeD)
  define new where "new = bump_version
    (row\<lparr>tk_status := bt_status t, tk_progress := bt_progress t,
         tk_error_code := bt_error_code t, tk_result := bt_result t,
         tk_available_at := (case bt_available_at t of None \<Rightarrow> now | Some a \<Rightarrow> a),
         tk_locked_at := bt_locked_at t, tk_locked_by := bt_locked_by t,
         tk_cancel_requested := bt_cancel_requested t, tk_finished_at := bt_finished_at t\<rparr>)"
  have s': "s' = write_task new s"
    using assms Some by (simp add: sql_save_claimed_def select_task_eq new_def bump_version_def)
  have n: "tk_key new = tk_key row" "saved_as (to_task new) t"
    "bt_attempts (to_task new) = tk_attempts row" "bt_max_attempts (to_task new) = tk_max_attempts row"
    using r by (auto simp: new_def bump_version_def saved_as_def to_task_def)
  have v: "sql_view s (bt_key t) = Some (to_task row)"
    using Some by (simp add: sql_view_def)
  have "\<forall>k. sql_view s' k = (if k = bt_key t then Some (to_task new) else sql_view s k)"
    unfolding s' using sql_view_write [OF assms(1) r(1) n(1)] r(2) by simp
  then show ?thesis
    using n v assms(1) by (auto simp: s' to_task_def intro!: exI [of _ "to_task new"])
qed

section \<open>The invariant of disciplined runs\<close>

text \<open>The stored task still is the claim the copy \<open>t\<close> was made by.\<close>

definition claim_stands :: "background_task \<Rightarrow> background_task \<Rightarrow> bool" where
  "claim_stands t u \<longleftrightarrow>
     bt_status u = Running \<and> bt_locked_at u = bt_locked_at t \<and>
     bt_attempts u = bt_attempts t \<and> bt_max_attempts u = bt_max_attempts t"

definition held_inv ::
  "int \<Rightarrow> instant \<Rightarrow> sql_queue \<Rightarrow> (nat \<Rightarrow> background_task option) \<Rightarrow> bool" where
  "held_inv lease now tab held \<longleftrightarrow>
     sql_wf tab \<and>
     (\<forall>k t. sql_view tab k = Some t \<longrightarrow> task_inv t) \<and>
     (\<forall>p t. held p = Some t \<longrightarrow> task_inv t \<and>
        (lease_held lease now t \<longrightarrow>
           (\<exists>u. sql_view tab (bt_key t) = Some u \<and> claim_stands t u))) \<and>
     (\<forall>p q t t'. held p = Some t \<longrightarrow> held q = Some t' \<longrightarrow> bt_key t = bt_key t' \<longrightarrow>
        lease_held lease now t \<longrightarrow> lease_held lease now t' \<longrightarrow> p = q)"

definition fleet_inv :: "int \<Rightarrow> fleet \<Rightarrow> bool" where
  "fleet_inv lease f \<longleftrightarrow> held_inv lease (fl_now f) (fl_table f) (fl_held f)"

lemma held_invD:
  assumes "held_inv lease now tab held"
  shows "sql_wf tab" "sql_view tab k = Some t \<Longrightarrow> task_inv t" "held p = Some t \<Longrightarrow> task_inv t"
    "held p = Some t \<Longrightarrow> lease_held lease now t \<Longrightarrow>
       \<exists>u. sql_view tab (bt_key t) = Some u \<and> claim_stands t u"
    "held p = Some t \<Longrightarrow> held q = Some t' \<Longrightarrow> bt_key t = bt_key t' \<Longrightarrow>
       lease_held lease now t \<Longrightarrow> lease_held lease now t' \<Longrightarrow> p = q"
  using assms unfolding held_inv_def by blast+

lemma lease_held_mono: "lease_held lease now' t \<Longrightarrow> now \<le> now' \<Longrightarrow> lease_held lease now t"
  by (auto simp: lease_held_def split: option.splits)

lemma held_inv_empty: "held_inv lease now \<lparr>sq_rows = [], sq_locked = {}\<rparr> (\<lambda>_. None)"
  by (simp add: held_inv_def sql_wf_def sql_view_def sql_row_def)

lemma held_inv_tick:
  assumes "held_inv lease now tab held" "now \<le> now'"
  shows "held_inv lease now' tab held"
  unfolding held_inv_def
proof (intro conjI allI impI)
  fix p q t t'
  assume "held p = Some t" "held q = Some t'" "bt_key t = bt_key t'"
    "lease_held lease now' t" "lease_held lease now' t'"
  then show "p = q" using held_invD(5) [OF assms(1)] lease_held_mono [OF _ assms(2)] by blast
next
  fix p t assume "held p = Some t" "lease_held lease now' t"
  then show "\<exists>u. sql_view tab (bt_key t) = Some u \<and> claim_stands t u"
    using held_invD(4) [OF assms(1)] lease_held_mono [OF _ assms(2)] by blast
qed (use held_invD(1-3) [OF assms(1)] in blast)+

lemma held_inv_release:
  assumes "held_inv lease now tab held"
  shows "held_inv lease now tab (held(p := None))"
proof -
  have sub: "held q = Some t" if "(held(p := None)) q = Some t" for q t
    using that by (simp split: if_splits)
  show ?thesis
    unfolding held_inv_def
    using held_invD(1,2) [OF assms] held_invD(3-5) [OF assms sub] sub by blast
qed

text \<open>A step that only touches stored tasks: the invariant follows from what it does to each.\<close>

lemma held_inv_table:
  assumes "held_inv lease now tab held" "sql_wf tab'"
    and "\<And>k u. sql_view tab' k = Some u \<Longrightarrow> task_inv u"
    and "\<And>p t u. held p = Some t \<Longrightarrow> lease_held lease now t \<Longrightarrow>
      sql_view tab (bt_key t) = Some u \<Longrightarrow> claim_stands t u \<Longrightarrow>
      \<exists>u'. sql_view tab' (bt_key t) = Some u' \<and> claim_stands t u'"
  shows "held_inv lease now tab' held"
  unfolding held_inv_def
proof (intro conjI allI impI)
  fix p t assume p: "held p = Some t"
  then show "task_inv t" using held_invD(3) [OF assms(1)] by blast
  assume live: "lease_held lease now t"
  from held_invD(4) [OF assms(1) p live] assms(4) [OF p live]
  show "\<exists>u. sql_view tab' (bt_key t) = Some u \<and> claim_stands t u" by blast
next
  fix p q t t'
  assume "held p = Some t" "held q = Some t'" "bt_key t = bt_key t'"
    "lease_held lease now t" "lease_held lease now t'"
  then show "p = q" using held_invD(5) [OF assms(1)] by blast
qed (use assms(2,3) in blast)+

text \<open>One row changes, in a way that keeps a claim that stands.\<close>

lemma held_inv_row:
  assumes "held_inv lease now tab held" "sql_wf tab'"
    and "\<And>k. sql_view tab' k = (if k = k0 then Some u' else sql_view tab k)" "task_inv u'"
    and "\<And>p t u. held p = Some t \<Longrightarrow> lease_held lease now t \<Longrightarrow> bt_key t = k0 \<Longrightarrow>
      sql_view tab k0 = Some u \<Longrightarrow> claim_stands t u \<Longrightarrow> claim_stands t u'"
  shows "held_inv lease now tab' held"
proof (rule held_inv_table [OF assms(1,2)])
  show "task_inv u" if "sql_view tab' k = Some u" for k u
    using that assms(3,4) held_invD(2) [OF assms(1)] by (simp split: if_splits)
next
  fix p t u
  assume a: "held p = Some t" "lease_held lease now t" "sql_view tab (bt_key t) = Some u" "claim_stands t u"
  show "\<exists>u'. sql_view tab' (bt_key t) = Some u' \<and> claim_stands t u'"
  proof (cases "bt_key t = k0")
    case True
    with a assms(5) [OF a(1,2)] show ?thesis by (simp add: assms(3))
  next
    case False
    with a show ?thesis by (auto simp: assms(3))
  qed
qed

text \<open>A live claim is not eligible, so no claim touches it.\<close>

lemma claim_keeps_live:
  assumes "sql_wf s" "sql_claim_next w now lease s = (Inr found, s')"
    and "sql_view s k = Some u" "claim_stands t u" "lease_held lease now t"
  shows "sql_view s' k = Some u" and "\<not> claimable now lease u"
proof -
  have "claim_skips now lease u"
    using assms(4,5)
    by (auto simp: claim_stands_def lease_held_def claim_skips_def stale_running_def
        split: option.splits)
  then have c: "\<not> claimable now lease u" "swept_task now lease u = u"
    by (simp_all add: claimable_def swept_task_def)
  then show "\<not> claimable now lease u" by simp
  have "tr_claim_next sql_repo w now lease s = (Inr found, s')"
    using assms(2) by (simp add: sql_repo_def)
  from sql.claim_others [OF assms(1) this assms(3)] c show "sql_view s' k = Some u" by auto
qed

section \<open>Each step keeps the invariant\<close>

lemma claim_stands_cancel:
  "claim_stands t u \<Longrightarrow> claim_stands t (cancel_effect now u)"
  by (simp add: claim_stands_def cancel_effect_def Let_def)

lemma sql_claim_no_new:
  assumes "sql_wf s" "sql_claim_next w now lease s = (r, s')" "sql_view s k = None"
  shows "sql_view s' k = None"
proof -
  have "k \<noteq> tk_key row" if "first_eligible now lease s = Some row" for row
    using first_eligible_Some [OF that] sql_row_of [OF assms(1)] assms(3)
    by (auto simp: sql_view_def)
  with assms(2,3) show ?thesis
    by (cases rule: sql_claim_cases)
       (use sql_view_write [OF assms(1)] first_eligible_Some in metis)+
qed

lemma held_inv_claim:
  assumes inv: "held_inv lease now tab held" and p: "held p = None"
    and c: "sql_claim_next w now lease tab = (Inr found, tab')"
  shows "held_inv lease now tab' (held(p := found))"
proof -
  note wf = held_invD(1) [OF inv]
  have tr: "tr_claim_next sql_repo w now lease tab = (Inr found, tab')"
    using c by (simp add: sql_repo_def)
  note others = sql.claim_others [OF wf tr]
  have base: "held_inv lease now tab' held"
  proof (rule held_inv_table [OF inv sql_claim_wf [OF wf c]])
    fix k u assume v': "sql_view tab' k = Some u"
    obtain v where v: "sql_view tab k = Some v"
      using sql_claim_no_new [OF wf c] v' by fastforce
    from others [OF v] v' held_invD(2) [OF inv v] show "task_inv u"
      by (auto intro: swept_task_inv claimed_task_inv)
  qed (use claim_keeps_live(1) [OF wf c] in blast)
  show ?thesis
  proof (cases found)
    case None
    then show ?thesis using base p by (simp add: fun_upd_idem)
  next
    case (Some h)
    from sql.claim_took [OF wf tr [unfolded Some]] obtain t where
      t: "sql_view tab (bt_key t) = Some t" "claimable now lease t" "h = claimed_task w now t"
      "sql_view tab' (bt_key t) = Some h"
      by (auto simp: sql_repo_def)
    have stands: "claim_stands h h" by (simp add: claim_stands_def t(3) claimed_task_def)
    have fresh: "\<not> lease_held lease now t'" if "held q = Some t'" "bt_key t' = bt_key h" for q t'
      using that claim_keeps_live(2) [OF wf c] held_invD(4) [OF inv that(1)] t(1-3) by fastforce
    have inv_h: "task_inv h"
      using claimed_task_inv [OF held_invD(2) [OF inv t(1)] t(2)] t(3) by simp
    show ?thesis
      unfolding held_inv_def
    proof (intro conjI allI impI)
      fix q t' assume q: "(held(p := found)) q = Some t'"
      show "task_inv t'" using q inv_h Some held_invD(3) [OF base] by (simp split: if_splits)
      assume live: "lease_held lease now t'"
      show "\<exists>u. sql_view tab' (bt_key t') = Some u \<and> claim_stands t' u"
      proof (cases "q = p")
        case True
        then show ?thesis using q Some t(3,4) stands by (auto simp: t(3))
      next
        case False
        then show ?thesis using q live held_invD(4) [OF base] by simp
      qed
    next
      fix q r t1 t2
      assume "(held(p := found)) q = Some t1" "(held(p := found)) r = Some t2"
        "bt_key t1 = bt_key t2" "lease_held lease now t1" "lease_held lease now t2"
      then show "q = r"
        using fresh held_invD(5) [OF base] Some by (metis fun_upd_apply option.inject)
    qed (use held_invD(1,2) [OF base] in blast)+
  qed
qed

lemma settled_task_cases:
  "(\<exists>r. settled_task d clk out cancel t = succeeded_task (clk 1) r t) \<or>
   (\<exists>code d' t'. settled_task d clk out cancel t = failed_task (clk 2) code d' t' \<and>
      t' \<in> {t, t\<lparr>bt_cancel_requested := True\<rparr>, t\<lparr>bt_attempts := bt_max_attempts t\<rparr>})"
  by (cases out) (simp_all add: settled_task_def, (metis | blast)+)

lemma worker_writesE:
  assumes "worker_writes now t t'"
  obtains (success) r where "t' = succeeded_task now r t"
  | (failure) code d t'' where "t' = failed_task now code d t''"
      "t'' \<in> {t, t\<lparr>bt_cancel_requested := True\<rparr>, t\<lparr>bt_attempts := bt_max_attempts t\<rparr>}"
  using assms settled_task_cases [where clk = "\<lambda>_. now"] unfolding worker_writes_def by blast

text \<open>What a worker writes is well formed when the stored attempts are those of its copy.\<close>

lemma worker_writes_inv:
  assumes "task_inv t" "worker_writes now t t'" "saved_as u t'"
    and "bt_attempts u = bt_attempts t" "bt_max_attempts u = bt_max_attempts t"
  shows "task_inv u"
proof -
  note defs = failed_task_def succeeded_task_def Let_def
  show ?thesis
    using assms(2)
  proof (cases rule: worker_writesE)
    case (success r)
    then show ?thesis using assms(1,3-5) by (auto simp: task_inv_def saved_as_def defs)
  next
    case (failure code d t'')
    have "bt_status u = bt_status t'" "bt_finished_at u = bt_finished_at t'"
      "bt_progress u = bt_progress t'"
      using assms(3) by (simp_all add: saved_as_def)
    moreover have "bt_status t' = Retry_wait \<longrightarrow> bt_attempts t < bt_max_attempts t"
      using failure by (auto simp: defs)
    moreover have "bt_status t' \<in> {Retry_wait, Failed, Cancelled}"
      "bt_status t' \<noteq> Retry_wait \<longrightarrow> bt_finished_at t' \<noteq> None" "bt_progress t' = bt_progress t"
      using failure by (auto simp: defs)
    ultimately show ?thesis
      using assms(1,4,5) by (cases "bt_status t'") (simp_all add: task_inv_def)
  qed
qed

lemma worker_writes_key: "worker_writes now t t' \<Longrightarrow> bt_key t' = bt_key t"
  by (auto simp: worker_writes_def)

lemma held_inv_finish:
  assumes inv: "held_inv lease now tab held" and p: "held p = Some t" and live: "lease_held lease now t"
    and w: "worker_writes now t t'" and s: "sql_save_claimed t' now tab = (r, tab')"
  shows "held_inv lease now tab' (held(p := None))"
proof -
  note wf = held_invD(1) [OF inv]
  from held_invD(4) [OF inv p live] obtain v where
    v: "sql_view tab (bt_key t') = Some v" "claim_stands t v"
    using worker_writes_key [OF w] by auto
  from sql_save_claimed_effect [OF wf s] v(1) obtain u where
    u: "sql_wf tab'" "\<And>k. sql_view tab' k = (if k = bt_key t' then Some u else sql_view tab k)"
    "saved_as u t'" "bt_attempts u = bt_attempts v" "bt_max_attempts u = bt_max_attempts v"
    by blast
  have "task_inv u"
    using worker_writes_inv [OF held_invD(3) [OF inv p] w u(3)] u(4,5) v(2)
    by (simp add: claim_stands_def)
  moreover have "q = p" if "held q = Some t1" "lease_held lease now t1" "bt_key t1 = bt_key t'" for q t1
    using held_invD(5) [OF inv that(1) p _ that(2) live] that(3) worker_writes_key [OF w] by simp
  ultimately show ?thesis
    by (intro held_inv_row [OF held_inv_release [OF inv, of p] u(1,2)]) (auto split: if_splits)
qed

lemma fleet_step_inv:
  assumes "fleet_step True lease f f'" "fleet_inv lease f"
  shows "fleet_inv lease f'"
  using assms
proof (induction rule: fleet_step.induct)
  case (tick f now)
  then show ?case by (simp add: fleet_inv_def held_inv_tick)
next
  case (lock f l)
  then show ?case
    by (simp add: fleet_inv_def held_inv_def sql_wf_def sql_view_def sql_row_def)
next
  case (create uuid f kind c payload m r tab)
  then have inv: "held_inv lease (fl_now f) (fl_table f) (fl_held f)" by (simp add: fleet_inv_def)
  from sql_create_effect [OF held_invD(1) [OF inv] create(1,2)] show ?case
    using inv by (auto simp: fleet_inv_def intro: held_inv_row [OF inv])
next
  case (cancel f i c r tab)
  then have inv: "held_inv lease (fl_now f) (fl_table f) (fl_held f)" by (simp add: fleet_inv_def)
  from sql_cancel_effect [OF held_invD(1) [OF inv] cancel(1)] show ?case
    using inv held_invD(2) [OF inv]
    by (auto simp: fleet_inv_def intro!: held_inv_row [OF inv] cancel_effect_inv claim_stands_cancel)
next
  case (claim f p w found tab)
  then show ?case
    by (auto simp: fleet_inv_def task_claim_def sql_repo_def intro: held_inv_claim)
next
  case (finish f p t t' r' tab)
  then show ?case by (auto simp: fleet_inv_def intro: held_inv_finish)
next
  case (crash f p)
  then show ?case by (simp add: fleet_inv_def held_inv_release)
qed

lemma fleet_reachable_inv: "fleet_reachable True lease f \<Longrightarrow> fleet_inv lease f"
  by (induction rule: fleet_reachable.induct)
     (auto simp: fleet_inv_def fleet_start_def held_inv_empty dest: fleet_step_inv)

section \<open>Properties\<close>

lemma fleet_finished_step:
  assumes step: "fleet_step True lease f f'" and f: "fleet_inv lease f"
    and k: "sql_view (fl_table f) k = Some t" "terminal (bt_status t)"
  shows "sql_view (fl_table f') k \<in> {Some t, Some (t\<lparr>bt_cancel_requested := True\<rparr>)}"
proof -
  have inv: "held_inv lease (fl_now f) (fl_table f) (fl_held f)"
    using f by (simp add: fleet_inv_def)
  note wf = held_invD(1) [OF inv]
  show ?thesis
    using step
  proof cases
    case (lock l)
    then show ?thesis using k by (simp add: sql_view_def sql_row_def)
  next
    case (create uuid kind c payload m r tab)
    from sql_create_effect [OF wf create(2,3)] have "sql_view tab k = Some t"
    proof (elim conjE disjE exE)
      fix u assume "\<forall>k. sql_view tab k = (if k = (rc_tenant_id c, uuid) then Some u else sql_view (fl_table f) k)"
        and "sql_view (fl_table f) (rc_tenant_id c, uuid) = None"
      then show ?thesis using k(1) by (metis option.distinct(1))
    qed (use k in simp)
    with create(1) show ?thesis by simp
  next
    case (cancel i c r tab)
    from sql_cancel_effect [OF wf cancel(2)]
    have "sql_view tab k \<in> {Some t, Some (cancel_effect (fl_now f) t)}"
      using k(1) by (metis insertCI option.inject)
    moreover have "cancel_effect (fl_now f) t = t\<lparr>bt_cancel_requested := True\<rparr>"
      using k(2) by (auto simp: cancel_effect_def Let_def)
    ultimately show ?thesis using cancel(1) by simp
  next
    case (claim p w found tab)
    then have "tr_claim_next sql_repo w (fl_now f) lease (fl_table f) = (Inr found, tab)"
      by (simp add: task_claim_def)
    with claim sql.claim_keeps_terminal [OF wf this k] show ?thesis by simp
  next
    case (finish p t0 t' r' tab)
    from held_invD(4) [OF inv finish(2)] finish(3) obtain u where
      u: "sql_view (fl_table f) (bt_key t0) = Some u" "bt_status u = Running"
      by (auto simp: claim_stands_def)
    then have "k \<noteq> bt_key t'" using k worker_writes_key [OF finish(4)] by auto
    moreover obtain v where "\<forall>k. sql_view tab k = (if k = bt_key t' then Some v else sql_view (fl_table f) k)"
      using sql_save_claimed_effect [OF wf finish(5)] u(1) worker_writes_key [OF finish(4)] by auto
    ultimately have "sql_view tab k = Some t" using k(1) by metis
    then show ?thesis using finish(1) by simp
  qed (use k in simp_all)
qed

text \<open>Runs over a table with one task, for the examples.\<close>

definition demo_fleet :: "instant \<Rightarrow> task_row \<Rightarrow> (nat \<Rightarrow> background_task option) \<Rightarrow> fleet" where
  "demo_fleet now row held =
     \<lparr>fl_now = now, fl_table = \<lparr>sq_rows = [row], sq_locked = {}\<rparr>, fl_held = held\<rparr>"

definition demo_claim_row :: "ustr \<Rightarrow> instant \<Rightarrow> task_row \<Rightarrow> task_row" where
  "demo_claim_row w now row =
     row\<lparr>tk_status := Running, tk_attempts := tk_attempts row + 1,
         tk_progress := max (tk_progress row) 5, tk_locked_by := Some w,
         tk_locked_at := Some now, tk_version := tk_version row + 1\<rparr>"

lemma demo_fleet_tick:
  "fleet_reachable d lease (demo_fleet now row held) \<Longrightarrow> now \<le> now' \<Longrightarrow>
   fleet_reachable d lease (demo_fleet now' row held)"
  using fleet_reachable.step [OF _ fleet_step.tick [of "demo_fleet now row held" now']]
  by (simp add: demo_fleet_def)

lemma demo_fleet_claim:
  assumes "fleet_reachable d lease (demo_fleet now row held)" "held p = None"
    and "sql_eligible now lease row" "\<not> tk_cancel_requested row"
    and "tk_status row \<noteq> Running \<or> tk_attempts row < tk_max_attempts row"
  shows "fleet_reachable d lease (demo_fleet now (demo_claim_row w now row)
    (held(p := Some (to_task (demo_claim_row w now row)))))"
proof -
  have "task_claim sql_repo (fl_now (demo_fleet now row held)) w lease (fl_table (demo_fleet now row held)) =
      (Inr (Some (to_task (demo_claim_row w now row))), \<lparr>sq_rows = [demo_claim_row w now row], sq_locked = {}\<rparr>)"
    using assms(3-5)
    by (auto simp: task_claim_def sql_repo_def sql_claim_next_def demo_fleet_def demo_claim_row_def
        write_task_def update_row_def Let_def)
  from fleet_reachable.step [OF assms(1) fleet_step.claim [OF _ this, where p = p]] assms(2)
  show ?thesis by (simp add: demo_fleet_def)
qed

definition demo_write_row :: "background_task \<Rightarrow> instant \<Rightarrow> task_row \<Rightarrow> task_row" where
  "demo_write_row t now row =
     row\<lparr>tk_status := bt_status t, tk_progress := bt_progress t,
         tk_error_code := bt_error_code t, tk_result := bt_result t,
         tk_available_at := (case bt_available_at t of None \<Rightarrow> now | Some a \<Rightarrow> a),
         tk_locked_at := bt_locked_at t, tk_locked_by := bt_locked_by t,
         tk_cancel_requested := bt_cancel_requested t, tk_finished_at := bt_finished_at t,
         tk_version := tk_version row + 1\<rparr>"

lemma demo_fleet_finish:
  assumes "fleet_reachable False lease (demo_fleet now row held)" "held p = Some t"
    and "worker_writes now t t'" "tk_key row = bt_key t'"
  shows "fleet_step False lease (demo_fleet now row held)
      (demo_fleet now (demo_write_row t' now row) (held(p := None)))"
    and "fleet_reachable False lease (demo_fleet now (demo_write_row t' now row) (held(p := None)))"
proof -
  have "sql_save_claimed t' (fl_now (demo_fleet now row held)) (fl_table (demo_fleet now row held)) =
      (Inr t', \<lparr>sq_rows = [demo_write_row t' now row], sq_locked = {}\<rparr>)"
    using assms(4)
    by (simp add: sql_save_claimed_def select_task_def demo_fleet_def demo_write_row_def
        write_task_def update_row_def)
  from fleet_step.finish [OF _ _ _ this, where p = p and t = t and disciplined = False and lease = lease]
    assms(2,3)
  show "fleet_step False lease (demo_fleet now row held)
      (demo_fleet now (demo_write_row t' now row) (held(p := None)))"
    by (simp add: demo_fleet_def)
  then show "fleet_reachable False lease (demo_fleet now (demo_write_row t' now row) (held(p := None)))"
    by (rule fleet_reachable.step [OF assms(1)])
qed

lemma demo_fleet_created: "fleet_reachable d lease (demo_fleet 100 demo_row (\<lambda>_. None))"
proof -
  have "task_create sql_repo (U ''t1'') (fl_now (fleet_start 100)) (U ''example'')
      (RequestContext (U ''r'') (U ''r'') (U ''th'') (U ''tenant-a'') (U ''op-a'')) None 2
      (fl_table (fleet_start 100)) = (Inr (to_task demo_row), \<lparr>sq_rows = [demo_row], sq_locked = {}\<rparr>)"
    by (simp add: task_create_def sql_repo_def sql_save_task_def new_task_def fleet_start_def
        demo_row_def to_task_def RequestContext_def)
  from fleet_reachable.step [OF fleet_reachable.init [of d lease 100] fleet_step.create [OF _ this]]
  show ?thesis by (simp add: fleet_start_def demo_fleet_def)
qed

text \<open>Worker 0 claims, its lease runs out, worker 1 claims.\<close>

definition demo_first :: task_row where
  "demo_first = demo_claim_row (U ''w0'') 200 demo_row"

definition demo_taken_over :: task_row where
  "demo_taken_over = demo_claim_row (U ''w1'') 400000000 demo_first"

definition demo_holders :: "nat \<Rightarrow> background_task option" where
  "demo_holders = (\<lambda>_. None)(0 := Some (to_task demo_first), 1 := Some (to_task demo_taken_over))"

definition demo_timed_out :: background_task where
  "demo_timed_out = settled_task 10 (\<lambda>_. 400000000) (Inl (Exn TimeoutErr [])) False (to_task demo_first)"

lemmas demo_fleet_defs = demo_first_def demo_taken_over_def demo_holders_def demo_timed_out_def
  demo_claim_row_def demo_row_def demo_write_row_def settled_task_def failed_task_def
  succeeded_task_def to_task_def sql_eligible_def seconds_def

lemma demo_caught [simp]:
  "\<not> caught (Exn TimeoutErr m) [TaskCancelledErr]" "caught (Exn TimeoutErr m) [TimeoutErr]"
  by (simp_all add: caught_def isa_def)

lemma demo_fleet_taken_over:
  "fleet_reachable False 360 (demo_fleet 400000000 demo_taken_over demo_holders)"
proof -
  have "fleet_reachable False 360 (demo_fleet 200 demo_row (\<lambda>_. None))"
    by (rule demo_fleet_tick [OF demo_fleet_created]) simp
  from demo_fleet_claim [OF this, where p = 0 and w = "U ''w0''"]
  have "fleet_reachable False 360 (demo_fleet 200 demo_first ((\<lambda>_. None)(0 := Some (to_task demo_first))))"
    by (simp add: demo_fleet_defs)
  then have "fleet_reachable False 360
      (demo_fleet 400000000 demo_first ((\<lambda>_. None)(0 := Some (to_task demo_first))))"
    by (rule demo_fleet_tick) simp
  from demo_fleet_claim [OF this, where p = 1 and w = "U ''w1''"] show ?thesis
    by (simp add: demo_fleet_defs)
qed

lemma demo_timed_out_writes: "worker_writes 400000000 (to_task demo_first) demo_timed_out"
  unfolding worker_writes_def demo_timed_out_def by blast

text \<open>
  C8: As long as every worker writes its outcome before its lease runs out, execution is exclusive: two
  worker processes that both hold an unexpired lease on the same task are one and the same process, and
  the stored task is running under exactly that claim, with the attempt number the worker was given.
\<close>

theorem fleet_exclusive:
  assumes "fleet_reachable True lease f"
    and "fl_held f p = Some t" "fl_held f q = Some t'" "bt_key t = bt_key t'"
    and "lease_held lease (fl_now f) t" "lease_held lease (fl_now f) t'"
  shows "p = q \<and> (\<exists>u. sql_view (fl_table f) (bt_key t) = Some u \<and> bt_status u = Running \<and>
    bt_locked_at u = bt_locked_at t \<and> bt_attempts u = bt_attempts t)"
proof -
  have inv: "held_inv lease (fl_now f) (fl_table f) (fl_held f)"
    using fleet_reachable_inv [OF assms(1)] by (simp add: fleet_inv_def)
  from held_invD(5) [OF inv assms(2-6)] held_invD(4) [OF inv assms(2,5)] show ?thesis
    by (auto simp: claim_stands_def)
qed

theorem fleet_exclusive_witness:
  "\<exists>f t. fleet_reachable True 360 f \<and> fl_held f 0 = Some t \<and> lease_held 360 (fl_now f) t \<and>
     (\<exists>u. sql_view (fl_table f) (U ''tenant-a'', U ''t1'') = Some u \<and> bt_status u = Running)"
proof -
  let ?f = "demo_fleet 200 demo_first ((\<lambda>_. None)(0 := Some (to_task demo_first)))"
  have "fleet_reachable True 360 (demo_fleet 200 demo_row (\<lambda>_. None))"
    by (rule demo_fleet_tick [OF demo_fleet_created]) simp
  from demo_fleet_claim [OF this, where p = 0 and w = "U ''w0''"]
  have r: "fleet_reachable True 360 ?f" by (simp add: demo_fleet_defs)
  have h: "fl_held ?f 0 = Some (to_task demo_first)" "lease_held 360 (fl_now ?f) (to_task demo_first)"
    "bt_key (to_task demo_first) = (U ''tenant-a'', U ''t1'')"
    by (simp_all add: demo_fleet_def demo_fleet_defs lease_held_def)
  from fleet_exclusive [OF r h(1,1) refl h(2,2)] r h show ?thesis by auto
qed

text \<open>
  In such runs no task is attempted more often than \<open>max_attempts\<close>, and a waiting task still has an
  attempt left.
\<close>

theorem fleet_attempts_bounded:
  assumes "fleet_reachable True lease f" "sql_view (fl_table f) k = Some t"
  shows "0 \<le> bt_attempts t \<and> bt_attempts t \<le> bt_max_attempts t \<and>
    (bt_status t \<in> {Queued, Retry_wait} \<longrightarrow> bt_attempts t < bt_max_attempts t)"
proof -
  have "held_inv lease (fl_now f) (fl_table f) (fl_held f)"
    using fleet_reachable_inv [OF assms(1)] by (simp add: fleet_inv_def)
  from held_invD(2) [OF this assms(2)] show ?thesis by (simp add: task_inv_def)
qed

theorem fleet_attempts_bounded_witness:
  "\<exists>f t. fleet_reachable True 360 f \<and> sql_view (fl_table f) (U ''tenant-a'', U ''t1'') = Some t \<and>
     bt_status t = Queued \<and> bt_attempts t < bt_max_attempts t"
proof -
  let ?f = "demo_fleet 100 demo_row (\<lambda>_. None)"
  have v: "sql_view (fl_table ?f) (U ''tenant-a'', U ''t1'') = Some (to_task demo_row)"
    by (simp add: demo_fleet_def sql_view_def sql_row_def demo_row_def)
  from fleet_attempts_bounded [OF demo_fleet_created v] v demo_fleet_created show ?thesis
    by (intro exI [of _ ?f] exI [of _ "to_task demo_row"]) (simp add: demo_row_def to_task_def)
qed

text \<open>
  In such runs a finished task stays as it is: no step changes its status, result, error code or
  times; only a late cancellation request is noted on it.
\<close>

theorem fleet_finished_is_final:
  assumes "fleet_reachable True lease f" "fleet_step True lease f f'"
    and "sql_view (fl_table f) k = Some t" "terminal (bt_status t)"
  shows "sql_view (fl_table f') k \<in> {Some t, Some (t\<lparr>bt_cancel_requested := True\<rparr>)}"
  by (rule fleet_finished_step [OF assms(2) fleet_reachable_inv [OF assms(1)] assms(3,4)])

theorem fleet_finished_is_final_witness:
  "\<exists>f f' t. fleet_reachable True 360 f \<and> fleet_step True 360 f f' \<and>
     sql_view (fl_table f) (U ''tenant-a'', U ''t1'') = Some t \<and> bt_status t = Cancelled \<and>
     (\<exists>u. sql_view (fl_table f') (U ''tenant-a'', U ''t1'') = Some u \<and> bt_status u = Cancelled)"
proof -
  let ?c = "RequestContext (U ''r'') (U ''r'') (U ''th'') (U ''tenant-a'') (U ''op-a'')"
  let ?start = "demo_fleet 100 demo_row (\<lambda>_. None)"
  let ?f = "?start\<lparr>fl_table := snd (task_cancel sql_repo 100 (U ''t1'') ?c (fl_table ?start))\<rparr>"
  let ?f' = "?f\<lparr>fl_now := 300\<rparr>"
  have r: "fleet_reachable True 360 ?f"
    by (rule fleet_reachable.step [OF demo_fleet_created fleet_step.cancel
          [where f = ?start and i = "U ''t1''" and c = ?c
              and r = "fst (task_cancel sql_repo 100 (U ''t1'') ?c (fl_table ?start))"]])
       (simp add: demo_fleet_def)
  have s: "fleet_step True 360 ?f ?f'"
    by (rule fleet_step.tick) (simp add: demo_fleet_def)
  have v: "sql_view (fl_table ?f) (U ''tenant-a'', U ''t1'') = Some (cancel_effect 100 (to_task demo_row))"
    by (simp add: demo_fleet_def task_cancel_def sql_repo_def sql_request_cancel_def select_task_def
        demo_row_def to_task_def sql_view_def sql_row_def write_task_def update_row_def Let_def
        RequestContext_def cancel_effect_def cancelled_task_def)
  have c: "bt_status (cancel_effect 100 (to_task demo_row)) = Cancelled"
    by (simp add: cancel_effect_def cancelled_task_def to_task_def demo_row_def)
  from fleet_finished_is_final [OF r s v] c have
    "\<exists>u. sql_view (fl_table ?f') (U ''tenant-a'', U ''t1'') = Some u \<and> bt_status u = Cancelled"
    by auto
  with r s v c show ?thesis by blast
qed

text \<open>
  C40: The table does not enforce that discipline. When a worker writes after its lease has run out, its
  outdated copy puts the task that another worker has taken over back into the queue: two workers then
  hold unexpired leases on one task, which is on its third attempt of two.
\<close>

theorem fleet_late_write_breaks_exclusion:
  "\<exists>f t t' u. fleet_reachable False 360 f \<and>
     fl_held f 1 = Some t \<and> fl_held f 2 = Some t' \<and> bt_key t = bt_key t' \<and>
     lease_held 360 (fl_now f) t \<and> lease_held 360 (fl_now f) t' \<and>
     sql_view (fl_table f) (bt_key t) = Some u \<and> bt_attempts u = 3 \<and> bt_max_attempts u = 2"
proof -
  let ?row = "demo_write_row demo_timed_out 400000000 demo_taken_over"
  let ?held = "demo_holders(0 := None)"
  let ?row' = "demo_claim_row (U ''w2'') 410000000 ?row"
  let ?f = "demo_fleet 410000000 ?row' (?held(2 := Some (to_task ?row')))"
  have "fleet_reachable False 360 (demo_fleet 400000000 ?row ?held)"
    by (rule demo_fleet_finish(2) [OF demo_fleet_taken_over _ demo_timed_out_writes])
       (simp_all add: demo_fleet_defs)
  then have "fleet_reachable False 360 (demo_fleet 410000000 ?row ?held)"
    by (rule demo_fleet_tick) simp
  from demo_fleet_claim [OF this, where p = 2 and w = "U ''w2''"] have "fleet_reachable False 360 ?f"
    by (simp add: demo_fleet_defs)
  moreover have "fl_held ?f 1 = Some (to_task demo_taken_over)" "fl_held ?f 2 = Some (to_task ?row')"
    by (simp_all add: demo_fleet_def demo_holders_def)
  moreover have "lease_held 360 (fl_now ?f) (to_task demo_taken_over)"
    "lease_held 360 (fl_now ?f) (to_task ?row')" "bt_key (to_task demo_taken_over) = bt_key (to_task ?row')"
    by (simp_all add: demo_fleet_def demo_fleet_defs lease_held_def)
  moreover have "sql_view (fl_table ?f) (bt_key (to_task demo_taken_over)) = Some (to_task ?row')"
    "bt_attempts (to_task ?row') = 3" "bt_max_attempts (to_task ?row') = 2"
    by (simp_all add: demo_fleet_def demo_fleet_defs sql_view_def sql_row_def)
  ultimately show ?thesis by blast
qed

text \<open>
  Without that discipline a finished task does not stay finished: the late failure report of an
  earlier holder turns a task that has succeeded into one that waits for a retry.
\<close>

theorem fleet_late_write_revives_finished:
  "\<exists>f f' t u. fleet_reachable False 360 f \<and> fleet_step False 360 f f' \<and>
     sql_view (fl_table f) (bt_key t) = Some t \<and> bt_status t = Succeeded \<and>
     sql_view (fl_table f') (bt_key t) = Some u \<and> bt_status u = Retry_wait"
proof -
  let ?t1 = "settled_task 10 (\<lambda>_. 400000000) (Inr []) False (to_task demo_taken_over)"
  let ?row = "demo_write_row ?t1 400000000 demo_taken_over"
  let ?f = "demo_fleet 400000000 ?row (demo_holders(1 := None))"
  let ?row' = "demo_write_row demo_timed_out 400000000 ?row"
  let ?f' = "demo_fleet 400000000 ?row' (demo_holders(1 := None, 0 := None))"
  have w: "worker_writes 400000000 (to_task demo_taken_over) ?t1"
    unfolding worker_writes_def by blast
  have r: "fleet_reachable False 360 ?f"
    by (rule demo_fleet_finish(2) [OF demo_fleet_taken_over _ w]) (simp_all add: demo_fleet_defs)
  have s: "fleet_step False 360 ?f ?f'"
    by (rule demo_fleet_finish(1) [OF r _ demo_timed_out_writes]) (simp_all add: demo_fleet_defs)
  moreover have "sql_view (fl_table ?f) (bt_key (to_task ?row)) = Some (to_task ?row)"
    "bt_status (to_task ?row) = Succeeded"
    "sql_view (fl_table ?f') (bt_key (to_task ?row)) = Some (to_task ?row')"
    "bt_status (to_task ?row') = Retry_wait"
    by (simp_all add: demo_fleet_def demo_fleet_defs sql_view_def sql_row_def)
  ultimately show ?thesis using r by blast
qed

end
