(* ===== verification/Transcription.thy ===== *)
theory Transcription
  imports Py_Text Task_Queue_Sql Task_Worker
begin

text \<open>
  \<open>MeetingTranscriptionHandler\<close> of \<open>app/services/task_worker.py\<close>: the handler that fetches a meeting's
  recording, submits it to the speech recogniser and polls for the result.
\<close>

section \<open>The transcription handler\<close>

text \<open>
  The connectors the handler awaits. Other code may change the store during each call, hence the state;
  \<open>ae_status\<close> takes the number of the poll, since the answer changes over time.
\<close>

record 's asr_env =
  ae_recording :: "ustr \<Rightarrow> request_context \<Rightarrow> 's \<Rightarrow> jdict res \<times> 's"
  ae_submit :: "ustr \<Rightarrow> request_context \<Rightarrow> 's \<Rightarrow> jdict res \<times> 's"
  ae_status :: "nat \<Rightarrow> ustr \<Rightarrow> request_context \<Rightarrow> 's \<Rightarrow> jdict res \<times> 's"
  ae_result :: "ustr \<Rightarrow> request_context \<Rightarrow> 's \<Rightarrow> jdict res \<times> 's"

text \<open>The check before and between the calls: a persisted cancellation ends the handler.\<close>

definition check_cancelled ::
  "('s, 'h) task_repo \<Rightarrow> ustr \<Rightarrow> request_context \<Rightarrow> 's \<Rightarrow> unit res \<times> 's" where
  "check_cancelled R task_id context s =
     bnd (task_get R task_id context s)
       (\<lambda>current s. if bt_cancel_requested (tr_obj R s current)
                    then (Inl (Exn TaskCancelledErr []), s) else (Inr (), s))"

text \<open>\<open>list(v)\<close> of the value under \<open>segments\<close>: a list, the keys of a dictionary, the characters of a string.\<close>

fun py_list :: "json \<Rightarrow> json list res" where
  "py_list (JList xs) = Inr xs"
| "py_list (JStr s) = Inr (map (\<lambda>c. JStr [c]) s)"
| "py_list (JObj d) = Inr (map (\<lambda>(k, v). JStr k) d)"
| "py_list _ = Inl (Exn TypeErr [])"

text \<open>
  The polling loop. \<open>n\<close> polls have been made; \<open>fuel\<close> is how many more fit into the timeout under which
  the worker awaits the handler, and running out of it is that timeout.
\<close>

fun poll_loop ::
  "(json \<Rightarrow> ustr) \<Rightarrow> ('s, 'h) task_repo \<Rightarrow> 's asr_env \<Rightarrow> ustr \<Rightarrow> ustr \<Rightarrow> request_context \<Rightarrow>
   nat \<Rightarrow> nat \<Rightarrow> 's \<Rightarrow> jdict res \<times> 's" where
  "poll_loop rep R env task_id asr_task_id context 0 n s = (Inl (Exn TimeoutErr []), s)"
| "poll_loop rep R env task_id asr_task_id context (Suc fuel) n s =
     bnd (check_cancelled R task_id context s) (\<lambda>_ s.
     bnd (ae_status env n asr_task_id context s) (\<lambda>status s.
       let state = py_str rep (get_default status (U ''status'') (JStr (U ''running''))) in
       if state = U ''completed'' then
         bnd (ae_result env asr_task_id context s) (\<lambda>result s.
           (case py_list (get_default result (U ''segments'') (JList [])) of
              Inl e \<Rightarrow> (Inl e, s)
            | Inr segments \<Rightarrow>
                (Inr [(U ''asr_task_id'', JStr asr_task_id),
                      (U ''segments'', JList segments)], s)))
       else if state = U ''failed'' then (Inl (Exn RuntimeErr (U ''ASR_FAILED'')), s)
       else poll_loop rep R env task_id asr_task_id context fuel (Suc n) s))"

definition transcription_handler ::
  "(json \<Rightarrow> ustr) \<Rightarrow> ('s, 'h) task_repo \<Rightarrow> 's asr_env \<Rightarrow> nat \<Rightarrow> ('s, 'h) task_handler" where
  "transcription_handler rep R env fuel h context s =
     (let task = tr_obj R s h;
          payload = (case bt_payload task of None \<Rightarrow> [] | Some p \<Rightarrow> p);
          meeting_id = strip (py_str rep (get_default payload (U ''meeting_id'') (JStr [])))
      in if meeting_id = [] then (Inl (Exn ValueErr (U ''meeting_id is required'')), s)
         else
           bnd (check_cancelled R (bt_task_id task) context s) (\<lambda>_ s.
           bnd (ae_recording env meeting_id context s) (\<lambda>recording s.
           (case getitem recording (U ''recording_ref'') of
              Inl e \<Rightarrow> (Inl e, s)
            | Inr ref \<Rightarrow>
                bnd (ae_submit env (py_str rep ref) context s) (\<lambda>submitted s.
                (case getitem submitted (U ''task_id'') of
                   Inl e \<Rightarrow> (Inl e, s)
                 | Inr tid \<Rightarrow>
                     poll_loop rep R env (bt_task_id task) (py_str rep tid) context fuel 0 s))))))"

section \<open>Properties of the transcription handler\<close>

definition poll_state :: "(json \<Rightarrow> ustr) \<Rightarrow> jdict \<Rightarrow> ustr" where
  "poll_state rep d = py_str rep (get_default d (U ''status'') (JStr (U ''running'')))"

text \<open>
  The first \<open>k\<close> polls decide nothing: in the states \<open>\<sigma> 0\<close>, ..., \<open>\<sigma> (k - 1)\<close> of the store they are made
  in, the task is stored without a cancellation request and the answer is neither completed nor failed.
\<close>

definition undecided ::
  "(json \<Rightarrow> ustr) \<Rightarrow> ('s, 'h) task_repo \<Rightarrow> 's asr_env \<Rightarrow> ustr \<Rightarrow> ustr \<Rightarrow> request_context \<Rightarrow> nat \<Rightarrow>
   (nat \<Rightarrow> 's) \<Rightarrow> bool" where
  "undecided rep R env tid aid context k \<sigma> \<longleftrightarrow>
     (\<forall>i<k. check_cancelled R tid context (\<sigma> i) = (Inr (), \<sigma> i) \<and>
        (\<exists>d. ae_status env i aid context (\<sigma> i) = (Inr d, \<sigma> (Suc i)) \<and>
             poll_state rep d \<noteq> U ''completed'' \<and> poll_state rep d \<noteq> U ''failed''))"

lemma undecided_SucD:
  assumes "undecided rep R env tid aid context (Suc k) \<sigma>"
  shows "undecided rep R env tid aid context k \<sigma>"
  using assms by (simp add: undecided_def)

lemma poll_loop_undecided:
  assumes "undecided rep R env tid aid context k \<sigma>"
  shows "poll_loop rep R env tid aid context (k + fuel) 0 (\<sigma> 0) =
    poll_loop rep R env tid aid context fuel k (\<sigma> k)"
  using assms
proof (induction k arbitrary: fuel)
  case (Suc k)
  have "poll_loop rep R env tid aid context (k + Suc fuel) 0 (\<sigma> 0) =
    poll_loop rep R env tid aid context (Suc fuel) k (\<sigma> k)"
    by (rule Suc.IH [OF undecided_SucD [OF Suc.prems]])
  also obtain d where "check_cancelled R tid context (\<sigma> k) = (Inr (), \<sigma> k)"
    "ae_status env k aid context (\<sigma> k) = (Inr d, \<sigma> (Suc k))"
    "poll_state rep d \<noteq> U ''completed''" "poll_state rep d \<noteq> U ''failed''"
    using Suc.prems by (auto simp: undecided_def)
  then have "poll_loop rep R env tid aid context (Suc fuel) k (\<sigma> k) =
      poll_loop rep R env tid aid context fuel (Suc k) (\<sigma> (Suc k))"
    by (simp add: poll_state_def Let_def)
  finally show ?case by simp
qed simp

lemma poll_loop_times_out:
  assumes "undecided rep R env tid aid context k \<sigma>" "fuel \<le> k"
  shows "fst (poll_loop rep R env tid aid context fuel 0 (\<sigma> 0)) = Inl (Exn TimeoutErr [])"
proof -
  have "undecided rep R env tid aid context fuel \<sigma>"
    using assms by (auto simp: undecided_def)
  from poll_loop_undecided [OF this, of 0] show ?thesis by simp
qed

text \<open>The calls made before the first poll, up to the state \<open>s1\<close> in which polling starts.\<close>

definition asr_started ::
  "(json \<Rightarrow> ustr) \<Rightarrow> ('s, 'h) task_repo \<Rightarrow> 's asr_env \<Rightarrow> request_context \<Rightarrow> ustr \<Rightarrow> ustr \<Rightarrow> ustr \<Rightarrow>
   's \<Rightarrow> 's \<Rightarrow> bool" where
  "asr_started rep R env context meeting_id tid aid s s1 \<longleftrightarrow>
     check_cancelled R tid context s = (Inr (), s) \<and>
     (case ae_recording env meeting_id context s of
        (Inl e, _) \<Rightarrow> False
      | (Inr recording, s) \<Rightarrow>
          (case map_of recording (U ''recording_ref'') of
             None \<Rightarrow> False
           | Some ref \<Rightarrow>
               (case ae_submit env (py_str rep ref) context s of
                  (Inl e, _) \<Rightarrow> False
                | (Inr submitted, s) \<Rightarrow>
                    s = s1 \<and> map_option (py_str rep) (map_of submitted (U ''task_id'')) = Some aid)))"

lemma transcription_polls:
  assumes "bt_payload (tr_obj R s h) = Some payload"
    and "strip (py_str rep (get_default payload (U ''meeting_id'') (JStr []))) = m" "m \<noteq> []"
    and "bt_task_id (tr_obj R s h) = tid" "asr_started rep R env context m tid aid s s1"
  shows "transcription_handler rep R env fuel h context s =
    poll_loop rep R env tid aid context fuel 0 s1"
proof -
  obtain rr s' where 1: "ae_recording env m context s = (rr, s')" by fastforce
  with assms(5) obtain recording ref where
    2: "rr = Inr recording" "map_of recording (U ''recording_ref'') = Some ref"
    by (auto simp: asr_started_def split: sum.split_asm option.split_asm)
  obtain rs s'' where 3: "ae_submit env (py_str rep ref) context s' = (rs, s'')" by fastforce
  with assms(5) 1 2 obtain submitted z where
    "check_cancelled R tid context s = (Inr (), s)" "rs = Inr submitted" "s'' = s1"
    "map_of submitted (U ''task_id'') = Some z" "py_str rep z = aid"
    by (auto simp: asr_started_def split: sum.split_asm)
  note this 1 2 3
  then show ?thesis
    using assms(1-4) by (simp add: transcription_handler_def getitem_def)
qed

text \<open>
  C35: A transcription whose first \<open>k\<close> polls decide nothing is decided by the poll numbered \<open>k\<close>, if the
  worker's timeout leaves room for it: a cancellation stored by then ends it as cancelled before the
  recogniser is asked again, a completed answer ends it with the segments of the result, a failed one
  with \<open>ASR_FAILED\<close>. With no room for that poll it ends by the timeout.
\<close>

theorem transcription_decided_by_poll:
  assumes "bt_payload (tr_obj R s h) = Some payload"
    and "strip (py_str rep (get_default payload (U ''meeting_id'') (JStr []))) = m" "m \<noteq> []"
    and "bt_task_id (tr_obj R s h) = tid" "asr_started rep R env c m tid aid s (\<sigma> 0)"
    and "undecided rep R env tid aid c k \<sigma>"
  shows "(fuel \<le> k \<longrightarrow>
      fst (transcription_handler rep R env fuel h c s) = Inl (Exn TimeoutErr [])) \<and>
    (k < fuel \<and> check_cancelled R tid c (\<sigma> k) = (Inl (Exn TaskCancelledErr []), \<sigma> k) \<longrightarrow>
      transcription_handler rep R env fuel h c s = (Inl (Exn TaskCancelledErr []), \<sigma> k)) \<and>
    (k < fuel \<and> check_cancelled R tid c (\<sigma> k) = (Inr (), \<sigma> k) \<and>
        ae_status env k aid c (\<sigma> k) = (Inr d, s1) \<and> poll_state rep d = U ''completed'' \<and>
        ae_result env aid c s1 = (Inr result, s2) \<and>
        map_of result (U ''segments'') = Some (JList segments) \<longrightarrow>
      transcription_handler rep R env fuel h c s =
        (Inr [(U ''asr_task_id'', JStr aid), (U ''segments'', JList segments)], s2)) \<and>
    (k < fuel \<and> check_cancelled R tid c (\<sigma> k) = (Inr (), \<sigma> k) \<and>
        ae_status env k aid c (\<sigma> k) = (Inr d, s1) \<and> poll_state rep d = U ''failed'' \<longrightarrow>
      transcription_handler rep R env fuel h c s = (Inl (Exn RuntimeErr (U ''ASR_FAILED'')), s1))"
proof -
  note run = transcription_polls [OF assms(1-5)]
  have at: "poll_loop rep R env tid aid c fuel 0 (\<sigma> 0) =
      poll_loop rep R env tid aid c (Suc (fuel - Suc k)) k (\<sigma> k)" if "k < fuel"
    using poll_loop_undecided [OF assms(6), of "Suc (fuel - Suc k)"] that by simp
  show ?thesis
    using poll_loop_times_out [OF assms(6)] at
    by (auto simp: run poll_state_def get_default_def)
qed

text \<open>A recogniser that is still running at its first poll and has finished at the second.\<close>

definition demo_asr :: "'s asr_env" where
  "demo_asr =
     \<lparr>ae_recording = \<lambda>_ _ s. (Inr [(U ''recording_ref'', JStr (U ''r1''))], s),
      ae_submit = \<lambda>_ _ s. (Inr [(U ''task_id'', JStr (U ''a1''))], s),
      ae_status = \<lambda>n _ _ s.
        (Inr [(U ''status'', JStr (if n = 0 then U ''running'' else U ''completed''))], s),
      ae_result = \<lambda>_ _ s. (Inr [(U ''segments'', JList [JNull])], s)\<rparr>"

definition demo_transcription :: background_task where
  "demo_transcription = demo_claimed\<lparr>bt_payload := Some [(U ''meeting_id'', JStr (U ''m1''))]\<rparr>"

lemma demo_not_cancelled:
  "check_cancelled sql_repo (U ''t1'') (task_context [] [] demo_claimed) demo_claimed_table =
     (Inr (), demo_claimed_table)"
  by (simp add: check_cancelled_def task_get_def sql_repo_def sql_get_task_def select_task_def
      demo_claimed_table_def demo_table_def sql_claim_next_def sql_eligible_def demo_row_def
      demo_claimed_def claimed_task_def to_task_def write_task_def update_row_def Let_def
      task_context_def RequestContext_def)

theorem transcription_decided_by_poll_witness:
  "transcription_handler (\<lambda>_. []) sql_repo demo_asr 2 demo_transcription
      (task_context [] [] demo_claimed) demo_claimed_table =
    (Inr [(U ''asr_task_id'', JStr (U ''a1'')), (U ''segments'', JList [JNull])], demo_claimed_table)"
proof -
  let ?c = "task_context [] [] demo_claimed"
  have obj: "tr_obj sql_repo s t = t" for s t by (simp add: sql_repo_def)
  have strip1: "strip (U ''m1'') = U ''m1''"
    by (simp add: strip_def lstrip_def rstrip_def U_def is_space_def)
  have "undecided (\<lambda>_. []) sql_repo demo_asr (U ''t1'') (U ''a1'') ?c 1 (\<lambda>_. demo_claimed_table)"
    by (simp add: undecided_def demo_not_cancelled demo_asr_def poll_state_def get_default_def)
  moreover have "asr_started (\<lambda>_. []) sql_repo demo_asr ?c (U ''m1'') (U ''t1'') (U ''a1'')
      demo_claimed_table demo_claimed_table"
    by (simp add: asr_started_def demo_not_cancelled demo_asr_def)
  moreover have "bt_payload demo_transcription = Some [(U ''meeting_id'', JStr (U ''m1''))]"
    "bt_task_id demo_transcription = U ''t1''"
    by (simp_all add: demo_transcription_def demo_claimed_def claimed_task_def to_task_def demo_row_def)
  ultimately show ?thesis
    using transcription_decided_by_poll [where R = sql_repo and s = demo_claimed_table
        and h = demo_transcription and rep = "\<lambda>_. []" and env = demo_asr and c = ?c and k = 1
        and fuel = 2 and \<sigma> = "\<lambda>_. demo_claimed_table" and tid = "U ''t1''" and aid = "U ''a1''"
        and m = "U ''m1''" and payload = "[(U ''meeting_id'', JStr (U ''m1''))]"
        and d = "[(U ''status'', JStr (U ''completed''))]" and ?s1.0 = demo_claimed_table
        and result = "[(U ''segments'', JList [JNull])]" and ?s2.0 = demo_claimed_table
        and segments = "[JNull]"]
    by (simp add: obj strip1 get_default_def poll_state_def
        demo_not_cancelled demo_asr_def)
qed

end
