(* ===== verification/Planning.thy ===== *)
theory Planning
  imports Py_Text
begin

text \<open>
  \<open>PlanningBudgetMiddleware\<close> (\<open>app/orchestration/middleware.py\<close>): before every call of the model it
  counts the delegations (\<open>task\<close>) and plan updates (\<open>write_todos\<close>) of the conversation, takes exhausted
  tools away, and asks for a new plan after a failed delegation.

  The agent loop itself belongs to the framework and is not modelled: that it calls the model only with tools it
  offers, and what it keeps of the conversation, are hypotheses where a theorem needs them. The middleware takes
  tools out of a request; nothing here refuses a call of a tool that was taken out.
\<close>

section \<open>Messages, tools and requests\<close>

text \<open>
  A tool call is a dictionary with a name; the text of a tool message is its \<open>text\<close> property. Other
  messages (system messages) carry neither.
\<close>

datatype message =
    HumanMessage ustr
  | AIMessage json "jdict list"
  | ToolMessage ustr
  | OtherMessage

datatype tool = BaseTool ustr | ToolDict jdict

record model_request =
  mq_messages :: "message list"
  mq_tools_offered :: "tool list"
  mq_system_message :: "ustr option"

definition call_named :: "ustr \<Rightarrow> jdict \<Rightarrow> bool" where
  "call_named name call \<longleftrightarrow> map_of call (U ''name'') = Some (JStr name)"

text \<open>The calls of one message with the given name.\<close>

fun calls_of :: "ustr \<Rightarrow> message \<Rightarrow> nat" where
  "calls_of name (AIMessage content calls) = length (filter (call_named name) calls)"
| "calls_of name _ = 0"

definition count_tool_calls :: "message list \<Rightarrow> ustr \<Rightarrow> nat" where
  "count_tool_calls messages name = sum_list (map (calls_of name) messages)"

text \<open>\<open>lower\<close> is \<open>str.lower\<close>.\<close>

definition failure_markers :: "ustr list" where
  "failure_markers =
     [[34, 115, 116, 97, 116, 117, 115, 34, 58, 32, 34, 102, 97, 105, 108, 101, 100, 34], [34, 115, 116, 97, 116, 117, 115, 34, 58, 34, 102, 97, 105, 108, 101, 100, 34], [34, 115, 116, 97, 116, 117, 115, 34, 58, 32, 34, 98, 108, 111, 99, 107, 101, 100, 34], [34, 115, 116, 97, 116, 117, 115, 34, 58, 34, 98, 108, 111, 99, 107, 101, 100, 34],
      U ''timeout'', U ''error_code'']"

fun is_failure :: "(ustr \<Rightarrow> ustr) \<Rightarrow> message \<Rightarrow> bool" where
  "is_failure lower (ToolMessage content) = list_ex (\<lambda>m. contains m (lower content)) failure_markers"
| "is_failure lower _ = False"

fun is_plan :: "message \<Rightarrow> bool" where
  "is_plan (AIMessage content calls) = list_ex (call_named (U ''write_todos'')) calls"
| "is_plan _ = False"

text \<open>The loop over \<open>enumerate(messages)\<close> with its two variables, \<open>-1\<close> at first.\<close>

fun replan_loop :: "(ustr \<Rightarrow> ustr) \<Rightarrow> int \<Rightarrow> int \<Rightarrow> int \<Rightarrow> message list \<Rightarrow> bool" where
  "replan_loop lower index latest_failure latest_plan [] \<longleftrightarrow> latest_failure > latest_plan"
| "replan_loop lower index latest_failure latest_plan (m # ms) \<longleftrightarrow>
     replan_loop lower (index + 1)
       (if is_failure lower m then index else latest_failure)
       (if is_plan m then index else latest_plan) ms"

definition requires_replan :: "(ustr \<Rightarrow> ustr) \<Rightarrow> message list \<Rightarrow> bool" where
  "requires_replan lower messages = replan_loop lower 0 (- 1) (- 1) messages"

fun tool_name :: "tool \<Rightarrow> ustr option" where
  "tool_name (BaseTool n) = Some n"
| "tool_name (ToolDict d) =
     (case map_of d (U ''name'') of
        Some (JStr n) \<Rightarrow> Some n
      | _ \<Rightarrow>
          (case map_of d (U ''function'') of
             Some (JObj f) \<Rightarrow>
               (case map_of f (U ''name'') of Some (JStr n) \<Rightarrow> Some n | _ \<Rightarrow> None)
           | _ \<Rightarrow> None))"

definition without_tool :: "ustr \<Rightarrow> tool list \<Rightarrow> tool list" where
  "without_tool name tools = filter (\<lambda>t. tool_name t \<noteq> Some name) tools"

section \<open>The middleware\<close>

record budget =
  pb_max_delegations :: nat
  pb_max_plan_updates :: nat

text \<open>The constructor.\<close>

definition PlanningBudget :: "int \<Rightarrow> int \<Rightarrow> budget res" where
  "PlanningBudget max_delegations max_plan_updates =
     (if max_delegations < 1 \<or> max_plan_updates < 1
      then Inl (Exn ValueErr (U ''agent budgets must be positive''))
      else Inr \<lparr>pb_max_delegations = nat max_delegations, pb_max_plan_updates = nat max_plan_updates\<rparr>)"

definition with_notice :: "tool list \<Rightarrow> ustr \<Rightarrow> model_request \<Rightarrow> model_request" where
  "with_notice tools notice request =
     request\<lparr>mq_tools_offered := tools,
             mq_system_message := Some ((case mq_system_message request of None \<Rightarrow> [] | Some t \<Rightarrow> t) @ notice)\<rparr>"

definition budget_notice :: "ustr list \<Rightarrow> ustr" where
  "budget_notice exhausted =
     [10, 10] @ [36816, 34892, 39044, 31639, 24050, 32791, 23613, 65306] @ join [12289] exhausted @ [12290] @
     [19981, 24471, 32487, 32493, 35843, 29992, 23545, 24212, 24037, 20855, 65307, 35831, 22522, 20110, 24050, 26377, 32467, 26524, 36820, 22238, 32, 99, 111, 109, 112, 108, 101, 116, 101, 100, 12289, 112, 97, 114, 116, 105, 97, 108, 32, 25110, 32, 102, 97, 105, 108, 101, 100, 12290]"

definition replan_notice :: ustr where
  "replan_notice =
     [10, 10] @ [26368, 36817, 19968, 27425, 23376, 20219, 21153, 36820, 22238, 32, 102, 97, 105, 108, 101, 100, 12289, 98, 108, 111, 99, 107, 101, 100, 12289, 116, 105, 109, 101, 111, 117, 116, 32, 25110, 38169, 35823, 30721, 12290] @
     [22312, 32487, 32493, 22996, 27966, 21069, 24517, 39035, 35843, 29992, 32, 119, 114, 105, 116, 101, 95, 116, 111, 100, 111, 115, 65306, 20445, 30041, 24050, 23436, 25104, 39033, 65292, 26631, 35760, 22833, 36133, 39033, 65292] @
     [34917, 20805, 26367, 20195, 27493, 39588, 25110, 26126, 30830, 32456, 27490, 26465, 20214, 12290]"

definition limited_request :: "(ustr \<Rightarrow> ustr) \<Rightarrow> budget \<Rightarrow> model_request \<Rightarrow> model_request" where
  "limited_request lower b request =
     (let messages = mq_messages request;
          no_task = pb_max_delegations b \<le> count_tool_calls messages (U ''task'');
          no_plan = pb_max_plan_updates b \<le> count_tool_calls messages (U ''write_todos'');
          tools = mq_tools_offered request;
          tools = (if no_task then without_tool (U ''task'') tools else tools);
          tools = (if no_plan then without_tool (U ''write_todos'') tools else tools);
          exhausted = (if no_task then [[23376, 32, 65, 103, 101, 110, 116, 32, 22996, 27966]] else []) @ (if no_plan then [[35745, 21010, 26356, 26032]] else [])
      in if exhausted \<noteq> [] then with_notice tools (budget_notice exhausted) request
         else if requires_replan lower messages
         then with_notice (without_tool (U ''task'') tools) replan_notice request
         else request)"

section \<open>When a new plan is required\<close>

text \<open>Some failure is not followed by a plan, and does not coincide with one.\<close>

lemma replan_loop_iff:
  assumes "latest_failure < index" "latest_plan < index"
  shows "replan_loop lower index latest_failure latest_plan ms \<longleftrightarrow>
    (\<exists>pre m post. ms = pre @ m # post \<and> is_failure lower m \<and> (\<forall>x \<in> set (m # post). \<not> is_plan x)) \<or>
    latest_plan < latest_failure \<and> (\<forall>x \<in> set ms. \<not> is_plan x)"
  using assms
proof (induction ms arbitrary: index latest_failure latest_plan)
  case Nil
  then show ?case by simp
next
  case (Cons x xs)
  let ?f = "if is_failure lower x then index else latest_failure"
  let ?p = "if is_plan x then index else latest_plan"
  let ?late = "\<lambda>ms. \<exists>pre m post. ms = pre @ m # post \<and> is_failure lower m \<and> (\<forall>x \<in> set (m # post). \<not> is_plan x)"
  have ex: "?late (x # xs) \<longleftrightarrow> is_failure lower x \<and> (\<forall>y \<in> set (x # xs). \<not> is_plan y) \<or> ?late xs"
    (is "_ \<longleftrightarrow> ?now \<or> _")
  proof
    assume "?late (x # xs)"
    then obtain pre m post where 1: "x # xs = pre @ m # post" "is_failure lower m"
      "\<forall>y \<in> set (m # post). \<not> is_plan y"
      by blast
    then show "?now \<or> ?late xs" by (cases pre) auto
  next
    assume "?now \<or> ?late xs"
    then show "?late (x # xs)"
    proof
      assume ?now
      then show ?thesis by (intro exI [of _ "[]"]) simp
    next
      assume "?late xs"
      then obtain pre m post where "xs = pre @ m # post" "is_failure lower m"
        "\<forall>y \<in> set (m # post). \<not> is_plan y"
        by blast
      then show ?thesis by (intro exI [of _ "x # pre"]) auto
    qed
  qed
  have "?f < index + 1" "?p < index + 1" using Cons.prems by auto
  from Cons.IH [OF this] show ?case
    unfolding replan_loop.simps ex using Cons.prems by auto
qed

lemma requires_replan_iff:
  "requires_replan lower ms \<longleftrightarrow>
    (\<exists>pre m post. ms = pre @ m # post \<and> is_failure lower m \<and> (\<forall>x \<in> set (m # post). \<not> is_plan x))"
  unfolding requires_replan_def by (subst replan_loop_iff) simp_all

section \<open>Turns of the agent\<close>

text \<open>
  A conversation is a list of turns: the request that reaches the middleware, and the tool calls of the answer to
  the limited request. Three hypotheses on it are about the framework and the model, not about this code.
\<close>

type_synonym turn = "model_request \<times> jdict list"

definition offered :: "tool list \<Rightarrow> jdict \<Rightarrow> bool" where
  "offered tools call \<longleftrightarrow> (\<exists>t \<in> set tools. \<exists>n. tool_name t = Some n \<and> call_named n call)"

definition calls_made :: "ustr \<Rightarrow> turn list \<Rightarrow> nat" where
  "calls_made name turns = sum_list (map (\<lambda>(r, calls). length (filter (call_named name) calls)) turns)"

text \<open>The history of every request still shows all calls of the turns before it: no message was dropped or summarised.\<close>

definition history_kept :: "turn list \<Rightarrow> bool" where
  "history_kept turns \<longleftrightarrow> (\<forall>k < length turns. \<forall>name.
     calls_made name (take k turns) \<le> count_tool_calls (mq_messages (fst (turns ! k))) name)"

text \<open>The model calls only tools of the request it was given.\<close>

definition only_offered :: "(ustr \<Rightarrow> ustr) \<Rightarrow> budget \<Rightarrow> turn list \<Rightarrow> bool" where
  "only_offered lower b turns \<longleftrightarrow> (\<forall>(r, calls) \<in> set turns. \<forall>call \<in> set calls.
     offered (mq_tools_offered (limited_request lower b r)) call)"

text \<open>No answer has more than \<open>w\<close> calls of one tool.\<close>

definition calls_per_answer :: "nat \<Rightarrow> turn list \<Rightarrow> bool" where
  "calls_per_answer w turns \<longleftrightarrow> (\<forall>(r, calls) \<in> set turns. \<forall>name. length (filter (call_named name) calls) \<le> w)"

lemma count_append [simp]:
  "count_tool_calls (ms @ ms') name = count_tool_calls ms name + count_tool_calls ms' name"
  by (simp add: count_tool_calls_def)

lemma count_single [simp]: "count_tool_calls [m] name = calls_of name m"
  by (simp add: count_tool_calls_def)

lemma without_tool_name: "t \<in> set (without_tool n tools) \<longleftrightarrow> t \<in> set tools \<and> tool_name t \<noteq> Some n"
  by (simp add: without_tool_def)

lemma limited_no_task:
  assumes "pb_max_delegations b \<le> count_tool_calls (mq_messages r) (U ''task'')"
    and "t \<in> set (mq_tools_offered (limited_request lower b r))"
  shows "tool_name t \<noteq> Some (U ''task'')"
  using assms by (auto simp: limited_request_def Let_def with_notice_def without_tool_name split: if_splits)

lemma limited_no_plan:
  assumes "pb_max_plan_updates b \<le> count_tool_calls (mq_messages r) (U ''write_todos'')"
    and "t \<in> set (mq_tools_offered (limited_request lower b r))"
  shows "tool_name t \<noteq> Some (U ''write_todos'')"
  using assms by (auto simp: limited_request_def Let_def with_notice_def without_tool_name split: if_splits)

lemma call_named_unique: "call_named a call \<Longrightarrow> call_named b call \<Longrightarrow> a = b"
  by (simp add: call_named_def)

text \<open>A tool that is withheld is not called.\<close>

lemma withheld_not_called:
  assumes "\<forall>t \<in> set tools. tool_name t \<noteq> Some name" "\<forall>call \<in> set calls. offered tools call"
  shows "filter (call_named name) calls = []"
  using assms call_named_unique by (fastforce simp: filter_empty_conv offered_def)

lemma calls_made_snoc [simp]:
  "calls_made name (turns @ [(r, calls)]) = calls_made name turns + length (filter (call_named name) calls)"
  by (simp add: calls_made_def)

lemma history_kept_snoc:
  assumes "history_kept (turns @ [(r, calls)])"
  shows "history_kept turns" "calls_made name turns \<le> count_tool_calls (mq_messages r) name"
proof -
  show "history_kept turns" unfolding history_kept_def
  proof (intro allI impI)
    fix k name assume "k < length turns"
    then show "calls_made name (take k turns) \<le> count_tool_calls (mq_messages (fst (turns ! k))) name"
      using assms [unfolded history_kept_def, rule_format, of k name] by (simp add: nth_append)
  qed
  show "calls_made name turns \<le> count_tool_calls (mq_messages r) name"
    using assms [unfolded history_kept_def, rule_format, of "length turns" name] by simp
qed

text \<open>A tool that is taken away when its count reaches \<open>limit\<close> is called fewer than \<open>limit + w\<close> times.\<close>

lemma withdrawn_bound:
  assumes "history_kept turns" "only_offered lower b turns" "calls_per_answer w turns" "0 < limit" "0 < w"
    and gone: "\<And>r t. limit \<le> count_tool_calls (mq_messages r) name \<Longrightarrow>
      t \<in> set (mq_tools_offered (limited_request lower b r)) \<Longrightarrow> tool_name t \<noteq> Some name"
  shows "calls_made name turns < limit + w"
  using assms(1-3)
proof (induction turns rule: rev_induct)
  case Nil
  then show ?case using assms(4) by (simp add: calls_made_def)
next
  case (snoc x turns)
  obtain r calls where x: "x = (r, calls)" by fastforce
  note history = history_kept_snoc [OF snoc.prems(1) [unfolded x]]
  have before: "calls_made name turns < limit + w"
    using snoc.prems(2,3) by (intro snoc.IH history(1)) (simp_all add: only_offered_def calls_per_answer_def)
  have now: "\<forall>call \<in> set calls. offered (mq_tools_offered (limited_request lower b r)) call"
    "length (filter (call_named name) calls) \<le> w"
    using snoc.prems(2,3) by (simp_all add: x only_offered_def calls_per_answer_def)
  show ?case
  proof (cases "limit \<le> calls_made name turns")
    case True
    then have "limit \<le> count_tool_calls (mq_messages r) name" using history(2) [of name] by linarith
    from withheld_not_called [OF _ now(1), of name] gone [OF this] before show ?thesis by (simp add: x)
  next
    case False
    with now(2) show ?thesis by (simp add: x)
  qed
qed

section \<open>Properties\<close>

text \<open>
  C17: Budgets hold, as far as the middleware can see to it. Whatever the request, once its history shows
  \<open>max_delegations\<close> delegations (\<open>max_plan_updates\<close> plan updates) it is passed on without a tool of that name.
  Therefore, in a conversation in which (1) the history of every request still shows all calls of the turns before it
  (nothing was dropped or summarised), (2) the model calls only tools of the request it was given, and (3) no answer
  makes more than \<open>w\<close> calls of one tool, there are fewer than \<open>max_delegations + w\<close> delegations and fewer than
  \<open>max_plan_updates + w\<close> plan updates in all: with one call per answer the budgets are exact, several calls in one
  answer can overshoot them. (1) and (2) are up to the framework and the model: the middleware takes a tool off the
  offer but refuses no call.
\<close>

theorem planning_budgets_hold:
  assumes "PlanningBudget max_delegations max_plan_updates = Inr b"
    and "history_kept turns" "only_offered lower b turns" "calls_per_answer w turns" "0 < w"
  shows "(\<forall>r t. t \<in> set (mq_tools_offered (limited_request lower b r)) \<longrightarrow>
      (max_delegations \<le> int (count_tool_calls (mq_messages r) (U ''task'')) \<longrightarrow> tool_name t \<noteq> Some (U ''task'')) \<and>
      (max_plan_updates \<le> int (count_tool_calls (mq_messages r) (U ''write_todos'')) \<longrightarrow>
         tool_name t \<noteq> Some (U ''write_todos''))) \<and>
    int (calls_made (U ''task'') turns) < max_delegations + int w \<and>
    int (calls_made (U ''write_todos'') turns) < max_plan_updates + int w"
proof -
  have b: "int (pb_max_delegations b) = max_delegations" "int (pb_max_plan_updates b) = max_plan_updates"
    "0 < pb_max_delegations b" "0 < pb_max_plan_updates b"
    using assms(1) by (auto simp: PlanningBudget_def split: if_splits)
  have "calls_made (U ''task'') turns < pb_max_delegations b + w"
    by (rule withdrawn_bound [OF assms(2-4) b(3) assms(5) limited_no_task])
  moreover have "calls_made (U ''write_todos'') turns < pb_max_plan_updates b + w"
    by (rule withdrawn_bound [OF assms(2-4) b(4) assms(5) limited_no_plan])
  ultimately show ?thesis
    using limited_no_task [of b _ _ lower] limited_no_plan [of b _ _ lower] unfolding b(1,2) [symmetric] by auto
qed

text \<open>Two delegations in the first answer, under a budget of one; the second request offers no delegation.\<close>

definition demo_task_call :: jdict where
  "demo_task_call = [(U ''name'', JStr (U ''task''))]"

definition demo_parallel :: message where
  "demo_parallel = AIMessage JNull [demo_task_call, demo_task_call]"

definition demo_turns :: "turn list" where
  "demo_turns = map (\<lambda>(ms, calls). (\<lparr>mq_messages = ms, mq_tools_offered = [BaseTool (U ''task'')],
     mq_system_message = None\<rparr>, calls)) [([], [demo_task_call, demo_task_call]), ([demo_parallel], [])]"

lemma demo_turns_hypotheses:
  "history_kept demo_turns" "calls_per_answer 2 demo_turns"
  "only_offered id \<lparr>pb_max_delegations = 1, pb_max_plan_updates = 1\<rparr> demo_turns"
proof -
  show "history_kept demo_turns"
    by (auto simp: history_kept_def demo_turns_def calls_made_def count_tool_calls_def demo_parallel_def less_Suc_eq)
  show "calls_per_answer 2 demo_turns"
    by (simp add: calls_per_answer_def demo_turns_def)
  show "only_offered id \<lparr>pb_max_delegations = 1, pb_max_plan_updates = 1\<rparr> demo_turns"
    by (simp add: only_offered_def demo_turns_def offered_def limited_request_def count_tool_calls_def
        requires_replan_def demo_task_call_def call_named_def Let_def)
qed

theorem planning_budgets_hold_witness:
  "int (calls_made (U ''task'') demo_turns) < 1 + int 2 \<and> calls_made (U ''task'') demo_turns = 2"
proof
  have "PlanningBudget 1 1 = Inr \<lparr>pb_max_delegations = 1, pb_max_plan_updates = 1\<rparr>"
    by (simp add: PlanningBudget_def)
  from planning_budgets_hold [OF this demo_turns_hypotheses(1,3,2)]
  show "int (calls_made (U ''task'') demo_turns) < 1 + int 2" by simp
  show "calls_made (U ''task'') demo_turns = 2"
    by (simp add: calls_made_def demo_turns_def demo_task_call_def call_named_def)
qed

text \<open>
  C18: While both budgets last, delegation is gated on planning: after a delegated failure that no plan
  update has followed, the model is offered every tool except \<open>task\<close>; otherwise it is offered all of them
  and the request is passed on unchanged.
\<close>

theorem replan_gates_delegation:
  assumes "count_tool_calls (mq_messages r) (U ''task'') < pb_max_delegations b"
    and "count_tool_calls (mq_messages r) (U ''write_todos'') < pb_max_plan_updates b"
  shows "(if \<exists>pre m post. mq_messages r = pre @ m # post \<and> is_failure lower m \<and>
              (\<forall>x \<in> set (m # post). \<not> is_plan x)
          then mq_tools_offered (limited_request lower b r) =
            filter (\<lambda>t. tool_name t \<noteq> Some (U ''task'')) (mq_tools_offered r)
          else limited_request lower b r = r)"
  unfolding requires_replan_iff [symmetric] using assms
  by (simp add: limited_request_def Let_def with_notice_def without_tool_def)

definition demo_failed :: message where
  "demo_failed = ToolMessage (U ''subagent timeout'')"

definition demo_request :: "message list \<Rightarrow> model_request" where
  "demo_request ms =
     \<lparr>mq_messages = ms, mq_tools_offered = [BaseTool (U ''task''), BaseTool (U ''write_todos'')],
      mq_system_message = None\<rparr>"

lemma demo_failed_fails: "is_failure id demo_failed"
  by (simp add: demo_failed_def failure_markers_def U_def)

theorem replan_gates_delegation_witness:
  "mq_tools_offered (limited_request id \<lparr>pb_max_delegations = 8, pb_max_plan_updates = 3\<rparr>
     (demo_request [demo_failed])) = [BaseTool (U ''write_todos'')]"
proof -
  have "\<exists>pre m post. mq_messages (demo_request [demo_failed]) = pre @ m # post \<and> is_failure id m \<and>
      (\<forall>x \<in> set (m # post). \<not> is_plan x)"
    by (rule exI [of _ "[]"], rule exI [of _ demo_failed], rule exI [of _ "[]"])
       (use demo_failed_fails in \<open>simp add: demo_request_def demo_failed_def\<close>)
  moreover have "count_tool_calls (mq_messages (demo_request [demo_failed])) n = 0" for n
    by (simp add: demo_request_def demo_failed_def)
  ultimately show ?thesis
    using replan_gates_delegation [of "demo_request [demo_failed]"
        "\<lparr>pb_max_delegations = 8, pb_max_plan_updates = 3\<rparr>" id]
    by (simp add: demo_request_def)
qed

text \<open>
  Once the plan updates are used up, that gate is open: after a delegated failure the model is still
  offered \<open>task\<close> (and no longer \<open>write_todos\<close>), so it can delegate again without a new plan.
\<close>

theorem exhausted_plans_open_the_gate:
  assumes "requires_replan lower (mq_messages r)"
    and "pb_max_plan_updates b \<le> count_tool_calls (mq_messages r) (U ''write_todos'')"
    and "count_tool_calls (mq_messages r) (U ''task'') < pb_max_delegations b"
    and "t \<in> set (mq_tools_offered r)" "tool_name t = Some (U ''task'')"
  shows "t \<in> set (mq_tools_offered (limited_request lower b r)) \<and>
    (\<forall>t' \<in> set (mq_tools_offered (limited_request lower b r)). tool_name t' \<noteq> Some (U ''write_todos''))"
  using assms by (simp add: limited_request_def Let_def with_notice_def without_tool_def)

definition demo_plan :: message where
  "demo_plan = AIMessage JNull [[(U ''name'', JStr (U ''write_todos''))]]"

theorem exhausted_plans_open_the_gate_witness:
  "BaseTool (U ''task'') \<in> set (mq_tools_offered (limited_request id
     \<lparr>pb_max_delegations = 8, pb_max_plan_updates = 1\<rparr> (demo_request [demo_plan, demo_failed])))"
proof -
  have "requires_replan id [demo_plan, demo_failed]"
    using demo_failed_fails by (simp add: requires_replan_def demo_plan_def demo_failed_def call_named_def)
  then show ?thesis
    using exhausted_plans_open_the_gate [of id "demo_request [demo_plan, demo_failed]"
        "\<lparr>pb_max_delegations = 8, pb_max_plan_updates = 1\<rparr>" "BaseTool (U ''task'')"]
    by (simp add: demo_request_def count_tool_calls_def demo_plan_def demo_failed_def call_named_def)
qed

end
