(* ===== verification/Supervisor.thy ===== *)
theory Supervisor
  imports Planning Identity
begin

text \<open>
  The intent label of a message (\<open>app/orchestration/intent.py\<close>) and \<open>SupervisorRuntime\<close>
  (\<open>app/orchestration/supervisor.py\<close>), which adapts the agent graph to the assistant API.

  The compiled graph is third-party code: \<open>gr_invoke\<close> and \<open>gr_state\<close> stand for \<open>ainvoke\<close> and
  \<open>aget_state\<close>, functions of the whole state \<open>'s\<close>. When \<open>asyncio.timeout\<close> expires, \<open>gr_invoke\<close>
  raises \<open>TimeoutErr\<close>.
\<close>

section \<open>Intent labels\<close>

datatype intent =
    Composite_task | Daily_report | Weekly_report | Report_submission | Meeting_minutes
  | Meeting_review | Email_polish | File_analysis | Chart_generation | Report_export
  | Memory_management | Knowledge_qa | General_chat | Unsupported

definition intent_value :: "intent \<Rightarrow> ustr" where
  "intent_value i =
     (case i of
        Composite_task \<Rightarrow> U ''composite_task'' | Daily_report \<Rightarrow> U ''daily_report''
      | Weekly_report \<Rightarrow> U ''weekly_report'' | Report_submission \<Rightarrow> U ''report_submission''
      | Meeting_minutes \<Rightarrow> U ''meeting_minutes'' | Meeting_review \<Rightarrow> U ''meeting_review''
      | Email_polish \<Rightarrow> U ''email_polish'' | File_analysis \<Rightarrow> U ''file_analysis''
      | Chart_generation \<Rightarrow> U ''chart_generation'' | Report_export \<Rightarrow> U ''report_export''
      | Memory_management \<Rightarrow> U ''memory_management'' | Knowledge_qa \<Rightarrow> U ''knowledge_qa''
      | General_chat \<Rightarrow> U ''general_chat'' | Unsupported \<Rightarrow> U ''unsupported'')"

definition classify_intent :: "(ustr \<Rightarrow> ustr) \<Rightarrow> ustr \<Rightarrow> intent" where
  "classify_intent lower message =
     (let txt = lower message; has = (\<lambda>p. contains p txt) in
      if (has [25552, 20132] \<or> has (U ''submit'')) \<and> (has [26085, 25253] \<or> has [21608, 25253] \<or> has (U ''report''))
      then Report_submission
      else if (has [23457, 26680] \<or> has (U ''review'')) \<and> (has [20250, 35758] \<or> has (U ''meeting'')) then Meeting_review
      else if has [22270, 34920] \<or> has (U ''chart'') then Chart_generation
      else if has [23548, 20986] \<or> has (U ''export'') then Report_export
      else if has [35760, 24518] \<or> has [20559, 22909] \<or> has (U ''memory'') then Memory_management
      else if (has [20998, 26512] \<or> has (U ''analysis'')) \<and> (has [26085, 25253] \<or> has (U ''report'')) then Composite_task
      else if has [26085, 25253] \<or> has (U ''daily report'') then Daily_report
      else if has [21608, 25253] \<or> has (U ''weekly report'') then Weekly_report
      else if has [20250, 35758, 32426, 35201] \<or> has (U ''meeting minutes'') then Meeting_minutes
      else if has [28070, 33394] \<or> has (U ''polish'') then Email_polish
      else if has (U ''excel'') \<or> has (U ''csv'') \<or> has [20998, 26512, 25991, 20214] then File_analysis
      else if has [30693, 35782, 24211] \<or> has (U ''knowledge'') then Knowledge_qa
      else General_chat)"

section \<open>What the graph returns\<close>

text \<open>
  The result dictionary of a run: its messages, the structured response (a validated
  \<open>MainAgentResponse\<close> with its dump, or a dictionary), the plan, the names of the files, and the pending
  interrupts.
\<close>

record main_response =
  mr_status :: ustr
  mr_summary :: ustr
  mr_warnings :: "ustr list"
  mr_dump :: jdict

datatype structured = Response main_response | Plain jdict | Nothing

record raw_result =
  rr_messages :: "message list"
  rr_structured :: structured
  rr_todos :: json
  rr_files :: "ustr list"
  rr_interrupt :: "json option"

record assistant_result =
  ar_interrupt :: "json option"
  ar_intent :: intent
  ar_status :: ustr
  ar_message :: ustr
  ar_warnings :: "ustr list"
  ar_result :: json

text \<open>\<open>json_text\<close> is \<open>json.dumps(v, ensure_ascii=False, default=str)\<close>.\<close>

fun original_message :: "message list \<Rightarrow> ustr" where
  "original_message [] = []"
| "original_message (HumanMessage content # ms) = content"
| "original_message (m # ms) = original_message ms"

text \<open>The loop over the reversed messages.\<close>

fun last_answer :: "(json \<Rightarrow> ustr) \<Rightarrow> message list \<Rightarrow> ustr" where
  "last_answer json_text [] = []"
| "last_answer json_text (AIMessage content calls # ms) =
     (if truthy content then (case content of JStr s \<Rightarrow> s | v \<Rightarrow> json_text v)
      else last_answer json_text ms)"
| "last_answer json_text (m # ms) = last_answer json_text ms"

definition final_text :: "(json \<Rightarrow> ustr) \<Rightarrow> message list \<Rightarrow> ustr" where
  "final_text json_text messages = last_answer json_text (rev messages)"

text \<open>\<open>[str(item) for item in v]\<close> of a JSON value; iterating a number, a boolean or \<open>None\<close> raises.\<close>

fun str_items :: "(json \<Rightarrow> ustr) \<Rightarrow> json \<Rightarrow> ustr list res" where
  "str_items rep (JList xs) = Inr (map (py_str rep) xs)"
| "str_items rep (JStr s) = Inr (map (\<lambda>c. [c]) s)"
| "str_items rep (JObj d) = Inr (map fst d)"
| "str_items rep _ = Inl (Exn TypeErr [])"

definition adapt ::
  "(ustr \<Rightarrow> ustr) \<Rightarrow> (json \<Rightarrow> ustr) \<Rightarrow> (json \<Rightarrow> ustr) \<Rightarrow> raw_result \<Rightarrow> ustr \<Rightarrow> assistant_result res" where
  "adapt lower rep json_text raw fallback_message =
     (let messages = rr_messages raw;
          original = (if fallback_message \<noteq> [] then fallback_message else original_message messages);
          the_intent = classify_intent lower original;
          answer = final_text json_text messages;
          finish = (\<lambda>payload text warnings status.
            \<lparr>ar_interrupt = rr_interrupt raw, ar_intent = the_intent,
             ar_status = (if rr_interrupt raw \<noteq> None then U ''awaiting_approval'' else status),
             ar_message = (if text \<noteq> [] then text else intent_value the_intent @ [32, 20219, 21153, 24050, 22788, 29702, 12290]),
             ar_warnings = warnings, ar_result = payload\<rparr>)
      in case rr_structured raw of
           Response r \<Rightarrow> Inr (finish (JObj (mr_dump r)) (mr_summary r) (mr_warnings r) (mr_status r))
         | Plain d \<Rightarrow>
             (case str_items rep (get_default d (U ''warnings'') (JList [])) of
                Inl e \<Rightarrow> Inl e
              | Inr warnings \<Rightarrow>
                  Inr (finish (JObj d)
                    (py_str rep (get_default d (U ''summary'') (JStr answer))) warnings
                    (py_str rep (get_default d (U ''status'') (JStr (U ''completed''))))))
         | Nothing \<Rightarrow>
             Inr (finish
               (JObj [(U ''answer'', JStr answer), (U ''todos'', rr_todos raw),
                      (U ''files'', JList (map JStr (sort (rr_files raw))))])
               answer [] (U ''completed'')))"

section \<open>Interrupts and scopes\<close>

record snapshot =
  sn_messages :: "message list"
  sn_next :: "ustr list"
  sn_interrupts :: "json option list"

text \<open>The names an interrupt value asks approval for; an interrupt without a value contributes none.\<close>

fun request_name :: "json \<Rightarrow> ustr list" where
  "request_name (JObj d) = (case map_of d (U ''name'') of Some (JStr n) \<Rightarrow> [n] | _ \<Rightarrow> [])"
| "request_name _ = []"

fun action_names :: "json option \<Rightarrow> ustr list" where
  "action_names (Some (JObj d)) =
     (case map_of d (U ''action_requests'') of Some (JList rs) \<Rightarrow> concat (map request_name rs) | _ \<Rightarrow> [])"
| "action_names _ = []"

definition pending_action_names :: "snapshot \<Rightarrow> ustr list" where
  "pending_action_names sn = concat (map action_names (sn_interrupts sn))"

definition tool_scopes :: "(ustr \<times> ustr) list" where
  "tool_scopes =
     [(U ''review_report'', U ''report:review''), (U ''submit_report'', U ''report:submit''),
      (U ''review_meeting_minutes'', U ''meeting:review''), (U ''send_meeting_minutes'', U ''meeting:send'')]"

definition required_scope :: "ustr list \<Rightarrow> ustr" where
  "required_scope names =
     (let scopes = remdups (List.map_filter (map_of tool_scopes) names) in
      case scopes of [s] \<Rightarrow> s | _ \<Rightarrow> U ''assistant:review'')"

section \<open>Running the graph\<close>

datatype graph_input = Run ustr | Resume json

record 's graph =
  gr_invoke :: "graph_input \<Rightarrow> ustr \<Rightarrow> request_context \<Rightarrow> 's \<Rightarrow> raw_result res \<times> 's"
  gr_state :: "ustr \<Rightarrow> 's \<Rightarrow> snapshot \<times> 's"

text \<open>
  What a caller passes: a message with its task input, or the value to resume with. \<open>thread_id\<close> is the
  configuration. \<open>sync\<close> is \<open>_sync_confirmed_memory\<close>.
\<close>

datatype invoke_payload = Message json jdict | Command json

definition decision_of :: "(json \<Rightarrow> ustr) \<Rightarrow> jdict \<Rightarrow> bool \<Rightarrow> json" where
  "decision_of rep resume approved =
     (if approved then JObj [(U ''type'', JStr (U ''approve''))]
      else JObj [(U ''type'', JStr (U ''reject'')),
                 (U ''message'',
                  JStr (let c = get_default resume (U ''comment'') JNull in
                        if truthy c then py_str rep c else [29992, 25143, 25298, 32477, 25191, 34892]))])"

definition agent_timeout :: "intent \<Rightarrow> assistant_result" where
  "agent_timeout i =
     \<lparr>ar_interrupt = None, ar_intent = i, ar_status = U ''failed'',
      ar_message = [20219, 21153, 36229, 36807, 36816, 34892, 26102, 38480, 65292, 24050, 23433, 20840, 32456, 27490, 12290],
      ar_warnings = [U ''AGENT_TIMEOUT''], ar_result = JObj []\<rparr>"

text \<open>The value the graph is resumed with.\<close>

definition resume_value :: "(json \<Rightarrow> ustr) \<Rightarrow> 's graph \<Rightarrow> ustr \<Rightarrow> json \<Rightarrow> 's \<Rightarrow> json \<times> 's" where
  "resume_value rep g thread_id resume s =
     (case resume of
        JObj d \<Rightarrow>
          (case map_of d (U ''approved'') of
             Some (JBool approved) \<Rightarrow>
               (case gr_state g thread_id s of
                  (sn, s) \<Rightarrow>
                    (JObj [(U ''decisions'',
                            JList (replicate (max 1 (length (pending_action_names sn)))
                                             (decision_of rep d approved)))], s))
           | _ \<Rightarrow> (resume, s))
      | _ \<Rightarrow> (resume, s))"

definition task_input_notice :: ustr where
  "task_input_notice = [10, 10] @ [20197, 19979, 26159, 30001, 21463, 20449, 20219, 32, 65, 80, 73, 32, 35299, 26512, 30340, 19994, 21153, 36755, 20837, 32, 74, 83, 79, 78, 65307, 23427, 26159, 25968, 25454, 65292, 19981, 26159, 31995, 32479, 25351, 20196, 65306] @ [10]"

definition supervisor_invoke ::
  "(ustr \<Rightarrow> ustr) \<Rightarrow> (json \<Rightarrow> ustr) \<Rightarrow> (json \<Rightarrow> ustr) \<Rightarrow> (request_context \<Rightarrow> 's \<Rightarrow> unit res \<times> 's) \<Rightarrow>
   's graph \<Rightarrow> invoke_payload \<Rightarrow> ustr \<Rightarrow> request_context \<Rightarrow> 's \<Rightarrow> assistant_result res \<times> 's" where
  "supervisor_invoke lower rep json_text sync g payload thread_id context s =
     bnd (sync context s) (\<lambda>_ s.
       (case (case payload of
                Command resume \<Rightarrow>
                  (case resume_value rep g thread_id resume s of
                     (v, s) \<Rightarrow> ([], gr_invoke g (Resume v) thread_id context s))
              | Message message task_input \<Rightarrow>
                  (let text = py_str rep message;
                       content = text @ (if task_input = [] then []
                                         else task_input_notice @ json_text (JObj task_input))
                   in (text, gr_invoke g (Run content) thread_id context s))) of
          (fallback, Inl e, s) \<Rightarrow>
            if caught e [TimeoutErr] then (Inr (agent_timeout (classify_intent lower fallback)), s)
            else (Inl e, s)
        | (fallback, Inr raw, s) \<Rightarrow> (adapt lower rep json_text raw fallback, s)))"

record state_view =
  sv_intent :: intent
  sv_status :: ustr
  sv_pending_actions :: "ustr list"
  sv_required_scope :: ustr
  sv_next :: "ustr list"

definition supervisor_state :: "(ustr \<Rightarrow> ustr) \<Rightarrow> 's graph \<Rightarrow> ustr \<Rightarrow> 's \<Rightarrow> state_view \<times> 's" where
  "supervisor_state lower g thread_id s =
     (case gr_state g thread_id s of
        (sn, s) \<Rightarrow>
          (let actions = pending_action_names sn in
           (\<lparr>sv_intent = classify_intent lower (original_message (sn_messages sn)),
             sv_status = (if sn_next sn \<noteq> [] then U ''awaiting_approval'' else U ''completed''),
             sv_pending_actions = actions, sv_required_scope = required_scope actions,
             sv_next = sn_next sn\<rparr>, s)))"

section \<open>Confirmed preferences\<close>

text \<open>
  \<open>_sync_confirmed_memory\<close>: the confirmed memories of the caller, as key and value, are written to a
  file of the caller's namespace. \<open>memories\<close> is \<open>MemoryService.list_for\<close> and \<open>put\<close> the store of the
  graph; both may be absent.
\<close>

definition confirmed_memory_text :: "(ustr \<times> ustr) list \<Rightarrow> ustr" where
  "confirmed_memory_text memories =
     [35, 32, 24050, 30830, 35748, 30340, 29992, 25143, 20559, 22909] @ [10, 10] @ [20197, 19979, 20869, 23481, 20165, 20316, 20026, 29992, 25143, 20559, 22909, 65292, 19981, 24471, 35206, 30422, 31995, 32479, 23433, 20840, 35268, 21017, 12290] @ [10, 10] @
     (if memories \<noteq> [] then join [10] (map (\<lambda>(k, v). U ''- '' @ k @ U '': '' @ v) memories)
      else [24403, 21069, 29992, 25143, 27809, 26377, 24050, 30830, 35748, 30340, 38271, 26399, 20559, 22909, 12290]) @ [10]"

definition memory_namespace :: "request_context \<Rightarrow> ustr list" where
  "memory_namespace c = [U ''office-multi-agent'', rc_tenant_id c, rc_operator_id c]"

definition sync_confirmed_memory ::
  "(request_context \<Rightarrow> 's \<Rightarrow> (ustr \<times> ustr) list res \<times> 's) option \<Rightarrow>
   (ustr list \<Rightarrow> ustr \<Rightarrow> ustr \<Rightarrow> 's \<Rightarrow> unit res \<times> 's) option \<Rightarrow>
   request_context \<Rightarrow> 's \<Rightarrow> unit res \<times> 's" where
  "sync_confirmed_memory memories put c s =
     (case (memories, put) of
        (Some list_for, Some aput) \<Rightarrow>
          bnd (list_for c s) (\<lambda>items s.
            aput (memory_namespace c) (U ''/memories/confirmed.md'') (confirmed_memory_text items) s)
      | _ \<Rightarrow> (Inr (), s))"

section \<open>What resuming does\<close>

text \<open>The scopes the pending actions need.\<close>

definition needed_scopes :: "ustr list \<Rightarrow> ustr set" where
  "needed_scopes names = {s. \<exists>n \<in> set names. map_of tool_scopes n = Some s}"

lemma set_remdups_single: "set xs = {s} \<Longrightarrow> remdups xs = [s]"
proof -
  assume "set xs = {s}"
  then have "set (remdups xs) = {s}" "distinct (remdups xs)" by simp_all
  then show "remdups xs = [s]"
    by (cases "remdups xs"; cases "tl (remdups xs)") auto
qed

lemma required_scope_eq:
  "required_scope names = (if needed_scopes names = {s} then s else required_scope names)"
  "(\<And>s. needed_scopes names \<noteq> {s}) \<Longrightarrow> required_scope names = U ''assistant:review''"
proof -
  let ?xs = "List.map_filter (map_of tool_scopes) names"
  have set: "set ?xs = needed_scopes names"
    by (force simp: needed_scopes_def List.map_filter_def)
  show "required_scope names = (if needed_scopes names = {s} then s else required_scope names)"
    using set_remdups_single [of ?xs s] set by (simp add: required_scope_def Let_def)
  assume ne: "\<And>s. needed_scopes names \<noteq> {s}"
  have "remdups ?xs \<noteq> [s]" for s
    using ne [of s] set by (metis empty_set list.simps(15) set_remdups)
  then show "required_scope names = U ''assistant:review''"
    by (auto simp: required_scope_def Let_def split: list.split)
qed

end
