(* ===== verification/Request_Security.thy ===== *)
theory Request_Security
  imports Identity Py_Text
begin

text \<open>
  What stands between a request and the routes: the delegated SSO token (\<open>app/security/sso.py\<close>), the
  middleware (\<open>app/middleware/runtime.py\<close>), the handler of unhandled exceptions (\<open>app/main.py\<close>) and the
  request context (\<open>app/middleware/context.py\<close>).

  Header names are lower case; header values are latin-1, as the server decodes them. \<open>lower\<close> is
  \<open>str.lower\<close>. The context variable that holds the token is an argument and a result: a body run under
  \<open>bind_sso_access_token\<close> reads the bound value, and what it leaves in the variable is undone.
\<close>

section \<open>The SSO token\<close>

text \<open>\<open>s.partition(sep)\<close> for a separator of one character.\<close>

definition partition1 :: "nat \<Rightarrow> ustr \<Rightarrow> ustr \<times> ustr \<times> ustr" where
  "partition1 sep s =
     (let rest = dropWhile (\<lambda>c. c \<noteq> sep) s in (takeWhile (\<lambda>c. c \<noteq> sep) s, take 1 rest, drop 1 rest))"

definition invalid_bearer :: exn where
  "invalid_bearer = Exn InvalidSsoTokenErr (U ''invalid bearer token'')"

definition extract_bearer_token :: "(ustr \<Rightarrow> ustr) \<Rightarrow> ustr option \<Rightarrow> ustr option res" where
  "extract_bearer_token lower authorization =
     (case authorization of
        None \<Rightarrow> Inr None
      | Some a \<Rightarrow>
          (case partition1 32 a of
             (scheme, separator, rest) \<Rightarrow>
               let token = strip rest in
               if separator \<noteq> [32] \<or> lower scheme \<noteq> U ''bearer'' \<or> token = [] \<or> 8192 < length token \<or>
                  list_ex (\<lambda>c. is_space c \<or> c < 32) token
               then Inl invalid_bearer else Inr (Some token)))"

text \<open>\<open>body\<close> runs with the variable set to \<open>token\<close>; however it ends, the variable is reset.\<close>

definition bind_sso_access_token ::
  "ustr option \<Rightarrow> (ustr option \<Rightarrow> 's \<Rightarrow> 'a res \<times> ustr option \<times> 's) \<Rightarrow> ustr option \<Rightarrow> 's \<Rightarrow>
   'a res \<times> ustr option \<times> 's" where
  "bind_sso_access_token token body var s = (case body token s of (r, var', s') \<Rightarrow> (r, var, s'))"

definition get_access_token :: "ustr option \<Rightarrow> ustr res" where
  "get_access_token var =
     (case var of
        None \<Rightarrow> Inl (Exn SsoTokenUnavailableErr (U ''SSO token is required for knowledge queries''))
      | Some token \<Rightarrow> Inr token)"

section \<open>Requests and responses\<close>

text \<open>
  \<open>hq_request_id\<close> is \<open>request.state.request_id\<close>, \<open>hq_context\<close> a \<open>RequestContext\<close> a gateway has put into
  \<open>request.state\<close>.
\<close>

record http_request =
  hq_method :: ustr
  hq_path :: ustr
  hq_headers :: "(ustr \<times> ustr) list"
  hq_request_id :: "ustr option"
  hq_context :: "request_context option"

record http_response =
  hp_status :: int
  hp_headers :: "(ustr \<times> ustr) list"
  hp_body :: json

definition JSONResponse :: "int \<Rightarrow> jdict \<Rightarrow> (ustr \<times> ustr) list \<Rightarrow> http_response" where
  "JSONResponse status content headers =
     \<lparr>hp_status = status, hp_headers = headers, hp_body = JObj content\<rparr>"

definition header :: "http_request \<Rightarrow> ustr \<Rightarrow> ustr option" where
  "header request name = map_of (hq_headers request) name"

lemma header_request_id [simp]: "header (request\<lparr>hq_request_id := i\<rparr>) name = header request name"
  by (simp add: header_def)

section \<open>The middleware\<close>

text \<open>
  \<open>s.isdigit()\<close> for latin-1 text: it also holds of the superscript digits. \<open>int(s)\<close> of such a string
  raises \<open>ValueError\<close> for them, and for more than 4300 digits.
\<close>

definition isdigit :: "ustr \<Rightarrow> bool" where
  "isdigit s \<longleftrightarrow> s \<noteq> [] \<and> list_all (\<lambda>c. is_digit c \<or> c \<in> {178, 179, 185}) s"

definition int_of_digits :: "ustr \<Rightarrow> int res" where
  "int_of_digits s =
     (if list_all is_digit s \<and> length s \<le> 4300 then Inr (int (undec s)) else Inl (Exn ValueErr []))"

text \<open>\<open>^[A-Za-z0-9_-]{8,128}$\<close>, tested with \<open>fullmatch\<close>.\<close>

definition request_id_char :: "nat \<Rightarrow> bool" where
  "request_id_char c \<longleftrightarrow>
     (65 \<le> c \<and> c \<le> 90) \<or> (97 \<le> c \<and> c \<le> 122) \<or> is_digit c \<or> c = 95 \<or> c = 45"

definition request_id_ok :: "ustr \<Rightarrow> bool" where
  "request_id_ok s \<longleftrightarrow> 8 \<le> length s \<and> length s \<le> 128 \<and> list_all request_id_char s"

definition secured :: "ustr \<Rightarrow> http_response \<Rightarrow> http_response" where
  "secured request_id response =
     response\<lparr>hp_headers := AList.update (U ''cache-control'') (U ''no-store'')
       (AList.update (U ''referrer-policy'') (U ''no-referrer'')
       (AList.update (U ''x-frame-options'') (U ''DENY'')
       (AList.update (U ''x-content-type-options'') (U ''nosniff'')
       (AList.update (U ''x-request-id'') request_id (hp_headers response)))))\<rparr>"

text \<open>
  The application behind the middleware: it gets the request, runs in a copy of the current context (so
  what it does to the variable is its own), and may raise.
\<close>

type_synonym 's application = "http_request \<Rightarrow> ustr option \<Rightarrow> 's \<Rightarrow> http_response res \<times> 's"

text \<open>The result also holds the request, whose \<open>state\<close> the exception handler reads.\<close>

definition dispatch ::
  "(ustr \<Rightarrow> ustr) \<Rightarrow> int \<Rightarrow> ustr \<Rightarrow> 's application \<Rightarrow> http_request \<Rightarrow> ustr option \<Rightarrow> 's \<Rightarrow>
   http_response res \<times> http_request \<times> ustr option \<times> 's" where
  "dispatch lower max_body uuid call_next request var s =
     (let content_length = header request (U ''content-length'');
          size = (case content_length of
                    None \<Rightarrow> Inr None
                  | Some n \<Rightarrow> if n \<noteq> [] \<and> isdigit n then map_sum id Some (int_of_digits n) else Inr None)
      in case size of
           Inl e \<Rightarrow> (Inl e, request, var, s)
         | Inr n \<Rightarrow>
             if (case n of None \<Rightarrow> False | Some k \<Rightarrow> k > max_body)
             then (Inr (JSONResponse 413 [(U ''detail'', JStr (U ''request body too large''))] []), request, var, s)
             else
               let supplied = (case header request (U ''x-request-id'') of None \<Rightarrow> [] | Some i \<Rightarrow> i);
                   request_id = (if request_id_ok supplied then supplied else uuid);
                   request = request\<lparr>hq_request_id := Some request_id\<rparr>
               in case extract_bearer_token lower (header request (U ''authorization'')) of
                    Inl e \<Rightarrow>
                      (if caught e [InvalidSsoTokenErr]
                       then Inr (JSONResponse 401 [(U ''detail'', JStr (U ''invalid authorization header''))]
                                   [(U ''x-request-id'', request_id)])
                       else Inl e, request, var, s)
                  | Inr sso_token \<Rightarrow>
                      (case bind_sso_access_token sso_token
                              (\<lambda>v s. case call_next request v s of (r, s) \<Rightarrow> (r, v, s)) var s of
                         (r, var, s) \<Rightarrow> (map_sum id (secured request_id) r, request, var, s)))"

text \<open>
  \<open>unhandled_exception_handler\<close> runs outside the middleware.
\<close>

definition serve ::
  "(ustr \<Rightarrow> ustr) \<Rightarrow> int \<Rightarrow> ustr \<Rightarrow> 's application \<Rightarrow> http_request \<Rightarrow> ustr option \<Rightarrow> 's \<Rightarrow>
   http_response \<times> ustr option \<times> 's" where
  "serve lower max_body uuid call_next request var s =
     (case dispatch lower max_body uuid call_next request var s of
        (Inr response, _, var, s) \<Rightarrow> (response, var, s)
      | (Inl e, request, var, s) \<Rightarrow>
          (JSONResponse 500
             [(U ''detail'', JStr (U ''internal server error'')),
              (U ''request_id'', JStr (case hq_request_id request of None \<Rightarrow> U ''unknown'' | Some i \<Rightarrow> i))] [],
           var, s))"

section \<open>The request context\<close>

text \<open>\<open>s.split(",")\<close>.\<close>

fun split_comma :: "ustr \<Rightarrow> ustr list" where
  "split_comma [] = [[]]"
| "split_comma (c # cs) =
     (if c = 44 then [] # split_comma cs
      else case split_comma cs of [] \<Rightarrow> [[c]] | w # ws \<Rightarrow> (c # w) # ws)"

text \<open>\<open>uuid1\<close> and \<open>uuid2\<close> are the identifiers generated for the request id and the trace id.\<close>

definition build_development_context ::
  "ustr \<Rightarrow> ustr \<Rightarrow> ustr \<Rightarrow> http_request \<Rightarrow> ustr \<Rightarrow> request_context res" where
  "build_development_context app_env uuid1 uuid2 request thread_id =
     (case hq_context request of
        Some injected \<Rightarrow> Inr (injected\<lparr>rc_thread_id := thread_id\<rparr>)
      | None \<Rightarrow>
          if app_env = U ''production''
          then Inl (Exn (HTTPException 503) (U ''trusted identity provider is not configured''))
          else
            let get = (\<lambda>name default. case header request name of None \<Rightarrow> default | Some v \<Rightarrow> v) in
            Inr ((RequestContext uuid1
                   (case hq_request_id request of Some i \<Rightarrow> i | None \<Rightarrow> get (U ''x-trace-id'') uuid2) thread_id
                   (get (U ''x-tenant-id'') (U ''demo-tenant'')) (get (U ''x-operator-id'') (U ''demo-operator'')))
                 \<lparr>rc_employee_id := Some (get (U ''x-employee-id'') (U ''demo-employee'')),
                  rc_permission_scopes :=
                    set (split_comma (get (U ''x-permission-scopes'') (U ''report:read'')))\<rparr>))"

section \<open>Properties\<close>

lemma partition1_append:
  assumes "sep \<notin> set a"
  shows "partition1 sep (a @ sep # b) = (a, [sep], b)"
proof -
  have "\<forall>c \<in> set a. c \<noteq> sep" using assms by auto
  then show ?thesis
    by (simp add: partition1_def takeWhile_append2 dropWhile_append2)
qed

lemma partition1_split:
  assumes "partition1 sep s = (a, [sep], b)"
  shows "s = a @ sep # b \<and> sep \<notin> set a"
proof -
  have "takeWhile (\<lambda>c. c \<noteq> sep) s = a" "take 1 (dropWhile (\<lambda>c. c \<noteq> sep) s) = [sep]"
    "drop 1 (dropWhile (\<lambda>c. c \<noteq> sep) s) = b"
    using assms by (simp_all add: partition1_def Let_def)
  then show ?thesis
    by (metis append_Cons append_Nil append_take_drop_id set_takeWhileD takeWhile_dropWhile_id)
qed

text \<open>A token as the handler accepts it.\<close>

definition usable_token :: "ustr \<Rightarrow> bool" where
  "usable_token t \<longleftrightarrow> t \<noteq> [] \<and> length t \<le> 8192 \<and> (\<forall>c \<in> set t. \<not> is_space c \<and> 32 \<le> c)"

lemma strip_no_space: "\<forall>c \<in> set t. \<not> is_space c \<Longrightarrow> strip t = t"
  by (cases "t = []") (auto simp: strip_def lstrip_def dropWhile_eq_self_iff intro!: rstrip_id)

lemma extract_token_iff:
  "extract_bearer_token lower (Some a) = Inr (Some t) \<longleftrightarrow>
     (\<exists>scheme rest. partition1 32 a = (scheme, [32], rest) \<and> lower scheme = U ''bearer'' \<and>
        strip rest = t \<and> usable_token t)"
  by (cases "partition1 32 a")
     (auto simp: extract_bearer_token_def usable_token_def list_ex_iff Let_def not_less not_le
       invalid_bearer_def)

text \<open>
  Bearer tokens survive the header: a header made of any spelling of the scheme that lower-cases to
  \<open>bearer\<close>, a space and a usable token (not empty, at most 8192 characters, no white space and no control
  character), with any white space around it, is read back as that token. Every accepted header has that
  form, and every other one is refused with \<open>InvalidSsoTokenError\<close>; no header at all means no token.
\<close>

theorem bearer_token_roundtrip:
  "(extract_bearer_token lower (Some a) = Inr (Some t) \<longleftrightarrow>
     usable_token t \<and>
     (\<exists>scheme rest. a = scheme @ [32] @ rest \<and> 32 \<notin> set scheme \<and> lower scheme = U ''bearer'' \<and>
        strip rest = t)) \<and>
   extract_bearer_token lower (Some a) \<in> {Inl invalid_bearer} \<union> range (\<lambda>t. Inr (Some t)) \<and>
   extract_bearer_token lower None = Inr None"
proof (intro conjI)
  show "extract_bearer_token lower (Some a) = Inr (Some t) \<longleftrightarrow>
     usable_token t \<and>
     (\<exists>scheme rest. a = scheme @ [32] @ rest \<and> 32 \<notin> set scheme \<and> lower scheme = U ''bearer'' \<and>
        strip rest = t)"
    (is "_ \<longleftrightarrow> usable_token t \<and> (\<exists>scheme rest. ?form scheme rest)")
  proof
    assume "extract_bearer_token lower (Some a) = Inr (Some t)"
    then obtain scheme rest where "partition1 32 a = (scheme, [32], rest)" "lower scheme = U ''bearer''"
      "strip rest = t" "usable_token t"
      unfolding extract_token_iff by blast
    with partition1_split [of 32 a scheme rest] show "usable_token t \<and> (\<exists>scheme rest. ?form scheme rest)"
      by (intro conjI exI [of _ scheme] exI [of _ rest]) simp_all
  next
    assume "usable_token t \<and> (\<exists>scheme rest. ?form scheme rest)"
    then obtain scheme rest where "usable_token t" "?form scheme rest" by blast
    with partition1_append [of 32 scheme rest] show "extract_bearer_token lower (Some a) = Inr (Some t)"
      unfolding extract_token_iff by (intro exI [of _ scheme] exI [of _ rest]) simp
  qed
next
  show "extract_bearer_token lower (Some a) \<in> {Inl invalid_bearer} \<union> range (\<lambda>t. Inr (Some t))"
    by (cases "partition1 32 a") (simp add: extract_bearer_token_def Let_def)
qed (simp add: extract_bearer_token_def)

text \<open>
  The middleware either answers by itself, whatever the application, or calls it once, with a token and a
  request id.
\<close>

definition gate ::
  "(ustr \<Rightarrow> ustr) \<Rightarrow> int \<Rightarrow> ustr \<Rightarrow> http_request \<Rightarrow>
   (http_response res \<times> http_request) + (ustr option \<times> ustr)" where
  "gate lower max_body uuid request =
     (let supplied = (case header request (U ''x-request-id'') of None \<Rightarrow> [] | Some i \<Rightarrow> i);
          i = (if request_id_ok supplied then supplied else uuid)
      in case (case header request (U ''content-length'') of
                 None \<Rightarrow> Inr None
               | Some n \<Rightarrow> if n \<noteq> [] \<and> isdigit n then map_sum id Some (int_of_digits n) else Inr None) of
           Inl e \<Rightarrow> Inl (Inl e, request)
         | Inr n \<Rightarrow>
             if (case n of None \<Rightarrow> False | Some k \<Rightarrow> k > max_body)
             then Inl (Inr (JSONResponse 413 [(U ''detail'', JStr (U ''request body too large''))] []), request)
             else case extract_bearer_token lower (header request (U ''authorization'')) of
                    Inl e \<Rightarrow>
                      Inl (Inr (JSONResponse 401 [(U ''detail'', JStr (U ''invalid authorization header''))]
                             [(U ''x-request-id'', i)]),
                           request\<lparr>hq_request_id := Some i\<rparr>)
                  | Inr token \<Rightarrow> Inr (token, i))"

lemma extract_token_Inl:
  "extract_bearer_token lower authorization = Inl e \<Longrightarrow> e = invalid_bearer"
  by (cases authorization; cases "partition1 32 (the authorization)")
     (auto simp: extract_bearer_token_def Let_def split: if_splits)

lemma dispatch_gate:
  "dispatch lower max_body uuid app request var s =
     (case gate lower max_body uuid request of
        Inl (r, q) \<Rightarrow> (r, q, var, s)
      | Inr (token, i) \<Rightarrow>
          (case app (request\<lparr>hq_request_id := Some i\<rparr>) token s of
             (r, s') \<Rightarrow> (map_sum id (secured i) r, request\<lparr>hq_request_id := Some i\<rparr>, var, s')))"
proof -
  define size where "size = (case header request (U ''content-length'') of
      None \<Rightarrow> Inr None
    | Some n \<Rightarrow> if n \<noteq> [] \<and> isdigit n then map_sum id Some (int_of_digits n) else Inr None)"
  have caught: "caught invalid_bearer [InvalidSsoTokenErr]"
    by (simp add: caught_def isa_def invalid_bearer_def)
  show ?thesis
  proof (cases size)
    case (Inl e)
    then show ?thesis
      by (simp add: dispatch_def gate_def Let_def size_def [symmetric])
  next
    case (Inr n)
    show ?thesis
    proof (cases "extract_bearer_token lower (header request (U ''authorization''))")
      case (Inl e)
      with extract_token_Inl [OF Inl] Inr caught show ?thesis
        by (simp add: dispatch_def gate_def Let_def size_def [symmetric])
    next
      case (Inr token)
      then show ?thesis
        using \<open>size = Inr n\<close>
        by (simp add: dispatch_def gate_def Let_def size_def [symmetric] bind_sso_access_token_def
            case_prod_unfold)
    qed
  qed
qed

lemma gate_called:
  assumes "gate lower max_body uuid request = Inr (token, i)"
  shows "extract_bearer_token lower (header request (U ''authorization'')) = Inr token"
    and "i = uuid \<or> request_id_ok i"
  using assms by (auto simp: gate_def Let_def split: sum.splits if_splits)

lemma gate_refused:
  assumes "gate lower max_body uuid request = Inl (Inr response, q)" "hp_status response \<noteq> 413"
  shows "\<exists>i. hp_status response = 401 \<and> map_of (hp_headers response) (U ''x-request-id'') = Some i \<and>
    hq_request_id q = Some i \<and> (i = uuid \<or> request_id_ok i) \<and>
    extract_bearer_token lower (header request (U ''authorization'')) = Inl invalid_bearer"
  using assms extract_token_Inl [of lower "header request (U ''authorization'')"]
  by (auto simp: gate_def Let_def JSONResponse_def split: sum.splits if_splits)

lemma serve_refused:
  assumes "gate lower max_body uuid request = Inl (r, q)"
  shows "serve lower max_body uuid app request var s =
    (case r of
       Inl e \<Rightarrow> (JSONResponse 500 [(U ''detail'', JStr (U ''internal server error'')),
           (U ''request_id'', JStr (case hq_request_id q of None \<Rightarrow> U ''unknown'' | Some i \<Rightarrow> i))] [], var, s)
     | Inr response \<Rightarrow> (response, var, s))"
  by (simp add: serve_def dispatch_gate assms split: sum.split)

lemma serve_called:
  assumes "gate lower max_body uuid request = Inr (token, i)"
  shows "serve lower max_body uuid app request var s =
    (case app (request\<lparr>hq_request_id := Some i\<rparr>) token s of
       (Inl e, s') \<Rightarrow> (JSONResponse 500 [(U ''detail'', JStr (U ''internal server error'')),
           (U ''request_id'', JStr i)] [], var, s')
     | (Inr r, s') \<Rightarrow> (secured i r, var, s'))"
  by (simp add: serve_def dispatch_gate assms case_prod_unfold split: sum.split)

text \<open>
  C20: One request, one token: the application runs with exactly the token of the request's own
  \<open>Authorization\<close> header (none when there is no header), in no other case does it run at all, what the
  variable held before has no influence, and when the request has been served, or has failed, the variable
  is what it was.
\<close>

theorem token_bound_to_request:
  "fst (snd (serve lower max_body uuid app request var s)) = var \<and>
   fst (serve lower max_body uuid app request var s) = fst (serve lower max_body uuid app request other s) \<and>
   snd (snd (serve lower max_body uuid app request var s)) =
     snd (snd (serve lower max_body uuid app request other s)) \<and>
   ((\<forall>app'. serve lower max_body uuid app' request var s = serve lower max_body uuid app request var s) \<and>
      snd (snd (serve lower max_body uuid app request var s)) = s \<or>
    (\<exists>token request_id.
      extract_bearer_token lower (header request (U ''authorization'')) = Inr token \<and>
      (\<forall>app'. app' (request\<lparr>hq_request_id := Some request_id\<rparr>) token s =
          app (request\<lparr>hq_request_id := Some request_id\<rparr>) token s \<longrightarrow>
        serve lower max_body uuid app' request var s = serve lower max_body uuid app request var s)))"
proof (cases "gate lower max_body uuid request")
  case (Inl p)
  obtain r q where "p = (r, q)" by fastforce
  with Inl have "gate lower max_body uuid request = Inl (r, q)" by simp
  then show ?thesis by (simp add: serve_refused split: sum.split)
next
  case (Inr p)
  obtain token i where "p = (token, i)" by fastforce
  with Inr have gate: "gate lower max_body uuid request = Inr (token, i)" by simp
  note serve = serve_called [OF gate]
  have "\<forall>app'. app' (request\<lparr>hq_request_id := Some i\<rparr>) token s =
        app (request\<lparr>hq_request_id := Some i\<rparr>) token s \<longrightarrow>
      serve lower max_body uuid app' request var s = serve lower max_body uuid app request var s"
    by (simp add: serve)
  moreover have "fst (snd (serve lower max_body uuid app request var s)) = var"
    "fst (serve lower max_body uuid app request var s) = fst (serve lower max_body uuid app request other s)"
    "snd (snd (serve lower max_body uuid app request var s)) =
       snd (snd (serve lower max_body uuid app request other s))"
    by (simp_all add: serve case_prod_unfold split: sum.split)
  ultimately show ?thesis
    using gate_called(1) [OF gate] by blast
qed

text \<open>An application that stores the token it was given.\<close>

definition demo_http_request :: http_request where
  "demo_http_request =
     \<lparr>hq_method = U ''POST'', hq_path = U ''/knowledge/answer'',
      hq_headers = [(U ''authorization'', U ''Bearer abc''), (U ''x-request-id'', U ''request-1'')],
      hq_request_id = None, hq_context = None\<rparr>"

definition storing_app :: "ustr option application" where
  "storing_app request token s = (Inr (JSONResponse 200 [] []), token)"

lemma demo_token_strip: "strip (U ''abc'') = U ''abc''"
  by (simp add: strip_def lstrip_def rstrip_def U_def is_space_def)

lemma demo_gate:
  "gate (\<lambda>_. U ''bearer'') 100 (U ''u'') demo_http_request = Inr (Some (U ''abc''), U ''request-1'')"
  using demo_token_strip
  by (simp add: gate_def demo_http_request_def header_def extract_bearer_token_def partition1_def Let_def U_def
      is_space_def request_id_ok_def request_id_char_def is_digit_def)

theorem token_bound_to_request_witness:
  "\<exists>token. extract_bearer_token (\<lambda>_. U ''bearer'') (header demo_http_request (U ''authorization'')) = Inr token \<and>
     snd (snd (serve (\<lambda>_. U ''bearer'') 100 (U ''u'') storing_app demo_http_request (Some (U ''old'')) None)) =
       Some (U ''abc'') \<and>
     fst (snd (serve (\<lambda>_. U ''bearer'') 100 (U ''u'') storing_app demo_http_request (Some (U ''old'')) None)) =
       Some (U ''old'')"
  using token_bound_to_request [where lower = "\<lambda>_. U ''bearer''" and max_body = 100 and uuid = "U ''u''"
      and app = storing_app and request = demo_http_request and var = "Some (U ''old'')" and s = None]
    gate_called(1) [OF demo_gate]
  by (simp add: serve_called [OF demo_gate] storing_app_def)

text \<open>
  Responses are traceable and carry no header injected through \<open>X-Request-ID\<close>: a response of the
  middleware other than 413 has a request id, the generated one or one of 8 to 128 letters, digits, hyphens
  and underscores; one that comes from the application also forbids sniffing, framing, referrers and storage.
\<close>

theorem responses_carry_request_id:
  assumes "dispatch lower max_body uuid app request var s = (Inr response, request', var', s')"
    and "hp_status response \<noteq> 413"
  shows "\<exists>i. map_of (hp_headers response) (U ''x-request-id'') = Some i \<and>
    hq_request_id request' = Some i \<and> (i = uuid \<or> request_id_ok i) \<and>
    (hp_status response = 401 \<and>
       extract_bearer_token lower (header request (U ''authorization'')) = Inl invalid_bearer \<or>
     map_of (hp_headers response) (U ''x-content-type-options'') = Some (U ''nosniff'') \<and>
     map_of (hp_headers response) (U ''x-frame-options'') = Some (U ''DENY'') \<and>
     map_of (hp_headers response) (U ''cache-control'') = Some (U ''no-store''))"
proof (cases "gate lower max_body uuid request")
  case (Inl p)
  with assms(1) have "gate lower max_body uuid request = Inl (Inr response, request')"
    by (cases p) (simp add: dispatch_gate)
  from gate_refused [OF this assms(2)] show ?thesis by blast
next
  case (Inr p)
  obtain token i where p: "p = (token, i)" by fastforce
  obtain r s'' where "app (request\<lparr>hq_request_id := Some i\<rparr>) token s = (r, s'')" by fastforce
  with assms(1) Inr p obtain inner where "response = secured i inner"
    "request' = request\<lparr>hq_request_id := Some i\<rparr>"
    by (cases r) (auto simp: dispatch_gate)
  with gate_called(2) [of lower max_body uuid request token i] Inr p show ?thesis
    by (auto simp: secured_def)
qed

theorem responses_carry_request_id_witness:
  "\<exists>response. fst (dispatch (\<lambda>_. U ''bearer'') 100 (U ''u'') storing_app demo_http_request None None) = Inr response \<and>
     map_of (hp_headers response) (U ''x-request-id'') = Some (U ''request-1'')"
  using responses_carry_request_id
    [where lower = "\<lambda>_. U ''bearer''" and max_body = 100 and uuid = "U ''u''"
      and app = storing_app and request = demo_http_request and var = None and s = None
      and response = "secured (U ''request-1'') (JSONResponse 200 [] [])"]
  by (simp add: dispatch_gate demo_gate storing_app_def JSONResponse_def secured_def)

text \<open>
  In production an identity is only ever the one a gateway has injected: there, no header has any
  influence on the context a route acts with, which is the injected one for the route's thread; without an
  injected one every route that needs a context fails with 503.
\<close>

theorem production_identity_is_injected:
  "build_development_context (U ''production'') uuid1 uuid2 request thread_id =
     (case hq_context request of
        Some c \<Rightarrow> Inr (c\<lparr>rc_thread_id := thread_id\<rparr>)
      | None \<Rightarrow> Inl (Exn (HTTPException 503) (U ''trusted identity provider is not configured''))) \<and>
   build_development_context (U ''production'') uuid1 uuid2 (request\<lparr>hq_headers := headers\<rparr>) thread_id =
     build_development_context (U ''production'') uuid3 uuid4 request thread_id"
  by (simp add: build_development_context_def split: option.split)

text \<open>The size limit: a decimal length is compared with the bound; without the header nothing is.\<close>

lemma declared_length_limit:
  assumes "header request (U ''content-length'') = Some (nat_dec n)" "length (nat_dec n) \<le> 4300"
    and "int n > max_body"
  shows "serve lower max_body uuid app request var s =
    (JSONResponse 413 [(U ''detail'', JStr (U ''request body too large''))] [], var, s)"
proof -
  have "list_all is_digit (nat_dec n)" using nat_dec_digits [of n] by (simp add: list_all_iff)
  moreover from this have "isdigit (nat_dec n)"
    using nat_dec_nonempty [of n] by (auto simp: isdigit_def list_all_iff)
  ultimately show ?thesis
    using assms nat_dec_nonempty [of n]
    by (simp add: serve_def dispatch_def Let_def int_of_digits_def)
qed

text \<open>\<open>isdigit\<close> holds of superscripts, which \<open>int\<close> refuses: such a header ends in an internal error.\<close>

lemma superscript_length_fails:
  assumes "header request (U ''content-length'') = Some [178]"
  shows "hp_status (fst (serve lower max_body uuid app request var s)) = 500"
  using assms by (simp add: serve_def dispatch_def Let_def isdigit_def int_of_digits_def is_digit_def JSONResponse_def)

end
