(* ===== verification/Assistant_Api.thy ===== *)
theory Assistant_Api
  imports Supervisor Approvals Request_Security
begin

text \<open>
  The assistant routes (\<open>app/api/routes.py\<close>): a message starts or continues a thread, an interrupted thread
  waits for an approval, and an approved or rejected thread is resumed.

  A route gets the caller's context, which \<open>build_development_context\<close> made or refused to make, and works
  on the state of the agent runtime and of the approvals. Raising \<open>HTTPException\<close> ends the request with
  that status; any other exception becomes a 500 in the handler of \<open>Request_Security\<close>.
\<close>

section \<open>Errors of a route\<close>

text \<open>The \<open>except\<close> clauses of a route: the classes, the status, the detail.\<close>

type_synonym http_clause = "exn_class list \<times> int \<times> (exn \<Rightarrow> ustr)"

definition fixed_detail :: "string \<Rightarrow> exn \<Rightarrow> ustr" where
  "fixed_detail detail e = U detail"

definition as_http :: "http_clause list \<Rightarrow> exn \<Rightarrow> exn" where
  "as_http clauses e =
     (case find (\<lambda>(classes, status, detail). caught e classes) clauses of
        None \<Rightarrow> e
      | Some (classes, status, detail) \<Rightarrow> Exn (HTTPException status) (detail e))"

definition with_http :: "http_clause list \<Rightarrow> 'a res \<times> 's \<Rightarrow> 'a res \<times> 's" where
  "with_http clauses m = (case m of (r, s) \<Rightarrow> (map_sum (as_http clauses) id r, s))"

lemma with_http_Inr [simp]: "with_http clauses m = (Inr x, s) \<longleftrightarrow> m = (Inr x, s)"
  by (cases m; cases "fst m") (auto simp: with_http_def)

lemma with_http_state [simp]: "snd (with_http clauses m) = snd m"
  by (cases m) (simp add: with_http_def)

section \<open>The runtime behind the routes\<close>

record 'g assistant_runtime =
  rn_invoke :: "invoke_payload \<Rightarrow> ustr \<Rightarrow> request_context \<Rightarrow> 'g \<Rightarrow> assistant_result res \<times> 'g"
  rn_state :: "ustr \<Rightarrow> 'g \<Rightarrow> state_view \<times> 'g"

text \<open>\<open>SupervisorRuntime\<close>.\<close>

definition SupervisorRuntime ::
  "(ustr \<Rightarrow> ustr) \<Rightarrow> (json \<Rightarrow> ustr) \<Rightarrow> (json \<Rightarrow> ustr) \<Rightarrow> (request_context \<Rightarrow> 'g \<Rightarrow> unit res \<times> 'g) \<Rightarrow> 'g graph \<Rightarrow>
   'g assistant_runtime" where
  "SupervisorRuntime lower rep json_text sync graph =
     \<lparr>rn_invoke = supervisor_invoke lower rep json_text sync graph, rn_state = supervisor_state lower graph\<rparr>"

definition on_graph :: "('g \<Rightarrow> 'a \<times> 'g) \<Rightarrow> 'g \<times> 'a1 \<Rightarrow> 'a \<times> 'g \<times> 'a1" where
  "on_graph f s = (case f (fst s) of (x, g) \<Rightarrow> (x, (g, snd s)))"

definition on_approvals :: "('a1 \<Rightarrow> 'a \<times> 'a1) \<Rightarrow> 'g \<times> 'a1 \<Rightarrow> 'a \<times> 'g \<times> 'a1" where
  "on_approvals f s = (case f (snd s) of (x, a) \<Rightarrow> (x, (fst s, a)))"

definition assistant_thread :: ustr where
  "assistant_thread = U ''assistant_thread''"

text \<open>\<open>_assistant_runtime_for\<close>\<close>

definition runtime_for :: "'g assistant_runtime option \<Rightarrow> 'g assistant_runtime res" where
  "runtime_for runtime =
     (case runtime of
        None \<Rightarrow> Inl (Exn (HTTPException 503) (U ''assistant runtime is not configured''))
      | Some rt \<Rightarrow> Inr rt)"

section \<open>Invoke\<close>

record invoke_request =
  iv_thread_id :: ustr
  iv_message :: ustr
  iv_task_input :: jdict
  iv_require_approval :: bool

record invoke_response =
  av_request_id :: ustr
  av_thread_id :: ustr
  av_intent :: intent
  av_status :: ustr
  av_message :: ustr
  av_warnings :: "ustr list"
  av_awaiting_approval :: bool
  av_result :: json

text \<open>
  When the run was interrupted the result of the response is \<open>state.values.get("subagent_result")\<close>, a key
  the state view does not have.
\<close>

definition invoke_assistant ::
  "'a approval_repo \<Rightarrow> 'g assistant_runtime option \<Rightarrow> ustr \<Rightarrow> invoke_request \<Rightarrow> request_context \<Rightarrow> 'g \<times> 'a \<Rightarrow>
   invoke_response res \<times> 'g \<times> 'a" where
  "invoke_assistant A runtime uuid payload c s =
     (let task_input = AList.update (U ''require_approval'') (JBool (iv_require_approval payload)) (iv_task_input payload);
          thread_id = iv_thread_id payload
      in case runtime_for runtime of
           Inl e \<Rightarrow> (Inl e, s)
         | Inr graph \<Rightarrow>
             bnd (on_graph (rn_invoke graph (Message (JStr (iv_message payload)) task_input) thread_id c) s) (\<lambda>result s.
               if ar_interrupt result \<noteq> None
               then
                 bnd (on_approvals (approval_request A uuid assistant_thread thread_id c) s) (\<lambda>_ s.
                   case on_graph (rn_state graph thread_id) s of
                     (view, s) \<Rightarrow>
                       (Inr \<lparr>av_request_id = rc_request_id c, av_thread_id = rc_thread_id c,
                             av_intent = sv_intent view, av_status = U ''awaiting_approval'',
                             av_message = U ''draft is awaiting human approval'', av_warnings = [],
                             av_awaiting_approval = True, av_result = JNull\<rparr>, s))
               else
                 (Inr \<lparr>av_request_id = rc_request_id c, av_thread_id = rc_thread_id c,
                       av_intent = ar_intent result, av_status = ar_status result,
                       av_message = ar_message result, av_warnings = ar_warnings result,
                       av_awaiting_approval = False, av_result = ar_result result\<rparr>, s)))"

section \<open>Resume\<close>

text \<open>\<open>_require_pending_approval\<close>, given the context.\<close>

definition require_pending_approval ::
  "'a approval_repo \<Rightarrow> 'g assistant_runtime option \<Rightarrow> ustr \<Rightarrow> request_context \<Rightarrow> 'g \<times> 'a \<Rightarrow>
   unit res \<times> 'g \<times> 'a" where
  "require_pending_approval A runtime thread_id c s =
     bnd (with_http [([KeyErr], 404, fixed_detail ''pending approval not found'')]
            (on_approvals (require_pending A assistant_thread thread_id c) s)) (\<lambda>_ s.
       case runtime_for runtime of
         Inl e \<Rightarrow> (Inl e, s)
       | Inr graph \<Rightarrow>
           (case on_graph (rn_state graph thread_id) s of
              (view, s) \<Rightarrow>
                with_http [([PermissionErr], 403, exn_msg)] (permission_require c (sv_required_scope view), s)))"

definition resume_payload :: "bool \<Rightarrow> ustr option \<Rightarrow> json" where
  "resume_payload approved comment =
     JObj [(U ''approved'', JBool approved),
           (U ''comment'', (case comment of None \<Rightarrow> JNull | Some t \<Rightarrow> JStr t))]"

text \<open>What follows the check: the graph runs, the approval is decided, a new interrupt asks for another.\<close>

definition resume_graph ::
  "'a approval_repo \<Rightarrow> 'g assistant_runtime \<Rightarrow> ustr \<Rightarrow> ustr \<Rightarrow> bool \<Rightarrow> ustr option \<Rightarrow> request_context \<Rightarrow>
   'g \<times> 'a \<Rightarrow> invoke_response res \<times> 'g \<times> 'a" where
  "resume_graph A graph uuid thread_id approved comment c s =
     bnd (on_graph (rn_invoke graph (Command (resume_payload approved comment)) thread_id c) s) (\<lambda>result s.
     bnd (on_approvals (approval_decide A assistant_thread thread_id approved comment c) s) (\<lambda>_ s.
     bnd (if ar_interrupt result \<noteq> None
          then on_approvals (approval_request A uuid assistant_thread thread_id c) s
          else (Inr (pending_record assistant_thread thread_id c), s)) (\<lambda>_ s.
       (Inr \<lparr>av_request_id = rc_request_id c, av_thread_id = thread_id, av_intent = ar_intent result,
             av_status = ar_status result, av_message = ar_message result,
             av_warnings = ar_warnings result, av_awaiting_approval = (ar_interrupt result \<noteq> None),
             av_result = ar_result result\<rparr>, s))))"

definition resume_assistant ::
  "'a approval_repo \<Rightarrow> 'g assistant_runtime option \<Rightarrow> ustr \<Rightarrow> ustr \<Rightarrow> bool \<Rightarrow> ustr option \<Rightarrow> request_context \<Rightarrow>
   'g \<times> 'a \<Rightarrow> invoke_response res \<times> 'g \<times> 'a" where
  "resume_assistant A runtime uuid thread_id approved comment c s =
     bnd (require_pending_approval A runtime thread_id c s) (\<lambda>_ s.
       case runtime_for runtime of
         Inl e \<Rightarrow> (Inl e, s)
       | Inr graph \<Rightarrow> resume_graph A graph uuid thread_id approved comment c s)"

section \<open>State\<close>

record state_response =
  st_thread_id :: ustr
  st_status :: ustr
  st_awaiting_approval :: bool
  st_next_nodes :: "ustr list"
  st_pending_actions :: "ustr list"
  st_required_scope :: "ustr option"

definition assistant_state ::
  "'a approval_repo \<Rightarrow> 'g assistant_runtime option \<Rightarrow> ustr \<Rightarrow> request_context \<Rightarrow> 'g \<times> 'a \<Rightarrow>
   state_response res \<times> 'g \<times> 'a" where
  "assistant_state A runtime thread_id c s =
     bnd (require_pending_approval A runtime thread_id c s) (\<lambda>_ s.
       case runtime_for runtime of
         Inl e \<Rightarrow> (Inl e, s)
       | Inr graph \<Rightarrow>
           (case on_graph (rn_state graph thread_id) s of
              (view, s) \<Rightarrow>
                (Inr \<lparr>st_thread_id = thread_id, st_status = sv_status view,
                      st_awaiting_approval = (sv_next view \<noteq> []), st_next_nodes = sv_next view,
                      st_pending_actions = sv_pending_actions view,
                      st_required_scope = (if sv_required_scope view = [] then None
                                           else Some (sv_required_scope view))\<rparr>, s)))"

text \<open>
  A route that takes its caller from the request: \<open>identity\<close> is \<open>build_development_context\<close> of the request,
  given the thread.
\<close>

definition with_context ::
  "(ustr \<Rightarrow> request_context res) \<Rightarrow> ustr \<Rightarrow> (request_context \<Rightarrow> 's \<Rightarrow> 'a res \<times> 's) \<Rightarrow> 's \<Rightarrow> 'a res \<times> 's" where
  "with_context identity thread_id handler s =
     (case identity thread_id of Inl e \<Rightarrow> (Inl e, s) | Inr c \<Rightarrow> handler c s)"

lemma with_context_simps [simp]:
  "identity t = Inl e \<Longrightarrow> with_context identity t handler s = (Inl e, s)"
  "identity t = Inr c \<Longrightarrow> with_context identity t handler s = handler c s"
  by (simp_all add: with_context_def)

lemma with_context_state:
  "(\<And>c. identity t = Inr c \<Longrightarrow> P (snd (handler c s))) \<Longrightarrow> P s \<Longrightarrow> P (snd (with_context identity t handler s))"
  by (cases "identity t") simp_all

section \<open>Who may resume\<close>

context approval_store begin

lemma require_pending_approval_cases:
  assumes "inv (snd s)"
  shows "require_pending_approval A (Some rt) thread_id c s =
    (if \<not> pend (snd s) (rc_tenant_id c, assistant_thread, thread_id)
     then (Inl (Exn (HTTPException 404) (U ''pending approval not found'')), s)
     else
       (let view = rn_state rt thread_id (fst s); s1 = (snd view, snd s) in
        if sv_required_scope (fst view) \<in> rc_permission_scopes c then (Inr (), s1)
        else (Inl (Exn (HTTPException 403) (U ''missing required permission: '' @ sv_required_scope (fst view))), s1)))"
proof -
  have read: "on_approvals (require_pending A assistant_thread thread_id c) s =
      (if pend (snd s) (rc_tenant_id c, assistant_thread, thread_id)
       then (Inr (pending_record assistant_thread thread_id c), s) else (Inl (Exn KeyErr thread_id), s))"
    using get [OF assms, of assistant_thread thread_id c] by (simp add: on_approvals_def require_pending_def)
  obtain view g where view: "rn_state rt thread_id (fst s) = (view, g)" by (rule prod.exhaust)
  show ?thesis
  proof (cases "pend (snd s) (rc_tenant_id c, assistant_thread, thread_id)")
    case False
    then show ?thesis
      by (simp add: require_pending_approval_def read with_http_def as_http_def caught_def isa_def fixed_detail_def)
  next
    case True
    then show ?thesis
      by (simp add: require_pending_approval_def read runtime_for_def on_graph_def view Let_def
          permission_require_def with_http_def as_http_def caught_def isa_def)
  qed
qed

lemma resume_guard:
  assumes "inv (snd s)" "rn_state rt1 = rn_state rt2"
    and "resume_assistant A (Some rt1) uuid thread_id ok comment c s \<noteq>
      resume_assistant A (Some rt2) uuid thread_id ok comment c s"
  shows "pend (snd s) (rc_tenant_id c, assistant_thread, thread_id) \<and>
    sv_required_scope (fst (rn_state rt1 thread_id (fst s))) \<in> rc_permission_scopes c"
proof (rule ccontr)
  assume no: "\<not> ?thesis"
  have same: "require_pending_approval A (Some rt1) thread_id c s = require_pending_approval A (Some rt2) thread_id c s"
    using require_pending_approval_cases [OF assms(1)] assms(2) by simp
  obtain e s1 where refused: "require_pending_approval A (Some rt1) thread_id c s = (Inl e, s1)"
    using no require_pending_approval_cases [OF assms(1), of rt1 thread_id c]
    by (auto simp: Let_def split: if_splits)
  have "resume_assistant A (Some rt1) uuid thread_id ok comment c s = (Inl e, s1)"
    unfolding resume_assistant_def refused by simp
  moreover have "resume_assistant A (Some rt2) uuid thread_id ok comment c s = (Inl e, s1)"
    unfolding resume_assistant_def same [symmetric] refused by simp
  ultimately show False using assms(3) by simp
qed

text \<open>What a completed resume leaves: the approval it answered is gone, a new interrupt has its own.\<close>

lemma resume_consumes:
  assumes "inv (snd s)" "fresh (snd s) uuid"
    and "resume_assistant A (Some rt) uuid thread_id ok comment c s = (Inr r, s')"
  shows "inv (snd s') \<and>
    (pend (snd s') (rc_tenant_id c, assistant_thread, thread_id) \<longleftrightarrow> av_awaiting_approval r) \<and>
    (\<forall>k. k \<noteq> (rc_tenant_id c, assistant_thread, thread_id) \<longrightarrow> pend (snd s') k = pend (snd s) k)"
proof -
  let ?k = "(rc_tenant_id c, assistant_thread, thread_id)"
  obtain u s1 where gate: "require_pending_approval A (Some rt) thread_id c s = (Inr u, s1)"
    and rest: "resume_graph A rt uuid thread_id ok comment c s1 = (Inr r, s')"
    using assms(3) unfolding resume_assistant_def runtime_for_def bnd_Inr_iff option.case sum.case by blast
  have p: "pend (snd s) ?k" and s1: "snd s1 = snd s"
    using gate require_pending_approval_cases [OF assms(1), of rt thread_id c]
    by (auto simp: Let_def split: if_splits)
  obtain result s2 where run: "on_graph (rn_invoke rt (Command (resume_payload ok comment)) thread_id c) s1 = (Inr result, s2)"
    using rest unfolding resume_graph_def bnd_Inr_iff by blast
  note after = rest [unfolded resume_graph_def run bnd_simps]
  have s2: "snd s2 = snd s" using run s1 by (auto simp: on_graph_def split: prod.splits)
  from decide [OF assms(1) p, of ok comment] obtain a where a:
    "aq_decide A assistant_thread thread_id ok comment c (snd s) =
      (Inr ((pending_record assistant_thread thread_id c)\<lparr>ap_status := decided ok, ap_comment := comment\<rparr>), a)"
    "inv a" "\<forall>k. pend a k \<longleftrightarrow> pend (snd s) k \<and> k \<noteq> ?k" "\<forall>v. fresh (snd s) v \<longrightarrow> fresh a v"
    by blast
  have decided: "on_approvals (approval_decide A assistant_thread thread_id ok comment c) s2 =
      (Inr ((pending_record assistant_thread thread_id c)\<lparr>ap_status := decided ok, ap_comment := comment\<rparr>), (fst s2, a))"
    using a(1) s2 by (simp add: on_approvals_def approval_decide_def)
  show ?thesis
  proof (cases "ar_interrupt result")
    case None
    with after decided have "snd s' = a" "av_awaiting_approval r = False" by auto
    with a show ?thesis by simp
  next
    case (Some v)
    have "fresh a uuid" using a(4) assms(2) by blast
    from create [OF a(2) this, of assistant_thread thread_id c] obtain a2 where a2:
      "aq_create_pending A uuid assistant_thread thread_id c a = (Inr (pending_record assistant_thread thread_id c), a2)"
      "inv a2" "\<forall>k. pend a2 k \<longleftrightarrow> k = ?k \<or> pend a k"
      by blast
    have "on_approvals (approval_request A uuid assistant_thread thread_id c) (fst s2, a) =
        (Inr (pending_record assistant_thread thread_id c), (fst s2, a2))"
      using a2(1) by (simp add: on_approvals_def approval_request_def)
    with after decided Some have "snd s' = a2" "av_awaiting_approval r" by auto
    with a(3) a2(2,3) show ?thesis by auto
  qed
qed

end

section \<open>Properties\<close>

text \<open>A caller, the approval of her thread, a runtime that answers and one that fails.\<close>

definition demo_reviewer :: request_context where
  "demo_reviewer =
     (RequestContext (U ''r'') (U ''t'') (U ''th'') (U ''tenant-a'') (U ''ann''))
       \<lparr>rc_permission_scopes := {U ''report:review''}\<rparr>"

definition demo_pending :: "approval_task list" where
  "demo_pending =
     [\<lparr>at_id = U ''a1'', at_tenant_id = U ''tenant-a'', at_created_by = U ''ann'',
       at_target_type = assistant_thread, at_target_id = U ''th'', at_status = Pending,
       at_comment = None, at_version = 1\<rparr>]"

definition demo_agent :: "assistant_result res \<Rightarrow> unit assistant_runtime" where
  "demo_agent answer =
     \<lparr>rn_invoke = \<lambda>payload thread_id c g. (answer, g),
      rn_state = \<lambda>thread_id g. (\<lparr>sv_intent = Report_submission, sv_status = U ''awaiting_approval'',
        sv_pending_actions = [U ''review_report''], sv_required_scope = U ''report:review'',
        sv_next = [U ''tools'']\<rparr>, g)\<rparr>"

lemma demo_pending_wf:
  "sql_approvals_wf demo_pending"
  "sql_pend demo_pending (rc_tenant_id demo_reviewer, assistant_thread, U ''th'')"
  by (auto simp: sql_approvals_wf_def sql_pend_def pending_row_def demo_pending_def demo_reviewer_def RequestContext_def)

lemma demo_resume_gate:
  "require_pending_approval sql_approval_repo (Some (demo_agent answer)) (U ''th'') demo_reviewer ((), demo_pending) =
    (Inr (), ((), demo_pending))"
  using sql_approval.require_pending_approval_cases
      [of "((), demo_pending)" "demo_agent answer" "U ''th''" demo_reviewer] demo_pending_wf
  by (simp add: demo_agent_def demo_reviewer_def)

lemma demo_resume_fails:
  "resume_assistant sql_approval_repo (Some (demo_agent (Inl e))) (U ''a2'') (U ''th'') True None demo_reviewer
      ((), demo_pending) = (Inl e, ((), demo_pending))"
  by (simp add: resume_assistant_def demo_resume_gate runtime_for_def resume_graph_def on_graph_def)
     (simp add: demo_agent_def)

lemma demo_resume_answers:
  "\<exists>s'. resume_assistant sql_approval_repo (Some (demo_agent (Inr (agent_timeout Report_submission)))) (U ''a2'') (U ''th'')
      True None demo_reviewer ((), demo_pending) =
    (Inr \<lparr>av_request_id = U ''r'', av_thread_id = U ''th'', av_intent = Report_submission, av_status = U ''failed'',
          av_message = ar_message (agent_timeout Report_submission), av_warnings = [U ''AGENT_TIMEOUT''],
          av_awaiting_approval = False, av_result = JObj []\<rparr>, s')"
proof -
  from sql_approval.decide [OF demo_pending_wf, of True None] obtain a where
    "aq_decide sql_approval_repo assistant_thread (U ''th'') True None demo_reviewer demo_pending =
      (Inr ((pending_record assistant_thread (U ''th'') demo_reviewer)\<lparr>ap_status := decided True, ap_comment := None\<rparr>), a)"
    by blast
  then show ?thesis
    by (simp add: resume_assistant_def demo_resume_gate runtime_for_def resume_graph_def on_graph_def on_approvals_def
        approval_decide_def)
       (simp add: demo_agent_def agent_timeout_def demo_reviewer_def RequestContext_def)
qed

text \<open>
  C5: A thread is resumed only with a pending approval and the right scope: the outcome of a resume request
  depends on what the agent runtime does when it is run only if an approval for that thread is pending in
  the caller's own tenant and the caller has the scope that the pending actions require; otherwise the
  request is refused before the runtime is called.
\<close>

theorem resume_needs_approval_and_scope:
  assumes "sql_approvals_wf (snd s)" "rn_state rt1 = rn_state rt2"
    and "resume_assistant sql_approval_repo (Some rt1) uuid thread_id ok comment c s \<noteq>
      resume_assistant sql_approval_repo (Some rt2) uuid thread_id ok comment c s"
  shows "sql_pend (snd s) (rc_tenant_id c, assistant_thread, thread_id) \<and>
    sv_required_scope (fst (rn_state rt1 thread_id (fst s))) \<in> rc_permission_scopes c"
  by (rule sql_approval.resume_guard [OF assms])

theorem resume_needs_approval_and_scope_witness:
  "sql_pend demo_pending (U ''tenant-a'', assistant_thread, U ''th'') \<and>
    U ''report:review'' \<in> rc_permission_scopes demo_reviewer"
proof -
  obtain r s' where "resume_assistant sql_approval_repo (Some (demo_agent (Inr (agent_timeout Report_submission)))) (U ''a2'')
      (U ''th'') True None demo_reviewer ((), demo_pending) = (Inr r, s')"
    using demo_resume_answers by blast
  then have "resume_assistant sql_approval_repo (Some (demo_agent (Inr (agent_timeout Report_submission)))) (U ''a2'')
      (U ''th'') True None demo_reviewer ((), demo_pending) \<noteq>
    resume_assistant sql_approval_repo (Some (demo_agent (Inl (Exn RuntimeErr [])))) (U ''a2'')
      (U ''th'') True None demo_reviewer ((), demo_pending)"
    by (simp add: demo_resume_fails)
  from resume_needs_approval_and_scope [OF _ _ this] show ?thesis
    using demo_pending_wf by (simp add: demo_agent_def demo_reviewer_def RequestContext_def)
qed

text \<open>
  C25: A resume consumes the approval it answers: after it has returned, an approval for the thread is
  pending exactly if the response says that another one is awaited, and when none is awaited every further
  request of the tenant to resume the thread or to see its state is answered 404. Approvals of other
  threads and tenants are left alone.
\<close>

theorem resume_consumes_its_approval:
  assumes "sql_approvals_wf (snd s)" "uuid \<notin> at_id ` set (snd s)"
    and "resume_assistant sql_approval_repo (Some rt) uuid thread_id ok comment c s = (Inr r, s')"
  shows "(sql_pend (snd s') (rc_tenant_id c, assistant_thread, thread_id) \<longleftrightarrow> av_awaiting_approval r) \<and>
    (\<forall>k. k \<noteq> (rc_tenant_id c, assistant_thread, thread_id) \<longrightarrow> sql_pend (snd s') k = sql_pend (snd s) k) \<and>
    (\<not> av_awaiting_approval r \<longrightarrow> rc_tenant_id c' = rc_tenant_id c \<longrightarrow>
      resume_assistant sql_approval_repo (Some rt) uuid' thread_id ok' comment' c' s' =
        (Inl (Exn (HTTPException 404) (U ''pending approval not found'')), s') \<and>
      assistant_state sql_approval_repo (Some rt) thread_id c' s' =
        (Inl (Exn (HTTPException 404) (U ''pending approval not found'')), s'))"
proof -
  note left = sql_approval.resume_consumes [OF assms(1) _ assms(3)]
  have wf: "sql_approvals_wf (snd s')" using left assms(2) by blast
  have gone: "require_pending_approval sql_approval_repo (Some rt) thread_id c' s' =
      (Inl (Exn (HTTPException 404) (U ''pending approval not found'')), s')"
    if "\<not> av_awaiting_approval r" "rc_tenant_id c' = rc_tenant_id c"
    using sql_approval.require_pending_approval_cases [OF wf, of rt thread_id c'] that left assms(2) by simp
  have "resume_assistant sql_approval_repo (Some rt) uuid' thread_id ok' comment' c' s' =
        (Inl (Exn (HTTPException 404) (U ''pending approval not found'')), s') \<and>
      assistant_state sql_approval_repo (Some rt) thread_id c' s' =
        (Inl (Exn (HTTPException 404) (U ''pending approval not found'')), s')"
    if "\<not> av_awaiting_approval r" "rc_tenant_id c' = rc_tenant_id c"
    unfolding resume_assistant_def assistant_state_def gone [OF that] by simp
  with left assms(2) show ?thesis by blast
qed

theorem resume_consumes_its_approval_witness:
  "\<exists>s'. resume_assistant sql_approval_repo (Some (demo_agent (Inr (agent_timeout Report_submission)))) (U ''a3'') (U ''th'')
      False None demo_reviewer s' = (Inl (Exn (HTTPException 404) (U ''pending approval not found'')), s') \<and>
    \<not> sql_pend (snd s') (U ''tenant-a'', assistant_thread, U ''th'')"
proof -
  obtain r s' where r: "resume_assistant sql_approval_repo (Some (demo_agent (Inr (agent_timeout Report_submission)))) (U ''a2'')
      (U ''th'') True None demo_reviewer ((), demo_pending) = (Inr r, s')" "\<not> av_awaiting_approval r"
    using demo_resume_answers by force
  have "U ''a2'' \<notin> at_id ` set (snd ((), demo_pending))" by (simp add: demo_pending_def)
  note left = resume_consumes_its_approval [OF _ this r(1), of demo_reviewer "U ''a3''" False None]
  have "rc_tenant_id demo_reviewer = U ''tenant-a''" by (simp add: demo_reviewer_def RequestContext_def)
  with left r(2) demo_pending_wf show ?thesis by (intro exI [of _ s']) simp
qed

text \<open>
  C26: A resume that runs into the time limit cannot be retried: the caller is told \<open>AGENT_TIMEOUT\<close>, and
  although the thread was not finished its approval is decided and gone, so that the tenant's next attempt
  to resume it is answered 404.
\<close>

theorem timed_out_resume_cannot_be_retried:
  assumes "sql_approvals_wf (snd s)" "sql_pend (snd s) (rc_tenant_id c, assistant_thread, thread_id)"
    and "sv_required_scope (fst (supervisor_state lower graph thread_id (fst s))) \<in> rc_permission_scopes c"
    and sync: "\<And>g. fst (sync c g) = Inr ()"
    and timeout: "\<And>v g. fst (gr_invoke graph (Resume v) thread_id c g) = Inl (Exn TimeoutErr [])"
  shows "\<exists>r s'. resume_assistant sql_approval_repo (Some (SupervisorRuntime lower rep json_text sync graph))
      uuid thread_id ok comment c s = (Inr r, s') \<and>
    av_status r = U ''failed'' \<and> av_warnings r = [U ''AGENT_TIMEOUT''] \<and>
    resume_assistant sql_approval_repo (Some (SupervisorRuntime lower rep json_text sync graph))
        uuid' thread_id ok' comment' c s' =
      (Inl (Exn (HTTPException 404) (U ''pending approval not found'')), s')"
proof -
  define rt where "rt = SupervisorRuntime lower rep json_text sync graph"
  define s1 where "s1 = (snd (supervisor_state lower graph thread_id (fst s)), snd s)"
  have s1_snd: "snd s1 = snd s" by (simp add: s1_def)
  have gate: "require_pending_approval sql_approval_repo (Some rt) thread_id c s = (Inr (), s1)"
    using sql_approval.require_pending_approval_cases [OF assms(1), of rt thread_id c] assms(2,3)
    by (simp add: rt_def SupervisorRuntime_def Let_def s1_def)
  have "\<exists>g. rn_invoke rt (Command (resume_payload ok comment)) thread_id c (fst s1) =
      (Inr (agent_timeout (classify_intent lower [])), g)"
  proof -
    obtain g1 where g1: "sync c (fst s1) = (Inr (), g1)" using sync [of "fst s1"] by (metis prod.collapse)
    obtain v g2 where v: "resume_value rep graph thread_id (resume_payload ok comment) g1 = (v, g2)"
      by (rule prod.exhaust)
    obtain g3 where "gr_invoke graph (Resume v) thread_id c g2 = (Inl (Exn TimeoutErr []), g3)"
      using timeout [of v g2] by (metis prod.collapse)
    with g1 v show ?thesis
      by (simp add: rt_def SupervisorRuntime_def supervisor_invoke_def caught_def isa_def)
  qed
  then obtain g where run: "rn_invoke rt (Command (resume_payload ok comment)) thread_id c (fst s1) =
      (Inr (agent_timeout (classify_intent lower [])), g)" by blast
  from sql_approval.decide [OF assms(1,2), of ok comment] obtain a where a:
    "aq_decide sql_approval_repo assistant_thread thread_id ok comment c (snd s) =
      (Inr ((pending_record assistant_thread thread_id c)\<lparr>ap_status := decided ok, ap_comment := comment\<rparr>), a)"
    "sql_approvals_wf a" "\<not> sql_pend a (rc_tenant_id c, assistant_thread, thread_id)"
    by blast
  define r where "r = \<lparr>av_request_id = rc_request_id c, av_thread_id = thread_id,
    av_intent = classify_intent lower [], av_status = U ''failed'',
    av_message = ar_message (agent_timeout (classify_intent lower [])), av_warnings = [U ''AGENT_TIMEOUT''],
    av_awaiting_approval = False, av_result = JObj []\<rparr>"
  have "resume_assistant sql_approval_repo (Some rt) uuid thread_id ok comment c s = (Inr r, (g, a))"
    unfolding resume_assistant_def gate
    by (simp add: runtime_for_def resume_graph_def on_graph_def run on_approvals_def approval_decide_def a(1)
        s1_snd agent_timeout_def r_def)
  moreover have "resume_assistant sql_approval_repo (Some rt) uuid' thread_id ok' comment' c (g, a) =
      (Inl (Exn (HTTPException 404) (U ''pending approval not found'')), (g, a))"
    using sql_approval.require_pending_approval_cases [of "(g, a)" rt thread_id c] a(2,3)
    unfolding resume_assistant_def by simp
  ultimately show ?thesis unfolding rt_def r_def by fastforce
qed

theorem timed_out_resume_cannot_be_retried_witness:
  "\<exists>s' :: unit \<times> approval_task list. resume_assistant sql_approval_repo
      (Some (SupervisorRuntime id (\<lambda>_. []) (\<lambda>_. []) (\<lambda>_ g. (Inr (), g))
        \<lparr>gr_invoke = \<lambda>input thread_id c g. (Inl (Exn TimeoutErr []), g),
         gr_state = \<lambda>thread_id g. (\<lparr>sn_messages = [], sn_next = [U ''tools''],
           sn_interrupts = [Some (JObj [(U ''action_requests'',
             JList [JObj [(U ''name'', JStr (U ''review_report''))]])])]\<rparr>, g)\<rparr>))
      (U ''a3'') (U ''th'') True None demo_reviewer s' =
    (Inl (Exn (HTTPException 404) (U ''pending approval not found'')), s')"
proof -
  let ?graph = "\<lparr>gr_invoke = \<lambda>input thread_id c g. (Inl (Exn TimeoutErr []), g),
         gr_state = \<lambda>thread_id g. (\<lparr>sn_messages = [], sn_next = [U ''tools''],
           sn_interrupts = [Some (JObj [(U ''action_requests'',
             JList [JObj [(U ''name'', JStr (U ''review_report''))]])])]\<rparr>, g)\<rparr> :: unit graph"
  have needs: "sv_required_scope (fst (supervisor_state id ?graph (U ''th'') (fst ((), demo_pending)))) \<in>
      rc_permission_scopes demo_reviewer"
    by (simp add: supervisor_state_def pending_action_names_def required_scope_def tool_scopes_def
        List.map_filter_def demo_reviewer_def)
  have wf: "sql_approvals_wf (snd ((), demo_pending))"
      "sql_pend (snd ((), demo_pending)) (rc_tenant_id demo_reviewer, assistant_thread, U ''th'')"
    using demo_pending_wf by simp_all
  have "\<exists>r s'. resume_assistant sql_approval_repo
      (Some (SupervisorRuntime id (\<lambda>_. []) (\<lambda>_. []) (\<lambda>_ g. (Inr (), g)) ?graph))
      (U ''a2'') (U ''th'') True None demo_reviewer ((), demo_pending) = (Inr r, s') \<and>
    av_status r = U ''failed'' \<and> av_warnings r = [U ''AGENT_TIMEOUT''] \<and>
    resume_assistant sql_approval_repo
      (Some (SupervisorRuntime id (\<lambda>_. []) (\<lambda>_. []) (\<lambda>_ g. (Inr (), g)) ?graph))
      (U ''a3'') (U ''th'') True None demo_reviewer s' =
      (Inl (Exn (HTTPException 404) (U ''pending approval not found'')), s')"
    by (rule timed_out_resume_cannot_be_retried [OF wf needs]) simp_all
  then show ?thesis by blast
qed

text \<open>A response that awaits approval carries no draft.\<close>

lemma awaiting_response_has_no_result:
  assumes "invoke_assistant A runtime uuid payload c s = (Inr r, s')" "av_awaiting_approval r"
  shows "av_result r = JNull"
  using assms
  by (auto simp: invoke_assistant_def Let_def bnd_Inr_iff runtime_for_def split: option.splits if_splits prod.splits sum.splits)
    (metis invoke_response.select_convs(8) prod_cases3)

end
