(* ===== verification/Json_Cache.thy ===== *)
theory Json_Cache
  imports Py_Text
begin

text \<open>
  The JSON caches (\<open>app/services/cache.py\<close>): the tenant-scoped keys, the in-memory cache and the Redis
  cache, which fails open.

  A cache is a record of its three operations on its state. \<open>weak_cache\<close> is what every cache promises: what
  it returns under a key was stored under that key. \<open>strong_cache\<close> adds that a deleted key is gone, which
  the Redis cache does not promise: it ignores a failing \<open>DEL\<close>. \<open>None\<close> and the cached value \<open>null\<close> are the
  same to a caller.

  \<open>dumps\<close> and \<open>loads\<close> are \<open>json.dumps\<close> and \<open>json.loads\<close> of arbitrary values, \<open>None\<close> when they raise; the
  text of a list of strings, which the keys are made of, is written out here.
\<close>

section \<open>The text of a list of strings\<close>

definition hex :: "nat \<Rightarrow> nat" where
  "hex n = (if n < 10 then 48 + n else 87 + n)"

text \<open>A character of a JSON string with \<open>ensure_ascii=False\<close>: the encoder's table of escapes.\<close>

definition short_escapes :: "(nat \<times> nat) list" where
  "short_escapes = [(34, 34), (92, 92), (10, 110), (13, 114), (9, 116), (12, 102), (8, 98)]"

definition json_escape :: "nat \<Rightarrow> ustr" where
  "json_escape c =
     (case map_of short_escapes c of
        Some d \<Rightarrow> [92, d]
      | None \<Rightarrow> if c < 32 then [92, 117, 48, 48, hex (c div 16), hex (c mod 16)] else [c])"

definition json_string :: "ustr \<Rightarrow> ustr" where
  "json_string s = [34] @ concat (map json_escape s) @ [34]"

text \<open>\<open>json.dumps(parts, ensure_ascii=False, separators=(",", ":"))\<close> of a list of strings.\<close>

definition json_strings :: "ustr list \<Rightarrow> ustr" where
  "json_strings parts = [91] @ join [44] (map json_string parts) @ [93]"

section \<open>Keys\<close>

text \<open>\<open>sha\<close> is the hexadecimal SHA-256 digest of the UTF-8 encoding.\<close>

definition scoped_cache_key :: "(ustr \<Rightarrow> ustr) \<Rightarrow> ustr \<Rightarrow> ustr \<Rightarrow> ustr \<Rightarrow> ustr list \<Rightarrow> ustr" where
  "scoped_cache_key sha key_prefix namespace tenant_id parts =
     key_prefix @ U '':'' @ namespace @ U '':v1:'' @ sha (json_strings (tenant_id # parts))"

section \<open>Operations\<close>

record 's json_cache =
  jc_get :: "ustr \<Rightarrow> 's \<Rightarrow> json \<times> 's"
  jc_set :: "ustr \<Rightarrow> json \<Rightarrow> int \<Rightarrow> 's \<Rightarrow> 's"
  jc_delete :: "ustr \<Rightarrow> 's \<Rightarrow> 's"

subsection \<open>In memory\<close>

type_synonym mem_cache = "(ustr \<times> json) list"

definition mem_cache_get :: "ustr \<Rightarrow> mem_cache \<Rightarrow> json \<times> mem_cache" where
  "mem_cache_get key values = (case map_of values key of None \<Rightarrow> JNull | Some v \<Rightarrow> v, values)"

definition mem_cache_set :: "ustr \<Rightarrow> json \<Rightarrow> int \<Rightarrow> mem_cache \<Rightarrow> mem_cache" where
  "mem_cache_set key value ttl_seconds values =
     (if ttl_seconds < 1 then values else AList.update key value values)"

definition mem_cache_delete :: "ustr \<Rightarrow> mem_cache \<Rightarrow> mem_cache" where
  "mem_cache_delete key values = AList.delete key values"

definition mem_json_cache :: "mem_cache json_cache" where
  "mem_json_cache =
     \<lparr>jc_get = mem_cache_get, jc_set = mem_cache_set, jc_delete = mem_cache_delete\<rparr>"

subsection \<open>Redis\<close>

text \<open>
  The server keeps texts with the time they expire at. \<open>faults n c\<close> tells whether the \<open>n\<close>-th command of the
  process, a \<open>c\<close>, ends in a \<open>RedisError\<close> (a failed command has no effect).
\<close>

datatype redis_command = GetCmd | SetCmd | DelCmd

record redis =
  rs_data :: "(ustr \<times> (ustr \<times> instant)) list"
  rs_now :: instant
  rs_calls :: nat

definition redis_live :: "redis \<Rightarrow> ustr \<Rightarrow> ustr option" where
  "redis_live s key =
     (case map_of (rs_data s) key of
        Some (text, expires) \<Rightarrow> if rs_now s < expires then Some text else None
      | None \<Rightarrow> None)"

definition redis_delete ::
  "(nat \<Rightarrow> redis_command \<Rightarrow> bool) \<Rightarrow> ustr \<Rightarrow> redis \<Rightarrow> redis" where
  "redis_delete faults key s =
     (let s1 = s\<lparr>rs_calls := rs_calls s + 1\<rparr> in
      if faults (rs_calls s) DelCmd then s1 else s1\<lparr>rs_data := AList.delete key (rs_data s)\<rparr>)"

definition redis_get ::
  "(nat \<Rightarrow> redis_command \<Rightarrow> bool) \<Rightarrow> (ustr \<Rightarrow> json option) \<Rightarrow> ustr \<Rightarrow> redis \<Rightarrow> json \<times> redis" where
  "redis_get faults loads key s =
     (let s1 = s\<lparr>rs_calls := rs_calls s + 1\<rparr> in
      if faults (rs_calls s) GetCmd then (JNull, s1)
      else
        (case redis_live s key of
           None \<Rightarrow> (JNull, s1)
         | Some text \<Rightarrow>
             (case loads text of
                Some v \<Rightarrow> (v, s1)
              | None \<Rightarrow> (JNull, redis_delete faults key s1))))"

definition redis_set ::
  "(nat \<Rightarrow> redis_command \<Rightarrow> bool) \<Rightarrow> (json \<Rightarrow> ustr option) \<Rightarrow> ustr \<Rightarrow> json \<Rightarrow> int \<Rightarrow> redis \<Rightarrow> redis" where
  "redis_set faults dumps key value ttl_seconds s =
     (case dumps value of
        None \<Rightarrow> s
      | Some encoded \<Rightarrow>
          (let s1 = s\<lparr>rs_calls := rs_calls s + 1\<rparr> in
           if faults (rs_calls s) SetCmd then s1
           else s1\<lparr>rs_data :=
                  AList.update key (encoded, rs_now s + seconds (max 1 ttl_seconds)) (rs_data s)\<rparr>))"

definition redis_json_cache ::
  "(nat \<Rightarrow> redis_command \<Rightarrow> bool) \<Rightarrow> (json \<Rightarrow> ustr option) \<Rightarrow> (ustr \<Rightarrow> json option) \<Rightarrow> redis json_cache" where
  "redis_json_cache faults dumps loads =
     \<lparr>jc_get = redis_get faults loads, jc_set = redis_set faults dumps, jc_delete = redis_delete faults\<rparr>"

section \<open>The contracts\<close>

text \<open>
  \<open>view s k\<close> is the value under \<open>k\<close>, \<open>JNull\<close> when there is none; \<open>storable\<close> holds of the values that
  survive the cache's encoding. Entries may disappear at any time.
\<close>

locale weak_cache =
  fixes C :: "'s json_cache"
    and view :: "'s \<Rightarrow> ustr \<Rightarrow> json"
    and storable :: "json \<Rightarrow> bool"
  assumes get: "fst (jc_get C k s) \<in> {JNull, view s k}"
    and get_view: "view (snd (jc_get C k s)) k' \<in> {JNull, view s k'}"
    and set_same: "storable v \<Longrightarrow> view (jc_set C k v ttl s) k \<in> {JNull, v, view s k}"
    and set_other: "k' \<noteq> k \<Longrightarrow> view (jc_set C k v ttl s) k' \<in> {JNull, view s k'}"
    and delete_view: "view (jc_delete C k s) k' \<in> {JNull, view s k'}"

locale strong_cache = weak_cache +
  assumes delete: "view (jc_delete C k s) k = JNull"

definition mem_cache_view :: "mem_cache \<Rightarrow> ustr \<Rightarrow> json" where
  "mem_cache_view values k = (case map_of values k of None \<Rightarrow> JNull | Some v \<Rightarrow> v)"

interpretation mem_cache: strong_cache mem_json_cache mem_cache_view "\<lambda>_. True"
  by unfold_locales
     (auto simp: mem_json_cache_def mem_cache_get_def mem_cache_set_def mem_cache_delete_def
       mem_cache_view_def)

definition redis_view :: "(ustr \<Rightarrow> json option) \<Rightarrow> redis \<Rightarrow> ustr \<Rightarrow> json" where
  "redis_view loads s k =
     (case redis_live s k of
        None \<Rightarrow> JNull
      | Some text \<Rightarrow> (case loads text of None \<Rightarrow> JNull | Some v \<Rightarrow> v))"

definition redis_storable :: "(json \<Rightarrow> ustr option) \<Rightarrow> (ustr \<Rightarrow> json option) \<Rightarrow> json \<Rightarrow> bool" where
  "redis_storable dumps loads v \<longleftrightarrow> (case dumps v of None \<Rightarrow> True | Some t \<Rightarrow> loads t = Some v)"

lemma redis_view_calls [simp]: "redis_view loads (s\<lparr>rs_calls := n\<rparr>) k = redis_view loads s k"
  by (cases "map_of (rs_data s) k") (auto simp: redis_view_def redis_live_def)

lemma redis_view_delete:
  "redis_view loads (redis_delete faults k s) k' \<in> {JNull, redis_view loads s k'}"
  by (auto simp: redis_view_def redis_live_def redis_delete_def Let_def split: option.splits)

interpretation redis: weak_cache "redis_json_cache faults dumps loads" "redis_view loads"
  "redis_storable dumps loads" for faults dumps loads
proof unfold_locales
  fix k k' :: ustr and s :: redis and v :: json and ttl :: int
  show "fst (jc_get (redis_json_cache faults dumps loads) k s) \<in> {JNull, redis_view loads s k}"
    by (auto simp: redis_json_cache_def redis_get_def redis_view_def Let_def split: option.split)
  show "redis_view loads (snd (jc_get (redis_json_cache faults dumps loads) k s)) k' \<in>
      {JNull, redis_view loads s k'}"
    using redis_view_delete [of loads faults k "s\<lparr>rs_calls := rs_calls s + 1\<rparr>" k']
    by (auto simp: redis_json_cache_def redis_get_def Let_def split: option.split)
  show "redis_view loads (jc_set (redis_json_cache faults dumps loads) k v ttl s) k \<in>
      {JNull, v, redis_view loads s k}" if "redis_storable dumps loads v"
    using that
    by (auto simp: redis_json_cache_def redis_set_def redis_storable_def redis_view_def redis_live_def
        Let_def split: option.splits)
  show "redis_view loads (jc_set (redis_json_cache faults dumps loads) k v ttl s) k' \<in>
      {JNull, redis_view loads s k'}" if "k' \<noteq> k"
    using that
    by (auto simp: redis_json_cache_def redis_set_def redis_view_def redis_live_def Let_def
        split: option.splits)
  show "redis_view loads (jc_delete (redis_json_cache faults dumps loads) k s) k' \<in>
      {JNull, redis_view loads s k'}"
    using redis_view_delete by (simp add: redis_json_cache_def)
qed

text \<open>As long as no \<open>DEL\<close> fails, the Redis cache meets the stronger contract.\<close>

definition sparing_deletes :: "(nat \<Rightarrow> redis_command \<Rightarrow> bool) \<Rightarrow> nat \<Rightarrow> redis_command \<Rightarrow> bool" where
  "sparing_deletes faults n c \<longleftrightarrow> c \<noteq> DelCmd \<and> faults n c"

interpretation redis_up: strong_cache "redis_json_cache (sparing_deletes faults) dumps loads"
  "redis_view loads" "redis_storable dumps loads" for faults dumps loads
  by unfold_locales
     (simp add: redis_json_cache_def redis_delete_def sparing_deletes_def redis_view_def redis_live_def)

section \<open>Reading through a cache\<close>

text \<open>
  The pattern of the caching connectors: a cached value of the right form (\<open>decode\<close>) is the answer,
  otherwise the answer is fetched and cached (\<open>encode\<close>) if it is worth it.
\<close>

definition cached_call ::
  "'k json_cache \<Rightarrow> ustr \<Rightarrow> int \<Rightarrow> (json \<Rightarrow> 'a option) \<Rightarrow> ('a \<Rightarrow> json) \<Rightarrow> ('a \<Rightarrow> bool) \<Rightarrow>
   ('s \<Rightarrow> 'a res \<times> 's) \<Rightarrow> 's \<times> 'k \<Rightarrow> 'a res \<times> 's \<times> 'k" where
  "cached_call C key ttl decode encode cacheable fetch s =
     (case jc_get C key (snd s) of
        (v, k) \<Rightarrow>
          (case decode v of
             Some cached \<Rightarrow> (Inr cached, (fst s, k))
           | None \<Rightarrow>
               (case fetch (fst s) of
                  (Inl e, r) \<Rightarrow> (Inl e, (r, k))
                | (Inr result, r) \<Rightarrow>
                    (Inr result,
                     (r, if cacheable result then jc_set C key (encode result) ttl k else k)))))"

text \<open>
  \<open>origin k v\<close> tells that \<open>v\<close> is an answer that may be given for the key \<open>k\<close>; every value under one of the
  keys \<open>K\<close> has such an origin.
\<close>

context weak_cache begin

definition traced :: "(ustr \<Rightarrow> bool) \<Rightarrow> (ustr \<Rightarrow> json \<Rightarrow> bool) \<Rightarrow> 's \<Rightarrow> bool" where
  "traced K origin k \<longleftrightarrow> (\<forall>x. K x \<longrightarrow> view k x = JNull \<or> origin x (view k x))"

lemma traced_forget:
  assumes "traced K origin k" "\<And>x. K x \<Longrightarrow> view k' x \<in> {JNull, view k x}"
  shows "traced K origin k'"
  unfolding traced_def
proof (intro allI impI)
  fix x assume "K x"
  then have "view k x = JNull \<or> origin x (view k x)" using assms(1) by (simp add: traced_def)
  with assms(2) [OF \<open>K x\<close>] show "view k' x = JNull \<or> origin x (view k' x)" by auto
qed

lemma traced_set:
  assumes "traced K origin k" "storable v" "origin key v"
  shows "traced K origin (jc_set C key v ttl k)"
  unfolding traced_def
proof (intro allI impI)
  fix x assume "K x"
  then have old: "view k x = JNull \<or> origin x (view k x)" using assms(1) by (simp add: traced_def)
  show "view (jc_set C key v ttl k) x = JNull \<or> origin x (view (jc_set C key v ttl k) x)"
  proof (cases "x = key")
    case True
    then show ?thesis using set_same [OF assms(2), of key ttl k] assms(3) old by force
  next
    case False
    then show ?thesis using set_other [OF False, of v ttl k] old by force
  qed
qed

lemma traced_get:
  assumes "traced K origin k" "K key" "jc_get C key k = (v, k')"
  shows "traced K origin k'" and "v = JNull \<or> origin key v"
proof -
  have snd: "snd (jc_get C key k) = k'" and fst: "fst (jc_get C key k) = v" using assms(3) by simp_all
  show "traced K origin k'"
    by (rule traced_forget [OF assms(1)]) (use get_view [of key k] snd in simp)
  have "view k key = JNull \<or> origin key (view k key)" using assms(1,2) by (simp add: traced_def)
  then show "v = JNull \<or> origin key v" using get [of key k] unfolding fst by force
qed

lemma cached_call_traced:
  assumes traced: "traced K origin (snd s)" "K key" and null: "decode JNull = None"
    and roundtrip: "\<And>v x. decode v = Some x \<Longrightarrow> v = encode x"
    and fetched: "\<And>x. fetch (fst s) = (Inr x, fst s') \<Longrightarrow> origin key (encode x) \<and> storable (encode x)"
    and call: "cached_call C key ttl decode encode cacheable fetch s = (out, s')"
  shows "traced K origin (snd s') \<and> (\<forall>x. out = Inr x \<longrightarrow> origin key (encode x))"
proof -
  obtain c k where got: "jc_get C key (snd s) = (c, k)" by (rule prod.exhaust)
  note read = traced_get [OF traced got]
  show ?thesis
  proof (cases "decode c")
    case (Some x)
    with null have "c \<noteq> JNull" by auto
    with read(2) roundtrip [OF Some] have "origin key (encode x)" by simp
    moreover have "(out, s') = (Inr x, (fst s, k))"
      unfolding call [symmetric] cached_call_def got using Some by simp
    ultimately show ?thesis using read(1) by simp
  next
    case None
    obtain o1 r where fetch: "fetch (fst s) = (o1, r)" by (rule prod.exhaust)
    show ?thesis
    proof (cases o1)
      case (Inl e)
      have "(out, s') = (Inl e, (r, k))"
        unfolding call [symmetric] cached_call_def got using None fetch Inl by simp
      then show ?thesis using read(1) by simp
    next
      case (Inr x)
      have res: "(out, s') = (Inr x, (r, if cacheable x then jc_set C key (encode x) ttl k else k))"
        unfolding call [symmetric] cached_call_def got using None fetch Inr by simp
      then have "origin key (encode x)" "storable (encode x)" using fetched fetch Inr by simp_all
      with res show ?thesis using read(1) traced_set [OF read(1)] by simp
    qed
  qed
qed

end

text \<open>What the call did to the source: nothing, or one fetch.\<close>

lemma cached_call_source:
  assumes "cached_call C key ttl decode encode cacheable fetch s = (out, s')"
  shows "fst s' = fst s \<and> (\<exists>x. out = Inr x) \<or> fetch (fst s) = (out, fst s')"
proof -
  obtain c k where got: "jc_get C key (snd s) = (c, k)" by (rule prod.exhaust)
  obtain o1 r where fetch: "fetch (fst s) = (o1, r)" by (rule prod.exhaust)
  show ?thesis
  proof (cases "decode c")
    case None
    with assms got fetch show ?thesis by (cases o1) (auto simp: cached_call_def)
  next
    case (Some x)
    with assms got show ?thesis by (auto simp: cached_call_def)
  qed
qed

section \<open>Keys do not clash\<close>

text \<open>Reading one character back.\<close>

definition unhex :: "nat \<Rightarrow> nat" where
  "unhex h = (if h < 58 then h - 48 else h - 87)"

definition json_unescape :: "ustr \<Rightarrow> nat \<times> ustr" where
  "json_unescape s =
     (if hd s \<noteq> 92 then (hd s, tl s)
      else if s ! 1 = 117 then (16 * unhex (s ! 4) + unhex (s ! 5), drop 6 s)
      else (the (map_of (map prod.swap short_escapes) (s ! 1)), drop 2 s))"

lemma unhex_hex: "n < 16 \<Longrightarrow> unhex (hex n) = n"
  by (simp add: unhex_def hex_def)

lemma json_unescape_escape: "json_unescape (json_escape c @ r) = (c, r)"
proof (cases "map_of short_escapes c")
  case (Some d)
  then have "(c, d) \<in> set short_escapes" by (rule map_of_SomeD)
  then have "map_of (map prod.swap short_escapes) d = Some c" "d \<noteq> 117"
    unfolding short_escapes_def by auto
  with Some show ?thesis by (simp add: json_escape_def json_unescape_def)
next
  case None
  then have "c \<noteq> 92" by (auto simp: short_escapes_def)
  moreover have "16 * unhex (hex (c div 16)) + unhex (hex (c mod 16)) = c" if "c < 32"
    using that by (simp add: unhex_hex less_mult_imp_div_less)
  ultimately show ?thesis
    using None by (simp add: json_escape_def json_unescape_def)
qed

lemma json_escape_prefix:
  assumes "json_escape c @ r = json_escape c' @ r'"
  shows "c = c' \<and> r = r'"
  using arg_cong [OF assms, of json_unescape] unfolding json_unescape_escape by simp

lemma json_escape_quote: "34 # r' \<noteq> json_escape c @ r"
proof
  assume eq: "34 # r' = json_escape c @ r"
  show False
  proof (cases "map_of short_escapes c")
    case None
    then have "c \<noteq> 34" by (auto simp: short_escapes_def)
    with eq None show False by (simp add: json_escape_def split: if_splits)
  qed (use eq in \<open>simp add: json_escape_def\<close>)
qed

lemma json_chars_prefix:
  "concat (map json_escape s) @ 34 # r = concat (map json_escape s') @ 34 # r' \<Longrightarrow> s = s' \<and> r = r'"
proof (induction s arbitrary: s')
  case Nil
  then show ?case using json_escape_quote by (cases s') simp_all
next
  case (Cons c s)
  show ?case
  proof (cases s')
    case Nil
    with Cons.prems have "34 # r' = json_escape c @ concat (map json_escape s) @ 34 # r" by simp
    with json_escape_quote show ?thesis by blast
  next
    case (Cons c' t)
    with Cons.prems have "json_escape c @ concat (map json_escape s) @ 34 # r =
        json_escape c' @ concat (map json_escape t) @ 34 # r'" by simp
    then have "c = c'" "concat (map json_escape s) @ 34 # r = concat (map json_escape t) @ 34 # r'"
      using json_escape_prefix by blast+
    with Cons.IH Cons show ?thesis by simp
  qed
qed

lemma json_string_prefix: "json_string s @ r = json_string s' @ r' \<Longrightarrow> s = s' \<and> r = r'"
  using json_chars_prefix [of s r s' r'] by (simp add: json_string_def)

lemma join_strings_prefix:
  "join [44] (map json_string xs) @ 93 # r = join [44] (map json_string ys) @ 93 # r' \<Longrightarrow> xs = ys \<and> r = r'"
proof (induction xs arbitrary: ys rule: induct_list012)
  case 1
  show ?case
  proof (cases ys)
    case Nil
    with 1 show ?thesis by simp
  next
    case (Cons y ys')
    with 1 show ?thesis by (cases ys') (simp_all add: json_string_def)
  qed
next
  case (2 x)
  show ?case
  proof (cases ys)
    case Nil
    with 2 show ?thesis by (simp add: json_string_def)
  next
    case (Cons y ys')
    with 2 json_string_prefix [of x "93 # r" y] show ?thesis by (cases ys') auto
  qed
next
  case (3 x x' xs)
  show ?case
  proof (cases ys)
    case Nil
    with 3 show ?thesis by (simp add: json_string_def)
  next
    case (Cons y ys')
    show ?thesis
    proof (cases ys')
      case Nil
      with 3(3) Cons have "json_string x @ 44 # join [44] (map json_string (x' # xs)) @ 93 # r =
          json_string y @ 93 # r'" by simp
      from json_string_prefix [OF this] show ?thesis by simp
    next
      case (Cons y' ys'')
      with 3(3) \<open>ys = y # ys'\<close> have
        "json_string x @ 44 # join [44] (map json_string (x' # xs)) @ 93 # r =
         json_string y @ 44 # join [44] (map json_string (y' # ys'')) @ 93 # r'" by simp
      from json_string_prefix [OF this] have "x = y"
        "join [44] (map json_string (x' # xs)) @ 93 # r = join [44] (map json_string (y' # ys'')) @ 93 # r'"
        by simp_all
      with 3(2) [of "y' # ys''"] Cons \<open>ys = y # ys'\<close> show ?thesis by simp
    qed
  qed
qed

lemma json_strings_prefix: "json_strings xs @ r = json_strings ys @ r' \<Longrightarrow> xs = ys \<and> r = r'"
  using join_strings_prefix [of xs r ys r'] by (simp add: json_strings_def)

lemma json_strings_inj: "json_strings xs = json_strings ys \<longleftrightarrow> xs = ys"
  using json_strings_prefix [of xs "[]" ys "[]"] by auto

text \<open>
  Cache keys separate their scopes: under one prefix and namespace two scopes (the tenant with the
  other parts, of whatever number and content) have the same key only if they are the same scope, unless
  they exhibit a collision of SHA-256.
\<close>

theorem cache_keys_separate_scopes:
  "scoped_cache_key sha key_prefix namespace tenant parts = scoped_cache_key sha key_prefix namespace tenant' parts' \<longleftrightarrow>
     (tenant, parts) = (tenant', parts') \<or>
     json_strings (tenant # parts) \<noteq> json_strings (tenant' # parts') \<and>
     sha (json_strings (tenant # parts)) = sha (json_strings (tenant' # parts'))"
  by (auto simp: scoped_cache_key_def json_strings_inj)

end
