(* ===== verification/Knowledge.thy ===== *)
theory Knowledge
  imports Json_Cache Request_Security
begin

text \<open>
  Enterprise knowledge (\<open>app/domain/knowledge.py\<close>): the service that demands citations, the cache of
  answers (\<open>app/connectors/cached.py\<close>), and the connector to the retrieval server
  (\<open>app/connectors/mcp_knowledge.py\<close>).

  A connector is a function of the question, the caller and its own state, which stands for the
  retrieval server. The \<open>MCP\<close> client library is a record of the two calls the connector makes; \<open>loads\<close> is
  \<open>json.loads\<close>, \<open>None\<close> when it raises \<open>JSONDecodeError\<close>.
\<close>

section \<open>Answers\<close>

record knowledge_citation =
  kc_document_id :: ustr
  kc_chunk_id :: ustr
  kc_title :: ustr

datatype knowledge_status = Completed_k | Insufficient_evidence

record knowledge_answer =
  ka_answer :: ustr
  ka_citations :: "knowledge_citation list"
  ka_warnings :: "ustr list"
  ka_status :: knowledge_status

text \<open>A required \<open>str\<close> field with a least and a greatest length.\<close>

definition required_str :: "nat \<Rightarrow> nat option \<Rightarrow> ustr \<Rightarrow> jdict \<Rightarrow> ustr res" where
  "required_str least greatest field d =
     (case map_of d field of
        Some (JStr s) \<Rightarrow>
          if least \<le> length s \<and> (case greatest of None \<Rightarrow> True | Some n \<Rightarrow> length s \<le> n) then Inr s
          else Inl (Exn ValidationErr [])
      | _ \<Rightarrow> Inl (Exn ValidationErr []))"

definition validate_citation :: "json \<Rightarrow> knowledge_citation res" where
  "validate_citation v =
     (case v of
        JObj d \<Rightarrow>
          (case (required_str 1 (Some 512) (U ''document_id'') d, required_str 1 (Some 512) (U ''chunk_id'') d,
                 required_str 1 (Some 1000) (U ''title'') d) of
             (Inr document_id, Inr chunk_id, Inr title) \<Rightarrow>
               Inr \<lparr>kc_document_id = document_id, kc_chunk_id = chunk_id, kc_title = title\<rparr>
           | _ \<Rightarrow> Inl (Exn ValidationErr []))
      | _ \<Rightarrow> Inl (Exn ValidationErr []))"

fun validate_all :: "('a \<Rightarrow> 'b res) \<Rightarrow> 'a list \<Rightarrow> 'b list res" where
  "validate_all f [] = Inr []"
| "validate_all f (x # xs) =
     (case f x of
        Inl e \<Rightarrow> Inl e
      | Inr y \<Rightarrow> (case validate_all f xs of Inl e \<Rightarrow> Inl e | Inr ys \<Rightarrow> Inr (y # ys)))"

text \<open>\<open>KnowledgeAnswer.model_validate\<close> of an answer with status \<open>completed\<close>.\<close>

definition validate_knowledge_answer :: "json \<Rightarrow> json \<Rightarrow> knowledge_answer res" where
  "validate_knowledge_answer answer citations =
     (case (required_str 1 None (U ''answer'') [(U ''answer'', answer)], citations) of
        (Inr text, JList cs) \<Rightarrow>
          (case validate_all validate_citation cs of
             Inl e \<Rightarrow> Inl e
           | Inr cited \<Rightarrow>
               Inr \<lparr>ka_answer = text, ka_citations = cited, ka_warnings = [], ka_status = Completed_k\<rparr>)
      | _ \<Rightarrow> Inl (Exn ValidationErr []))"

definition insufficient_answer :: knowledge_answer where
  "insufficient_answer =
     \<lparr>ka_answer = [30693, 35782, 24211, 26410, 36820, 22238, 21487, 39564, 35777, 30340, 24341, 29992, 65292, 26412, 27425, 19981, 29983, 25104, 31572, 26696, 12290], ka_citations = [],
      ka_warnings = [[30693, 35782, 24211, 32467, 26524, 32570, 23569, 24341, 29992]], ka_status = Insufficient_evidence\<rparr>"

section \<open>The service\<close>

type_synonym 's knowledge_connector = "ustr \<Rightarrow> request_context \<Rightarrow> 's \<Rightarrow> jdict res \<times> 's"

text \<open>\<open>provider\<close> is \<open>get_access_token\<close> of the token provider, \<open>None\<close> when there is no provider.\<close>

definition knowledge_service_answer ::
  "(request_context \<Rightarrow> ustr res) option \<Rightarrow> 's knowledge_connector \<Rightarrow> ustr \<Rightarrow> request_context \<Rightarrow> 's \<Rightarrow>
   knowledge_answer res \<times> 's" where
  "knowledge_service_answer provider connector query c s =
     (case (case provider of None \<Rightarrow> Inr [] | Some get_token \<Rightarrow> get_token c) of
        Inl e \<Rightarrow> (Inl e, s)
      | Inr _ \<Rightarrow>
          bnd (connector query c s) (\<lambda>response s1.
            let citations = get_default response (U ''citations'') (JList []) in
            if \<not> truthy citations then (Inr insufficient_answer, s1)
            else
              (case getitem response (U ''answer'') of
                 Inl e \<Rightarrow> (Inl e, s1)
               | Inr answer \<Rightarrow> (validate_knowledge_answer answer citations, s1))))"

section \<open>The cache of answers\<close>

text \<open>
  \<open>json.dumps({"roles": ..., "scopes": ...}, ensure_ascii=False, sort_keys=True)\<close>. Python compares
  strings by their code points.
\<close>

definition permission_fingerprint :: "request_context \<Rightarrow> ustr" where
  "permission_fingerprint c =
     U ''{'' @ json_string (U ''roles'') @ U '':'' @ json_strings (sort (rc_role_ids c)) @ U '','' @
     json_string (U ''scopes'') @ U '':'' @
     json_strings (sorted_list_of_set (rc_permission_scopes c)) @ U ''}''"

definition knowledge_parts :: "ustr \<Rightarrow> request_context \<Rightarrow> ustr list" where
  "knowledge_parts query c =
     [rc_operator_id c, (case rc_employee_id c of None \<Rightarrow> [] | Some e \<Rightarrow> e),
      permission_fingerprint c, strip query]"

definition knowledge_cache_key :: "(ustr \<Rightarrow> ustr) \<Rightarrow> ustr \<Rightarrow> ustr \<Rightarrow> request_context \<Rightarrow> ustr" where
  "knowledge_cache_key sha key_prefix query c =
     scoped_cache_key sha key_prefix (U ''knowledge-answer'') (rc_tenant_id c) (knowledge_parts query c)"

definition as_dict :: "json \<Rightarrow> jdict option" where
  "as_dict v = (case v of JObj d \<Rightarrow> Some d | _ \<Rightarrow> None)"

text \<open>\<open>isinstance(citations, list) and citations\<close>.\<close>

definition has_citations :: "jdict \<Rightarrow> bool" where
  "has_citations result \<longleftrightarrow>
     (case map_of result (U ''citations'') of Some (JList cs) \<Rightarrow> cs \<noteq> [] | _ \<Rightarrow> False)"

definition cached_knowledge_answer ::
  "(ustr \<Rightarrow> ustr) \<Rightarrow> 'k json_cache \<Rightarrow> ustr \<Rightarrow> int \<Rightarrow> 's knowledge_connector \<Rightarrow> ('s \<times> 'k) knowledge_connector" where
  "cached_knowledge_answer sha C key_prefix ttl_seconds connector query c =
     cached_call C (knowledge_cache_key sha key_prefix query c) ttl_seconds as_dict JObj has_citations
       (connector query c)"

section \<open>The retrieval server\<close>

text \<open>
  What \<open>tool.ainvoke\<close> returns: a \<open>ToolMessage\<close> with its artifact and its content, or another value.
  \<open>mc_get_tools\<close> lists the names of the server's tools, \<open>mc_invoke\<close> calls one; both see the headers the
  connection was made with, and a call cut off by \<open>wait_for\<close> raises \<open>TimeoutError\<close>.
\<close>

datatype tool_result = ToolMessage json json | OtherResult json

record 's mcp_client =
  mc_get_tools :: "(ustr \<times> ustr) list \<Rightarrow> 's \<Rightarrow> ustr list res \<times> 's"
  mc_invoke :: "(ustr \<times> ustr) list \<Rightarrow> ustr \<Rightarrow> ustr \<Rightarrow> 's \<Rightarrow> tool_result res \<times> 's"

definition mcp_error :: "string \<Rightarrow> exn" where
  "mcp_error message = Exn KnowledgeMcpErr (U message)"

fun first_text_object :: "(ustr \<Rightarrow> json option) \<Rightarrow> json list \<Rightarrow> jdict res" where
  "first_text_object loads [] = Inl (mcp_error ''knowledge_mcp_invalid_response'')"
| "first_text_object loads (block # blocks) =
     (case block of
        JObj d \<Rightarrow>
          (case map_of d (U ''text'') of
             Some (JStr t) \<Rightarrow>
               (case loads t of
                  Some (JObj parsed) \<Rightarrow> Inr parsed
                | _ \<Rightarrow> first_text_object loads blocks)
           | _ \<Rightarrow> first_text_object loads blocks)
      | _ \<Rightarrow> first_text_object loads blocks)"

definition structured_value :: "(ustr \<Rightarrow> json option) \<Rightarrow> json \<Rightarrow> jdict res" where
  "structured_value loads result =
     (case result of
        JObj d \<Rightarrow> Inr d
      | JStr s \<Rightarrow>
          (case loads s of
             Some (JObj parsed) \<Rightarrow> Inr parsed
           | _ \<Rightarrow> Inl (mcp_error ''knowledge_mcp_invalid_response''))
      | JList blocks \<Rightarrow> first_text_object loads blocks
      | _ \<Rightarrow> Inl (mcp_error ''knowledge_mcp_invalid_response''))"

definition extract_structured_result :: "(ustr \<Rightarrow> json option) \<Rightarrow> tool_result \<Rightarrow> jdict res" where
  "extract_structured_result loads result =
     (case result of
        ToolMessage artifact content \<Rightarrow>
          (case artifact of
             JObj a \<Rightarrow>
               (case map_of a (U ''structured_content'') of
                  Some (JObj structured) \<Rightarrow> Inr structured
                | _ \<Rightarrow> structured_value loads content)
           | _ \<Rightarrow> structured_value loads content)
      | OtherResult v \<Rightarrow> structured_value loads v)"

text \<open>The \<open>except\<close> clauses around the two calls.\<close>

definition mcp_translate :: "exn \<Rightarrow> exn" where
  "mcp_translate e =
     (if caught e [KnowledgeMcpErr] then e
      else if caught e [TimeoutErr] then mcp_error ''knowledge_mcp_timeout''
      else if caught e [ExceptionC] then mcp_error ''knowledge_mcp_unavailable''
      else e)"

definition mcp_headers :: "ustr \<Rightarrow> request_context \<Rightarrow> (ustr \<times> ustr) list" where
  "mcp_headers token c =
     [(U ''Authorization'', U ''Bearer '' @ token), (U ''X-Request-ID'', rc_request_id c)]"

definition mcp_answer ::
  "(ustr \<Rightarrow> json option) \<Rightarrow> 's mcp_client \<Rightarrow> (request_context \<Rightarrow> ustr res) \<Rightarrow> ustr \<Rightarrow> 's knowledge_connector" where
  "mcp_answer loads client get_token answer_tool_name query c s =
     (case get_token c of
        Inl e \<Rightarrow> (Inl e, s)
      | Inr token \<Rightarrow>
          (case bnd (mc_get_tools client (mcp_headers token c) s) (\<lambda>tools s1.
             if answer_tool_name \<notin> set tools then (Inl (mcp_error ''knowledge_mcp_tool_not_found''), s1)
             else mc_invoke client (mcp_headers token c) answer_tool_name query s1) of
             (Inl e, s2) \<Rightarrow> (Inl (mcp_translate e), s2)
           | (Inr result, s2) \<Rightarrow> (extract_structured_result loads result, s2)))"

text \<open>\<open>MockKnowledgeConnector\<close>.\<close>

definition mock_knowledge_answer :: "'s knowledge_connector" where
  "mock_knowledge_answer query c s =
     (Inr [(U ''answer'', JStr (U ''Mock knowledge answer for: '' @ query)),
           (U ''citations'', JList [JObj
             [(U ''document_id'', JStr (U ''mock-policy-1'')), (U ''chunk_id'', JStr (U ''section-1'')),
              (U ''title'', JStr (U ''Mock policy''))]])], s)"

section \<open>Answers are cited\<close>

lemma validate_all_length: "validate_all f xs = Inr ys \<Longrightarrow> length ys = length xs"
  by (induction xs arbitrary: ys) (auto split: sum.splits)

text \<open>Each citation names a document, a chunk and a title, which are those of the source's answer.\<close>

definition cites :: "knowledge_citation \<Rightarrow> json \<Rightarrow> bool" where
  "cites k v \<longleftrightarrow> (\<exists>d. v = JObj d \<and> map_of d (U ''document_id'') = Some (JStr (kc_document_id k)) \<and>
     map_of d (U ''chunk_id'') = Some (JStr (kc_chunk_id k)) \<and>
     map_of d (U ''title'') = Some (JStr (kc_title k))) \<and>
     kc_document_id k \<noteq> [] \<and> kc_chunk_id k \<noteq> [] \<and> kc_title k \<noteq> []"

lemma required_str_Inr:
  "required_str least greatest field d = Inr s \<Longrightarrow> map_of d field = Some (JStr s) \<and> least \<le> length s"
  by (auto simp: required_str_def split: option.splits json.splits if_splits)

lemma validate_citation_cites: "validate_citation v = Inr k \<Longrightarrow> cites k v"
  unfolding validate_citation_def cites_def
  by (auto split: json.splits sum.splits dest!: required_str_Inr)

lemma validate_citations_cite: "validate_all validate_citation cs = Inr ks \<Longrightarrow> list_all2 cites ks cs"
  by (induction cs arbitrary: ks) (auto split: sum.splits dest: validate_citation_cites)

lemma validate_knowledge_answer_Inr:
  assumes "validate_knowledge_answer answer citations = Inr a"
  shows "answer = JStr (ka_answer a) \<and> ka_answer a \<noteq> [] \<and> ka_status a = Completed_k \<and>
    (\<exists>cs. citations = JList cs \<and> list_all2 cites (ka_citations a) cs)"
  using assms unfolding validate_knowledge_answer_def
  by (auto split: json.splits sum.splits dest!: required_str_Inr validate_citations_cite)

text \<open>
  C21: Answers are cited: when the service answers a question, the caller was allowed to ask (the token
  provider, if there is one, gave a token), the answer is that of the retrieval server, and either it is
  not empty and carries at least one citation, each with a document, a chunk and a title as the server
  gave them, or the server cited nothing and the fixed text says so.
\<close>

theorem knowledge_answers_are_cited:
  assumes "knowledge_service_answer provider connector query c s = (Inr a, s')"
  shows "(provider = None \<or> (\<exists>get_token token. provider = Some get_token \<and> get_token c = Inr token)) \<and>
    (\<exists>response. connector query c s = (Inr response, s') \<and>
       (if truthy (get_default response (U ''citations'') (JList []))
        then ka_status a = Completed_k \<and> ka_answer a \<noteq> [] \<and>
          map_of response (U ''answer'') = Some (JStr (ka_answer a)) \<and>
          (\<exists>cs. cs \<noteq> [] \<and> map_of response (U ''citations'') = Some (JList cs) \<and>
             list_all2 cites (ka_citations a) cs)
        else a = insufficient_answer))"
proof -
  obtain token where token:
    "(case provider of None \<Rightarrow> Inr [] | Some get_token \<Rightarrow> get_token c) = Inr token"
    using assms by (cases "case provider of None \<Rightarrow> Inr [] | Some get_token \<Rightarrow> get_token c")
      (simp_all add: knowledge_service_answer_def)
  note answer = assms [unfolded knowledge_service_answer_def token sum.case bnd_Inr_iff]
  from answer obtain response where response: "connector query c s = (Inr response, s')"
    and cited: "\<not> truthy (get_default response (U ''citations'') (JList [])) \<and> a = insufficient_answer \<or>
      truthy (get_default response (U ''citations'') (JList [])) \<and>
      (\<exists>v. getitem response (U ''answer'') = Inr v \<and>
         validate_knowledge_answer v (get_default response (U ''citations'') (JList [])) = Inr a)"
    by (auto simp: Let_def split: if_splits sum.splits)
  have "provider = None \<or> (\<exists>get_token token. provider = Some get_token \<and> get_token c = Inr token)"
    using token by (cases provider) auto
  moreover have "ka_status a = Completed_k \<and> ka_answer a \<noteq> [] \<and>
      map_of response (U ''answer'') = Some (JStr (ka_answer a)) \<and>
      (\<exists>cs. cs \<noteq> [] \<and> map_of response (U ''citations'') = Some (JList cs) \<and>
         list_all2 cites (ka_citations a) cs)"
    if truthy: "truthy (get_default response (U ''citations'') (JList []))"
  proof -
    from cited truthy obtain v where v: "getitem response (U ''answer'') = Inr v"
      "validate_knowledge_answer v (get_default response (U ''citations'') (JList [])) = Inr a" by blast
    from validate_knowledge_answer_Inr [OF v(2)] obtain cs where cs: "v = JStr (ka_answer a)"
      "ka_answer a \<noteq> []" "ka_status a = Completed_k"
      "get_default response (U ''citations'') (JList []) = JList cs" "list_all2 cites (ka_citations a) cs"
      by blast
    have "cs \<noteq> []" using truthy cs(4) by auto
    with cs(4) have "map_of response (U ''citations'') = Some (JList cs)"
      by (simp add: get_default_def split: option.splits)
    with \<open>cs \<noteq> []\<close> cs v(1) show ?thesis by (auto simp: getitem_def split: option.splits)
  qed
  ultimately show ?thesis using response cited by auto
qed

definition demo_asker :: request_context where
  "demo_asker = RequestContext (U ''r'') (U ''t'') (U ''thread'') (U ''tenant'') (U ''ann'')"

theorem knowledge_answers_are_cited_witness:
  "list_all2 cites [\<lparr>kc_document_id = U ''mock-policy-1'', kc_chunk_id = U ''section-1'', kc_title = U ''Mock policy''\<rparr>]
     [JObj [(U ''document_id'', JStr (U ''mock-policy-1'')), (U ''chunk_id'', JStr (U ''section-1'')),
            (U ''title'', JStr (U ''Mock policy''))]]"
proof -
  have "knowledge_service_answer (Some (\<lambda>_. get_access_token (Some (U ''t'')))) mock_knowledge_answer
      (U ''leave'') demo_asker () =
    (Inr \<lparr>ka_answer = U ''Mock knowledge answer for: leave'',
          ka_citations = [\<lparr>kc_document_id = U ''mock-policy-1'', kc_chunk_id = U ''section-1'', kc_title = U ''Mock policy''\<rparr>],
          ka_warnings = [], ka_status = Completed_k\<rparr>, ())"
    by code_simp
  from knowledge_answers_are_cited [OF this] show ?thesis
    by (simp add: mock_knowledge_answer_def get_default_def)
qed

section \<open>Failures of the retrieval server\<close>

lemma caught_Exception: "caught e [ExceptionC] \<longleftrightarrow> exn_class e \<noteq> CancelledErr"
  by (cases "exn_class e") (simp_all add: caught_def isa_def)

lemma caught_Mcp: "caught e [KnowledgeMcpErr] \<longleftrightarrow> exn_class e = KnowledgeMcpErr"
  by (cases "exn_class e") (simp_all add: caught_def isa_def)

definition mcp_messages :: "exn set" where
  "mcp_messages = mcp_error ` {''knowledge_mcp_tool_not_found'', ''knowledge_mcp_timeout'',
     ''knowledge_mcp_unavailable'', ''knowledge_mcp_invalid_response''}"

lemma first_text_object_Inl: "first_text_object loads bs = Inl e \<Longrightarrow> e \<in> mcp_messages"
  by (induction bs) (auto simp: mcp_messages_def split: json.splits option.splits)

lemma structured_value_Inl: "structured_value loads v = Inl e \<Longrightarrow> e \<in> mcp_messages"
  by (auto simp: structured_value_def mcp_messages_def split: json.splits option.splits
      dest: first_text_object_Inl [unfolded mcp_messages_def])

lemma extract_structured_result_Inl: "extract_structured_result loads r = Inl e \<Longrightarrow> e \<in> mcp_messages"
  by (auto simp: extract_structured_result_def split: tool_result.splits json.splits option.splits
      dest: structured_value_Inl)

lemma mcp_translate_cases:
  assumes "exn_class e = KnowledgeMcpErr \<Longrightarrow> e \<in> mcp_messages"
  shows "exn_class (mcp_translate e) = CancelledErr \<or> mcp_translate e \<in> mcp_messages"
  using assms by (auto simp: mcp_translate_def caught_Exception caught_Mcp mcp_messages_def)

text \<open>
  Whatever goes wrong at the retrieval server (a time-out, a lost connection, a missing tool, an
  answer that is no JSON object), the connector raises \<open>KnowledgeMcpError\<close> with one of four fixed
  messages: no text of the server, of the client library or of the token leaks into the error. The only
  other outcomes are the refusal to give a token, before the server is contacted, and the cancellation of
  the request, which is no \<open>Exception\<close>.
\<close>

theorem mcp_errors_are_sanitised:
  assumes "\<And>headers s e s1. mc_get_tools client headers s = (Inl e, s1) \<Longrightarrow> exn_class e \<noteq> KnowledgeMcpErr"
    and "\<And>headers tool q s e s1. mc_invoke client headers tool q s = (Inl e, s1) \<Longrightarrow> exn_class e \<noteq> KnowledgeMcpErr"
    and "mcp_answer loads client get_token tool query c s = (Inl e, s')"
  shows "get_token c = Inl e \<and> s' = s \<or> exn_class e = CancelledErr \<or>
    e \<in> mcp_messages"
proof (cases "get_token c")
  case (Inl e1)
  with assms(3) show ?thesis by (simp add: mcp_answer_def)
next
  case (Inr token)
  define calls where "calls = bnd (mc_get_tools client (mcp_headers token c) s) (\<lambda>tools s1.
     if tool \<notin> set tools then (Inl (mcp_error ''knowledge_mcp_tool_not_found''), s1)
     else mc_invoke client (mcp_headers token c) tool query s1)"
  have run: "(case calls of (Inl e, s2) \<Rightarrow> (Inl (mcp_translate e), s2)
      | (Inr result, s2) \<Rightarrow> (extract_structured_result loads result, s2)) = (Inl e, s')"
    using assms(3) Inr by (simp add: mcp_answer_def calls_def)
  obtain r s2 where calls: "calls = (r, s2)" by (rule prod.exhaust)
  show ?thesis
  proof (cases r)
    case (Inl e1)
    have "e1 \<in> mcp_messages" if "exn_class e1 = KnowledgeMcpErr"
      using calls Inl that assms(1,2) unfolding calls_def mcp_messages_def
      by (auto simp: bnd_Inl_iff split: if_splits)
    from mcp_translate_cases [OF this] run calls Inl show ?thesis by auto
  next
    case (Inr result)
    with run calls show ?thesis by (auto dest: extract_structured_result_Inl)
  qed
qed

definition silent_server :: "nat mcp_client" where
  "silent_server =
     \<lparr>mc_get_tools = \<lambda>headers n. (Inr [U ''knowledge_answer_tool''], n + 1),
      mc_invoke = \<lambda>headers tool q n. (Inl (Exn TimeoutErr (U ''secret'')), n + 1)\<rparr>"

theorem mcp_errors_are_sanitised_witness:
  "mcp_error ''knowledge_mcp_timeout'' \<in> mcp_messages"
proof -
  have "mcp_answer (\<lambda>_. None) silent_server (\<lambda>_. get_access_token (Some (U ''t'')))
      (U ''knowledge_answer_tool'') (U ''leave'') demo_asker 0 =
    (Inl (mcp_error ''knowledge_mcp_timeout''), 2)"
    by code_simp
  from mcp_errors_are_sanitised [OF _ _ this] show ?thesis
    by (simp add: silent_server_def get_access_token_def mcp_error_def)
qed

section \<open>Cached answers stay with their permissions\<close>

text \<open>The questions that reach the retrieval server, with the answers it gave.\<close>

type_synonym question_log = "(ustr \<times> request_context \<times> jdict) list"

definition logged :: "'s knowledge_connector \<Rightarrow> ('s \<times> question_log) knowledge_connector" where
  "logged connector query c s =
     (case connector query c (fst s) of
        (Inl e, s1) \<Rightarrow> (Inl e, (s1, snd s))
      | (Inr d, s1) \<Rightarrow> (Inr d, (s1, snd s @ [(query, c, d)])))"

fun ask_all :: "'s knowledge_connector \<Rightarrow> (ustr \<times> request_context) list \<Rightarrow> 's \<Rightarrow> jdict res list \<times> 's" where
  "ask_all connector [] s = ([], s)"
| "ask_all connector ((query, c) # questions) s =
     (case connector query c s of
        (r, s1) \<Rightarrow> (case ask_all connector questions s1 of (rs, s2) \<Rightarrow> (r # rs, s2)))"

text \<open>The text the cache key is the digest of, and what two questions with the same text share.\<close>

definition knowledge_text :: "ustr \<Rightarrow> request_context \<Rightarrow> ustr" where
  "knowledge_text query c = json_strings (rc_tenant_id c # knowledge_parts query c)"

definition same_question :: "ustr \<Rightarrow> request_context \<Rightarrow> ustr \<Rightarrow> request_context \<Rightarrow> bool" where
  "same_question query c query' c' \<longleftrightarrow>
     rc_tenant_id c = rc_tenant_id c' \<and> rc_operator_id c = rc_operator_id c' \<and>
     (rc_employee_id c = rc_employee_id c' \<or> rc_employee_id c \<in> {None, Some []} \<and> rc_employee_id c' \<in> {None, Some []}) \<and>
     set (rc_role_ids c) = set (rc_role_ids c') \<and> rc_permission_scopes c = rc_permission_scopes c' \<and>
     strip query = strip query'"

lemma permission_fingerprint_inj:
  assumes "permission_fingerprint c = permission_fingerprint c'"
  shows "sort (rc_role_ids c) = sort (rc_role_ids c') \<and>
    sorted_list_of_set (rc_permission_scopes c) = sorted_list_of_set (rc_permission_scopes c')"
proof -
  have "json_strings (sort (rc_role_ids c)) @ U '','' @ json_string (U ''scopes'') @ U '':'' @
      json_strings (sorted_list_of_set (rc_permission_scopes c)) @ U ''}'' =
    json_strings (sort (rc_role_ids c')) @ U '','' @ json_string (U ''scopes'') @ U '':'' @
      json_strings (sorted_list_of_set (rc_permission_scopes c')) @ U ''}''"
    using assms unfolding permission_fingerprint_def by simp
  from json_strings_prefix [OF this] show ?thesis
    using json_strings_prefix by auto
qed

lemma knowledge_text_inj:
  assumes "knowledge_text query c = knowledge_text query' c'"
    and "finite (rc_permission_scopes c)" "finite (rc_permission_scopes c')"
  shows "same_question query c query' c'"
proof -
  have parts: "rc_tenant_id c = rc_tenant_id c'" "knowledge_parts query c = knowledge_parts query' c'"
    using assms(1) by (simp_all add: knowledge_text_def json_strings_inj)
  then have "permission_fingerprint c = permission_fingerprint c'" by (simp add: knowledge_parts_def)
  then have fp: "sort (rc_role_ids c) = sort (rc_role_ids c')"
    "sorted_list_of_set (rc_permission_scopes c) = sorted_list_of_set (rc_permission_scopes c')"
    using permission_fingerprint_inj by blast+
  from fp(1) have "set (rc_role_ids c) = set (rc_role_ids c')" by (metis set_sort)
  moreover from fp(2) assms(2,3) have "rc_permission_scopes c = rc_permission_scopes c'"
    by (metis sorted_list_of_set.set_sorted_key_list_of_set)
  ultimately show ?thesis using parts
    by (auto simp: same_question_def knowledge_parts_def split: option.splits)
qed

definition from_log :: "(ustr \<Rightarrow> ustr) \<Rightarrow> ustr \<Rightarrow> question_log \<Rightarrow> ustr \<Rightarrow> json \<Rightarrow> bool" where
  "from_log sha key_prefix asked k v \<longleftrightarrow>
     (\<exists>(query, c, d) \<in> set asked. k = knowledge_cache_key sha key_prefix query c \<and> v = JObj d)"

definition all_answers :: "(json \<Rightarrow> bool) \<Rightarrow> 's knowledge_connector \<Rightarrow> bool" where
  "all_answers P connector \<longleftrightarrow> (\<forall>query c s d s'. connector query c s = (Inr d, s') \<longrightarrow> P (JObj d))"

definition askers :: "question_log \<Rightarrow> (ustr \<times> request_context) set" where
  "askers asked = (\<lambda>e. (fst e, fst (snd e))) ` set asked"

definition knowledge_key :: "(ustr \<Rightarrow> ustr) \<Rightarrow> ustr \<Rightarrow> ustr \<Rightarrow> bool" where
  "knowledge_key sha key_prefix k \<longleftrightarrow> (\<exists>query c. k = knowledge_cache_key sha key_prefix query c)"

lemma askers_Nil [simp]: "askers [] = {}"
  by (simp add: askers_def)

lemma from_log_mono: "from_log sha p asked k v \<Longrightarrow> set asked \<subseteq> set asked' \<Longrightarrow> from_log sha p asked' k v"
  unfolding from_log_def by blast

lemma logged_cases:
  assumes "logged connector query c (s, asked) = (out, (s', asked'))"
  shows "(case out of Inl e \<Rightarrow> connector query c s = (Inl e, s') \<and> asked' = asked
    | Inr d \<Rightarrow> connector query c s = (Inr d, s') \<and> asked' = asked @ [(query, c, d)])"
  using assms by (auto simp: logged_def split: prod.splits sum.splits)

context weak_cache begin

lemma traced_mono:
  "traced K (from_log sha p asked) k \<Longrightarrow> set asked \<subseteq> set asked' \<Longrightarrow> traced K (from_log sha p asked') k"
  using from_log_mono unfolding traced_def by blast

lemma cached_answer_step:
  assumes traced: "traced (knowledge_key sha p) (from_log sha p asked) k"
    and storable: "all_answers storable connector"
    and call: "cached_knowledge_answer sha C p ttl (logged connector) query c ((s, asked), k) =
      (out, ((s', asked'), k'))"
  shows "traced (knowledge_key sha p) (from_log sha p asked') k' \<and>
    set asked \<subseteq> set asked' \<and>
    askers asked' \<subseteq> insert (query, c) (askers asked) \<and>
    (\<forall>d. out = Inr d \<longrightarrow> from_log sha p asked' (knowledge_cache_key sha p query c) (JObj d))"
proof -
  note call = call [unfolded cached_knowledge_answer_def]
  have source: "(s', asked') = (s, asked) \<or> logged connector query c (s, asked) = (out, (s', asked'))"
    using cached_call_source [OF call] by auto
  then have logs: "set asked \<subseteq> set asked'" "askers asked' \<subseteq> insert (query, c) (askers asked)"
    by (auto simp: askers_def dest!: logged_cases split: sum.splits)
  have "traced (knowledge_key sha p) (from_log sha p asked') (snd ((s', asked'), k')) \<and>
    (\<forall>d. out = Inr d \<longrightarrow> from_log sha p asked' (knowledge_cache_key sha p query c) (JObj d))"
  proof (rule cached_call_traced [OF _ _ _ _ _ call])
    show "traced (knowledge_key sha p) (from_log sha p asked') (snd ((s, asked), k))"
      using traced_mono [OF traced logs(1)] by simp
    show "knowledge_key sha p (knowledge_cache_key sha p query c)"
      by (auto simp: knowledge_key_def)
    show "as_dict JNull = None" by (simp add: as_dict_def)
    show "v = JObj x" if "as_dict v = Some x" for v x
      using that by (cases v) (simp_all add: as_dict_def)
    show "from_log sha p asked' (knowledge_cache_key sha p query c) (JObj d) \<and> storable (JObj d)"
      if "logged connector query c (fst ((s, asked), k)) = (Inr d, fst ((s', asked'), k'))" for d
    proof -
      have "connector query c s = (Inr d, s')" "asked' = asked @ [(query, c, d)]"
        using logged_cases [of connector query c s asked "Inr d" s' asked'] that by simp_all
      moreover from this(1) have "storable (JObj d)" using storable unfolding all_answers_def by blast
      ultimately show ?thesis by (auto simp: from_log_def)
    qed
  qed
  with logs show ?thesis by simp
qed

lemma cached_answers:
  assumes "traced (knowledge_key sha p) (from_log sha p asked) k"
    and storable: "all_answers storable connector"
    and "ask_all (cached_knowledge_answer sha C p ttl (logged connector)) questions ((s, asked), k) =
      (answers, ((s', asked'), k'))"
  shows "traced (knowledge_key sha p) (from_log sha p asked') k' \<and>
    askers asked' \<subseteq> askers asked \<union> set questions"
  using assms(1,3)
proof (induction questions arbitrary: s asked k answers)
  case (Cons question questions)
  obtain query c where q: "question = (query, c)" by (rule prod.exhaust)
  obtain out s1 asked1 k1 where step:
    "cached_knowledge_answer sha C p ttl (logged connector) query c ((s, asked), k) = (out, ((s1, asked1), k1))"
    by (metis prod.exhaust)
  note first = cached_answer_step [OF Cons.prems(1) storable step]
  obtain answers1 where rest:
    "ask_all (cached_knowledge_answer sha C p ttl (logged connector)) questions ((s1, asked1), k1) =
      (answers1, ((s', asked'), k'))"
    using Cons.prems(2) step unfolding q by (auto split: prod.splits)
  from Cons.IH [OF _ rest] first show ?case unfolding q by auto
qed simp

end

text \<open>
  C13: The cache of answers never crosses a permission boundary: after any questions of any callers,
  whatever commands of Redis fail and whatever it forgets, an answer given to a question was given by the
  retrieval server to the same question (up to surrounding white space) asked by a caller of the same
  tenant with the same operator, the same employee (\<open>None\<close> and the empty string are one), the same roles
  and the same scopes; otherwise the two callers' key texts are a collision of SHA-256.
\<close>

theorem knowledge_cache_is_isolated:
  assumes "all_answers (redis_storable dumps loads) connector"
    and "\<And>query c. redis_live k (knowledge_cache_key sha key_prefix query c) = None"
    and "\<forall>(query, c) \<in> set questions. finite (rc_permission_scopes c)" "finite (rc_permission_scopes c)"
    and "ask_all (cached_knowledge_answer sha (redis_json_cache faults dumps loads) key_prefix ttl (logged connector))
      questions ((s, []), k) = (answers, s1)"
    and "cached_knowledge_answer sha (redis_json_cache faults dumps loads) key_prefix ttl (logged connector)
      query c s1 = (Inr d, ((s2, asked), k2))"
  shows "\<exists>query' c'. (query', c', d) \<in> set asked \<and> (query', c') \<in> set questions \<union> {(query, c)} \<and>
    (same_question query c query' c' \<or>
     knowledge_text query c \<noteq> knowledge_text query' c' \<and>
     sha (knowledge_text query c) = sha (knowledge_text query' c'))"
proof -
  obtain s' asked' k' where s1: "s1 = ((s', asked'), k')" by (metis prod.exhaust)
  have fresh: "redis.traced loads (knowledge_key sha key_prefix) (from_log sha key_prefix []) k"
    using assms(2) by (auto simp: redis.traced_def knowledge_key_def redis_view_def)
  note earlier = redis.cached_answers [OF fresh assms(1) assms(5) [unfolded s1]]
  note last = redis.cached_answer_step [OF conjunct1 [OF earlier] assms(1) assms(6) [unfolded s1]]
  from last obtain query' c' where entry: "(query', c', d) \<in> set asked"
    and key: "knowledge_cache_key sha key_prefix query c = knowledge_cache_key sha key_prefix query' c'"
    by (auto simp: from_log_def)
  have who: "askers asked \<subseteq> set questions \<union> {(query, c)}"
    using earlier last askers_Nil by blast
  with entry have member: "(query', c') \<in> set questions \<union> {(query, c)}"
    by (force simp: askers_def)
  then have "finite (rc_permission_scopes c')" using assms(3,4) by auto
  with key assms(4) knowledge_text_inj [of query c query' c'] entry member show ?thesis
    by (auto simp: knowledge_cache_key_def scoped_cache_key_def knowledge_text_def)
qed

text \<open>The second of two questions is answered from the cache.\<close>

definition demo_answer :: jdict where
  "demo_answer = [(U ''answer'', JStr (U ''yes'')), (U ''citations'', JList [JNull])]"

definition demo_connector :: "nat knowledge_connector" where
  "demo_connector query c n = (Inr demo_answer, n + 1)"

definition demo_answer_loads :: "ustr \<Rightarrow> json option" where
  "demo_answer_loads t = (if t = U ''json'' then Some (JObj demo_answer) else None)"

definition demo_answer_dumps :: "json \<Rightarrow> ustr option" where
  "demo_answer_dumps v = (case v of JObj d \<Rightarrow> Some (U ''json'') | _ \<Rightarrow> None)"

definition demo_redis :: redis where
  "demo_redis = \<lparr>rs_data = [], rs_now = 0, rs_calls = 0\<rparr>"

definition demo_asks :: "((nat \<times> question_log) \<times> redis) knowledge_connector" where
  "demo_asks = cached_knowledge_answer id (redis_json_cache (\<lambda>_ _. False) demo_answer_dumps demo_answer_loads) (U ''p'') 60
     (logged demo_connector)"

lemma demo_question_strip: "strip (U '' leave '') = strip (U ''leave'')"
  by (simp add: strip_def lstrip_def rstrip_def is_space_def U_def)

lemma demo_key:
  "knowledge_cache_key id (U ''p'') (U '' leave '') demo_asker =
   knowledge_cache_key id (U ''p'') (U ''leave'') demo_asker"
  unfolding knowledge_cache_key_def knowledge_parts_def demo_question_strip ..

lemmas demo_asks_simps = demo_asks_def cached_knowledge_answer_def cached_call_def redis_json_cache_def
  redis_get_def redis_set_def redis_live_def as_dict_def logged_def demo_connector_def demo_answer_dumps_def
  demo_answer_loads_def demo_redis_def demo_key seconds_def

lemma demo_cited: "has_citations demo_answer"
  by (simp add: has_citations_def demo_answer_def)

theorem knowledge_cache_is_isolated_witness:
  "\<exists>query' c'. (query', c', demo_answer) \<in> {(U ''leave'', demo_asker, demo_answer)} \<and>
    same_question (U '' leave '') demo_asker query' c'"
proof -
  define k1 where "k1 = \<lparr>rs_data = [(knowledge_cache_key id (U ''p'') (U ''leave'') demo_asker,
    (U ''json'', 60000000))], rs_now = 0, rs_calls = 2\<rparr>"
  have first: "ask_all demo_asks [(U ''leave'', demo_asker)] ((0, []), demo_redis) =
      ([Inr demo_answer], ((1, [(U ''leave'', demo_asker, demo_answer)]), k1))"
    unfolding k1_def by (simp add: demo_asks_simps demo_cited)
  have second: "demo_asks (U '' leave '') demo_asker ((1, [(U ''leave'', demo_asker, demo_answer)]), k1) =
      (Inr demo_answer, ((1, [(U ''leave'', demo_asker, demo_answer)]), k1\<lparr>rs_calls := 3\<rparr>))"
    unfolding k1_def by (simp add: demo_asks_simps)
  have storable: "all_answers (redis_storable demo_answer_dumps demo_answer_loads) demo_connector"
    by (simp add: all_answers_def redis_storable_def demo_answer_dumps_def demo_answer_loads_def demo_connector_def)
  have empty: "redis_live demo_redis (knowledge_cache_key id (U ''p'') q c) = None" for q c
    by (simp add: redis_live_def demo_redis_def)
  have "rc_permission_scopes demo_asker = {}" by (simp add: demo_asker_def RequestContext_def)
  with knowledge_cache_is_isolated [OF storable empty _ _ first [unfolded demo_asks_def]
      second [unfolded demo_asks_def]]
  show ?thesis by auto
qed

end
