(* ===== verification/Dates.thy ===== *)
theory Dates
  imports Py_Text "HOL-Library.Product_Lexorder"
begin

text \<open>
  \<open>datetime.date\<close> as the application uses it: \<open>date.fromisoformat(s)\<close>, \<open>d + timedelta(days=n)\<close> and
  \<open>d.isoformat()\<close>. A date is the triple of its year, month and day, ordered as dates are. Meetings and
  activities are selected by comparing ISO texts, which is right exactly as far as the texts have the
  extended form.
\<close>

section \<open>Days\<close>

type_synonym day = "nat \<times> nat \<times> nat"

definition leap :: "nat \<Rightarrow> bool" where
  "leap y \<longleftrightarrow> y mod 4 = 0 \<and> (y mod 100 \<noteq> 0 \<or> y mod 400 = 0)"

definition month_days :: "nat \<Rightarrow> nat \<Rightarrow> nat" where
  "month_days y m =
     (if m = 2 then if leap y then 29 else 28 else if m \<in> {4, 6, 9, 11} then 30 else 31)"

definition proper_day :: "day \<Rightarrow> bool" where
  "proper_day d = (case d of (y, m, n) \<Rightarrow> 1 \<le> m \<and> m \<le> 12 \<and> 1 \<le> n \<and> n \<le> month_days y m)"

definition valid_day :: "day \<Rightarrow> bool" where
  "valid_day d \<longleftrightarrow> 1 \<le> fst d \<and> fst d \<le> 9999 \<and> proper_day d"

definition next_day :: "day \<Rightarrow> day" where
  "next_day d =
     (case d of (y, m, n) \<Rightarrow>
        if n < month_days y m then (y, m, n + 1) else if m < 12 then (y, m + 1, 1) else (y + 1, 1, 1))"

text \<open>\<open>d + timedelta(days=n)\<close>: the result must be at most 9999-12-31.\<close>

definition add_days :: "nat \<Rightarrow> day \<Rightarrow> day res" where
  "add_days n d =
     (let e = (next_day ^^ n) d in
      if fst e \<le> 9999 then Inr e else Inl (Exn OverflowErr (U ''date value out of range'')))"

section \<open>ISO texts\<close>

definition two :: "nat \<Rightarrow> ustr" where
  "two n = [48 + n div 10, 48 + n mod 10]"

definition isoformat :: "day \<Rightarrow> ustr" where
  "isoformat d = (case d of (y, m, n) \<Rightarrow> two (y div 100) @ two (y mod 100) @ [45] @ two m @ [45] @ two n)"

definition digits :: "ustr \<Rightarrow> nat option" where
  "digits s = (if list_all is_digit s then Some (undec s) else None)"

definition calendar_day :: "ustr \<Rightarrow> ustr \<Rightarrow> ustr \<Rightarrow> day option" where
  "calendar_day ys ms ns =
     (case (digits ys, digits ms, digits ns) of
        (Some y, Some m, Some n) \<Rightarrow> if valid_day (y, m, n) then Some (y, m, n) else None
      | _ \<Rightarrow> None)"

text \<open>The weekday of January 1st, Monday being 0, and the day of an ISO week.\<close>

definition new_year_weekday :: "nat \<Rightarrow> nat" where
  "new_year_weekday y =
     ((y - 1) * 365 + (y - 1) div 4 - (y - 1) div 100 + (y - 1) div 400 + 7) mod 7"

definition week_day :: "ustr \<Rightarrow> ustr \<Rightarrow> ustr \<Rightarrow> day option" where
  "week_day ys ws ds =
     (case (digits ys, digits ws, digits ds) of
        (Some y, Some w, Some d) \<Rightarrow>
          let first = new_year_weekday y;
              shift = (if first \<le> 3 then - int first else 7 - int first) + 7 * (int w - 1) + int d - 1;
              e = (if shift < 0 then (y - 1, 12, nat (32 + shift)) else (next_day ^^ nat shift) (y, 1, 1))
          in if 1 \<le> y \<and> y \<le> 9999 \<and> 1 \<le> w \<and> (w \<le> 52 \<or> w = 53 \<and> (first = 3 \<or> first = 2 \<and> leap y)) \<and>
                1 \<le> d \<and> d \<le> 7 \<and> valid_day e
             then Some e else None
      | _ \<Rightarrow> None)"

text \<open>\<open>date.fromisoformat(s)\<close>, \<open>None\<close> when it raises \<open>ValueError\<close>.\<close>

definition fromisoformat :: "ustr \<Rightarrow> day option" where
  "fromisoformat s =
     (let dash = (5 \<le> length s \<and> s ! 4 = 45); week = (6 \<le> length s \<and> s ! (if dash then 5 else 4) = 87) in
      if length s = 10 \<and> dash \<and> \<not> week \<and> s ! 7 = 45
      then calendar_day (take 4 s) (take 2 (drop 5 s)) (drop 8 s)
      else if length s = 8 \<and> \<not> dash \<and> \<not> week
      then calendar_day (take 4 s) (take 2 (drop 4 s)) (drop 6 s)
      else if length s = 10 \<and> dash \<and> week \<and> s ! 8 = 45
      then week_day (take 4 s) (take 2 (drop 6 s)) (drop 9 s)
      else if length s = 8 \<and> dash \<and> week then week_day (take 4 s) (drop 6 s) [49]
      else if length s = 8 \<and> \<not> dash \<and> week then week_day (take 4 s) (take 2 (drop 5 s)) (drop 7 s)
      else if length s = 7 \<and> \<not> dash \<and> week then week_day (take 4 s) (drop 5 s) [49]
      else None)"

text \<open>\<open>(date.fromisoformat(s) + timedelta(days=n)).isoformat()\<close>\<close>

definition iso_after :: "nat \<Rightarrow> ustr \<Rightarrow> ustr res" where
  "iso_after n s =
     (case fromisoformat s of
        None \<Rightarrow> Inl (Exn ValueErr (U ''Invalid isoformat string''))
      | Some d \<Rightarrow> map_sum id isoformat (add_days n d))"

section \<open>Days in order\<close>

lemma month_days_bounds: "28 \<le> month_days y m" "month_days y m \<le> 31"
  by (simp_all add: month_days_def)

lemma month_days_pos: "Suc 0 \<le> month_days y m"
  by (simp add: month_days_def)

lemma next_day_proper: "proper_day d \<Longrightarrow> proper_day (next_day d)"
  by (cases d) (auto simp: proper_day_def next_day_def month_days_pos)

lemma next_day_less: "proper_day d \<Longrightarrow> d < next_day d"
  by (auto simp: proper_day_def next_day_def split: prod.splits)

text \<open>No proper day lies between a day and the next.\<close>

lemma next_day_least:
  assumes "proper_day d" "proper_day e"
  shows "d < e \<longleftrightarrow> next_day d \<le> e"
proof -
  obtain y m n where d: "d = (y, m, n)" by (metis prod.exhaust)
  obtain y' m' n' where e: "e = (y', m', n')" by (metis prod.exhaust)
  have b: "1 \<le> m" "m \<le> 12" "1 \<le> n" "n \<le> month_days y m" "1 \<le> m'" "m' \<le> 12" "1 \<le> n'" "n' \<le> month_days y' m'"
    using assms by (simp_all add: d e proper_day_def)
  consider "n < month_days y m" | "n = month_days y m" "m < 12" | "n = month_days y m" "m = 12"
    using b by linarith
  then show ?thesis
  proof cases
    case 1
    then show ?thesis by (auto simp: d e next_day_def)
  next
    case 2
    then show ?thesis using b by (cases "y = y' \<and> m = m'") (auto simp: d e next_day_def)
  next
    case 3
    then show ?thesis using b by (cases "y = y' \<and> m = m'") (auto simp: d e next_day_def)
  qed
qed

lemma add_days_proper: "proper_day d \<Longrightarrow> proper_day ((next_day ^^ n) d)"
  by (induction n) (simp_all add: next_day_proper)

lemma add_days_mono: "proper_day d \<Longrightarrow> d \<le> (next_day ^^ n) d"
proof (induction n)
  case (Suc n)
  then have "d \<le> (next_day ^^ n) d" by simp
  also have "\<dots> < next_day ((next_day ^^ n) d)" by (rule next_day_less [OF add_days_proper [OF Suc.prems]])
  finally show ?case by simp
qed simp

text \<open>The days from one day to the \<open>n\<close>-th after it.\<close>

lemma days_between:
  assumes "proper_day d" "proper_day e"
  shows "d \<le> e \<and> e \<le> (next_day ^^ n) d \<longleftrightarrow> (\<exists>i \<le> n. e = (next_day ^^ i) d)"
proof (induction n)
  case 0
  then show ?case by auto
next
  case (Suc n)
  let ?d = "(next_day ^^ n) d"
  have p: "proper_day ?d" by (rule add_days_proper [OF assms(1)])
  have "e \<le> next_day ?d \<longleftrightarrow> e \<le> ?d \<or> e = next_day ?d"
  proof
    assume le: "e \<le> next_day ?d"
    show "e \<le> ?d \<or> e = next_day ?d"
    proof (cases "e \<le> ?d")
      case False
      then have "next_day ?d \<le> e" using next_day_least [OF p assms(2)] by (simp add: not_le)
      with le show ?thesis by (simp add: order_antisym)
    qed simp
  next
    assume "e \<le> ?d \<or> e = next_day ?d"
    then show "e \<le> next_day ?d" using next_day_less [OF p] by (auto intro: order.trans less_imp_le)
  qed
  moreover have "d \<le> next_day ?d" using add_days_mono [OF assms(1), of "Suc n"] by simp
  ultimately show ?case using Suc by (auto simp: le_Suc_eq)
qed

section \<open>Texts in order\<close>

lemma digits_Cons:
  assumes "a < 10" "b < 10"
  shows "digits [48 + a, 48 + b] = Some (10 * a + b)"
  using assms by (simp add: digits_def is_digit_def undec_def)

lemma two_digits: "n < 100 \<Longrightarrow> digits (two n) = Some n"
  by (simp add: two_def digits_Cons less_mult_imp_div_less)

lemma two_two_digits: "y < 10000 \<Longrightarrow> digits (two (y div 100) @ two (y mod 100)) = Some y"
proof -
  assume "y < 10000"
  then have "y div 100 < 100" by simp
  then show ?thesis
    by (auto simp: two_def digits_def is_digit_def undec_def less_mult_imp_div_less)
qed

lemma valid_day_bounds:
  assumes "valid_day (y, m, n)"
  shows "y < 10000" "m < 100" "n < 100"
  using assms month_days_bounds(2) [of y m] by (auto simp: valid_day_def proper_day_def)

lemma fromisoformat_isoformat:
  assumes "valid_day d"
  shows "fromisoformat (isoformat d) = Some d"
proof -
  obtain y m n where d: "d = (y, m, n)" by (metis prod.exhaust)
  note b = valid_day_bounds [OF assms [unfolded d]]
  have m: "m \<le> 12" using assms by (simp add: d valid_day_def proper_day_def)
  then have "two m ! 0 \<noteq> 87" by (auto simp: two_def)
  then show ?thesis using assms b two_two_digits [OF b(1)] two_digits [OF b(2)] two_digits [OF b(3)]
    unfolding fromisoformat_def isoformat_def d by (simp add: two_def) (simp add: calendar_day_def)
qed

text \<open>Texts of equal length compare as the numbers they denote.\<close>

lemma less_div_mod:
  fixes a b k :: nat
  assumes "0 < k"
  shows "a < b \<longleftrightarrow> a div k < b div k \<or> a div k = b div k \<and> a mod k < b mod k"
proof (cases "a div k = b div k")
  case True
  have "a = k * (a div k) + a mod k" "b = k * (b div k) + b mod k" by simp_all
  with True have "a < b \<longleftrightarrow> a mod k < b mod k" by (metis add_less_cancel_left)
  with True show ?thesis by simp
next
  case False
  have "a < b" if "a div k < b div k"
    using that div_le_mono [of b a k] by (meson not_le)
  moreover have "b < a" if "b div k < a div k"
    using that div_le_mono [of a b k] by (meson not_le)
  ultimately show ?thesis using False by (metis nat_neq_iff order_less_asym)
qed

lemma eq_div_mod: "a = b \<longleftrightarrow> a div k = b div k \<and> a mod k = b mod k" for a b k :: nat
  by (metis mult_div_mod_eq)

lemma two_le: "two a @ s \<le> two b @ t \<longleftrightarrow> a < b \<or> a = b \<and> s \<le> t"
  unfolding two_def less_div_mod [of 10 a b, simplified] eq_div_mod [of a b 10] by auto

lemma isoformat_le: "isoformat d \<le> isoformat e \<longleftrightarrow> d \<le> e"
proof -
  obtain y m n where d: "d = (y, m, n)" by (metis prod.exhaust)
  obtain y' m' n' where e: "e = (y', m', n')" by (metis prod.exhaust)
  have last: "two n \<le> two n' \<longleftrightarrow> n \<le> n'" using two_le [of n "[]" n' "[]"] by auto
  have "isoformat d \<le> isoformat e \<longleftrightarrow> y div 100 < y' div 100 \<or> y div 100 = y' div 100 \<and>
      (y mod 100 < y' mod 100 \<or> y mod 100 = y' mod 100 \<and> (m < m' \<or> m = m' \<and> n \<le> n'))"
    by (simp add: d e isoformat_def two_le last)
  also have "\<dots> \<longleftrightarrow> y < y' \<or> y = y' \<and> (m < m' \<or> m = m' \<and> n \<le> n')"
    using less_div_mod [of 100 y y'] eq_div_mod [of y y' 100] by auto
  also have "\<dots> \<longleftrightarrow> d \<le> e" by (auto simp: d e)
  finally show ?thesis .
qed

end
