(* ===== verification/Idempotency.thy ===== *)
theory Idempotency
  imports Identity
begin

text \<open>
  Idempotent operations: \<open>IdempotencyService\<close> with its in-process repository
  (\<open>app/services/idempotency.py\<close>) and \<open>SqlAlchemyIdempotencyRepository\<close> over the table
  \<open>idempotency_records\<close> (\<open>app/repositories/runtime.py\<close>), whose unique constraint decides races.

  The locale \<open>idem_store\<close> is what reports and meetings rely on: the first result remembered for a
  tenant, an operation and a key is the one every later caller is given.
\<close>

section \<open>Repositories\<close>

type_synonym idem_key = "ustr \<times> ustr \<times> ustr"

record 's idem_repo =
  iq_get :: "ustr \<Rightarrow> ustr \<Rightarrow> request_context \<Rightarrow> 's \<Rightarrow> jdict option res \<times> 's"
  iq_save :: "ustr \<Rightarrow> ustr \<Rightarrow> jdict \<Rightarrow> request_context \<Rightarrow> 's \<Rightarrow> jdict res \<times> 's"

type_synonym mem_idem = "(idem_key \<times> jdict) list"

definition mem_idem_get ::
  "ustr \<Rightarrow> ustr \<Rightarrow> request_context \<Rightarrow> mem_idem \<Rightarrow> jdict option res \<times> mem_idem" where
  "mem_idem_get operation key c s = (Inr (map_of s (rc_tenant_id c, operation, key)), s)"

definition mem_idem_save ::
  "ustr \<Rightarrow> ustr \<Rightarrow> jdict \<Rightarrow> request_context \<Rightarrow> mem_idem \<Rightarrow> jdict res \<times> mem_idem" where
  "mem_idem_save operation key result c s =
     (let scope = (rc_tenant_id c, operation, key) in
      case map_of s scope of
        Some existing \<Rightarrow> (Inr existing, s)
      | None \<Rightarrow> (Inr result, AList.update scope result s))"

definition mem_idem_repo :: "mem_idem idem_repo" where
  "mem_idem_repo = \<lparr>iq_get = mem_idem_get, iq_save = mem_idem_save\<rparr>"

text \<open>The columns of the table; the identifier column is drawn by \<open>uuid4\<close> and never read.\<close>

datatype idem_status = Completed

record idem_row =
  ir_tenant_id :: ustr
  ir_created_by :: ustr
  ir_operation :: ustr
  ir_key :: ustr
  ir_status :: idem_status
  ir_result :: "jdict option"

definition ir_scope :: "idem_row \<Rightarrow> idem_key" where
  "ir_scope r = (ir_tenant_id r, ir_operation r, ir_key r)"

definition sql_idem_get ::
  "ustr \<Rightarrow> ustr \<Rightarrow> request_context \<Rightarrow> idem_row list \<Rightarrow> jdict option res \<times> idem_row list" where
  "sql_idem_get operation key c rows =
     (case scalar_one_or_none
            (filter (\<lambda>r. ir_scope r = (rc_tenant_id c, operation, key) \<and> ir_status r = Completed) rows) of
        Inl e \<Rightarrow> (Inl e, rows)
      | Inr None \<Rightarrow> (Inr None, rows)
      | Inr (Some record) \<Rightarrow> (Inr (ir_result record), rows))"

text \<open>
  The insertion fails on a row with the same scope (\<open>uq_idempotency_scope\<close>); then the transaction is
  rolled back and the stored result is read instead.
\<close>

definition sql_idem_save ::
  "ustr \<Rightarrow> ustr \<Rightarrow> jdict \<Rightarrow> request_context \<Rightarrow> idem_row list \<Rightarrow> jdict res \<times> idem_row list" where
  "sql_idem_save operation key result c rows =
     (if (rc_tenant_id c, operation, key) \<notin> ir_scope ` set rows then
        (Inr result, rows @
          [\<lparr>ir_tenant_id = rc_tenant_id c, ir_created_by = rc_operator_id c, ir_operation = operation,
            ir_key = key, ir_status = Completed, ir_result = Some result\<rparr>])
      else
        bnd (sql_idem_get operation key c rows)
          (\<lambda>existing rows. case existing of
             None \<Rightarrow> (Inl (Exn RuntimeErr
                        (U ''idempotency record conflict without completed result'')), rows)
           | Some r \<Rightarrow> (Inr r, rows)))"

definition sql_idem_repo :: "idem_row list idem_repo" where
  "sql_idem_repo = \<lparr>iq_get = sql_idem_get, iq_save = sql_idem_save\<rparr>"

section \<open>The service\<close>

definition idem_get ::
  "'s idem_repo \<Rightarrow> ustr \<Rightarrow> ustr \<Rightarrow> request_context \<Rightarrow> 's \<Rightarrow> jdict option res \<times> 's" where
  "idem_get I operation key c s = iq_get I operation key c s"

definition remember ::
  "'s idem_repo \<Rightarrow> ustr \<Rightarrow> ustr \<Rightarrow> jdict \<Rightarrow> request_context \<Rightarrow> 's \<Rightarrow> jdict res \<times> 's" where
  "remember I operation key result c s = iq_save I operation key result c s"

section \<open>The contract\<close>

locale idem_store =
  fixes I :: "'s idem_repo"
    and memo :: "'s \<Rightarrow> idem_key \<Rightarrow> jdict option"
    and inv :: "'s \<Rightarrow> bool"
  assumes get: "inv s \<Longrightarrow> iq_get I p k c s = (Inr (memo s (rc_tenant_id c, p, k)), s)"
    and save_new: "inv s \<Longrightarrow> memo s (rc_tenant_id c, p, k) = None \<Longrightarrow>
      \<exists>s'. iq_save I p k r c s = (Inr r, s') \<and> inv s' \<and>
        memo s' = (memo s)((rc_tenant_id c, p, k) \<mapsto> r)"
    and save_known: "inv s \<Longrightarrow> memo s (rc_tenant_id c, p, k) = Some r0 \<Longrightarrow>
      iq_save I p k r c s = (Inr r0, s)"

text \<open>Callers that remember results, one after the other: operation, key, result, context.\<close>

type_synonym remember_call = "ustr \<times> ustr \<times> jdict \<times> request_context"

fun scope_of :: "remember_call \<Rightarrow> idem_key" where
  "scope_of (p, k, r, c) = (rc_tenant_id c, p, k)"

fun result_of :: "remember_call \<Rightarrow> jdict" where
  "result_of (p, k, r, c) = r"

fun remember_all :: "'s idem_repo \<Rightarrow> remember_call list \<Rightarrow> 's \<Rightarrow> jdict res list \<times> 's" where
  "remember_all I [] s = ([], s)"
| "remember_all I ((p, k, r, c) # xs) s =
     (case remember I p k r c s of
        (x, s) \<Rightarrow> (case remember_all I xs s of (ys, s) \<Rightarrow> (x # ys, s)))"

text \<open>The result of the first call with a scope.\<close>

definition first_result :: "remember_call list \<Rightarrow> idem_key \<Rightarrow> jdict option" where
  "first_result xs scope = map_option result_of (find (\<lambda>x. scope_of x = scope) xs)"

lemma first_result_simps [simp]:
  "first_result [] scope = None"
  "first_result (x # xs) scope = (if scope_of x = scope then Some (result_of x) else first_result xs scope)"
  by (simp_all add: first_result_def)

lemma first_result_mem: "x \<in> set xs \<Longrightarrow> \<exists>r. first_result xs (scope_of x) = Some r"
  by (induction xs) auto

context idem_store
begin

lemma remember_cases:
  assumes "inv s"
  shows "\<exists>s'. remember I p k r c s =
      (Inr (case memo s (rc_tenant_id c, p, k) of None \<Rightarrow> r | Some r0 \<Rightarrow> r0), s') \<and> inv s' \<and>
    memo s' = (case memo s (rc_tenant_id c, p, k) of
      None \<Rightarrow> (memo s)((rc_tenant_id c, p, k) \<mapsto> r) | Some r0 \<Rightarrow> memo s)"
  using save_new [OF assms, of c p k r] save_known [OF assms, of c p k _ r]
  by (cases "memo s (rc_tenant_id c, p, k)") (simp_all add: remember_def assms)

lemma remember_all_first:
  assumes "inv s"
  shows "\<exists>s'. remember_all I xs s =
      (map (\<lambda>x. Inr (case memo s (scope_of x) of
                       None \<Rightarrow> the (first_result xs (scope_of x)) | Some r0 \<Rightarrow> r0)) xs, s') \<and>
    inv s' \<and> (\<forall>k. memo s' k = (case memo s k of None \<Rightarrow> first_result xs k | Some r0 \<Rightarrow> Some r0))"
  using assms
proof (induction xs arbitrary: s)
  case Nil
  then show ?case by (auto split: option.split)
next
  case (Cons x xs)
  obtain p k r c where x: "x = (p, k, r, c)" by (metis prod.exhaust)
  from remember_cases [OF Cons.prems, of p k r c] obtain s1 where
    s1: "remember I p k r c s = (Inr (case memo s (rc_tenant_id c, p, k) of None \<Rightarrow> r | Some r0 \<Rightarrow> r0), s1)"
    "inv s1" "memo s1 = (case memo s (rc_tenant_id c, p, k) of
      None \<Rightarrow> (memo s)((rc_tenant_id c, p, k) \<mapsto> r) | Some r0 \<Rightarrow> memo s)"
    by blast
  from Cons.IH [OF s1(2)] obtain s' where
    s': "remember_all I xs s1 =
      (map (\<lambda>x. Inr (case memo s1 (scope_of x) of
                       None \<Rightarrow> the (first_result xs (scope_of x)) | Some r0 \<Rightarrow> r0)) xs, s')"
    "inv s'" "\<forall>k. memo s' k = (case memo s1 k of None \<Rightarrow> first_result xs k | Some r0 \<Rightarrow> Some r0)"
    by blast
  show ?case
    using s1(1) s' by (auto simp: x s1(3) split: option.split)
qed

end

section \<open>Both repositories meet it\<close>

interpretation mem_idem: idem_store mem_idem_repo map_of "\<lambda>_. True"
  by unfold_locales
     (auto simp: mem_idem_repo_def mem_idem_get_def mem_idem_save_def Let_def)

definition sql_memo :: "idem_row list \<Rightarrow> idem_key \<Rightarrow> jdict option" where
  "sql_memo rows k = (case find (\<lambda>r. ir_scope r = k) rows of None \<Rightarrow> None | Some r \<Rightarrow> ir_result r)"

definition sql_idem_wf :: "idem_row list \<Rightarrow> bool" where
  "sql_idem_wf rows \<longleftrightarrow> distinct (map ir_scope rows) \<and> (\<forall>r \<in> set rows. ir_result r \<noteq> None)"

lemma sql_idem_get_eq:
  assumes "sql_idem_wf rows"
  shows "sql_idem_get p k c rows = (Inr (sql_memo rows (rc_tenant_id c, p, k)), rows)"
proof -
  have c: "ir_status r = Completed" for r by (cases "ir_status r") simp
  have "scalar_one_or_none (filter (\<lambda>r. ir_scope r = (rc_tenant_id c, p, k)) rows) =
      Inr (find (\<lambda>r. ir_scope r = (rc_tenant_id c, p, k)) rows)"
    by (rule filter_scalar [where key = ir_scope and k = "(rc_tenant_id c, p, k)"])
       (use assms in \<open>simp_all add: sql_idem_wf_def\<close>)
  then show ?thesis by (simp add: sql_idem_get_def sql_memo_def c split: option.split)
qed

lemma sql_memo_None:
  assumes "sql_idem_wf rows"
  shows "sql_memo rows k = None \<longleftrightarrow> k \<notin> ir_scope ` set rows"
proof (cases "find (\<lambda>r. ir_scope r = k) rows")
  case None
  then have "k \<notin> ir_scope ` set rows" by (auto simp: find_None_iff)
  with None show ?thesis by (simp add: sql_memo_def)
next
  case (Some r)
  then have "r \<in> set rows" "ir_scope r = k" by (auto dest: find_SomeD)
  with Some assms show ?thesis by (auto simp: sql_memo_def sql_idem_wf_def)
qed

lemma sql_memo_append:
  assumes "ir_scope r \<notin> ir_scope ` set rows"
  shows "sql_memo (rows @ [r]) = (sql_memo rows)(ir_scope r := ir_result r)"
proof
  fix k
  have find: "find P (xs @ [x]) = (case find P xs of None \<Rightarrow> if P x then Some x else None | Some y \<Rightarrow> Some y)"
    for P and xs :: "idem_row list" and x by (induction xs) auto
  have "find (\<lambda>x. ir_scope x = ir_scope r) rows = None"
    unfolding find_None_iff using assms by (metis imageI)
  then show "sql_memo (rows @ [r]) k = ((sql_memo rows)(ir_scope r := ir_result r)) k"
    by (cases "k = ir_scope r") (auto simp: sql_memo_def find split: option.split)
qed

interpretation sql_idem: idem_store sql_idem_repo sql_memo sql_idem_wf
proof (unfold_locales, goal_cases)
  case (1 s p k c)
  then show ?case by (simp add: sql_idem_repo_def sql_idem_get_eq)
next
  case (2 s c p k r)
  let ?row = "\<lparr>ir_tenant_id = rc_tenant_id c, ir_created_by = rc_operator_id c, ir_operation = p,
     ir_key = k, ir_status = Completed, ir_result = Some r\<rparr>"
  have scope: "ir_scope ?row = (rc_tenant_id c, p, k)" by (simp add: ir_scope_def)
  have new: "(rc_tenant_id c, p, k) \<notin> ir_scope ` set s" using 2 by (simp add: sql_memo_None)
  then have "iq_save sql_idem_repo p k r c s = (Inr r, s @ [?row])"
    by (simp add: sql_idem_repo_def sql_idem_save_def)
  moreover have "sql_idem_wf (s @ [?row])" using 2(1) new scope by (simp add: sql_idem_wf_def)
  moreover have "sql_memo (s @ [?row]) = (sql_memo s)((rc_tenant_id c, p, k) \<mapsto> r)"
    using sql_memo_append [of ?row s] new scope by simp
  ultimately show ?case by blast
next
  case (3 s c p k r0 r)
  then have "(rc_tenant_id c, p, k) \<in> ir_scope ` set s" using sql_memo_None [OF 3(1)] by force
  with 3 show ?case by (simp add: sql_idem_repo_def sql_idem_save_def sql_idem_get_eq)
qed

section \<open>Properties\<close>

text \<open>
  In the database, every caller that remembers a result for a tenant, operation and key is given the
  result of the first of them, whatever the others computed, and this is also what later lookups return;
  other tenants, operations and keys are not affected.
\<close>

theorem sql_first_result_wins:
  "\<exists>rows. remember_all sql_idem_repo xs [] =
      (map (\<lambda>x. Inr (the (first_result xs (scope_of x)))) xs, rows) \<and>
    (\<forall>p k c. idem_get sql_idem_repo p k c rows = (Inr (first_result xs (rc_tenant_id c, p, k)), rows))"
proof -
  have empty: "sql_idem_wf []" "sql_memo [] k = None" for k
    by (simp_all add: sql_idem_wf_def sql_memo_def)
  from sql_idem.remember_all_first [OF empty(1), of xs] obtain rows where
    "remember_all sql_idem_repo xs [] = (map (\<lambda>x. Inr (the (first_result xs (scope_of x)))) xs, rows)"
    "sql_idem_wf rows" "\<forall>k. sql_memo rows k = first_result xs k"
    by (auto simp: empty(2))
  then show ?thesis
    using sql_idem.get by (intro exI [of _ rows]) (simp add: idem_get_def)
qed

end
