(* ===== verification/Sensitive_Data.thy ===== *)
theory Sensitive_Data
  imports Py_Text
begin

text \<open>
  \<open>SensitiveDataService\<close> (\<open>app/services/sensitive_data.py\<close>): the three regular expressions and the
  guard that reports and minutes pass before they leave the system.

  A pattern is a test at a position, given the character before it (\<open>None\<close> at the start) and the text
  after it; \<open>search\<close> tries every position. Which characters Unicode counts as word characters
  (\<open>\w\<close>) and as decimal digits (\<open>\d\<close>) is a parameter.
\<close>

record unicode =
  un_word :: "nat \<Rightarrow> bool"
  un_decimal :: "nat \<Rightarrow> bool"

text \<open>What the proofs use of it: digits are word characters, and so are the ASCII letters and digits.\<close>

definition unicode_ok :: "unicode \<Rightarrow> bool" where
  "unicode_ok u \<longleftrightarrow>
     (\<forall>c. un_decimal u c \<longrightarrow> un_word u c) \<and> (\<forall>c. is_digit c \<longrightarrow> un_decimal u c) \<and>
     (\<forall>c. 65 \<le> c \<and> c \<le> 90 \<or> 97 \<le> c \<and> c \<le> 122 \<longrightarrow> un_word u c)"

section \<open>Regular expressions\<close>

fun search :: "(nat option \<Rightarrow> ustr \<Rightarrow> bool) \<Rightarrow> nat option \<Rightarrow> ustr \<Rightarrow> bool" where
  "search m prev [] \<longleftrightarrow> m prev []"
| "search m prev (c # cs) \<longleftrightarrow> m prev (c # cs) \<or> search m (Some c) cs"

text \<open>\<open>\b\<close>\<close>

definition word_opt :: "unicode \<Rightarrow> nat option \<Rightarrow> bool" where
  "word_opt u c = (case c of None \<Rightarrow> False | Some x \<Rightarrow> un_word u x)"

definition head :: "ustr \<Rightarrow> nat option" where
  "head s = (case s of [] \<Rightarrow> None | c # _ \<Rightarrow> Some c)"

definition last_or :: "nat option \<Rightarrow> ustr \<Rightarrow> nat option" where
  "last_or prev s = (if s = [] then prev else Some (last s))"

definition boundary :: "unicode \<Rightarrow> nat option \<Rightarrow> ustr \<Rightarrow> bool" where
  "boundary u prev s \<longleftrightarrow> word_opt u prev \<noteq> word_opt u (head s)"

text \<open>
  A token of fixed length \<open>n\<close> between two word boundaries, such as \<open>\b1[3-9]\d{9}\b\<close>; \<open>shape\<close> tests
  its characters.
\<close>

definition fixed_token :: "unicode \<Rightarrow> nat \<Rightarrow> (ustr \<Rightarrow> bool) \<Rightarrow> nat option \<Rightarrow> ustr \<Rightarrow> bool" where
  "fixed_token u n shape prev s \<longleftrightarrow>
     boundary u prev s \<and> n \<le> length s \<and> shape (take n s) \<and>
     boundary u (last_or prev (take n s)) (drop n s)"

definition phone_shape :: "unicode \<Rightarrow> ustr \<Rightarrow> bool" where
  "phone_shape u t \<longleftrightarrow>
     length t = 11 \<and> t ! 0 = 49 \<and> 51 \<le> t ! 1 \<and> t ! 1 \<le> 57 \<and> list_all (un_decimal u) (drop 2 t)"

definition national_id_shape :: "unicode \<Rightarrow> ustr \<Rightarrow> bool" where
  "national_id_shape u t \<longleftrightarrow>
     length t = 18 \<and> list_all (un_decimal u) (take 17 t) \<and>
     (un_decimal u (t ! 17) \<or> t ! 17 = 88 \<or> t ! 17 = 120)"

text \<open>
  \<open>(?i)\b(password|passwd|token|api[_ -]?key)\s*[:=]\s*\S+\<close>. Ignoring case, an ASCII letter also matches
  its capital, \<open>s\<close> the long s (U+017F), \<open>k\<close> the Kelvin sign (U+212A) and \<open>i\<close> the dotted capital and
  the dotless small I (U+0130, U+0131). The repetitions are greedy, but the class after the first one
  has no white space and the second is followed by one character that is not, so skipping all white
  space is the only choice that can succeed.
\<close>

definition same_letter :: "nat \<Rightarrow> nat \<Rightarrow> bool" where
  "same_letter p c \<longleftrightarrow>
     c = p \<or> (97 \<le> p \<and> p \<le> 122 \<and> c = p - 32) \<or>
     (p = 115 \<and> c = 383) \<or> (p = 107 \<and> c = 8490) \<or> (p = 105 \<and> (c = 304 \<or> c = 305))"

text \<open>The rest of the text after a word, ignoring case.\<close>

fun after :: "ustr \<Rightarrow> ustr \<Rightarrow> ustr option" where
  "after [] s = Some s"
| "after (p # ps) [] = None"
| "after (p # ps) (c # cs) = (if same_letter p c then after ps cs else None)"

definition assignment :: "ustr \<Rightarrow> bool" where
  "assignment s =
     (case lstrip s of
        [] \<Rightarrow> False
      | c # cs \<Rightarrow> (c = 58 \<or> c = 61) \<and> lstrip cs \<noteq> [])"

definition credential_words :: "ustr list" where
  "credential_words =
     [U ''password'', U ''passwd'', U ''token'',
      U ''api_key'', U ''api key'', U ''api-key'', U ''apikey'']"

definition credential_at :: "unicode \<Rightarrow> nat option \<Rightarrow> ustr \<Rightarrow> bool" where
  "credential_at u prev s \<longleftrightarrow>
     boundary u prev s \<and>
     list_ex (\<lambda>w. case after w s of None \<Rightarrow> False | Some r \<Rightarrow> assignment r) credential_words"

section \<open>The service\<close>

definition findings :: "unicode \<Rightarrow> ustr \<Rightarrow> ustr list" where
  "findings u text =
     map fst (filter (\<lambda>(label, pattern). search pattern None text)
       [(U ''credential'', credential_at u),
        (U ''national_id'', fixed_token u 18 (national_id_shape u)),
        (U ''phone'', fixed_token u 11 (phone_shape u))])"

definition require_shareable :: "unicode \<Rightarrow> ustr \<Rightarrow> unit res" where
  "require_shareable u text =
     (if findings u text \<noteq> []
      then Inl (Exn SensitiveDataErr
             (U ''external sharing blocked by sensitive-data policy: '' @ join (U '', '') (findings u text)))
      else Inr ())"

lemma require_shareable_Inr [simp]: "require_shareable u text = Inr x \<longleftrightarrow> findings u text = []"
  by (cases x) (simp add: require_shareable_def)

section \<open>What the patterns find\<close>

lemma ex_list: "(\<exists>xs. P xs) \<longleftrightarrow> P [] \<or> (\<exists>x xs. P (x # xs))"
  by (metis list.exhaust)

lemma last_or_Nil: "last_or prev [] = prev"
  by (simp add: last_or_def)

lemma search_iff:
  "search m prev s \<longleftrightarrow> (\<exists>pre post. s = pre @ post \<and> m (last_or prev pre) post)"
proof (induction s arbitrary: prev)
  case Nil
  then show ?case by (simp add: last_or_def)
next
  case (Cons c cs)
  have "(\<exists>pre post. c # cs = pre @ post \<and> m (last_or prev pre) post) \<longleftrightarrow>
      m prev (c # cs) \<or> (\<exists>pre post. cs = pre @ post \<and> m (last_or prev (c # pre)) post)"
    unfolding ex_list [where P = "\<lambda>pre. \<exists>post. c # cs = pre @ post \<and> m (last_or prev pre) post"]
    by (simp add: last_or_Nil)
  moreover have "last_or prev (c # pre) = last_or (Some c) pre" for pre
    by (simp add: last_or_def)
  ultimately show ?case using Cons.IH by simp
qed

text \<open>A token of word characters is found exactly when no word character adjoins it.\<close>

lemma search_fixed_token:
  assumes "\<And>t. shape t \<Longrightarrow> length t = n \<and> list_all (un_word u) t" "0 < n"
  shows "search (fixed_token u n shape) None s \<longleftrightarrow>
    (\<exists>pre t post. s = pre @ t @ post \<and> shape t \<and>
       \<not> word_opt u (last_or None pre) \<and> \<not> word_opt u (head post))"
    (is "?l = ?r")
proof
  assume ?l
  then obtain pre rest where 1: "s = pre @ rest" "fixed_token u n shape (last_or None pre) rest"
    by (auto simp: search_iff)
  let ?t = "take n rest"
  have t: "shape ?t" "length ?t = n" "list_all (un_word u) ?t" "n \<le> length rest"
    using 1(2) assms(1) by (auto simp: fixed_token_def)
  then obtain c cs where c: "?t = c # cs" using assms(2) by (cases ?t) auto
  then have "head rest = Some c" by (cases rest) (auto simp: head_def take_Cons split: nat.splits)
  then have "word_opt u (head rest)" using t(3) c by (simp add: word_opt_def)
  moreover have "word_opt u (last_or (last_or None pre) ?t)"
    using t(3) c by (simp add: word_opt_def last_or_def list_all_iff)
  ultimately have "\<not> word_opt u (last_or None pre)" "\<not> word_opt u (head (drop n rest))"
    using 1(2) by (auto simp: fixed_token_def boundary_def)
  moreover have "s = pre @ ?t @ drop n rest" using 1(1) by simp
  ultimately show ?r using t(1) by blast
next
  assume ?r
  then obtain pre t post where 1: "s = pre @ t @ post" "shape t"
    "\<not> word_opt u (last_or None pre)" "\<not> word_opt u (head post)"
    by blast
  from assms(1) [OF 1(2)] have t: "length t = n" "list_all (un_word u) t" by simp_all
  then obtain c cs where c: "t = c # cs" using assms(2) by (cases t) auto
  have "word_opt u (head (t @ post))" "word_opt u (last_or (last_or None pre) t)"
    using t(2) by (simp_all add: word_opt_def head_def last_or_def c list_all_iff)
  then have "fixed_token u n shape (last_or None pre) (t @ post)"
    using 1(2-4) t(1) by (simp add: fixed_token_def boundary_def)
  then show ?l unfolding search_iff using 1(1) by blast
qed

lemma phone_shape_word:
  assumes "unicode_ok u" "phone_shape u t"
  shows "length t = 11 \<and> list_all (un_word u) t"
proof -
  have dec: "un_word u c" if "un_decimal u c \<or> is_digit c" for c
    using assms(1) that unfolding unicode_ok_def by blast
  obtain a b ts where t: "t = a # b # ts"
    using assms(2) by (cases t; cases "tl t") (auto simp: phone_shape_def)
  then have "t = t ! 0 # t ! 1 # drop 2 t" by simp
  moreover have "is_digit (t ! 0)" "is_digit (t ! 1)" "list_all (un_decimal u) (drop 2 t)"
    using assms(2) by (simp_all add: phone_shape_def is_digit_def)
  ultimately have "list_all (un_word u) t"
    using dec by (metis list.pred_inject(2) list.pred_mono_strong)
  with assms(2) show ?thesis by (simp add: phone_shape_def)
qed

lemma national_id_shape_word:
  assumes "unicode_ok u" "national_id_shape u t"
  shows "length t = 18 \<and> list_all (un_word u) t"
proof -
  have dec: "un_word u c" if "un_decimal u c \<or> c = 88 \<or> c = 120" for c
    using assms(1) that unfolding unicode_ok_def by force
  have t: "length t = 18" using assms(2) by (simp add: national_id_shape_def)
  have "take 17 t @ [t ! 17] = t"
    using t by (metis Suc_eq_plus1 eq_imp_le hd_drop_conv_nth id_take_nth_drop lessI numeral_plus_one
        take_Suc_conv_app_nth take_all semiring_norm(5) semiring_norm(8))
  moreover have "list_all (un_word u) (take 17 t)"
    using assms(2) dec by (metis (mono_tags, lifting) list.pred_mono_strong national_id_shape_def)
  moreover have "un_word u (t ! 17)"
    using assms(2) dec by (simp add: national_id_shape_def)
  ultimately have "list_all (un_word u) t" by (metis list.pred_inject list_all_append)
  with t show ?thesis by simp
qed

definition isolated :: "unicode \<Rightarrow> (ustr \<Rightarrow> bool) \<Rightarrow> ustr \<Rightarrow> bool" where
  "isolated u shape text \<longleftrightarrow>
     (\<exists>pre t post. text = pre @ t @ post \<and> shape t \<and>
        \<not> word_opt u (last_or None pre) \<and> \<not> word_opt u (head post))"

lemma findings_iff:
  assumes "unicode_ok u"
  shows "U ''phone'' \<in> set (findings u text) \<longleftrightarrow> isolated u (phone_shape u) text"
    and "U ''national_id'' \<in> set (findings u text) \<longleftrightarrow> isolated u (national_id_shape u) text"
  using search_fixed_token [of "phone_shape u" 11 u "text"] phone_shape_word [OF assms]
    search_fixed_token [of "national_id_shape u" 18 u "text"] national_id_shape_word [OF assms]
  by (simp_all add: findings_def isolated_def)

text \<open>ASCII, the letters of Latin-1 and the unified CJK ideographs, for the examples.\<close>

definition demo_unicode :: unicode where
  "demo_unicode =
     \<lparr>un_word = (\<lambda>c. is_digit c \<or> 65 \<le> c \<and> c \<le> 90 \<or> 97 \<le> c \<and> c \<le> 122 \<or> c = 95 \<or>
        192 \<le> c \<and> c \<le> 591 \<or> 19968 \<le> c \<and> c \<le> 40959),
      un_decimal = is_digit\<rparr>"

lemma demo_unicode_ok: "unicode_ok demo_unicode"
  by (simp add: unicode_ok_def demo_unicode_def is_digit_def)

definition demo_phone :: ustr where
  "demo_phone = [49, 51, 56, 48, 48, 49, 51, 56, 48, 48, 48]"

lemma demo_phone_shape: "phone_shape demo_unicode demo_phone"
  by (simp add: phone_shape_def demo_phone_def demo_unicode_def is_digit_def)

text \<open>
  C37: Text passes the guard before it is shared only if no mobile number (\<open>1[3-9]\<close> and nine digits)
  and no national identity number (17 digits and a digit or X) stands in it with no word character
  before or after it.
\<close>

theorem shareable_has_no_isolated_numbers:
  assumes "unicode_ok u" "require_shareable u text = Inr ()"
  shows "\<not> isolated u (phone_shape u) text \<and> \<not> isolated u (national_id_shape u) text"
proof -
  have "findings u text = []" using assms(2) by simp
  with findings_iff [OF assms(1), of "text"] show ?thesis by simp
qed

theorem shareable_has_no_isolated_numbers_witness:
  "require_shareable demo_unicode (U ''ok'') = Inr () \<and>
   \<not> isolated demo_unicode (phone_shape demo_unicode) (U ''ok'')"
proof -
  have "require_shareable demo_unicode (U ''ok'') = Inr ()"
    by (simp add: findings_def credential_at_def credential_words_def fixed_token_def U_def same_letter_def
        boundary_def word_opt_def head_def)
  with shareable_has_no_isolated_numbers [OF demo_unicode_ok] show ?thesis by blast
qed

text \<open>
  A mobile number that directly follows a word character is not noticed. Chinese ideographs are word
  characters, so a number written after a Chinese label without a space passes the guard.
\<close>

theorem phone_after_letter_is_missed:
  assumes "unicode_ok u" "phone_shape u t" "un_word u c"
  shows "U ''phone'' \<notin> set (findings u (c # t))"
proof -
  have word: "list_all (un_word u) (c # t)"
    using phone_shape_word [OF assms(1,2)] assms(3) by simp
  have len: "length (c # t) = 12" using assms(2) by (simp add: phone_shape_def)
  have "\<not> isolated u (phone_shape u) (c # t)"
  proof
    assume "isolated u (phone_shape u) (c # t)"
    then obtain pre t' post where 1: "c # t = pre @ t' @ post" "phone_shape u t'"
      "\<not> word_opt u (last_or None pre)" "\<not> word_opt u (head post)"
      unfolding isolated_def by blast
    have all: "list_all (un_word u) pre" "list_all (un_word u) post"
      using word unfolding 1(1) by simp_all
    have "pre = []"
      using all(1) 1(3) by (cases pre rule: rev_cases) (simp_all add: last_or_def word_opt_def)
    moreover have "post = []"
      using all(2) 1(4) by (cases post) (simp_all add: head_def word_opt_def)
    ultimately show False using 1(1,2) len by (simp add: phone_shape_def)
  qed
  with findings_iff(1) [OF assms(1)] show ?thesis by simp
qed

theorem phone_after_letter_is_missed_witness:
  "U ''phone'' \<notin> set (findings demo_unicode (26426 # demo_phone)) \<and>
   U ''phone'' \<in> set (findings demo_unicode (32 # demo_phone))"
proof
  have "un_word demo_unicode 26426" by (simp add: demo_unicode_def)
  then show "U ''phone'' \<notin> set (findings demo_unicode (26426 # demo_phone))"
    by (rule phone_after_letter_is_missed [OF demo_unicode_ok demo_phone_shape])
  have "isolated demo_unicode (phone_shape demo_unicode) (32 # demo_phone)"
    unfolding isolated_def
    by (rule exI [of _ "[32]"], rule exI [of _ demo_phone], rule exI [of _ "[]"])
       (use demo_phone_shape in \<open>simp add: last_or_def word_opt_def head_def demo_unicode_def is_digit_def\<close>)
  then show "U ''phone'' \<in> set (findings demo_unicode (32 # demo_phone))"
    using findings_iff(1) [OF demo_unicode_ok] by blast
qed

end
