(* ===== verification/Office.thy ===== *)
theory Office
  imports Approvals Idempotency Sensitive_Data
begin

text \<open>
  The data the domain services share (\<open>app/schemas/workflows.py\<close>) and the state they work on.

  \<open>office\<close> is the state of one running application: the store of reports, the store of meeting minutes,
  the idempotency store, the audit trail and \<open>of_ext\<close>, everything outside it (the external systems). A
  connector is awaited, so other requests may run meanwhile: it is a function of the whole state.

  Confidences are the rationals the floats denote; a comparison of floats is one of rationals. Chinese
  texts are lists of code points.
\<close>

section \<open>Work events\<close>

datatype work_status = Completed_w | In_progress_w | Blocked_w | Planned_w | Unknown_w

datatype source_type = Im | Email | Git | Gitlab | Task | Meeting | Manual | Analysis

datatype event_type =
    Task_completed | Task_progress | Problem | Decision | Collaboration | Meeting_e | Code_change | Plan

record evidence_ref =
  er_source_type :: source_type
  er_source_id :: ustr
  er_evidence_url :: "ustr option"
  er_segment_id :: "ustr option"
  er_confidence :: rat

record work_event =
  we_event_id :: ustr
  we_title :: ustr
  we_status :: work_status
  we_evidence_url :: "ustr option"
  we_event_type :: event_type
  we_project_id :: "ustr option"
  we_description :: "ustr option"
  we_result :: "ustr option"
  we_progress :: "rat option"
  we_event_time :: "instant option"
  we_source_type :: source_type
  we_source_id :: "ustr option"
  we_confidence :: rat
  we_sensitive :: bool
  we_participants :: "ustr list"
  we_tags :: "ustr list"
  we_evidence :: "evidence_ref list"

text \<open>The constructor with every optional field at its default.\<close>

definition WorkEvent :: "ustr \<Rightarrow> ustr \<Rightarrow> work_status \<Rightarrow> work_event" where
  "WorkEvent event_id title status =
     \<lparr>we_event_id = event_id, we_title = title, we_status = status, we_evidence_url = None,
      we_event_type = Task_progress, we_project_id = None, we_description = None, we_result = None,
      we_progress = None, we_event_time = None, we_source_type = Manual, we_source_id = None,
      we_confidence = 1, we_sensitive = False, we_participants = [], we_tags = [], we_evidence = []\<rparr>"

text \<open>The float literal \<open>0.6\<close>.\<close>

definition float_0_6 :: rat where
  "float_0_6 = 5404319552844595 / 9007199254740992"

section \<open>Reports\<close>

datatype report_status = Draft_r | Approved_r | Rejected_r | Submitted_r

datatype report_type = Daily | Weekly

record report_draft =
  rd_report_id :: ustr
  rd_report_date :: ustr
  rd_completed :: "ustr list"
  rd_in_progress :: "ustr list"
  rd_risks :: "ustr list"
  rd_evidence_event_ids :: "ustr list"
  rd_status :: report_status
  rd_review_comment :: "ustr option"
  rd_report_type :: report_type
  rd_overview :: ustr
  rd_plans :: "ustr list"
  rd_coordination_items :: "ustr list"
  rd_source_warnings :: "ustr list"
  rd_version :: int

record report_submission =
  rs_report_id :: ustr
  rs_submission_id :: ustr

section \<open>Meeting minutes\<close>

record transcript_segment =
  ts_segment_id :: ustr
  ts_text :: ustr
  ts_speaker_id :: "ustr option"
  ts_confidence :: rat
  ts_speaker_name :: "ustr option"
  ts_start_ms :: "int option"
  ts_end_ms :: "int option"
  ts_language :: ustr
  ts_reviewed :: bool

record meeting_decision =
  md_content :: ustr
  md_evidence_segment_ids :: "ustr list"

datatype action_status = Open_a | In_progress_a | Completed_a

record action_item =
  ai_content :: ustr
  ai_owner_id :: "ustr option"
  ai_owner_name :: "ustr option"
  ai_due_date :: "ustr option"
  ai_status :: action_status
  ai_evidence_segment_ids :: "ustr list"

datatype minutes_status = Draft_m | Approved_m | Rejected_m | Sent_m

record minutes_draft =
  mm_meeting_id :: ustr
  mm_title :: ustr
  mm_summary :: ustr
  mm_evidence_segment_ids :: "ustr list"
  mm_warnings :: "ustr list"
  mm_status :: minutes_status
  mm_review_comment :: "ustr option"
  mm_participants :: "ustr list"
  mm_topics :: "ustr list"
  mm_decisions :: "meeting_decision list"
  mm_action_items :: "action_item list"
  mm_risks :: "ustr list"
  mm_open_questions :: "ustr list"
  mm_version :: int
  mm_content_sha256 :: "ustr option"
  mm_meeting_date :: "ustr option"
  mm_generated_at :: "instant option"

record email_status =
  es_meeting_id :: ustr
  es_message_id :: ustr

section \<open>Results as JSON\<close>

text \<open>
  \<open>model_dump\<close> and \<open>model_validate\<close> of the two results that the idempotency store keeps. Validation
  wants the three keys with string values, the last one with the literal.
\<close>

definition validate3 :: "ustr \<Rightarrow> ustr \<Rightarrow> ustr \<Rightarrow> jdict \<Rightarrow> (ustr \<times> ustr) res" where
  "validate3 a b literal d =
     (case (map_of d a, map_of d b, map_of d (U ''status'')) of
        (Some (JStr x), Some (JStr y), Some (JStr z)) \<Rightarrow>
          if z = literal then Inr (x, y) else Inl (Exn ValidationErr [])
      | _ \<Rightarrow> Inl (Exn ValidationErr []))"

definition dump_submission :: "report_submission \<Rightarrow> jdict" where
  "dump_submission r =
     [(U ''report_id'', JStr (rs_report_id r)), (U ''submission_id'', JStr (rs_submission_id r)),
      (U ''status'', JStr (U ''submitted''))]"

definition validate_submission :: "jdict \<Rightarrow> report_submission res" where
  "validate_submission d =
     map_sum id (\<lambda>(x, y). \<lparr>rs_report_id = x, rs_submission_id = y\<rparr>)
       (validate3 (U ''report_id'') (U ''submission_id'') (U ''submitted'') d)"

definition dump_email_status :: "email_status \<Rightarrow> jdict" where
  "dump_email_status r =
     [(U ''meeting_id'', JStr (es_meeting_id r)), (U ''message_id'', JStr (es_message_id r)),
      (U ''status'', JStr (U ''sent''))]"

definition validate_email_status :: "jdict \<Rightarrow> email_status res" where
  "validate_email_status d =
     map_sum id (\<lambda>(x, y). \<lparr>es_meeting_id = x, es_message_id = y\<rparr>)
       (validate3 (U ''meeting_id'') (U ''message_id'') (U ''sent'') d)"

lemma validate_dump [simp]:
  "validate_submission (dump_submission r) = Inr r"
  "validate_email_status (dump_email_status e) = Inr e"
  by (simp_all add: validate_submission_def dump_submission_def validate_email_status_def
      dump_email_status_def validate3_def)

text \<open>A \<open>str\<close> field of a model that is being constructed.\<close>

definition str_field :: "json \<Rightarrow> ustr res" where
  "str_field v = (case v of JStr s \<Rightarrow> Inr s | _ \<Rightarrow> Inl (Exn ValidationErr []))"

section \<open>The state\<close>

record ('r, 'm, 'i, 'c) office =
  of_reports :: 'r
  of_meetings :: 'm
  of_idem :: 'i
  of_audit :: audit_service
  of_ext :: 'c

definition on_reports :: "('r \<Rightarrow> 'a \<times> 'r) \<Rightarrow> ('r, 'm, 'i, 'c) office \<Rightarrow> 'a \<times> ('r, 'm, 'i, 'c) office" where
  "on_reports f s = (case f (of_reports s) of (x, r) \<Rightarrow> (x, s\<lparr>of_reports := r\<rparr>))"

definition on_meetings :: "('m \<Rightarrow> 'a \<times> 'm) \<Rightarrow> ('r, 'm, 'i, 'c) office \<Rightarrow> 'a \<times> ('r, 'm, 'i, 'c) office" where
  "on_meetings f s = (case f (of_meetings s) of (x, m) \<Rightarrow> (x, s\<lparr>of_meetings := m\<rparr>))"

definition on_idem :: "('i \<Rightarrow> 'a \<times> 'i) \<Rightarrow> ('r, 'm, 'i, 'c) office \<Rightarrow> 'a \<times> ('r, 'm, 'i, 'c) office" where
  "on_idem f s = (case f (of_idem s) of (x, i) \<Rightarrow> (x, s\<lparr>of_idem := i\<rparr>))"

definition record_audit :: "ustr \<Rightarrow> request_context \<Rightarrow> ustr \<Rightarrow> ('r, 'm, 'i, 'c) office \<Rightarrow> ('r, 'm, 'i, 'c) office" where
  "record_audit action c target s = s\<lparr>of_audit := audit_record_event action c target (of_audit s)\<rparr>"

text \<open>An operation of one store and a check that touches none.\<close>

lemma on_reports_eq: "f (of_reports s) = (x, r) \<Longrightarrow> on_reports f s = (x, s\<lparr>of_reports := r\<rparr>)"
  by (simp add: on_reports_def)

lemma on_meetings_eq: "f (of_meetings s) = (x, r) \<Longrightarrow> on_meetings f s = (x, s\<lparr>of_meetings := r\<rparr>)"
  by (simp add: on_meetings_def)

lemma on_idem_eq: "f (of_idem s) = (x, r) \<Longrightarrow> on_idem f s = (x, s\<lparr>of_idem := r\<rparr>)"
  by (simp add: on_idem_def)

definition lift_res :: "'a res \<Rightarrow> 's \<Rightarrow> 'a res \<times> 's" where
  "lift_res r s = (r, s)"

text \<open>What a sequence of operations leaves alone.\<close>

lemma bnd_frame:
  "g (snd m) = a \<Longrightarrow> (\<And>x s. g s = a \<Longrightarrow> g (snd (k x s)) = a) \<Longrightarrow> g (snd (bnd m k)) = a"
  by (cases m; cases "fst m") auto

lemma office_frames [simp]:
  "of_idem (snd (on_meetings f s)) = of_idem s" "of_idem (snd (on_reports g s)) = of_idem s"
  "of_reports (snd (on_meetings f s)) = of_reports s" "of_reports (snd (on_idem h s)) = of_reports s"
  "of_meetings (snd (on_reports g s)) = of_meetings s" "of_meetings (snd (on_idem h s)) = of_meetings s"
  "of_idem (record_audit a c i s) = of_idem s" "of_reports (record_audit a c i s) = of_reports s"
  "of_meetings (record_audit a c i s) = of_meetings s" "snd (lift_res r s) = s"
  by (simp_all add: on_meetings_def on_reports_def on_idem_def record_audit_def lift_res_def split: prod.split)

end
