(* ===== verification/Draft_Store.thy ===== *)
theory Draft_Store
  imports Identity
begin

text \<open>
  What the report and the meeting services rely on in a store of drafts, whatever the drafts are.

  A draft is held through a handle: the address of the object in the in-process stores, a copy in the
  database ones. \<open>view s (t, i)\<close> is the draft a caller of tenant \<open>t\<close> finds under the id \<open>i\<close>. Saving is
  given the time, which a row that is created records.
\<close>

locale draft_store =
  fixes obj :: "'s \<Rightarrow> 'h \<Rightarrow> 'd"
    and assign :: "'h \<Rightarrow> 'd \<Rightarrow> 's \<Rightarrow> 'h \<times> 's"
    and save :: "instant \<Rightarrow> 'h \<Rightarrow> request_context \<Rightarrow> 's \<Rightarrow> 'h res \<times> 's"
    and get :: "ustr \<Rightarrow> request_context \<Rightarrow> 's \<Rightarrow> 'h option res \<times> 's"
    and id_of :: "'d \<Rightarrow> ustr"
    and view :: "'s \<Rightarrow> ustr \<times> ustr \<Rightarrow> 'd option"
    and inv :: "'s \<Rightarrow> bool"
    and valid :: "'s \<Rightarrow> 'h \<Rightarrow> bool"
  assumes get_law: "inv s \<Longrightarrow>
      (case view s (rc_tenant_id c, i) of
         None \<Rightarrow> get i c s = (Inr None, s)
       | Some d \<Rightarrow> \<exists>h. get i c s = (Inr (Some h), s) \<and> valid s h \<and> obj s h = d \<and> id_of d = i)"
    and assign_law: "inv s \<Longrightarrow> valid s h \<Longrightarrow> id_of d = id_of (obj s h) \<Longrightarrow> assign h d s = (h', s') \<Longrightarrow>
      inv s' \<and> valid s' h' \<and> obj s' h' = d \<and> (\<forall>k. view s' k = None \<longleftrightarrow> view s k = None)"
    and save_law: "inv s \<Longrightarrow> valid s h \<Longrightarrow> view s (rc_tenant_id c, id_of (obj s h)) \<noteq> None \<Longrightarrow>
      \<exists>s'. save n h c s = (Inr h, s') \<and> inv s' \<and> valid s' h \<and> obj s' h = obj s h \<and>
        view s' (rc_tenant_id c, id_of (obj s h)) = Some (obj s h)"
begin

lemma get_cases:
  assumes "inv s"
  obtains (missing) "view s (rc_tenant_id c, i) = None" "get i c s = (Inr None, s)"
  | (found) h d where "view s (rc_tenant_id c, i) = Some d" "get i c s = (Inr (Some h), s)"
      "valid s h" "obj s h = d" "id_of d = i"
  using get_law [OF assms, where c = c and i = i] by (auto split: option.splits)

text \<open>Changing fields of a held draft and saving it, while the draft still exists.\<close>

lemma assign_then_save:
  assumes "inv s" "valid s h" "id_of d = id_of (obj s h)" "view s (rc_tenant_id c, id_of d) \<noteq> None"
    and "assign h d s = (h', s1)"
  shows "\<exists>s2. save n h' c s1 = (Inr h', s2) \<and> inv s2 \<and> valid s2 h' \<and> obj s2 h' = d \<and>
    view s2 (rc_tenant_id c, id_of d) = Some d"
proof -
  from assign_law [OF assms(1-3,5)] assms(4)
  have "inv s1" "valid s1 h'" "obj s1 h' = d" "view s1 (rc_tenant_id c, id_of (obj s1 h')) \<noteq> None"
    by auto
  from save_law [OF this(1,2,4), of n] this(3) show ?thesis by auto
qed

end

end
