(* ===== verification/Reports.thy ===== *)
theory Reports
  imports Office Draft_Store
begin

text \<open>
  \<open>ReportService\<close> (\<open>app/domain/reports.py\<close>) with \<open>InMemoryReportRepository\<close>
  (\<open>app/repositories/reports.py\<close>) and \<open>SqlAlchemyReportRepository\<close>
  (\<open>app/repositories/persistence.py\<close>).

  The in-process repository stores the draft object itself, so a later assignment to the object a caller
  holds changes what is stored; the database repository hands out copies. As for tasks, a draft is
  therefore reached through a handle: an address of the heap, or the copy.
\<close>

section \<open>Repositories\<close>

record ('r, 'h) report_repo =
  rr_obj :: "'r \<Rightarrow> 'h \<Rightarrow> report_draft"
  rr_assign :: "'h \<Rightarrow> report_draft \<Rightarrow> 'r \<Rightarrow> 'h \<times> 'r"
  rr_new :: "report_draft \<Rightarrow> 'r \<Rightarrow> 'h \<times> 'r"
  rr_save :: "'h \<Rightarrow> request_context option \<Rightarrow> 'r \<Rightarrow> 'h res \<times> 'r"
  rr_get :: "ustr \<Rightarrow> request_context option \<Rightarrow> 'r \<Rightarrow> 'h option res \<times> 'r"

record mem_reports =
  mr_heap :: "report_draft list"
  mr_reports :: "(ustr \<times> nat) list"

definition mem_report_save ::
  "nat \<Rightarrow> request_context option \<Rightarrow> mem_reports \<Rightarrow> nat res \<times> mem_reports" where
  "mem_report_save h context s =
     (Inr h, s\<lparr>mr_reports := AList.update (rd_report_id (mr_heap s ! h)) h (mr_reports s)\<rparr>)"

definition mem_report_get ::
  "ustr \<Rightarrow> request_context option \<Rightarrow> mem_reports \<Rightarrow> nat option res \<times> mem_reports" where
  "mem_report_get report_id context s = (Inr (map_of (mr_reports s) report_id), s)"

definition mem_report_repo :: "(mem_reports, nat) report_repo" where
  "mem_report_repo =
     \<lparr>rr_obj = (\<lambda>s h. mr_heap s ! h),
      rr_assign = (\<lambda>h d s. (h, s\<lparr>mr_heap := (mr_heap s)[h := d]\<rparr>)),
      rr_new = (\<lambda>d s. (length (mr_heap s), s\<lparr>mr_heap := mr_heap s @ [d]\<rparr>)),
      rr_save = mem_report_save, rr_get = mem_report_get\<rparr>"

record report_row =
  rw_id :: ustr
  rw_tenant_id :: ustr
  rw_created_by :: ustr
  rw_report_date :: ustr
  rw_status :: report_status
  rw_payload :: report_draft
  rw_version :: int

definition no_report_context :: exn where
  "no_report_context = Exn ValueErr (U ''trusted request context is required for persistent reports'')"

definition sql_report_save ::
  "report_draft \<Rightarrow> request_context option \<Rightarrow> report_row list \<Rightarrow> report_draft res \<times> report_row list" where
  "sql_report_save draft context rows =
     (case context of
        None \<Rightarrow> (Inl no_report_context, rows)
      | Some c \<Rightarrow>
          (case find (\<lambda>r. rw_id r = rd_report_id draft) rows of
             None \<Rightarrow>
               (Inr draft, rows @
                 [\<lparr>rw_id = rd_report_id draft, rw_tenant_id = rc_tenant_id c,
                   rw_created_by = rc_operator_id c, rw_report_date = rd_report_date draft,
                   rw_status = rd_status draft, rw_payload = draft, rw_version = 1\<rparr>])
           | Some record \<Rightarrow>
               if rw_tenant_id record \<noteq> rc_tenant_id c
               then (Inl (Exn KeyErr (rd_report_id draft)), rows)
               else (Inr draft, update_row rw_id
                      (record\<lparr>rw_status := rd_status draft, rw_payload := draft,
                              rw_version := rw_version record + 1\<rparr>) rows)))"

definition sql_report_get ::
  "ustr \<Rightarrow> request_context option \<Rightarrow> report_row list \<Rightarrow> report_draft option res \<times> report_row list" where
  "sql_report_get report_id context rows =
     (case context of
        None \<Rightarrow> (Inl no_report_context, rows)
      | Some c \<Rightarrow>
          (map_sum id (map_option rw_payload)
             (scalar_one_or_none
                (filter (\<lambda>r. rw_id r = report_id \<and> rw_tenant_id r = rc_tenant_id c) rows)), rows))"

definition sql_report_repo :: "(report_row list, report_draft) report_repo" where
  "sql_report_repo =
     \<lparr>rr_obj = (\<lambda>s d. d), rr_assign = (\<lambda>h d s. (d, s)), rr_new = (\<lambda>d s. (d, s)),
      rr_save = sql_report_save, rr_get = sql_report_get\<rparr>"

section \<open>Generating reports\<close>

text \<open>The key of \<open>_deduplicate\<close>: the project and the title in lower case with single spaces.\<close>

definition dedup_key :: "(ustr \<Rightarrow> ustr) \<Rightarrow> work_event \<Rightarrow> ustr option \<times> ustr" where
  "dedup_key lower e = (we_project_id e, join (U '' '') (str_split (lower (we_title e))))"

fun dedup_loop ::
  "(work_event \<Rightarrow> 'k) \<Rightarrow> ('k \<times> work_event) list \<Rightarrow> work_event list \<Rightarrow> ('k \<times> work_event) list" where
  "dedup_loop key selected [] = selected"
| "dedup_loop key selected (event # events) =
     dedup_loop key
       (case map_of selected (key event) of
          None \<Rightarrow> AList.update (key event) event selected
        | Some current \<Rightarrow>
            if we_confidence event > we_confidence current
            then AList.update (key event) event selected else selected)
       events"

definition deduplicate :: "(ustr \<Rightarrow> ustr) \<Rightarrow> work_event list \<Rightarrow> work_event list" where
  "deduplicate lower events = map snd (dedup_loop (dedup_key lower) [] events)"

text \<open>\<open>event.result or event.description or ""\<close>, without surrounding white space.\<close>

definition report_detail :: "work_event \<Rightarrow> ustr" where
  "report_detail e =
     strip (case we_result e of
              Some (c # cs) \<Rightarrow> c # cs
            | _ \<Rightarrow> (case we_description e of Some d \<Rightarrow> d | None \<Rightarrow> []))"

definition report_line :: "work_event \<Rightarrow> ustr" where
  "report_line e =
     (if report_detail e = [] \<or> contains (report_detail e) (we_title e) then we_title e
      else we_title e @ [65306] @ take 200 (report_detail e))"

definition events_with :: "work_status \<Rightarrow> work_event list \<Rightarrow> work_event list" where
  "events_with st events = filter (\<lambda>e. we_status e = st) events"

text \<open>The notice about an event whose status is unknown or whose confidence is below 0.6.\<close>

definition confirm_notice :: "work_event \<Rightarrow> ustr" where
  "confirm_notice e = [20107, 20214, 32] @ we_event_id e @ [32, 29366, 24577, 25110, 35777, 25454, 21487, 20449, 24230, 38656, 35201, 30830, 35748]"

definition daily_draft ::
  "(ustr \<Rightarrow> ustr) \<Rightarrow> ustr \<Rightarrow> ustr \<Rightarrow> work_event list \<Rightarrow> ustr list \<Rightarrow> report_draft" where
  "daily_draft lower uuid report_date events0 source_warnings =
     (let events = deduplicate lower events0 in
      \<lparr>rd_report_id = uuid, rd_report_date = report_date,
       rd_completed = map report_line (events_with Completed_w events),
       rd_in_progress = map report_line (events_with In_progress_w events),
       rd_risks = map report_line (events_with Blocked_w events),
       rd_evidence_event_ids = map we_event_id events,
       rd_status = Draft_r, rd_review_comment = None, rd_report_type = Daily,
       rd_overview = [20849, 27719, 24635, 32] @ nat_dec (length events) @ [32, 39033, 26377, 35777, 25454, 30340, 24037, 20316, 20107, 20214, 12290],
       rd_plans = map report_line (events_with Planned_w events),
       rd_coordination_items = [],
       rd_source_warnings = source_warnings @
         map confirm_notice
           (filter (\<lambda>e. we_status e = Unknown_w \<or> we_confidence e < float_0_6) events),
       rd_version = 1\<rparr>)"

definition generate_daily ::
  "('r, 'h) report_repo \<Rightarrow> (ustr \<Rightarrow> ustr) \<Rightarrow> ustr \<Rightarrow> ustr \<Rightarrow> work_event list \<Rightarrow>
   request_context option \<Rightarrow> ustr list \<Rightarrow> 'r \<Rightarrow> 'h res \<times> 'r" where
  "generate_daily R lower uuid report_date events context source_warnings s =
     (case rr_new R (daily_draft lower uuid report_date events source_warnings) s of
        (h, s) \<Rightarrow> rr_save R h context s)"

definition generate_weekly ::
  "('r, 'h) report_repo \<Rightarrow> (ustr \<Rightarrow> ustr) \<Rightarrow> ustr \<Rightarrow> ustr \<Rightarrow> work_event list \<Rightarrow>
   request_context option \<Rightarrow> ustr list \<Rightarrow> 'r \<Rightarrow> 'h res \<times> 'r" where
  "generate_weekly R lower uuid week_start events context source_warnings s =
     bnd (generate_daily R lower uuid week_start events context source_warnings s)
       (\<lambda>h s.
          let draft = rr_obj R s h in
          case rr_assign R h
                 (draft\<lparr>rd_report_type := Weekly,
                        rd_overview := [26412, 21608, 20849, 27719, 24635, 32] @ nat_dec (length (rd_evidence_event_ids draft)) @
                          [32, 39033, 21435, 37325, 21518, 30340, 24037, 20316, 20107, 20214, 12290]\<rparr>) s of
            (h, s) \<Rightarrow> rr_save R h context s)"

section \<open>Review and submission\<close>

definition reviewed_report :: "bool \<Rightarrow> ustr option \<Rightarrow> report_draft \<Rightarrow> report_draft" where
  "reviewed_report approved comment d =
     d\<lparr>rd_status := (if approved then Approved_r else Rejected_r), rd_review_comment := comment\<rparr>"

text \<open>\<open>repository.get\<close> followed by the test for a missing draft, in review and submission.\<close>

definition the_report ::
  "('r, 'h) report_repo \<Rightarrow> ustr \<Rightarrow> request_context \<Rightarrow> ('r, 'm, 'i, 'c) office \<Rightarrow>
   'h res \<times> ('r, 'm, 'i, 'c) office" where
  "the_report R report_id context s =
     bnd (on_reports (rr_get R report_id (Some context)) s)
       (\<lambda>draft s. case draft of None \<Rightarrow> (Inl (Exn KeyErr report_id), s) | Some h \<Rightarrow> (Inr h, s))"

definition report_review ::
  "('r, 'h) report_repo \<Rightarrow> ustr \<Rightarrow> bool \<Rightarrow> ustr option \<Rightarrow> request_context \<Rightarrow>
   ('r, 'm, 'i, 'c) office \<Rightarrow> 'h res \<times> ('r, 'm, 'i, 'c) office" where
  "report_review R report_id approved comment context s =
     bnd (lift_res (permission_require context (U ''report:review'')) s) (\<lambda>_ s.
     bnd (the_report R report_id context s) (\<lambda>h s.
       case on_reports (rr_assign R h
              (reviewed_report approved comment (rr_obj R (of_reports s) h))) s of
         (h, s) \<Rightarrow>
           on_reports (rr_save R h (Some context))
             (record_audit (U ''report.review'') context report_id s)))"

text \<open>
  \<open>dump\<close> is \<open>str\<close> of the dumped draft, and \<open>submit_to\<close> the report system, given the draft, the
  idempotency key and the context.
\<close>

definition report_key :: "request_context \<Rightarrow> ustr \<Rightarrow> ustr \<Rightarrow> ustr" where
  "report_key context report_date report_id =
     rc_tenant_id context @ U '':'' @
     (case rc_employee_id context of None \<Rightarrow> U ''None'' | Some e \<Rightarrow> e) @ U '':'' @
     report_date @ U '':'' @ report_id"

definition report_submit ::
  "('r, 'h) report_repo \<Rightarrow> 'i idem_repo \<Rightarrow> unicode \<Rightarrow> (report_draft \<Rightarrow> ustr) \<Rightarrow>
   (report_draft \<Rightarrow> ustr \<Rightarrow> request_context \<Rightarrow> ('r, 'm, 'i, 'c) office \<Rightarrow> jdict res \<times> ('r, 'm, 'i, 'c) office) \<Rightarrow>
   ustr \<Rightarrow> request_context \<Rightarrow> ('r, 'm, 'i, 'c) office \<Rightarrow>
   report_submission res \<times> ('r, 'm, 'i, 'c) office" where
  "report_submit R I u dump submit_to report_id context s =
     bnd (lift_res (permission_require context (U ''report:submit'')) s) (\<lambda>_ s.
     bnd (the_report R report_id context s) (\<lambda>h s.
     bnd (on_idem (idem_get I (U ''report.submit'') report_id context) s) (\<lambda>existing s.
       case existing of
         Some d \<Rightarrow> lift_res (validate_submission d) s
       | None \<Rightarrow>
           let draft = rr_obj R (of_reports s) h in
           if rd_status draft \<noteq> Approved_r
           then (Inl (Exn ValueErr (U ''report must be approved before submission'')), s)
           else
             bnd (lift_res (require_shareable u (dump draft)) s) (\<lambda>_ s.
             bnd (submit_to draft (report_key context (rd_report_date draft) report_id) context s) (\<lambda>result s.
               case on_reports (rr_assign R h
                      ((rr_obj R (of_reports s) h)\<lparr>rd_status := Submitted_r\<rparr>)) s of
                 (h, s) \<Rightarrow>
                   bnd (on_reports (rr_save R h (Some context)) s) (\<lambda>_ s.
                   let s = record_audit (U ''report.submit'') context report_id s in
                   bnd (lift_res (getitem result (U ''submission_id'')) s) (\<lambda>v s.
                   bnd (lift_res (str_field v) s) (\<lambda>sid s.
                   bnd (on_idem (remember I (U ''report.submit'') report_id
                          (dump_submission \<lparr>rs_report_id = report_id, rs_submission_id = sid\<rparr>) context) s)
                     (\<lambda>stored s. lift_res (validate_submission stored) s)))))))))"

section \<open>What deduplication keeps\<close>

lemma dedup_loop_append:
  "dedup_loop key sel (xs @ ys) = dedup_loop key (dedup_loop key sel xs) ys"
  by (induction key sel xs rule: dedup_loop.induct) simp_all

lemma keys_AList_update:
  "map fst (AList.update k v d) = (if k \<in> set (map fst d) then map fst d else map fst d @ [k])"
  by (induction d) auto

lemma remdups_snoc: "rev (remdups (rev (xs @ [x]))) =
    (if x \<in> set xs then rev (remdups (rev xs)) else rev (remdups (rev xs)) @ [x])"
  by simp

text \<open>The loop keeps one event per key, in the order the keys first appear, of maximal confidence.\<close>

definition best_events :: "(work_event \<Rightarrow> 'k) \<Rightarrow> work_event list \<Rightarrow> ('k \<times> work_event) list \<Rightarrow> bool" where
  "best_events key events d \<longleftrightarrow>
     map fst d = rev (remdups (rev (map key events))) \<and>
     (\<forall>k e. map_of d k = Some e \<longrightarrow> e \<in> set events \<and> key e = k \<and>
        (\<forall>x \<in> set events. key x = k \<longrightarrow> we_confidence x \<le> we_confidence e))"

lemma best_events_keys: "best_events key events d \<Longrightarrow> set (map fst d) = key ` set events"
  by (simp only: best_events_def) simp

lemma best_events_step:
  assumes "best_events key events d"
  shows "best_events key (events @ [x]) (dedup_loop key d [x])"
proof -
  have keys: "set (map fst d) = key ` set events" by (rule best_events_keys [OF assms])
  have fst: "map fst d = rev (remdups (rev (map key events)))"
    and val: "\<And>k e. map_of d k = Some e \<Longrightarrow> e \<in> set events \<and> key e = k \<and>
        (\<forall>y \<in> set events. key y = k \<longrightarrow> we_confidence y \<le> we_confidence e)"
    using assms by (simp_all add: best_events_def)
  show ?thesis
  proof (cases "map_of d (key x)")
    case None
    then have new: "key x \<notin> set (map fst d)" by (simp add: map_of_eq_None_iff)
    have "map fst (AList.update (key x) x d) = rev (remdups (rev (map key (events @ [x]))))"
      using new keys fst by (simp add: keys_AList_update)
    moreover have "y \<in> set events \<Longrightarrow> key y \<noteq> key x" for y
      using new keys by (metis imageI)
    ultimately show ?thesis
      using None val by (auto simp: best_events_def split: if_splits)
  next
    case (Some current)
    then have old: "key x \<in> set (map fst d)" by (metis domI dom_map_of_conv_image_fst set_map)
    have "rev (remdups (rev (map key (events @ [x])))) = map fst d"
      using old keys fst by simp
    moreover have "map fst (AList.update (key x) x d) = map fst d"
      using old by (simp add: keys_AList_update)
    ultimately show ?thesis
      using Some val [OF Some] val
      by (auto simp: best_events_def split: if_splits) (meson less_eq_rat_def order_trans linorder_not_less)+
  qed
qed

lemma dedup_loop_best: "best_events key events (dedup_loop key [] events)"
proof (induction events rule: rev_induct)
  case Nil
  then show ?case by (simp add: best_events_def)
next
  case (snoc x xs)
  from best_events_step [OF this, of x] show ?case by (simp add: dedup_loop_append)
qed

lemma deduplicate_best:
  "map (dedup_key lower) (deduplicate lower events) = rev (remdups (rev (map (dedup_key lower) events)))"
  "e \<in> set (deduplicate lower events) \<Longrightarrow> e \<in> set events \<and>
     (\<forall>x \<in> set events. dedup_key lower x = dedup_key lower e \<longrightarrow> we_confidence x \<le> we_confidence e)"
proof -
  let ?d = "dedup_loop (dedup_key lower) [] events"
  have b: "best_events (dedup_key lower) events ?d" by (rule dedup_loop_best)
  then have f: "map fst ?d = rev (remdups (rev (map (dedup_key lower) events)))"
    by (simp add: best_events_def)
  then have dist: "distinct (map fst ?d)" by simp
  have val: "e \<in> set events \<and> dedup_key lower e = k \<and>
      (\<forall>x \<in> set events. dedup_key lower x = k \<longrightarrow> we_confidence x \<le> we_confidence e)"
    if "(k, e) \<in> set ?d" for k e
    using b map_of_is_SomeI [OF dist that] unfolding best_events_def by blast
  then have "map (dedup_key lower \<circ> snd) ?d = map fst ?d" by auto
  then show "map (dedup_key lower) (deduplicate lower events) = rev (remdups (rev (map (dedup_key lower) events)))"
    by (simp add: deduplicate_def f)
  show "e \<in> set events \<and>
     (\<forall>x \<in> set events. dedup_key lower x = dedup_key lower e \<longrightarrow> we_confidence x \<le> we_confidence e)"
    if "e \<in> set (deduplicate lower events)"
    using that val by (auto simp: deduplicate_def)
qed

section \<open>The contract of a report store\<close>

locale report_store =
  draft_store "rr_obj R" "rr_assign R" "\<lambda>n h c. rr_save R h (Some c)" "\<lambda>i c. rr_get R i (Some c)"
    rd_report_id view inv valid
  for R :: "('r, 'h) report_repo" and view inv valid
begin

lemma the_report_cases:
  assumes "inv (of_reports s)"
  shows "(view (of_reports s) (rc_tenant_id c, i) = None \<and>
      the_report R i c s = (Inl (Exn KeyErr i), s)) \<or>
    (\<exists>h d. view (of_reports s) (rc_tenant_id c, i) = Some d \<and> the_report R i c s = (Inr h, s) \<and>
      valid (of_reports s) h \<and> rr_obj R (of_reports s) h = d \<and> rd_report_id d = i)"
  by (rule get_cases [OF assms, where c = c and i = i]) (auto simp: the_report_def on_reports_eq)

lemma assign_save:
  assumes "inv (of_reports s)" "valid (of_reports s) h" "rd_report_id d = rd_report_id (rr_obj R (of_reports s) h)"
    and "view (of_reports s) (rc_tenant_id c, rd_report_id d) \<noteq> None"
    and "on_reports (rr_assign R h d) s = (h', s1)" "of_reports s2 = of_reports s1"
  shows "\<exists>r. on_reports (rr_save R h' (Some c)) s2 = (Inr h', s2\<lparr>of_reports := r\<rparr>) \<and> inv r \<and> valid r h' \<and>
    rr_obj R r h' = d \<and> view r (rc_tenant_id c, rd_report_id d) = Some d"
proof -
  obtain r1 where r1: "rr_assign R h d (of_reports s) = (h', r1)" "of_reports s1 = r1"
    using assms(5) by (auto simp: on_reports_def split: prod.splits)
  from assign_then_save [OF assms(1-4) r1(1)] show ?thesis
    using r1(2) assms(6) by (auto simp: on_reports_eq)
qed

lemma review_outcome:
  assumes "inv (of_reports s)" "U ''report:review'' \<in> rc_permission_scopes c"
    and "view (of_reports s) (rc_tenant_id c, i) = Some d"
  shows "\<exists>h s'. report_review R i ok comment c s = (Inr h, s') \<and>
    view (of_reports s') (rc_tenant_id c, i) = Some (reviewed_report ok comment d) \<and>
    of_audit s' = audit_record_event (U ''report.review'') c i (of_audit s)"
proof -
  from the_report_cases [OF assms(1), of c i] assms(3) obtain h where
    h: "the_report R i c s = (Inr h, s)" "valid (of_reports s) h" "rr_obj R (of_reports s) h = d"
      "rd_report_id d = i"
    by auto
  let ?d = "reviewed_report ok comment d"
  have id: "rd_report_id ?d = rd_report_id (rr_obj R (of_reports s) h)" "rd_report_id ?d = i"
    using h by (simp_all add: reviewed_report_def)
  obtain h' s1 where a: "on_reports (rr_assign R h ?d) s = (h', s1)" by fastforce
  have frame: "of_audit s1 = of_audit s"
    using a by (auto simp: on_reports_def split: prod.splits)
  from assign_save [OF assms(1) h(2) id(1) _ a, of c "record_audit (U ''report.review'') c i s1"] assms(3) id(2)
  obtain r where "on_reports (rr_save R h' (Some c)) (record_audit (U ''report.review'') c i s1) =
      (Inr h', (record_audit (U ''report.review'') c i s1)\<lparr>of_reports := r\<rparr>)"
    "view r (rc_tenant_id c, i) = Some ?d"
    by (auto simp: record_audit_def)
  then show ?thesis
    using h(1,3) a assms(2) frame by (simp add: report_review_def lift_res_def permission_require_def record_audit_def)
qed

end

text \<open>
  Submission uses a report store and an idempotency store. \<open>rely\<close> is what other requests that run while
  the report system is awaited do not break: both stores stay well formed, the held draft stays valid
  and keeps its id, and the report is not deleted.
\<close>

locale report_submission = reports: report_store R view rinv valid + idem: idem_store I memo iinv
  for R :: "('r, 'h) report_repo" and view rinv valid
    and I :: "'i idem_repo" and memo iinv
begin

definition rely ::
  "(report_draft \<Rightarrow> ustr \<Rightarrow> request_context \<Rightarrow> ('r, 'm, 'i, 'c) office \<Rightarrow> jdict res \<times> ('r, 'm, 'i, 'c) office) \<Rightarrow> bool" where
  "rely submit_to \<longleftrightarrow>
     (\<forall>d k c s x s' h t. submit_to d k c s = (x, s') \<longrightarrow> rinv (of_reports s) \<longrightarrow> iinv (of_idem s) \<longrightarrow>
        valid (of_reports s) h \<longrightarrow>
        rinv (of_reports s') \<and> iinv (of_idem s') \<and> valid (of_reports s') h \<and>
        rd_report_id (rr_obj R (of_reports s') h) = rd_report_id (rr_obj R (of_reports s) h) \<and>
        (view (of_reports s) t \<noteq> None \<longrightarrow> view (of_reports s') t \<noteq> None))"

text \<open>Only an approved, shareable report that was not submitted before reaches the report system.\<close>

lemma submit_to_guard:
  assumes "rinv (of_reports s)" "iinv (of_idem s)"
    and "report_submit R I u dump f i c s \<noteq> report_submit R I u dump g i c s"
  shows "U ''report:submit'' \<in> rc_permission_scopes c \<and>
    memo (of_idem s) (rc_tenant_id c, U ''report.submit'', i) = None \<and>
    (\<exists>d. view (of_reports s) (rc_tenant_id c, i) = Some d \<and> rd_status d = Approved_r \<and>
      findings u (dump d) = [])"
proof (rule ccontr)
  assume no: "\<not> ?thesis"
  have "report_submit R I u dump f i c s = report_submit R I u dump g i c s"
  proof (cases "U ''report:submit'' \<in> rc_permission_scopes c")
    case False
    then show ?thesis by (simp add: report_submit_def lift_res_def permission_require_def)
  next
    case True
    have idem: "on_idem (idem_get I p i c) s = (Inr (memo (of_idem s) (rc_tenant_id c, p, i)), s)" for p
      using idem.get [OF assms(2)] by (simp add: on_idem_eq idem_get_def)
    from reports.the_report_cases [OF assms(1), of c i] show ?thesis
    proof (elim disjE exE conjE)
      assume "the_report R i c s = (Inl (Exn KeyErr i), s)"
      then show ?thesis by (simp add: report_submit_def lift_res_def permission_require_def)
    next
      fix h d assume v: "view (of_reports s) (rc_tenant_id c, i) = Some d"
        and t: "the_report R i c s = (Inr h, s)" and d: "rr_obj R (of_reports s) h = d"
      have "memo (of_idem s) (rc_tenant_id c, U ''report.submit'', i) \<noteq> None \<or> rd_status d \<noteq> Approved_r \<or>
          findings u (dump d) \<noteq> []"
        using no True v by auto
      then show ?thesis
        using t d
        by (auto simp: report_submit_def idem lift_res_def permission_require_def require_shareable_def
            Let_def split: option.split)
    qed
  qed
  with assms(3) show False by contradiction
qed

text \<open>Submitting again returns the same submission and touches nothing.\<close>

lemma submit_again:
  assumes inv: "rinv (of_reports s)" "iinv (of_idem s)" and rely: "rely f"
    and ok: "report_submit R I u dump f i c s = (Inr sub, s')"
  shows "report_submit R I u dump g i c s' = (Inr sub, s') \<and> rinv (of_reports s') \<and> iinv (of_idem s')"
proof -
  let ?k = "(rc_tenant_id c, U ''report.submit'', i)"
  have scope: "U ''report:submit'' \<in> rc_permission_scopes c"
    using ok by (auto simp: report_submit_def lift_res_def permission_require_def bnd_def split: if_splits)
  have idem: "on_idem (idem_get I p i c) s1 = (Inr (memo (of_idem s1) (rc_tenant_id c, p, i)), s1)"
    if "iinv (of_idem s1)" for s1 :: "('r, 'm, 'i, 'c) office" and p
    using idem.get [OF that] by (simp add: on_idem_eq idem_get_def)
  have again: ?thesis if there: "rinv (of_reports s')" "iinv (of_idem s')"
    "view (of_reports s') (rc_tenant_id c, i) \<noteq> None"
    "memo (of_idem s') ?k = Some d" "validate_submission d = Inr sub" for d
  proof -
    obtain h0 where "the_report R i c s' = (Inr h0, s')"
      using reports.the_report_cases [OF there(1), of c i] there(3) by auto
    with there scope idem [OF there(2)] show ?thesis
      by (simp add: report_submit_def lift_res_def permission_require_def)
  qed
  from reports.the_report_cases [OF inv(1), of c i] ok scope obtain h where
    h: "the_report R i c s = (Inr h, s)" "valid (of_reports s) h" "view (of_reports s) (rc_tenant_id c, i) \<noteq> None"
      "rd_report_id (rr_obj R (of_reports s) h) = i"
    by (auto simp: report_submit_def lift_res_def permission_require_def)
  show ?thesis
  proof (cases "memo (of_idem s) ?k")
    case (Some d)
    with ok h(1) scope idem [OF inv(2)] have "validate_submission d = Inr sub" "s' = s"
      by (auto simp: report_submit_def lift_res_def permission_require_def)
    with again inv h(3) Some show ?thesis by blast
  next
    case None
    let ?d = "rr_obj R (of_reports s) h"
    obtain result s1 where conn: "f ?d (report_key c (rd_report_date ?d) i) c s = (Inr result, s1)"
      using ok h(1) scope idem [OF inv(2)] None
      by (auto simp: report_submit_def lift_res_def permission_require_def Let_def bnd_Inr_iff split: if_splits)
    from rely conn inv h(2) have s1: "rinv (of_reports s1)" "iinv (of_idem s1)" "valid (of_reports s1) h"
      "rd_report_id (rr_obj R (of_reports s1) h) = i" "view (of_reports s1) (rc_tenant_id c, i) \<noteq> None"
      using h(3,4) unfolding rely_def by metis+
    let ?d1 = "(rr_obj R (of_reports s1) h)\<lparr>rd_status := Submitted_r\<rparr>"
    obtain h' s2 where a: "on_reports (rr_assign R h ?d1) s1 = (h', s2)" by fastforce
    have id: "rd_report_id ?d1 = i" using s1(4) by simp
    from reports.assign_save [OF s1(1,3) _ _ a, of c s2] s1(4,5) obtain r where
      r: "on_reports (rr_save R h' (Some c)) s2 = (Inr h', s2\<lparr>of_reports := r\<rparr>)" "rinv r"
      "view r (rc_tenant_id c, i) = Some ?d1"
      by auto
    let ?s3 = "record_audit (U ''report.submit'') c i (s2\<lparr>of_reports := r\<rparr>)"
    have s3: "of_reports ?s3 = r" "of_idem ?s3 = of_idem s1"
      using a by (auto simp: record_audit_def on_reports_def split: prod.splits)
    obtain v sid where "getitem result (U ''submission_id'') = Inr v" "str_field v = Inr sid" and
      last: "bnd (on_idem (remember I (U ''report.submit'') i
          (dump_submission \<lparr>rs_report_id = i, rs_submission_id = sid\<rparr>) c) ?s3)
        (\<lambda>stored s. lift_res (validate_submission stored) s) = (Inr sub, s')"
      using ok h(1) scope idem [OF inv(2)] None conn a r(1)
      by (auto simp: report_submit_def lift_res_def permission_require_def Let_def bnd_Inr_iff split: if_splits)
    obtain i' where i': "remember I (U ''report.submit'') i
        (dump_submission \<lparr>rs_report_id = i, rs_submission_id = sid\<rparr>) c (of_idem s1) =
          (Inr (case memo (of_idem s1) ?k of None \<Rightarrow> dump_submission \<lparr>rs_report_id = i, rs_submission_id = sid\<rparr>
                | Some r0 \<Rightarrow> r0), i')" "iinv i'"
      "memo i' = (case memo (of_idem s1) ?k of
         None \<Rightarrow> (memo (of_idem s1))(?k \<mapsto> dump_submission \<lparr>rs_report_id = i, rs_submission_id = sid\<rparr>)
       | Some r0 \<Rightarrow> memo (of_idem s1))"
      using idem.remember_cases [OF s1(2)] by blast
    define d where "d = (case memo (of_idem s1) ?k of
        None \<Rightarrow> dump_submission \<lparr>rs_report_id = i, rs_submission_id = sid\<rparr> | Some r0 \<Rightarrow> r0)"
    have "s' = ?s3\<lparr>of_idem := i'\<rparr>" "validate_submission d = Inr sub"
      using last i'(1) s3 by (simp_all add: on_idem_def lift_res_def d_def)
    moreover have "memo i' ?k = Some d" by (simp add: i'(3) d_def split: option.split)
    ultimately show ?thesis using again [of d] r(2,3) i'(2) s3(1) by simp
  qed
qed

end

section \<open>Both repositories meet it\<close>

text \<open>In process the tenant plays no role: every tenant sees every report.\<close>

definition mem_report_view :: "mem_reports \<Rightarrow> ustr \<times> ustr \<Rightarrow> report_draft option" where
  "mem_report_view s k = map_option (\<lambda>h. mr_heap s ! h) (map_of (mr_reports s) (snd k))"

definition mem_reports_wf :: "mem_reports \<Rightarrow> bool" where
  "mem_reports_wf s \<longleftrightarrow>
     (\<forall>i h. map_of (mr_reports s) i = Some h \<longrightarrow> h < length (mr_heap s) \<and> rd_report_id (mr_heap s ! h) = i)"

lemma mem_reports_wfD:
  "mem_reports_wf s \<Longrightarrow> map_of (mr_reports s) i = Some h \<Longrightarrow>
     h < length (mr_heap s) \<and> rd_report_id (mr_heap s ! h) = i"
  by (simp add: mem_reports_wf_def)

interpretation mem_report: report_store mem_report_repo mem_report_view mem_reports_wf
  "\<lambda>s h. h < length (mr_heap s)"
proof (unfold_locales, goal_cases)
  case (1 s c i)
  then show ?case
    by (auto simp: mem_report_repo_def mem_report_get_def mem_report_view_def dest: mem_reports_wfD
        split: option.splits)
next
  case (2 s h d h' s')
  then have s': "h' = h" "s' = s\<lparr>mr_heap := (mr_heap s)[h := d]\<rparr>"
    by (auto simp: mem_report_repo_def)
  have "mem_reports_wf s'"
    using 2(1-3) unfolding mem_reports_wf_def s'(2)
    by (auto simp: mem_report_repo_def nth_list_update)
  then show ?case
    using 2(2) by (simp add: s' mem_report_repo_def mem_report_view_def)
next
  case (3 s h c n)
  then show ?case
    by (auto simp: mem_report_repo_def mem_report_save_def mem_report_view_def mem_reports_wf_def)
qed

definition sql_report_view :: "report_row list \<Rightarrow> ustr \<times> ustr \<Rightarrow> report_draft option" where
  "sql_report_view rows k =
     map_option rw_payload (find (\<lambda>r. rw_id r = snd k \<and> rw_tenant_id r = fst k) rows)"

definition sql_reports_wf :: "report_row list \<Rightarrow> bool" where
  "sql_reports_wf rows \<longleftrightarrow>
     distinct (map rw_id rows) \<and> (\<forall>r \<in> set rows. rd_report_id (rw_payload r) = rw_id r)"

lemma sql_report_get_eq:
  assumes "sql_reports_wf rows"
  shows "sql_report_get i (Some c) rows = (Inr (sql_report_view rows (rc_tenant_id c, i)), rows)"
proof -
  have "scalar_one_or_none (filter (\<lambda>r. rw_id r = i \<and> rw_tenant_id r = rc_tenant_id c) rows) =
      Inr (find (\<lambda>r. rw_id r = i \<and> rw_tenant_id r = rc_tenant_id c) rows)"
    by (rule filter_scalar [where key = rw_id and k = i]) (use assms in \<open>auto simp: sql_reports_wf_def\<close>)
  then show ?thesis by (simp add: sql_report_get_def sql_report_view_def)
qed

lemma sql_report_save_eq:
  assumes "sql_reports_wf rows" "sql_report_view rows (rc_tenant_id c, rd_report_id d) \<noteq> None"
  shows "\<exists>rows'. sql_report_save d (Some c) rows = (Inr d, rows') \<and> sql_reports_wf rows' \<and>
    sql_report_view rows' (rc_tenant_id c, rd_report_id d) = Some d"
proof -
  let ?P = "\<lambda>r. rw_id r = rd_report_id d \<and> rw_tenant_id r = rc_tenant_id c"
  have dist: "distinct (map rw_id rows)" using assms(1) by (simp add: sql_reports_wf_def)
  obtain row where row: "row \<in> set rows" "?P row"
    using assms(2) by (auto simp: sql_report_view_def dest: find_SomeD)
  have find: "find (\<lambda>r. rw_id r = rd_report_id d) rows = Some row"
    by (rule find_distinct_key [OF dist row(1)]) (use row(2) in auto)
  let ?new = "row\<lparr>rw_status := rd_status d, rw_payload := d, rw_version := rw_version row + 1\<rparr>"
  have "find ?P (update_row rw_id ?new rows) = Some ?new"
    using find_update_row [OF dist row(1), of ?new ?P "rd_report_id d"] row(2) by simp
  then have "sql_report_view (update_row rw_id ?new rows) (rc_tenant_id c, rd_report_id d) = Some d"
    by (simp add: sql_report_view_def)
  moreover have "sql_reports_wf (update_row rw_id ?new rows)"
    using assms(1) row by (auto simp: sql_reports_wf_def set_update_row)
  moreover have "sql_report_save d (Some c) rows = (Inr d, update_row rw_id ?new rows)"
    using find row(2) by (simp add: sql_report_save_def)
  ultimately show ?thesis by blast
qed

interpretation sql_report: report_store sql_report_repo sql_report_view sql_reports_wf "\<lambda>_ _. True"
proof (unfold_locales, goal_cases)
  case (1 s i c)
  have "rd_report_id d = i" if "sql_report_view s (rc_tenant_id c, i) = Some d" for d
    using that 1 by (auto simp: sql_report_view_def sql_reports_wf_def dest: find_SomeD)
  with 1 show ?case by (auto simp: sql_report_repo_def sql_report_get_eq split: option.split)
next
  case (2 s h d h' s')
  then show ?case by (auto simp: sql_report_repo_def)
next
  case (3 s h c n)
  from sql_report_save_eq [OF 3(1), of c h] 3(3) show ?case by (simp add: sql_report_repo_def)
qed

interpretation sql_submission: report_submission sql_report_repo sql_report_view sql_reports_wf "\<lambda>_ _. True"
  sql_idem_repo sql_memo sql_idem_wf
  by unfold_locales

interpretation mem_submission: report_submission mem_report_repo mem_report_view mem_reports_wf
  "\<lambda>s h. h < length (mr_heap s)" mem_idem_repo map_of "\<lambda>_. True"
  by unfold_locales

section \<open>Properties\<close>

text \<open>
  C36: A daily report is evidence based: of all events with the same project and normalised title it keeps
  exactly one, of maximal confidence, in the order the titles first appear; its evidence ids are those of
  the kept events, and every line of its sections is the line of an event given to it with that status.
\<close>

theorem daily_report_is_evidence_based:
  "map (dedup_key lower) (deduplicate lower events) =
      rev (remdups (rev (map (dedup_key lower) events))) \<and>
    (\<forall>e \<in> set (deduplicate lower events). e \<in> set events \<and>
       (\<forall>x \<in> set events. dedup_key lower x = dedup_key lower e \<longrightarrow> we_confidence x \<le> we_confidence e)) \<and>
    rd_evidence_event_ids (daily_draft lower uuid report_date events warnings) =
      map we_event_id (deduplicate lower events) \<and>
    (\<forall>(section, status) \<in> {(rd_completed, Completed_w), (rd_in_progress, In_progress_w),
         (rd_risks, Blocked_w), (rd_plans, Planned_w)}.
       \<forall>line \<in> set (section (daily_draft lower uuid report_date events warnings)).
         \<exists>e \<in> set events. line = report_line e \<and> we_status e = status)"
proof -
  have sub: "e \<in> set events" if "e \<in> set (deduplicate lower events)" for e
    using deduplicate_best(2) [OF that] by blast
  then have lines: "\<exists>e \<in> set events. line = report_line e \<and> we_status e = st"
    if "line \<in> set (map report_line (events_with st (deduplicate lower events)))" for line st
    using that by (auto simp: events_with_def)
  show ?thesis
    using deduplicate_best [where lower = lower and events = events] lines by (simp add: daily_draft_def Let_def)
qed

text \<open>The same work reported by two sources, one of them less certain.\<close>

definition demo_events :: "work_event list" where
  "demo_events =
     [(WorkEvent (U ''e1'') (U ''Fix'') Completed_w)\<lparr>we_confidence := 1 / 2\<rparr>,
      WorkEvent (U ''e2'') (U ''Fix'') Completed_w]"

lemma demo_deduplicate:
  "deduplicate id demo_events = [WorkEvent (U ''e2'') (U ''Fix'') Completed_w]"
  by (simp add: deduplicate_def demo_events_def dedup_key_def WorkEvent_def)

theorem daily_report_is_evidence_based_witness:
  "rd_evidence_event_ids (daily_draft id [] [] demo_events []) = [U ''e2''] \<and>
   WorkEvent (U ''e2'') (U ''Fix'') Completed_w \<in> set demo_events"
  using daily_report_is_evidence_based [of id demo_events "[]" "[]" "[]"]
  by (simp add: demo_deduplicate) (simp add: WorkEvent_def)

text \<open>
  The report system only ever receives a report of the caller's tenant that is approved, passes the
  sensitive-data guard and was not submitted before, from a caller with the scope \<open>report:submit\<close>: in all
  other cases the outcome of a submission does not depend on the report system at all.
\<close>

theorem sql_report_leaves_only_if_approved:
  assumes "sql_reports_wf (of_reports s)" "sql_idem_wf (of_idem s)"
    and "report_submit sql_report_repo sql_idem_repo u dump f i c s \<noteq>
      report_submit sql_report_repo sql_idem_repo u dump g i c s"
  shows "U ''report:submit'' \<in> rc_permission_scopes c \<and>
    sql_memo (of_idem s) (rc_tenant_id c, U ''report.submit'', i) = None \<and>
    (\<exists>d. sql_report_view (of_reports s) (rc_tenant_id c, i) = Some d \<and> rd_status d = Approved_r \<and>
      findings u (dump d) = [])"
  by (rule sql_submission.submit_to_guard [OF assms])

text \<open>
  C3: Submission is idempotent: once a report has been submitted, submitting it again (a retry of the
  request, with whatever the report system would now answer) returns the same submission and changes
  nothing, even when other requests ran while the first one waited for the report system, as long as they
  keep the tables well formed and do not delete the report.
\<close>

theorem sql_report_submit_once:
  assumes "sql_reports_wf (of_reports s)" "sql_idem_wf (of_idem s)"
    and "\<forall>d k c s x s' t. f d k c s = (x, s') \<longrightarrow> sql_reports_wf (of_reports s) \<longrightarrow> sql_idem_wf (of_idem s) \<longrightarrow>
        sql_reports_wf (of_reports s') \<and> sql_idem_wf (of_idem s') \<and>
        (sql_report_view (of_reports s) t \<noteq> None \<longrightarrow> sql_report_view (of_reports s') t \<noteq> None)"
    and "report_submit sql_report_repo sql_idem_repo u dump f i c s = (Inr sub, s')"
  shows "report_submit sql_report_repo sql_idem_repo u dump g i c s' = (Inr sub, s')"
proof -
  have "sql_submission.rely f"
    unfolding sql_submission.rely_def using assms(3) by (simp add: sql_report_repo_def)
  from sql_submission.submit_again [OF assms(1,2) this assms(4)] show ?thesis by blast
qed

text \<open>
  In the database a report is invisible to other tenants: reviewing or submitting an id that only
  another tenant has fails as not found and changes nothing.
\<close>

theorem sql_reports_isolated:
  assumes "sql_reports_wf (of_reports s)" "sql_report_view (of_reports s) (rc_tenant_id c, i) = None"
    and "{U ''report:review'', U ''report:submit''} \<subseteq> rc_permission_scopes c"
  shows "report_review sql_report_repo i ok comment c s = (Inl (Exn KeyErr i), s) \<and>
    report_submit sql_report_repo I u dump f i c s = (Inl (Exn KeyErr i), s)"
  using sql_report.the_report_cases [OF assms(1), of c i] assms(2,3)
  by (auto simp: report_review_def report_submit_def lift_res_def permission_require_def)

text \<open>
  The in-process repository has no such isolation: a reviewer of any tenant can approve or reject any
  stored report.
\<close>

theorem mem_reports_not_isolated:
  assumes "mem_reports_wf (of_reports s)" "map_of (mr_reports (of_reports s)) i = Some h"
    and "U ''report:review'' \<in> rc_permission_scopes c"
  shows "\<exists>h' s'. report_review mem_report_repo i ok comment c s = (Inr h', s') \<and>
    mem_report_view (of_reports s') (t, i) = Some (reviewed_report ok comment (mr_heap (of_reports s) ! h))"
proof -
  have "mem_report_view (of_reports s) (rc_tenant_id c, i) = Some (mr_heap (of_reports s) ! h)"
    using assms(2) by (simp add: mem_report_view_def)
  from mem_report.review_outcome [OF assms(1,3) this, of ok comment] show ?thesis
    by (auto simp: mem_report_view_def)
qed

text \<open>One approved report and a report system that accepts it, for the witnesses.\<close>

definition demo_draft :: report_draft where
  "demo_draft = (daily_draft id (U ''r1'') (U ''2026-07-28'') demo_events [])\<lparr>rd_status := Approved_r\<rparr>"

definition demo_report_context :: request_context where
  "demo_report_context =
     (RequestContext [] [] (U ''th'') (U ''tenant-a'') (U ''op-a''))
       \<lparr>rc_permission_scopes := {U ''report:review'', U ''report:submit''}\<rparr>"

definition demo_office :: "(report_row list, unit, idem_row list, nat) office" where
  "demo_office =
     \<lparr>of_reports = snd (sql_report_save demo_draft (Some demo_report_context) []), of_meetings = (),
      of_idem = [], of_audit = \<lparr>au_records = [], au_repository = None\<rparr>, of_ext = 0\<rparr>"

definition demo_submit_to ::
  "report_draft \<Rightarrow> ustr \<Rightarrow> request_context \<Rightarrow> ('r, 'm, 'i, nat) office \<Rightarrow> jdict res \<times> ('r, 'm, 'i, nat) office" where
  "demo_submit_to d k c s = (Inr [(U ''submission_id'', JStr (U ''s1''))], s\<lparr>of_ext := of_ext s + 1\<rparr>)"

definition demo_submission :: "report_submission res \<times> (report_row list, unit, idem_row list, nat) office" where
  "demo_submission = report_submit sql_report_repo sql_idem_repo demo_unicode (\<lambda>_. []) demo_submit_to
     (U ''r1'') demo_report_context demo_office"

lemma demo_office_wf:
  "sql_reports_wf (of_reports demo_office)" "sql_idem_wf (of_idem demo_office)"
  "sql_report_view (of_reports demo_office) (U ''tenant-a'', U ''r1'') = Some demo_draft"
  "rd_status demo_draft = Approved_r" "rd_report_id demo_draft = U ''r1''"
  by (simp_all add: sql_reports_wf_def sql_idem_wf_def demo_office_def sql_report_save_def demo_draft_def
      daily_draft_def Let_def sql_report_view_def demo_report_context_def RequestContext_def)

lemma demo_findings: "findings demo_unicode [] = []"
  by (simp add: findings_def credential_at_def credential_words_def fixed_token_def U_def boundary_def
      word_opt_def head_def)

lemma demo_context_facts:
  "rc_tenant_id demo_report_context = U ''tenant-a''"
  "rc_permission_scopes demo_report_context = {U ''report:review'', U ''report:submit''}"
  by (simp_all add: demo_report_context_def RequestContext_def)

lemma demo_lookups:
  "sql_report_get (U ''r1'') (Some demo_report_context) (of_reports demo_office) =
     (Inr (Some demo_draft), of_reports demo_office)"
  "sql_idem_get (U ''report.submit'') (U ''r1'') demo_report_context (of_idem demo_office) =
     (Inr None, of_idem demo_office)"
  using sql_report_get_eq [OF demo_office_wf(1)]
  by (simp add: demo_office_wf demo_context_facts, simp add: demo_office_def sql_idem_get_def)

lemmas demo_submit_defs = report_submit_def lift_res_def permission_require_def demo_context_facts
  the_report_def on_reports_def sql_report_repo_def on_idem_def idem_get_def sql_idem_repo_def
  demo_office_wf require_shareable_def demo_findings demo_submit_to_def Let_def demo_lookups

lemma demo_submission_result:
  "fst demo_submission = Inr \<lparr>rs_report_id = U ''r1'', rs_submission_id = U ''s1''\<rparr>"
  "of_ext (snd demo_submission) = 1"
proof -
  obtain rows where save: "sql_report_save (demo_draft\<lparr>rd_status := Submitted_r\<rparr>) (Some demo_report_context)
      (of_reports demo_office) = (Inr (demo_draft\<lparr>rd_status := Submitted_r\<rparr>), rows)"
    using sql_report_save_eq [OF demo_office_wf(1), of demo_report_context "demo_draft\<lparr>rd_status := Submitted_r\<rparr>"]
    by (auto simp: demo_office_wf demo_context_facts)
  show "fst demo_submission = Inr \<lparr>rs_report_id = U ''r1'', rs_submission_id = U ''s1''\<rparr>"
    "of_ext (snd demo_submission) = 1"
    using save
    by (simp_all add: demo_submission_def demo_submit_defs record_audit_def getitem_def str_field_def
        remember_def sql_idem_save_def, simp_all add: demo_office_def)
qed

theorem sql_report_leaves_only_if_approved_witness:
  "\<exists>d. sql_report_view (of_reports demo_office) (U ''tenant-a'', U ''r1'') = Some d \<and> rd_status d = Approved_r \<and>
     findings demo_unicode [] = []"
proof -
  let ?g = "\<lambda>d k c s. (Inl (Exn RuntimeErr []), s)"
  have "fst (report_submit sql_report_repo sql_idem_repo demo_unicode (\<lambda>_. []) ?g (U ''r1'')
      demo_report_context demo_office) \<noteq> Inr \<lparr>rs_report_id = U ''r1'', rs_submission_id = U ''s1''\<rparr>"
    by (simp add: demo_submit_defs)
  with demo_submission_result(1) have
    "report_submit sql_report_repo sql_idem_repo demo_unicode (\<lambda>_. []) demo_submit_to (U ''r1'')
      demo_report_context demo_office \<noteq>
     report_submit sql_report_repo sql_idem_repo demo_unicode (\<lambda>_. []) ?g (U ''r1'')
      demo_report_context demo_office"
    unfolding demo_submission_def by metis
  from sql_report_leaves_only_if_approved [OF demo_office_wf(1,2) this] show ?thesis
    by (simp add: demo_context_facts)
qed

theorem sql_report_submit_once_witness:
  "\<exists>s' :: (report_row list, unit, idem_row list, nat) office. report_submit sql_report_repo sql_idem_repo demo_unicode (\<lambda>_. []) demo_submit_to (U ''r1'')
      demo_report_context s' = (Inr \<lparr>rs_report_id = U ''r1'', rs_submission_id = U ''s1''\<rparr>, s') \<and> of_ext s' = 1"
proof -
  let ?s = "snd demo_submission"
  have run: "report_submit sql_report_repo sql_idem_repo demo_unicode (\<lambda>_. []) demo_submit_to (U ''r1'')
      demo_report_context demo_office = (Inr \<lparr>rs_report_id = U ''r1'', rs_submission_id = U ''s1''\<rparr>, ?s)"
    using demo_submission_result(1) unfolding demo_submission_def by (simp add: prod_eq_iff)
  have "report_submit sql_report_repo sql_idem_repo demo_unicode (\<lambda>_. []) demo_submit_to (U ''r1'')
      demo_report_context ?s = (Inr \<lparr>rs_report_id = U ''r1'', rs_submission_id = U ''s1''\<rparr>, ?s)"
    by (rule sql_report_submit_once [OF demo_office_wf(1,2) _ run]) (auto simp: demo_submit_to_def)
  then show ?thesis using demo_submission_result(2) by blast
qed

theorem sql_reports_isolated_witness:
  "report_review sql_report_repo (U ''r1'') True None (demo_report_context\<lparr>rc_tenant_id := U ''tenant-b''\<rparr>)
     demo_office = (Inl (Exn KeyErr (U ''r1'')), demo_office)"
proof -
  have "sql_report_view (of_reports demo_office) (U ''tenant-b'', U ''r1'') = None"
    by (simp add: demo_office_def sql_report_save_def sql_report_view_def demo_draft_def daily_draft_def
        Let_def demo_context_facts)
  with sql_reports_isolated [OF demo_office_wf(1), of "demo_report_context\<lparr>rc_tenant_id := U ''tenant-b''\<rparr>"
      "U ''r1''"] show ?thesis
    by (simp add: demo_context_facts)
qed

definition demo_mem_office :: "(mem_reports, unit, mem_idem, nat) office" where
  "demo_mem_office =
     \<lparr>of_reports = \<lparr>mr_heap = [demo_draft], mr_reports = [(U ''r1'', 0)]\<rparr>, of_meetings = (), of_idem = [],
      of_audit = \<lparr>au_records = [], au_repository = None\<rparr>, of_ext = 0\<rparr>"

theorem mem_reports_not_isolated_witness:
  "\<exists>h s'. report_review mem_report_repo (U ''r1'') False None
      (demo_report_context\<lparr>rc_tenant_id := U ''tenant-b''\<rparr>) demo_mem_office = (Inr h, s') \<and>
    mem_report_view (of_reports s') (U ''tenant-a'', U ''r1'') = Some (reviewed_report False None demo_draft)"
proof -
  let ?c = "demo_report_context\<lparr>rc_tenant_id := U ''tenant-b''\<rparr>"
  have "mem_reports_wf (of_reports demo_mem_office)"
    "map_of (mr_reports (of_reports demo_mem_office)) (U ''r1'') = Some 0"
    "U ''report:review'' \<in> rc_permission_scopes ?c"
    by (simp_all add: mem_reports_wf_def demo_mem_office_def demo_context_facts demo_office_wf)
  from mem_reports_not_isolated [OF this, of False None "U ''tenant-a''"] show ?thesis
    by (simp add: demo_mem_office_def)
qed

end
