(* ===== verification/Meetings.thy ===== *)
theory Meetings
  imports Office Draft_Store
begin

text \<open>
  \<open>MeetingMinutesService\<close> (\<open>app/domain/meeting_minutes.py\<close>) with its two repositories
  (\<open>app/repositories/meetings.py\<close>). As for reports, a draft is reached through a handle.
\<close>

section \<open>Repositories\<close>

record ('m, 'h) minutes_repo =
  mt_obj :: "'m \<Rightarrow> 'h \<Rightarrow> minutes_draft"
  mt_assign :: "'h \<Rightarrow> minutes_draft \<Rightarrow> 'm \<Rightarrow> 'h \<times> 'm"
  mt_new :: "minutes_draft \<Rightarrow> 'm \<Rightarrow> 'h \<times> 'm"
  mt_save :: "instant \<Rightarrow> 'h \<Rightarrow> request_context \<Rightarrow> 'm \<Rightarrow> 'h res \<times> 'm"
  mt_get :: "ustr \<Rightarrow> request_context \<Rightarrow> 'm \<Rightarrow> 'h option res \<times> 'm"
  mt_list_recent :: "request_context \<Rightarrow> nat \<Rightarrow> 'm \<Rightarrow> 'h list"

text \<open>In process: the drafts by tenant and meeting, and who saved each of them first.\<close>

record mem_minutes =
  mn_heap :: "minutes_draft list"
  mn_drafts :: "((ustr \<times> ustr) \<times> nat) list"
  mn_owners :: "((ustr \<times> ustr) \<times> ustr) list"

definition mem_minutes_save ::
  "instant \<Rightarrow> nat \<Rightarrow> request_context \<Rightarrow> mem_minutes \<Rightarrow> nat res \<times> mem_minutes" where
  "mem_minutes_save now h context s =
     (let key = (rc_tenant_id context, mm_meeting_id (mn_heap s ! h)) in
      (Inr h, s\<lparr>mn_drafts := AList.update key h (mn_drafts s),
                mn_owners := (case map_of (mn_owners s) key of
                                None \<Rightarrow> AList.update key (rc_operator_id context) (mn_owners s)
                              | Some _ \<Rightarrow> mn_owners s)\<rparr>))"

definition mem_minutes_get ::
  "ustr \<Rightarrow> request_context \<Rightarrow> mem_minutes \<Rightarrow> nat option res \<times> mem_minutes" where
  "mem_minutes_get meeting_id context s =
     (Inr (map_of (mn_drafts s) (rc_tenant_id context, meeting_id)), s)"

definition mem_minutes_list :: "request_context \<Rightarrow> nat \<Rightarrow> mem_minutes \<Rightarrow> nat list" where
  "mem_minutes_list context limit s =
     take limit (map snd (filter
       (\<lambda>(key, h). fst key = rc_tenant_id context \<and>
          map_of (mn_owners s) key = Some (rc_operator_id context))
       (rev (mn_drafts s))))"

definition mem_minutes_repo :: "(mem_minutes, nat) minutes_repo" where
  "mem_minutes_repo =
     \<lparr>mt_obj = (\<lambda>s h. mn_heap s ! h),
      mt_assign = (\<lambda>h d s. (h, s\<lparr>mn_heap := (mn_heap s)[h := d]\<rparr>)),
      mt_new = (\<lambda>d s. (length (mn_heap s), s\<lparr>mn_heap := mn_heap s @ [d]\<rparr>)),
      mt_save = mem_minutes_save, mt_get = mem_minutes_get, mt_list_recent = mem_minutes_list\<rparr>"

text \<open>
  In the database. The payload is the dumped draft; reading it back gives an equal draft. Rows created at
  the same instant are listed in the order of the table, latest first otherwise.
\<close>

record minutes_row =
  mw_tenant_id :: ustr
  mw_created_by :: ustr
  mw_created_at :: instant
  mw_meeting_id :: ustr
  mw_status :: minutes_status
  mw_payload :: minutes_draft
  mw_version :: int

definition mw_key :: "minutes_row \<Rightarrow> ustr \<times> ustr" where
  "mw_key r = (mw_tenant_id r, mw_meeting_id r)"

definition select_minutes :: "ustr \<times> ustr \<Rightarrow> minutes_row list \<Rightarrow> minutes_row option res" where
  "select_minutes key rows = scalar_one_or_none (filter (\<lambda>r. mw_key r = key) rows)"

definition sql_minutes_save ::
  "instant \<Rightarrow> minutes_draft \<Rightarrow> request_context \<Rightarrow> minutes_row list \<Rightarrow>
   minutes_draft res \<times> minutes_row list" where
  "sql_minutes_save now draft context rows =
     (case select_minutes (rc_tenant_id context, mm_meeting_id draft) rows of
        Inl e \<Rightarrow> (Inl e, rows)
      | Inr None \<Rightarrow>
          (Inr draft, rows @
            [\<lparr>mw_tenant_id = rc_tenant_id context, mw_created_by = rc_operator_id context,
              mw_created_at = now, mw_meeting_id = mm_meeting_id draft, mw_status = mm_status draft,
              mw_payload = draft, mw_version = 1\<rparr>])
      | Inr (Some record) \<Rightarrow>
          (Inr draft, update_row mw_key
            (record\<lparr>mw_status := mm_status draft, mw_payload := draft,
                    mw_version := mw_version record + 1\<rparr>) rows))"

definition sql_minutes_get ::
  "ustr \<Rightarrow> request_context \<Rightarrow> minutes_row list \<Rightarrow> minutes_draft option res \<times> minutes_row list" where
  "sql_minutes_get meeting_id context rows =
     (map_sum id (map_option mw_payload) (select_minutes (rc_tenant_id context, meeting_id) rows), rows)"

definition sql_minutes_list :: "request_context \<Rightarrow> nat \<Rightarrow> minutes_row list \<Rightarrow> minutes_draft list" where
  "sql_minutes_list context limit rows =
     map mw_payload (take limit (sort_key (\<lambda>r. - mw_created_at r)
       (filter (\<lambda>r. mw_tenant_id r = rc_tenant_id context \<and>
                    mw_created_by r = rc_operator_id context) rows)))"

definition sql_minutes_repo :: "(minutes_row list, minutes_draft) minutes_repo" where
  "sql_minutes_repo =
     \<lparr>mt_obj = (\<lambda>s d. d), mt_assign = (\<lambda>h d s. (d, s)), mt_new = (\<lambda>d s. (d, s)),
      mt_save = sql_minutes_save, mt_get = sql_minutes_get, mt_list_recent = sql_minutes_list\<rparr>"

section \<open>Generating minutes\<close>

text \<open>\<open>any(marker in text for marker in markers)\<close>\<close>

definition has_marker :: "ustr list \<Rightarrow> transcript_segment \<Rightarrow> bool" where
  "has_marker markers seg \<longleftrightarrow> list_ex (\<lambda>m. contains m (ts_text seg)) markers"

definition decision_markers :: "ustr list" where
  "decision_markers = [[20915, 23450], [20915, 35758], [30830, 35748]]"

definition action_markers :: "ustr list" where
  "action_markers = [[36127, 36131], [36319, 36827], [23436, 25104]]"

definition segment_decision :: "transcript_segment \<Rightarrow> meeting_decision" where
  "segment_decision seg = \<lparr>md_content = ts_text seg, md_evidence_segment_ids = [ts_segment_id seg]\<rparr>"

definition segment_action :: "transcript_segment \<Rightarrow> action_item" where
  "segment_action seg =
     \<lparr>ai_content = ts_text seg, ai_owner_id = None, ai_owner_name = None, ai_due_date = None,
      ai_status = Open_a, ai_evidence_segment_ids = [ts_segment_id seg]\<rparr>"

definition minutes_warnings :: "transcript_segment list \<Rightarrow> ustr list" where
  "minutes_warnings segments =
     (if segments = [] then [[27809, 26377, 21487, 29992, 30340, 36716, 20889, 29255, 27573, 65292, 26080, 27861, 29983, 25104, 26377, 35777, 25454, 30340, 32426, 35201, 12290]] else []) @
     (if filter (has_marker action_markers) segments \<noteq> []
      then [[34892, 21160, 39033, 36127, 36131, 20154, 21644, 25130, 27490, 26085, 26399, 38656, 35201, 20154, 24037, 30830, 35748, 12290]] else []) @
     (let low = map ts_segment_id (filter (\<lambda>seg. ts_confidence seg < float_0_6) segments) in
      if low \<noteq> [] then [[20302, 32622, 20449, 24230, 36716, 20889, 29255, 27573, 65306] @ join (U '', '') low] else [])"

text \<open>
  \<open>zone_date tz t\<close> is the local date of the instant in the named time zone, \<open>None\<close> if the zone is not
  known; \<open>system_date\<close> that of the machine's zone. A \<open>meeting_date\<close> that is empty counts as missing.
\<close>

definition minutes_draft_of ::
  "(ustr \<Rightarrow> instant \<Rightarrow> ustr option) \<Rightarrow> (instant \<Rightarrow> ustr) \<Rightarrow> instant \<Rightarrow> ustr \<Rightarrow> ustr \<Rightarrow>
   transcript_segment list \<Rightarrow> request_context \<Rightarrow> ustr option \<Rightarrow> minutes_draft" where
  "minutes_draft_of zone_date system_date now meeting_id title segments context meeting_date =
     (let today = (case zone_date (rc_timezone context) now of Some d \<Rightarrow> d | None \<Rightarrow> system_date now) in
      \<lparr>mm_meeting_id = meeting_id, mm_title = title,
       mm_summary = join (U '' '') (map ts_text segments),
       mm_evidence_segment_ids = map ts_segment_id segments,
       mm_warnings = minutes_warnings segments, mm_status = Draft_m, mm_review_comment = None,
       mm_participants = [], mm_topics = [],
       mm_decisions = map segment_decision (filter (has_marker decision_markers) segments),
       mm_action_items = map segment_action (filter (has_marker action_markers) segments),
       mm_risks = [], mm_open_questions = [], mm_version = 1, mm_content_sha256 = None,
       mm_meeting_date = Some (case meeting_date of Some (c # cs) \<Rightarrow> c # cs | _ \<Rightarrow> today),
       mm_generated_at = Some now\<rparr>)"

definition minutes_generate ::
  "('m, 'h) minutes_repo \<Rightarrow> (ustr \<Rightarrow> instant \<Rightarrow> ustr option) \<Rightarrow> (instant \<Rightarrow> ustr) \<Rightarrow> instant \<Rightarrow>
   ustr \<Rightarrow> ustr \<Rightarrow> transcript_segment list \<Rightarrow> request_context \<Rightarrow> ustr option \<Rightarrow> 'm \<Rightarrow> 'h res \<times> 'm" where
  "minutes_generate M zone_date system_date now meeting_id title segments context meeting_date s =
     (case mt_new M (minutes_draft_of zone_date system_date now meeting_id title segments context
                       meeting_date) s of
        (h, s) \<Rightarrow> mt_save M now h context s)"

definition list_for_report ::
  "('m, 'h) minutes_repo \<Rightarrow> ustr \<Rightarrow> ustr \<Rightarrow> request_context \<Rightarrow> 'm \<Rightarrow> minutes_draft list" where
  "list_for_report M date_from date_to context s =
     filter (\<lambda>item. mm_status item \<in> {Approved_m, Sent_m} \<and>
               (case mm_meeting_date item of
                  None \<Rightarrow> False | Some d \<Rightarrow> date_from \<le> d \<and> d \<le> date_to))
       (map (mt_obj M s) (mt_list_recent M context 200 s))"

section \<open>Review and sending\<close>

text \<open>\<open>sha d\<close> is the digest of the dumped draft without its \<open>content_sha256\<close>.\<close>

definition reviewed_minutes ::
  "(minutes_draft \<Rightarrow> ustr) \<Rightarrow> bool \<Rightarrow> ustr option \<Rightarrow> minutes_draft \<Rightarrow> minutes_draft" where
  "reviewed_minutes sha approved comment d0 =
     (let d = d0\<lparr>mm_status := (if approved then Approved_m else Rejected_m),
                 mm_review_comment := comment, mm_version := mm_version d0 + 1\<rparr>
      in if approved then d\<lparr>mm_content_sha256 := Some (sha d)\<rparr> else d)"

definition the_minutes ::
  "('m, 'h) minutes_repo \<Rightarrow> ustr \<Rightarrow> request_context \<Rightarrow> ('r, 'm, 'i, 'c) office \<Rightarrow>
   'h res \<times> ('r, 'm, 'i, 'c) office" where
  "the_minutes M meeting_id context s =
     bnd (on_meetings (mt_get M meeting_id context) s)
       (\<lambda>draft s. case draft of None \<Rightarrow> (Inl (Exn KeyErr meeting_id), s) | Some h \<Rightarrow> (Inr h, s))"

definition minutes_review ::
  "('m, 'h) minutes_repo \<Rightarrow> (minutes_draft \<Rightarrow> ustr) \<Rightarrow> instant \<Rightarrow> ustr \<Rightarrow> bool \<Rightarrow> ustr option \<Rightarrow>
   request_context \<Rightarrow> ('r, 'm, 'i, 'c) office \<Rightarrow> 'h res \<times> ('r, 'm, 'i, 'c) office" where
  "minutes_review M sha now meeting_id approved comment context s =
     bnd (lift_res (permission_require context (U ''meeting:review'')) s) (\<lambda>_ s.
     bnd (the_minutes M meeting_id context s) (\<lambda>h s.
       case on_meetings (mt_assign M h
              (reviewed_minutes sha approved comment (mt_obj M (of_meetings s) h))) s of
         (h, s) \<Rightarrow>
           on_meetings (mt_save M now h context)
             (record_audit (U ''meeting_minutes.review'') context meeting_id s)))"

text \<open>\<open>send_email\<close> is given subject, body, idempotency key and context.\<close>

definition minutes_key :: "request_context \<Rightarrow> ustr \<Rightarrow> ustr" where
  "minutes_key context meeting_id = rc_tenant_id context @ U '':'' @ meeting_id"

definition minutes_send ::
  "('m, 'h) minutes_repo \<Rightarrow> 'i idem_repo \<Rightarrow> unicode \<Rightarrow>
   (ustr \<Rightarrow> ustr \<Rightarrow> ustr \<Rightarrow> request_context \<Rightarrow> ('r, 'm, 'i, 'c) office \<Rightarrow> jdict res \<times> ('r, 'm, 'i, 'c) office) \<Rightarrow>
   instant \<Rightarrow> ustr \<Rightarrow> request_context \<Rightarrow> ('r, 'm, 'i, 'c) office \<Rightarrow>
   email_status res \<times> ('r, 'm, 'i, 'c) office" where
  "minutes_send M I u send_email now meeting_id context s =
     bnd (lift_res (permission_require context (U ''meeting:send'')) s) (\<lambda>_ s.
     bnd (on_idem (idem_get I (U ''meeting_minutes.send'') meeting_id context) s) (\<lambda>existing s.
       case existing of
         Some d \<Rightarrow> lift_res (validate_email_status d) s
       | None \<Rightarrow>
           bnd (the_minutes M meeting_id context s) (\<lambda>h s.
           let draft = mt_obj M (of_meetings s) h in
           if mm_status draft \<noteq> Approved_m
           then (Inl (Exn ValueErr (U ''meeting minutes must be approved before sending'')), s)
           else
             bnd (lift_res (require_shareable u (mm_title draft @ [10] @ mm_summary draft)) s) (\<lambda>_ s.
             bnd (send_email (mm_title draft) (mm_summary draft) (minutes_key context meeting_id) context s)
               (\<lambda>sent s.
               case on_meetings (mt_assign M h
                      ((mt_obj M (of_meetings s) h)\<lparr>mm_status := Sent_m\<rparr>)) s of
                 (h, s) \<Rightarrow>
                   bnd (on_meetings (mt_save M now h context) s) (\<lambda>_ s.
                   bnd (lift_res (getitem sent (U ''message_id'')) s) (\<lambda>v s.
                   bnd (lift_res (str_field v) s) (\<lambda>mid s.
                   let s = record_audit (U ''meeting_minutes.send'') context meeting_id s in
                   bnd (on_idem (remember I (U ''meeting_minutes.send'') meeting_id
                          (dump_email_status \<lparr>es_meeting_id = meeting_id, es_message_id = mid\<rparr>) context) s)
                     (\<lambda>stored s. lift_res (validate_email_status stored) s)))))))))"

lemma the_minutes_idem: "of_idem (snd (the_minutes M i c s)) = of_idem s"
  unfolding the_minutes_def by (rule bnd_frame [where g = of_idem]) (simp_all split: option.split)

lemma minutes_review_idem: "of_idem (snd (minutes_review M sha n i ok comment c s)) = of_idem s"
  unfolding minutes_review_def
  by (rule bnd_frame [where g = of_idem], simp, rule bnd_frame [where g = of_idem])
     (simp_all add: the_minutes_idem case_prod_unfold)

section \<open>The contract of a store of minutes\<close>

locale minutes_store =
  draft_store "mt_obj M" "mt_assign M" "mt_save M" "mt_get M" mm_meeting_id view inv valid
  for M :: "('m, 'h) minutes_repo" and view inv valid
begin

lemma the_minutes_cases:
  assumes "inv (of_meetings s)"
  shows "(view (of_meetings s) (rc_tenant_id c, i) = None \<and>
      the_minutes M i c s = (Inl (Exn KeyErr i), s)) \<or>
    (\<exists>h d. view (of_meetings s) (rc_tenant_id c, i) = Some d \<and> the_minutes M i c s = (Inr h, s) \<and>
      valid (of_meetings s) h \<and> mt_obj M (of_meetings s) h = d \<and> mm_meeting_id d = i)"
  by (rule get_cases [OF assms, where c = c and i = i]) (auto simp: the_minutes_def on_meetings_eq)

lemma assign_save:
  assumes "inv (of_meetings s)" "valid (of_meetings s) h"
    and "mm_meeting_id d = mm_meeting_id (mt_obj M (of_meetings s) h)"
    and "view (of_meetings s) (rc_tenant_id c, mm_meeting_id d) \<noteq> None"
    and "on_meetings (mt_assign M h d) s = (h', s1)" "of_meetings s2 = of_meetings s1"
  shows "\<exists>m. on_meetings (mt_save M n h' c) s2 = (Inr h', s2\<lparr>of_meetings := m\<rparr>) \<and> inv m \<and> valid m h' \<and>
    mt_obj M m h' = d \<and> view m (rc_tenant_id c, mm_meeting_id d) = Some d"
proof -
  obtain m1 where m1: "mt_assign M h d (of_meetings s) = (h', m1)" "of_meetings s1 = m1"
    using assms(5) by (auto simp: on_meetings_def split: prod.splits)
  from assign_then_save [OF assms(1-4) m1(1), of n] show ?thesis
    using m1(2) assms(6) by (auto simp: on_meetings_eq)
qed

lemma review_outcome:
  assumes "inv (of_meetings s)" "U ''meeting:review'' \<in> rc_permission_scopes c"
    and "view (of_meetings s) (rc_tenant_id c, i) = Some d"
  shows "\<exists>h s'. minutes_review M sha n i ok comment c s = (Inr h, s') \<and>
    view (of_meetings s') (rc_tenant_id c, i) = Some (reviewed_minutes sha ok comment d) \<and>
    of_audit s' = audit_record_event (U ''meeting_minutes.review'') c i (of_audit s)"
proof -
  from the_minutes_cases [OF assms(1), of c i] assms(3) obtain h where
    h: "the_minutes M i c s = (Inr h, s)" "valid (of_meetings s) h" "mt_obj M (of_meetings s) h = d"
      "mm_meeting_id d = i"
    by auto
  let ?d = "reviewed_minutes sha ok comment d"
  have id: "mm_meeting_id ?d = mm_meeting_id (mt_obj M (of_meetings s) h)" "mm_meeting_id ?d = i"
    using h by (simp_all add: reviewed_minutes_def Let_def)
  obtain h' s1 where a: "on_meetings (mt_assign M h ?d) s = (h', s1)" by fastforce
  have frame: "of_audit s1 = of_audit s"
    using a by (auto simp: on_meetings_def split: prod.splits)
  from assign_save [OF assms(1) h(2) id(1) _ a, of c "record_audit (U ''meeting_minutes.review'') c i s1" n]
    assms(3) id(2)
  obtain m where "on_meetings (mt_save M n h' c) (record_audit (U ''meeting_minutes.review'') c i s1) =
      (Inr h', (record_audit (U ''meeting_minutes.review'') c i s1)\<lparr>of_meetings := m\<rparr>)"
    "view m (rc_tenant_id c, i) = Some ?d"
    by (auto simp: record_audit_def)
  then show ?thesis
    using h(1,3) a assms(2) frame
    by (simp add: minutes_review_def lift_res_def permission_require_def record_audit_def)
qed

end

text \<open>
  Sending uses the minutes and the idempotency store; \<open>rely\<close> is what other requests that run while the
  mail system is awaited do not break.
\<close>

locale minutes_sending = minutes: minutes_store M view minv valid + idem: idem_store I memo iinv
  for M :: "('m, 'h) minutes_repo" and view minv valid
    and I :: "'i idem_repo" and memo iinv
begin

definition rely ::
  "(ustr \<Rightarrow> ustr \<Rightarrow> ustr \<Rightarrow> request_context \<Rightarrow> ('r, 'm, 'i, 'c) office \<Rightarrow> jdict res \<times> ('r, 'm, 'i, 'c) office) \<Rightarrow> bool" where
  "rely send_email \<longleftrightarrow>
     (\<forall>a b k c s x s' h t. send_email a b k c s = (x, s') \<longrightarrow> minv (of_meetings s) \<longrightarrow> iinv (of_idem s) \<longrightarrow>
        valid (of_meetings s) h \<longrightarrow>
        minv (of_meetings s') \<and> iinv (of_idem s') \<and> valid (of_meetings s') h \<and>
        mm_meeting_id (mt_obj M (of_meetings s') h) = mm_meeting_id (mt_obj M (of_meetings s) h) \<and>
        (view (of_meetings s) t \<noteq> None \<longrightarrow> view (of_meetings s') t \<noteq> None))"

text \<open>A remembered result is returned whatever minutes are stored, and nobody is sent anything.\<close>

lemma send_known:
  assumes "iinv (of_idem s)" "U ''meeting:send'' \<in> rc_permission_scopes c"
    and "memo (of_idem s) (rc_tenant_id c, U ''meeting_minutes.send'', i) = Some d"
  shows "minutes_send M I u f n i c s = lift_res (validate_email_status d) s"
  using idem.get [OF assms(1), of "U ''meeting_minutes.send''" i c] assms(2,3)
  by (simp add: minutes_send_def lift_res_def permission_require_def on_idem_eq idem_get_def)

lemma send_scope:
  "minutes_send M I u f n i c s = (Inr e, s') \<Longrightarrow> U ''meeting:send'' \<in> rc_permission_scopes c"
  by (auto simp: minutes_send_def lift_res_def permission_require_def bnd_def split: if_splits)

lemma send_first:
  assumes inv: "minv (of_meetings s)" "iinv (of_idem s)" and rely: "rely f"
    and none: "memo (of_idem s) (rc_tenant_id c, U ''meeting_minutes.send'', i) = None"
    and ok: "minutes_send M I u f n i c s = (Inr e, s')"
  shows "minv (of_meetings s') \<and> iinv (of_idem s') \<and>
    (\<exists>d. memo (of_idem s') (rc_tenant_id c, U ''meeting_minutes.send'', i) = Some d \<and>
       validate_email_status d = Inr e) \<and>
    (\<exists>d. view (of_meetings s) (rc_tenant_id c, i) = Some d \<and> mm_status d = Approved_m \<and>
       findings u (mm_title d @ [10] @ mm_summary d) = [])"
proof -
  let ?k = "(rc_tenant_id c, U ''meeting_minutes.send'', i)"
  note scope = send_scope [OF ok]
  have idem: "on_idem (idem_get I (U ''meeting_minutes.send'') i c) s = (Inr None, s)"
    using idem.get [OF inv(2), of "U ''meeting_minutes.send''" i c] none by (simp add: on_idem_eq idem_get_def)
  from minutes.the_minutes_cases [OF inv(1), of c i] ok scope idem obtain h where
    h: "the_minutes M i c s = (Inr h, s)" "valid (of_meetings s) h"
      "view (of_meetings s) (rc_tenant_id c, i) = Some (mt_obj M (of_meetings s) h)"
      "mm_meeting_id (mt_obj M (of_meetings s) h) = i"
    by (auto simp: minutes_send_def lift_res_def permission_require_def)
  let ?d = "mt_obj M (of_meetings s) h"
  have guard: "mm_status ?d = Approved_m" "findings u (mm_title ?d @ [10] @ mm_summary ?d) = []"
    using ok h(1) scope idem
    by (auto simp: minutes_send_def lift_res_def permission_require_def Let_def bnd_Inr_iff
        simp del: append_Cons append_Nil split: if_splits)
  obtain sent s1 where conn: "f (mm_title ?d) (mm_summary ?d) (minutes_key c i) c s = (Inr sent, s1)"
    using ok h(1) scope idem
    by (auto simp: minutes_send_def lift_res_def permission_require_def Let_def bnd_Inr_iff split: if_splits)
  from rely conn inv h(2) have s1: "minv (of_meetings s1)" "iinv (of_idem s1)" "valid (of_meetings s1) h"
    "mm_meeting_id (mt_obj M (of_meetings s1) h) = i" "view (of_meetings s1) (rc_tenant_id c, i) \<noteq> None"
    using h(3,4) unfolding rely_def by (metis option.distinct(1))+
  let ?d1 = "(mt_obj M (of_meetings s1) h)\<lparr>mm_status := Sent_m\<rparr>"
  obtain h' s2 where a: "on_meetings (mt_assign M h ?d1) s1 = (h', s2)" by fastforce
  from minutes.assign_save [OF s1(1,3) _ _ a, of c s2 n] s1(4,5) obtain m where
    m: "on_meetings (mt_save M n h' c) s2 = (Inr h', s2\<lparr>of_meetings := m\<rparr>)" "minv m"
    by auto
  let ?s3 = "record_audit (U ''meeting_minutes.send'') c i (s2\<lparr>of_meetings := m\<rparr>)"
  have s3: "of_meetings ?s3 = m" "of_idem ?s3 = of_idem s1"
    using a by (auto simp: record_audit_def on_meetings_def split: prod.splits)
  obtain v mid where
    last: "bnd (on_idem (remember I (U ''meeting_minutes.send'') i
        (dump_email_status \<lparr>es_meeting_id = i, es_message_id = mid\<rparr>) c) ?s3)
      (\<lambda>stored s. lift_res (validate_email_status stored) s) = (Inr e, s')"
    using ok h(1) scope idem conn a m(1)
    by (auto simp: minutes_send_def lift_res_def permission_require_def Let_def bnd_Inr_iff split: if_splits)
  let ?dump = "dump_email_status \<lparr>es_meeting_id = i, es_message_id = mid\<rparr>"
  obtain i' where i': "remember I (U ''meeting_minutes.send'') i ?dump c (of_idem s1) =
      (Inr (case memo (of_idem s1) ?k of None \<Rightarrow> ?dump | Some r0 \<Rightarrow> r0), i')" "iinv i'"
    "memo i' = (case memo (of_idem s1) ?k of
       None \<Rightarrow> (memo (of_idem s1))(?k \<mapsto> ?dump) | Some r0 \<Rightarrow> memo (of_idem s1))"
    using idem.remember_cases [OF s1(2)] by blast
  define d where "d = (case memo (of_idem s1) ?k of None \<Rightarrow> ?dump | Some r0 \<Rightarrow> r0)"
  have "s' = ?s3\<lparr>of_idem := i'\<rparr>" "validate_email_status d = Inr e"
    using last i'(1) s3 by (simp_all add: on_idem_def lift_res_def d_def)
  moreover have "memo i' ?k = Some d" by (simp add: i'(3) d_def split: option.split)
  ultimately show ?thesis using m(2) i'(2) s3(1) h(3) guard by simp
qed

lemma send_again:
  assumes inv: "minv (of_meetings s)" "iinv (of_idem s)" and rely: "rely f"
    and ok: "minutes_send M I u f n i c s = (Inr e, s')"
  shows "minutes_send M I u g n' i c s' = (Inr e, s')"
proof (cases "memo (of_idem s) (rc_tenant_id c, U ''meeting_minutes.send'', i)")
  case None
  from send_first [OF inv rely None ok] obtain d where
    "iinv (of_idem s')" "memo (of_idem s') (rc_tenant_id c, U ''meeting_minutes.send'', i) = Some d"
    "validate_email_status d = Inr e"
    by blast
  with send_known [OF this(1) send_scope [OF ok] this(2)] show ?thesis by (simp add: lift_res_def)
next
  case (Some d)
  with send_known [OF inv(2) send_scope [OF ok] Some] ok
  have "validate_email_status d = Inr e" "s' = s" by (simp_all add: lift_res_def)
  with send_known [OF inv(2) send_scope [OF ok] Some] show ?thesis by (simp add: lift_res_def)
qed

end

section \<open>Both repositories meet it\<close>

definition mem_minutes_view :: "mem_minutes \<Rightarrow> ustr \<times> ustr \<Rightarrow> minutes_draft option" where
  "mem_minutes_view s k = map_option (\<lambda>h. mn_heap s ! h) (map_of (mn_drafts s) k)"

definition mem_minutes_wf :: "mem_minutes \<Rightarrow> bool" where
  "mem_minutes_wf s \<longleftrightarrow>
     (\<forall>k h. map_of (mn_drafts s) k = Some h \<longrightarrow>
        h < length (mn_heap s) \<and> mm_meeting_id (mn_heap s ! h) = snd k)"

lemma mem_minutes_wfD:
  "mem_minutes_wf s \<Longrightarrow> map_of (mn_drafts s) k = Some h \<Longrightarrow>
     h < length (mn_heap s) \<and> mm_meeting_id (mn_heap s ! h) = snd k"
  unfolding mem_minutes_wf_def by blast

interpretation mem_minutes: minutes_store mem_minutes_repo mem_minutes_view mem_minutes_wf
  "\<lambda>s h. h < length (mn_heap s)"
proof (unfold_locales, goal_cases)
  case (1 s i c)
  then show ?case
    by (auto simp: mem_minutes_repo_def mem_minutes_get_def mem_minutes_view_def dest: mem_minutes_wfD
        split: option.splits)
next
  case (2 s h d h' s')
  then have s': "h' = h" "s' = s\<lparr>mn_heap := (mn_heap s)[h := d]\<rparr>"
    by (auto simp: mem_minutes_repo_def)
  have "mem_minutes_wf s'"
    using 2(1-3) unfolding mem_minutes_wf_def s'(2)
    by (auto simp: mem_minutes_repo_def nth_list_update)
  then show ?case
    using 2(2) by (simp add: s' mem_minutes_repo_def mem_minutes_view_def)
next
  case (3 s h c n)
  then show ?case
    by (auto simp: mem_minutes_repo_def mem_minutes_save_def mem_minutes_view_def mem_minutes_wf_def Let_def)
qed

definition sql_minutes_view :: "minutes_row list \<Rightarrow> ustr \<times> ustr \<Rightarrow> minutes_draft option" where
  "sql_minutes_view rows k = map_option mw_payload (find (\<lambda>r. mw_key r = k) rows)"

definition sql_minutes_wf :: "minutes_row list \<Rightarrow> bool" where
  "sql_minutes_wf rows \<longleftrightarrow>
     distinct (map mw_key rows) \<and> (\<forall>r \<in> set rows. mm_meeting_id (mw_payload r) = mw_meeting_id r)"

lemma select_minutes_eq:
  assumes "sql_minutes_wf rows"
  shows "select_minutes k rows = Inr (find (\<lambda>r. mw_key r = k) rows)"
  unfolding select_minutes_def
  by (rule filter_scalar [where key = mw_key and k = k]) (use assms in \<open>simp_all add: sql_minutes_wf_def\<close>)

lemma sql_minutes_save_eq:
  assumes "sql_minutes_wf rows" "sql_minutes_view rows (rc_tenant_id c, mm_meeting_id d) \<noteq> None"
  shows "\<exists>rows'. sql_minutes_save n d c rows = (Inr d, rows') \<and> sql_minutes_wf rows' \<and>
    sql_minutes_view rows' (rc_tenant_id c, mm_meeting_id d) = Some d"
proof -
  let ?k = "(rc_tenant_id c, mm_meeting_id d)"
  have dist: "distinct (map mw_key rows)" using assms(1) by (simp add: sql_minutes_wf_def)
  obtain row where find: "find (\<lambda>r. mw_key r = ?k) rows = Some row"
    using assms(2) by (auto simp: sql_minutes_view_def)
  then have row: "row \<in> set rows" "mw_key row = ?k" by (auto dest: find_SomeD)
  let ?new = "row\<lparr>mw_status := mm_status d, mw_payload := d, mw_version := mw_version row + 1\<rparr>"
  have new: "mw_key ?new = ?k" using row(2) by (simp add: mw_key_def)
  have "find (\<lambda>r. mw_key r = ?k) (update_row mw_key ?new rows) = Some ?new"
    using find_update_row [OF dist row(1), of ?new "\<lambda>r. mw_key r = ?k" ?k] row(2) new by simp
  then have "sql_minutes_view (update_row mw_key ?new rows) ?k = Some d"
    by (simp add: sql_minutes_view_def)
  moreover have "sql_minutes_wf (update_row mw_key ?new rows)"
    using assms(1) row(2) by (auto simp: sql_minutes_wf_def set_update_row mw_key_def)
  moreover have "sql_minutes_save n d c rows = (Inr d, update_row mw_key ?new rows)"
    using find by (simp add: sql_minutes_save_def select_minutes_eq [OF assms(1)])
  ultimately show ?thesis by blast
qed

interpretation sql_minutes: minutes_store sql_minutes_repo sql_minutes_view sql_minutes_wf "\<lambda>_ _. True"
proof (unfold_locales, goal_cases)
  case (1 s i c)
  have "mm_meeting_id d = i" if v: "sql_minutes_view s (rc_tenant_id c, i) = Some d" for d
  proof -
    obtain r where "find (\<lambda>r. mw_key r = (rc_tenant_id c, i)) s = Some r" "d = mw_payload r"
      using v unfolding sql_minutes_view_def by (cases "find (\<lambda>r. mw_key r = (rc_tenant_id c, i)) s") simp_all
    with find_SomeD [OF this(1)] 1 show ?thesis by (auto simp: sql_minutes_wf_def mw_key_def)
  qed
  moreover have "mt_get sql_minutes_repo i c s = (Inr (sql_minutes_view s (rc_tenant_id c, i)), s)"
    using 1 by (simp add: sql_minutes_repo_def sql_minutes_get_def select_minutes_eq sql_minutes_view_def)
  ultimately show ?case
    by (cases "sql_minutes_view s (rc_tenant_id c, i)") (simp_all add: sql_minutes_repo_def)
next
  case (2 s h d h' s')
  then show ?case by (auto simp: sql_minutes_repo_def)
next
  case (3 s h c n)
  from sql_minutes_save_eq [OF 3(1), of c h n] 3(3) show ?case by (simp add: sql_minutes_repo_def)
qed

interpretation sql_sending: minutes_sending sql_minutes_repo sql_minutes_view sql_minutes_wf "\<lambda>_ _. True"
  sql_idem_repo sql_memo sql_idem_wf
  by unfold_locales

interpretation mem_sending: minutes_sending mem_minutes_repo mem_minutes_view mem_minutes_wf
  "\<lambda>s h. h < length (mn_heap s)" mem_idem_repo map_of "\<lambda>_. True"
  by unfold_locales

lemma sql_minutes_save_any:
  assumes "sql_minutes_wf rows"
  shows "\<exists>rows'. sql_minutes_save n d c rows = (Inr d, rows') \<and> sql_minutes_wf rows' \<and>
    sql_minutes_view rows' (rc_tenant_id c, mm_meeting_id d) = Some d"
proof (cases "sql_minutes_view rows (rc_tenant_id c, mm_meeting_id d)")
  case None
  let ?k = "(rc_tenant_id c, mm_meeting_id d)"
  let ?new = "\<lparr>mw_tenant_id = rc_tenant_id c, mw_created_by = rc_operator_id c, mw_created_at = n,
    mw_meeting_id = mm_meeting_id d, mw_status = mm_status d, mw_payload = d, mw_version = 1\<rparr>"
  have key: "mw_key ?new = ?k" by (simp add: mw_key_def)
  have none: "find (\<lambda>r. mw_key r = ?k) rows = None" using None by (simp add: sql_minutes_view_def)
  then have fresh: "?k \<notin> mw_key ` set rows" by (auto simp: find_None_iff)
  have save: "sql_minutes_save n d c rows = (Inr d, rows @ [?new])"
    using none by (simp add: sql_minutes_save_def select_minutes_eq [OF assms])
  have wf: "sql_minutes_wf (rows @ [?new])"
    using assms fresh key by (simp add: sql_minutes_wf_def)
  then have "find (\<lambda>r. mw_key r = ?k) (rows @ [?new]) = Some ?new"
    by (intro find_distinct_key [where key = mw_key]) (use key in \<open>simp_all add: sql_minutes_wf_def\<close>)
  with save wf show ?thesis by (simp add: sql_minutes_view_def)
next
  case (Some d0)
  with sql_minutes_save_eq [OF assms] show ?thesis by simp
qed

section \<open>Properties\<close>

text \<open>One approved draft and a mail system that accepts it, for the witnesses.\<close>

definition demo_minutes_context :: request_context where
  "demo_minutes_context =
     (RequestContext [] [] (U ''th'') (U ''tenant-a'') (U ''op-a''))
       \<lparr>rc_permission_scopes := {U ''meeting:review'', U ''meeting:send''}\<rparr>"

definition demo_minutes :: minutes_draft where
  "demo_minutes =
     (minutes_draft_of (\<lambda>_ _. None) (\<lambda>_. U ''2026-07-28'') 0 (U ''m1'') [] [] demo_minutes_context None)
       \<lparr>mm_status := Approved_m\<rparr>"

definition demo_minutes_office :: "(unit, minutes_row list, idem_row list, nat) office" where
  "demo_minutes_office =
     \<lparr>of_reports = (),
      of_meetings = [\<lparr>mw_tenant_id = U ''tenant-a'', mw_created_by = U ''op-a'', mw_created_at = 0,
                      mw_meeting_id = U ''m1'', mw_status = Approved_m, mw_payload = demo_minutes,
                      mw_version = 1\<rparr>],
      of_idem = [], of_audit = \<lparr>au_records = [], au_repository = None\<rparr>, of_ext = 0\<rparr>"

definition demo_send_email ::
  "ustr \<Rightarrow> ustr \<Rightarrow> ustr \<Rightarrow> request_context \<Rightarrow> (unit, minutes_row list, idem_row list, nat) office \<Rightarrow>
   jdict res \<times> (unit, minutes_row list, idem_row list, nat) office" where
  "demo_send_email a b k c s = (Inr [(U ''message_id'', JStr (U ''x1''))], s\<lparr>of_ext := of_ext s + 1\<rparr>)"

definition demo_sent :: "email_status res \<times> (unit, minutes_row list, idem_row list, nat) office" where
  "demo_sent = minutes_send sql_minutes_repo sql_idem_repo demo_unicode demo_send_email 0 (U ''m1'')
     demo_minutes_context demo_minutes_office"

lemma demo_minutes_facts:
  "mm_title demo_minutes = []" "mm_summary demo_minutes = []" "mm_status demo_minutes = Approved_m"
  "mm_meeting_id demo_minutes = U ''m1''" "rc_tenant_id demo_minutes_context = U ''tenant-a''"
  "rc_permission_scopes demo_minutes_context = {U ''meeting:review'', U ''meeting:send''}"
  by (simp_all add: demo_minutes_def minutes_draft_of_def Let_def demo_minutes_context_def RequestContext_def)

lemma demo_minutes_wf:
  "sql_minutes_wf (of_meetings demo_minutes_office)" "sql_idem_wf (of_idem demo_minutes_office)"
  "sql_memo (of_idem demo_minutes_office) k = None"
  by (simp_all add: demo_minutes_office_def sql_minutes_wf_def sql_idem_wf_def sql_memo_def demo_minutes_facts)

lemma demo_newline: "findings demo_unicode [10] = []"
  by (simp add: findings_def credential_at_def credential_words_def fixed_token_def U_def boundary_def
      word_opt_def head_def demo_unicode_def is_digit_def)

lemma demo_minutes_lookups:
  "sql_minutes_get (U ''m1'') demo_minutes_context (of_meetings demo_minutes_office) =
     (Inr (Some demo_minutes), of_meetings demo_minutes_office)"
  "sql_idem_get (U ''meeting_minutes.send'') (U ''m1'') demo_minutes_context (of_idem demo_minutes_office) =
     (Inr None, of_idem demo_minutes_office)"
  by (simp_all add: sql_minutes_get_def select_minutes_def demo_minutes_office_def mw_key_def
      demo_minutes_facts sql_idem_get_def)

lemma demo_sent_result:
  "fst demo_sent = Inr \<lparr>es_meeting_id = U ''m1'', es_message_id = U ''x1''\<rparr>" "of_ext (snd demo_sent) = 1"
proof -
  obtain rows where save: "sql_minutes_save 0 (demo_minutes\<lparr>mm_status := Sent_m\<rparr>) demo_minutes_context
      (of_meetings demo_minutes_office) = (Inr (demo_minutes\<lparr>mm_status := Sent_m\<rparr>), rows)"
    using sql_minutes_save_any [OF demo_minutes_wf(1)] by blast
  note defs = minutes_send_def lift_res_def permission_require_def on_idem_def idem_get_def
    sql_idem_repo_def demo_minutes_lookups the_minutes_def on_meetings_def sql_minutes_repo_def Let_def
    require_shareable_def demo_newline demo_minutes_facts demo_send_email_def
  show "fst demo_sent = Inr \<lparr>es_meeting_id = U ''m1'', es_message_id = U ''x1''\<rparr>" "of_ext (snd demo_sent) = 1"
    using save
    by (simp_all add: demo_sent_def defs getitem_def str_field_def record_audit_def remember_def
        sql_idem_save_def, simp_all add: demo_minutes_office_def)
qed

lemma demo_sent_run:
  "minutes_send sql_minutes_repo sql_idem_repo demo_unicode demo_send_email 0 (U ''m1'')
     demo_minutes_context demo_minutes_office =
   (Inr \<lparr>es_meeting_id = U ''m1'', es_message_id = U ''x1''\<rparr>, snd demo_sent)"
  using demo_sent_result(1) unfolding demo_sent_def by (simp add: prod_eq_iff)

lemma demo_rely: "sql_sending.rely demo_send_email"
  unfolding sql_sending.rely_def by (auto simp: demo_send_email_def)

text \<open>
  C7: Sending minutes is idempotent once it has succeeded, and needs an approval. When a send succeeds and nothing
  was remembered for the meeting in the caller's tenant before, the stored minutes were approved and pass the
  sensitive-data guard. When a send has succeeded, the same caller sending again, in the state it left, gets the same
  answer, whatever the mail system would do, and nothing changes: the mail system is not asked again. Assumed of
  the table of minutes and of the memos: they are well formed, and whatever runs while the mail system is awaited
  leaves them so and deletes no minutes. A send that starts before another one has stored its memo is not covered.
\<close>

theorem sql_minutes_send_again:
  assumes "sql_minutes_wf (of_meetings s)" "sql_idem_wf (of_idem s)"
    and "\<forall>a b k c s x s' t. f a b k c s = (x, s') \<longrightarrow> sql_minutes_wf (of_meetings s) \<longrightarrow> sql_idem_wf (of_idem s) \<longrightarrow>
        sql_minutes_wf (of_meetings s') \<and> sql_idem_wf (of_idem s') \<and>
        (sql_minutes_view (of_meetings s) t \<noteq> None \<longrightarrow> sql_minutes_view (of_meetings s') t \<noteq> None)"
    and "minutes_send sql_minutes_repo sql_idem_repo u f n i c s = (Inr e, s')"
  shows "minutes_send sql_minutes_repo sql_idem_repo u g n' i c s' = (Inr e, s') \<and>
    (sql_memo (of_idem s) (rc_tenant_id c, U ''meeting_minutes.send'', i) = None \<longrightarrow>
      (\<exists>d. sql_minutes_view (of_meetings s) (rc_tenant_id c, i) = Some d \<and> mm_status d = Approved_m \<and>
         findings u (mm_title d @ [10] @ mm_summary d) = []))"
proof -
  have "sql_sending.rely f"
    unfolding sql_sending.rely_def using assms(3) by (simp add: sql_minutes_repo_def)
  from sql_sending.send_again [OF assms(1,2) this assms(4)] sql_sending.send_first [OF assms(1,2) this _ assms(4)]
  show ?thesis by blast
qed

theorem sql_minutes_send_again_witness:
  "\<exists>s'. minutes_send sql_minutes_repo sql_idem_repo demo_unicode demo_send_email 1 (U ''m1'')
      demo_minutes_context s' = (Inr \<lparr>es_meeting_id = U ''m1'', es_message_id = U ''x1''\<rparr>, s') \<and> of_ext s' = 1"
proof -
  have "minutes_send sql_minutes_repo sql_idem_repo demo_unicode demo_send_email 1 (U ''m1'')
      demo_minutes_context (snd demo_sent) = (Inr \<lparr>es_meeting_id = U ''m1'', es_message_id = U ''x1''\<rparr>, snd demo_sent)"
    using sql_minutes_send_again [OF demo_minutes_wf(1,2) _ demo_sent_run,
        of demo_send_email 1]
    by (auto simp: demo_send_email_def)
  then show ?thesis using demo_sent_result(2) by blast
qed

text \<open>
  Once minutes have been sent, a corrected version of the same meeting is never mailed: when the
  minutes are generated again with another title and other segments and approved, sending them returns
  the old message, the mail system is not asked, and the new version stays approved and unsent.
\<close>

theorem sql_corrected_minutes_not_sent:
  assumes "sql_minutes_wf (of_meetings s)" "sql_idem_wf (of_idem s)"
    and "minutes_send sql_minutes_repo sql_idem_repo u f n i c s = (Inr e, s)"
    and "sql_memo (of_idem s) (rc_tenant_id c, U ''meeting_minutes.send'', i) \<noteq> None"
    and "on_meetings (minutes_generate sql_minutes_repo zone system n1 i title segments c date) s = (Inr h1, s1)"
    and "minutes_review sql_minutes_repo sha n2 i True comment c s1 = (Inr h2, s2)"
  shows "minutes_send sql_minutes_repo sql_idem_repo u g n3 i c s2 = (Inr e, s2) \<and>
    (\<exists>d. sql_minutes_view (of_meetings s2) (rc_tenant_id c, i) = Some d \<and> mm_status d = Approved_m \<and>
       mm_title d = title \<and> mm_summary d = join (U '' '') (map ts_text segments))"
proof -
  let ?d = "minutes_draft_of zone system n1 i title segments c date"
  have id: "mm_meeting_id ?d = i" by (simp add: minutes_draft_of_def Let_def)
  from sql_minutes_save_any [OF assms(1), of n1 ?d c] assms(5) id
  have s1: "sql_minutes_wf (of_meetings s1)" "sql_minutes_view (of_meetings s1) (rc_tenant_id c, i) = Some ?d"
    "of_idem s1 = of_idem s"
    by (auto simp: minutes_generate_def sql_minutes_repo_def on_meetings_def)
  have scope: "U ''meeting:review'' \<in> rc_permission_scopes c"
    using assms(6) by (auto simp: minutes_review_def lift_res_def permission_require_def bnd_def split: if_splits)
  from sql_minutes.review_outcome [OF s1(1) scope s1(2), of sha n2 True comment] assms(6)
  have v: "sql_minutes_view (of_meetings s2) (rc_tenant_id c, i) = Some (reviewed_minutes sha True comment ?d)"
    by auto
  have "of_idem s2 = of_idem s1"
    using minutes_review_idem [of sql_minutes_repo sha n2 i True comment c s1] assms(6) by simp
  then have idem: "of_idem s2 = of_idem s" using s1(3) by simp
  obtain r where r: "sql_memo (of_idem s) (rc_tenant_id c, U ''meeting_minutes.send'', i) = Some r"
    using assms(4) by blast
  note send = sql_sending.send_scope [OF assms(3)]
  from sql_sending.send_known [OF assms(2) send r] assms(3) have "validate_email_status r = Inr e"
    by (simp add: lift_res_def)
  with sql_sending.send_known [where s = s2, OF _ send] idem assms(2) r v show ?thesis
    by (simp add: lift_res_def reviewed_minutes_def minutes_draft_of_def Let_def)
qed

theorem sql_corrected_minutes_not_sent_witness:
  "\<exists>s2. minutes_send sql_minutes_repo sql_idem_repo demo_unicode demo_send_email 5 (U ''m1'')
      demo_minutes_context s2 = (Inr \<lparr>es_meeting_id = U ''m1'', es_message_id = U ''x1''\<rparr>, s2) \<and>
    (\<exists>d. sql_minutes_view (of_meetings s2) (U ''tenant-a'', U ''m1'') = Some d \<and> mm_title d = U ''v2'')"
proof -
  let ?s = "snd demo_sent" and ?c = demo_minutes_context
  let ?zone = "\<lambda>_ _. None" and ?sys = "\<lambda>_. U ''2026-07-28''"
  note first = sql_sending.send_first [OF demo_minutes_wf(1,2) demo_rely demo_minutes_wf(3) demo_sent_run]
  from first obtain m where wf: "sql_minutes_wf (of_meetings ?s)" "sql_idem_wf (of_idem ?s)"
    and memo: "sql_memo (of_idem ?s) (rc_tenant_id ?c, U ''meeting_minutes.send'', U ''m1'') = Some m"
    by blast
  let ?d = "minutes_draft_of ?zone ?sys 2 (U ''m1'') (U ''v2'') [] ?c None"
  have id: "mm_meeting_id ?d = U ''m1''" by (simp add: minutes_draft_of_def Let_def)
  obtain rows where rows: "sql_minutes_save 2 ?d ?c (of_meetings ?s) = (Inr ?d, rows)" "sql_minutes_wf rows"
    "sql_minutes_view rows (rc_tenant_id ?c, U ''m1'') = Some ?d"
    using sql_minutes_save_any [OF wf(1), of 2 ?d ?c] id by auto
  let ?s1 = "?s\<lparr>of_meetings := rows\<rparr>"
  have gen: "on_meetings (minutes_generate sql_minutes_repo ?zone ?sys 2 (U ''m1'') (U ''v2'') [] ?c None) ?s =
      (Inr ?d, ?s1)"
    using rows(1) by (simp add: minutes_generate_def sql_minutes_repo_def on_meetings_def)
  obtain h2 s2 where rev: "minutes_review sql_minutes_repo (\<lambda>_. []) 3 (U ''m1'') True None ?c ?s1 = (Inr h2, s2)"
    using sql_minutes.review_outcome [where s = ?s1 and c = ?c and i = "U ''m1''" and d = ?d and n = 3
        and sha = "\<lambda>_. []" and ok = True and comment = None] rows(2,3) demo_minutes_facts(6)
    by auto
  have again: "minutes_send sql_minutes_repo sql_idem_repo demo_unicode demo_send_email 1 (U ''m1'') ?c ?s =
      (Inr \<lparr>es_meeting_id = U ''m1'', es_message_id = U ''x1''\<rparr>, ?s)"
    by (rule sql_sending.send_again [OF demo_minutes_wf(1,2) demo_rely demo_sent_run])
  have "sql_memo (of_idem ?s) (rc_tenant_id ?c, U ''meeting_minutes.send'', U ''m1'') \<noteq> None"
    using memo by simp
  from sql_corrected_minutes_not_sent [OF wf again this gen rev, of demo_send_email 5] show ?thesis
    by (auto simp: demo_minutes_facts)
qed

end
