(* ===== verification/Connectors.thy ===== *)
theory Connectors
  imports Knowledge Dates Reports Meetings
begin

text \<open>
  The connectors to other systems: the GitLab activity of an employee with its cache
  (\<open>app/connectors/gitlab.py\<close>), the stand-ins of development (\<open>app/connectors/mocks\<close>) and the registry
  that chooses the connectors of an environment (\<open>app/connectors/registry.py\<close>).

  The HTTP client is a function that gives a reply or raises; \<open>rep\<close> is \<open>repr\<close> of values \<open>str\<close> does not
  write out. The interface of each system is a datatype of its requests.
\<close>

section \<open>GitLab\<close>

subsection \<open>Quoting\<close>

text \<open>The UTF-8 encoding; a surrogate has none.\<close>

definition utf8 :: "nat \<Rightarrow> nat list option" where
  "utf8 c =
     (if c < 128 then Some [c]
      else if c < 2048 then Some [192 + c div 64, 128 + c mod 64]
      else if 55296 \<le> c \<and> c < 57344 then None
      else if c < 65536 then Some [224 + c div 4096, 128 + c div 64 mod 64, 128 + c mod 64]
      else Some [240 + c div 262144, 128 + c div 4096 mod 64, 128 + c div 64 mod 64, 128 + c mod 64])"

definition unreserved :: "nat \<Rightarrow> bool" where
  "unreserved b \<longleftrightarrow>
     65 \<le> b \<and> b \<le> 90 \<or> 97 \<le> b \<and> b \<le> 122 \<or> 48 \<le> b \<and> b \<le> 57 \<or> b = 95 \<or> b = 46 \<or> b = 45 \<or> b = 126"

definition hex_upper :: "nat \<Rightarrow> nat" where
  "hex_upper n = (if n < 10 then 48 + n else 55 + n)"

definition quote_byte :: "nat \<Rightarrow> ustr" where
  "quote_byte b = (if unreserved b then [b] else [37, hex_upper (b div 16), hex_upper (b mod 16)])"

text \<open>\<open>quote(s, safe="")\<close>\<close>

fun quote_all :: "ustr \<Rightarrow> ustr res" where
  "quote_all [] = Inr []"
| "quote_all (c # cs) =
     (case utf8 c of
        None \<Rightarrow> Inl (Exn UnicodeErr [])
      | Some bytes \<Rightarrow>
          (case quote_all cs of
             Inl e \<Rightarrow> Inl e
           | Inr t \<Rightarrow> Inr (concat (map quote_byte bytes) @ t)))"

subsection \<open>Events\<close>

definition get_or_null :: "jdict \<Rightarrow> string \<Rightarrow> json" where
  "get_or_null d k = get_default d (U k) JNull"

definition first_nonempty :: "ustr list \<Rightarrow> ustr" where
  "first_nonempty texts = (case filter (\<lambda>t. t \<noteq> []) texts of [] \<Rightarrow> [] | t # _ \<Rightarrow> t)"

definition normalize_event :: "(json \<Rightarrow> ustr) \<Rightarrow> jdict \<Rightarrow> jdict" where
  "normalize_event rep event =
     (let commit_title =
            (case get_or_null event ''push_data'' of
               JObj d \<Rightarrow> py_str rep (get_default d (U ''commit_title'') (JStr []))
             | _ \<Rightarrow> []);
          target_title = py_str rep (get_default event (U ''target_title'') (JStr []));
          action_name = py_str rep (get_default event (U ''action_name'') (JStr [71, 105, 116, 76, 97, 98, 32, 27963, 21160]));
          kind = (if truthy (get_or_null event ''target_type'') then get_or_null event ''target_type''
                  else if truthy (get_or_null event ''action_name'') then get_or_null event ''action_name''
                  else JStr (U ''event''))
      in [(U ''id'', JStr (py_str rep (get_default event (U ''id'') (JStr [])))),
          (U ''type'', JStr (py_str rep kind)),
          (U ''title'', JStr (first_nonempty [commit_title, target_title, action_name])),
          (U ''project_id'', get_or_null event ''project_id''),
          (U ''created_at'', get_or_null event ''created_at'')])"

text \<open>A reply: the status code and what \<open>response.json()\<close> returns, \<open>None\<close> when it raises.\<close>

record http_reply =
  hy_status :: int
  hy_json :: "json option"

type_synonym 's http_client =
  "ustr \<Rightarrow> (ustr \<times> ustr) list \<Rightarrow> (ustr \<times> ustr) list \<Rightarrow> 's \<Rightarrow> http_reply res \<times> 's"

definition gitlab_failure :: exn where
  "gitlab_failure = Exn GitLabConnectorErr [71, 105, 116, 76, 97, 98, 32, 27963, 21160, 26597, 35810, 22833, 36133]"

definition gitlab_translate :: "exn \<Rightarrow> exn" where
  "gitlab_translate e = (if caught e [HttpxErr, ValueErr] then gitlab_failure else e)"

definition dicts_of :: "json list \<Rightarrow> jdict list" where
  "dicts_of vs = concat (map (\<lambda>v. case v of JObj d \<Rightarrow> [d] | _ \<Rightarrow> []) vs)"

text \<open>The \<open>try\<close> block: the request and the parsed body.\<close>

definition gitlab_fetch ::
  "'s http_client \<Rightarrow> ustr \<Rightarrow> ustr \<Rightarrow> ustr \<Rightarrow> ustr \<Rightarrow> 's \<Rightarrow> json res \<times> 's" where
  "gitlab_fetch client access_token employee_id date_from date_to s =
     bnd (lift_res (iso_after 1 date_to) s) (\<lambda>before s.
     bnd (lift_res (quote_all employee_id) s) (\<lambda>user s.
     bnd (client (U ''/users/'' @ user @ U ''/events'') [(U ''PRIVATE-TOKEN'', access_token)]
            [(U ''after'', date_from), (U ''before'', before), (U ''sort'', U ''asc''),
             (U ''per_page'', U ''100'')] s) (\<lambda>reply s.
       if hy_status reply < 200 \<or> 300 \<le> hy_status reply then (Inl (Exn HttpxErr []), s)
       else
         (case hy_json reply of
            None \<Rightarrow> (Inl (Exn JsonDecodeErr []), s)
          | Some v \<Rightarrow> (Inr v, s)))))"

type_synonym 's gitlab_connector =
  "ustr \<Rightarrow> ustr \<Rightarrow> ustr \<Rightarrow> request_context \<Rightarrow> 's \<Rightarrow> jdict list res \<times> 's"

definition gitlab_http_activity ::
  "(json \<Rightarrow> ustr) \<Rightarrow> 's http_client \<Rightarrow> ustr \<Rightarrow> 's gitlab_connector" where
  "gitlab_http_activity rep client access_token employee_id date_from date_to c s =
     (case gitlab_fetch client access_token employee_id date_from date_to s of
        (Inl e, s1) \<Rightarrow> (Inl (gitlab_translate e), s1)
      | (Inr events, s1) \<Rightarrow>
          (case events of
             JList items \<Rightarrow> (Inr (map (normalize_event rep) (dicts_of items)), s1)
           | _ \<Rightarrow> (Inl (Exn GitLabConnectorErr [71, 105, 116, 76, 97, 98, 32, 27963, 21160, 21709, 24212, 26684, 24335, 26080, 25928]), s1)))"

subsection \<open>The cache of activity\<close>

text \<open>The text of a string with \<open>ensure_ascii=True\<close>: other characters as UTF-16 escapes.\<close>

definition u_escape :: "nat \<Rightarrow> ustr" where
  "u_escape n = [92, 117, hex (n div 4096), hex (n div 256 mod 16), hex (n div 16 mod 16), hex (n mod 16)]"

definition ascii_escape :: "nat \<Rightarrow> ustr" where
  "ascii_escape c =
     (case map_of short_escapes c of
        Some d \<Rightarrow> [92, d]
      | None \<Rightarrow>
          if 32 \<le> c \<and> c \<le> 126 then [c]
          else if c < 65536 then u_escape c
          else u_escape (55296 + (c - 65536) div 1024) @ u_escape (56320 + (c - 65536) mod 1024))"

definition ascii_strings :: "ustr list \<Rightarrow> ustr" where
  "ascii_strings parts =
     [91] @ join [44] (map (\<lambda>s. [34] @ concat (map ascii_escape s) @ [34]) parts) @ [93]"

definition ascii_fingerprint :: "request_context \<Rightarrow> ustr" where
  "ascii_fingerprint c =
     U ''{\"roles\":'' @ ascii_strings (sort (rc_role_ids c)) @ U '',\"scopes\":'' @
     ascii_strings (sorted_list_of_set (rc_permission_scopes c)) @ U ''}''"

definition gitlab_cache_key ::
  "(ustr \<Rightarrow> ustr) \<Rightarrow> ustr \<Rightarrow> ustr \<Rightarrow> ustr \<Rightarrow> ustr \<Rightarrow> request_context \<Rightarrow> ustr" where
  "gitlab_cache_key sha key_prefix employee_id date_from date_to c =
     scoped_cache_key sha key_prefix (U ''gitlab-activity'') (rc_tenant_id c)
       [rc_operator_id c, employee_id, date_from, date_to, ascii_fingerprint c]"

definition as_dicts :: "json \<Rightarrow> jdict list option" where
  "as_dicts v = (case v of JList vs \<Rightarrow> if list_all is_dict vs then Some (dicts_of vs) else None | _ \<Rightarrow> None)"

definition cached_gitlab_activity ::
  "(ustr \<Rightarrow> ustr) \<Rightarrow> 'k json_cache \<Rightarrow> ustr \<Rightarrow> int \<Rightarrow> 's gitlab_connector \<Rightarrow> ('s \<times> 'k) gitlab_connector" where
  "cached_gitlab_activity sha C key_prefix ttl_seconds connector employee_id date_from date_to c =
     cached_call C (gitlab_cache_key sha key_prefix employee_id date_from date_to c) ttl_seconds
       as_dicts (\<lambda>ds. JList (map JObj ds)) (\<lambda>_. True) (connector employee_id date_from date_to c)"

section \<open>The interfaces\<close>

datatype report_op =
    Get_projects | Get_work_types | Get_report ustr | Submit_report json ustr
  | Update_report ustr json ustr | Get_report_status ustr

datatype email_op =
    List_email ustr ustr ustr | Send_email ustr ustr ustr | Get_send_status ustr

datatype meeting_op =
    Get_meeting ustr | Get_invited ustr | Get_actual ustr | Get_recording ustr

datatype asr_op = Submit_transcription ustr | Get_transcription_status ustr | Get_transcription_result ustr

datatype task_op = List_tasks ustr

datatype directory_op = Get_employee ustr | Search_employee ustr

section \<open>Stand-ins\<close>

text \<open>\<open>uuid\<close> is what \<open>uuid4\<close> draws if the call needs an identifier.\<close>

definition text_dict :: "(string \<times> ustr) list \<Rightarrow> jdict" where
  "text_dict pairs = map (\<lambda>(k, v). (U k, JStr v)) pairs"

definition record_status :: "ustr \<Rightarrow> request_context \<Rightarrow> ustr \<Rightarrow> (ustr \<times> jdict) list \<Rightarrow> jdict option" where
  "record_status field c ident records =
     map_option snd (find (\<lambda>(k, r). map_of r field = Some (JStr ident) \<and>
       map_of r (U ''tenant_id'') = Some (JStr (rc_tenant_id c))) records)"

text \<open>\<open>MockReportSystemConnector\<close>: the records by idempotency key.\<close>

definition mock_report_system ::
  "ustr \<Rightarrow> report_op \<Rightarrow> request_context \<Rightarrow> (ustr \<times> jdict) list \<Rightarrow> json res \<times> (ustr \<times> jdict) list" where
  "mock_report_system uuid operation c records =
     (case operation of
        Get_projects \<Rightarrow>
          (Inr (JList [JObj (text_dict [(''project_id'', U ''project-demo''), (''name'', [28436, 31034, 39033, 30446])])]), records)
      | Get_work_types \<Rightarrow>
          (Inr (JList [JObj (text_dict [(''work_type_id'', U ''development''), (''name'', [30740, 21457])])]), records)
      | Get_report report_id \<Rightarrow>
          (Inr (case record_status (U ''submission_id'') c report_id records of
                  None \<Rightarrow> JNull | Some r \<Rightarrow> JObj r), records)
      | Submit_report report key \<Rightarrow>
          (case map_of records key of
             Some existing \<Rightarrow> (Inr (JObj existing), records)
           | None \<Rightarrow>
               (let r = text_dict [(''submission_id'', uuid), (''status'', U ''submitted''),
                                   (''tenant_id'', rc_tenant_id c)] @ [(U ''report'', report)]
                in (Inr (JObj r), AList.update key r records)))
      | Update_report report_id report key \<Rightarrow>
          (case find (\<lambda>(k, r). map_of r (U ''submission_id'') = Some (JStr report_id) \<and>
                   map_of r (U ''tenant_id'') = Some (JStr (rc_tenant_id c))) records of
             None \<Rightarrow> (Inl (Exn KeyErr report_id), records)
           | Some (k, r) \<Rightarrow>
               (let r1 = AList.update (U ''report'') report r in
                (Inr (JObj r1), AList.update k r1 records)))
      | Get_report_status submission_id \<Rightarrow>
          (Inr (JObj [(U ''submission_id'', JStr submission_id),
             (U ''status'', (case record_status (U ''submission_id'') c submission_id records of
                None \<Rightarrow> JStr (U ''not_found'')
              | Some r \<Rightarrow> (case map_of r (U ''status'') of Some v \<Rightarrow> v | None \<Rightarrow> JNull)))]), records))"

text \<open>\<open>MockEmailConnector\<close>: the messages sent by idempotency key.\<close>

definition mock_email ::
  "ustr \<Rightarrow> email_op \<Rightarrow> request_context \<Rightarrow> (ustr \<times> jdict) list \<Rightarrow> json res \<times> (ustr \<times> jdict) list" where
  "mock_email uuid operation c sent =
     (case operation of
        List_email employee_id date_from date_to \<Rightarrow>
          (Inr (JList [JObj (text_dict
             [(''message_id'', U ''email-1''), (''subject'', [21516, 27493, 39033, 30446, 20132, 20184, 36827, 23637]),
              (''summary'', [24050, 21521, 39033, 30446, 32452, 21516, 27493, 24403, 21069, 36827, 23637, 21644, 21518, 32493, 23433, 25490, 12290]), (''direction'', U ''sent'')] @
             [(U ''sensitive'', JBool False)])]), sent)
      | Send_email subject body key \<Rightarrow>
          (let sent1 = (if map_of sent key = None
                 then AList.update key (text_dict [(''message_id'', uuid), (''status'', U ''sent''),
                        (''tenant_id'', rc_tenant_id c)]) sent
                 else sent)
           in (Inr (JObj (the (map_of sent1 key))), sent1))
      | Get_send_status message_id \<Rightarrow>
          (Inr (JObj [(U ''message_id'', JStr message_id),
             (U ''status'', (case record_status (U ''message_id'') c message_id sent of
                None \<Rightarrow> JStr (U ''not_found'')
              | Some r \<Rightarrow> (case map_of r (U ''status'') of Some v \<Rightarrow> v | None \<Rightarrow> JNull)))]), sent))"

definition mock_meeting :: "meeting_op \<Rightarrow> json res" where
  "mock_meeting operation =
     (case operation of
        Get_meeting meeting_id \<Rightarrow>
          Inr (JObj (text_dict [(''meeting_id'', meeting_id), (''title'', [39033, 30446, 21608, 20250]),
            (''host_id'', U ''employee-a''), (''meeting_date'', U ''2026-07-28'')]))
      | Get_recording meeting_id \<Rightarrow>
          Inr (JObj (text_dict [(''recording_ref'', U ''mock://recordings/'' @ meeting_id)]))
      | _ \<Rightarrow>
          Inr (JList [JObj (text_dict [(''employee_id'', U ''employee-a'')]),
                      JObj (text_dict [(''employee_id'', U ''employee-b'')])]))"

text \<open>The confidence is the float \<open>0.95\<close>.\<close>

definition mock_asr :: "ustr \<Rightarrow> asr_op \<Rightarrow> json res" where
  "mock_asr uuid operation =
     (case operation of
        Submit_transcription recording_ref \<Rightarrow>
          Inr (JObj (text_dict [(''task_id'', uuid), (''status'', U ''completed'')]))
      | Get_transcription_status task_id \<Rightarrow>
          Inr (JObj (text_dict [(''task_id'', task_id), (''status'', U ''completed'')]))
      | Get_transcription_result task_id \<Rightarrow>
          Inr (JObj [(U ''task_id'', JStr task_id),
            (U ''segments'', JList [JObj (text_dict [(''segment_id'', U ''segment-1''),
               (''text'', [30830, 35748, 30001, 39033, 30446, 32452, 36319, 36827, 21457, 24067])] @
               [(U ''confidence'', JFloat (Rational (4278419646001971 / 4503599627370496)))])])]))"

definition mock_gitlab_activity :: "'s gitlab_connector" where
  "mock_gitlab_activity employee_id date_from date_to c s =
     (Inr [text_dict [(''type'', U ''merge_request''), (''id'', U ''mr-1''),
             (''title'', [23436, 25104, 32, 71, 105, 116, 76, 97, 98, 32, 21512, 24182, 35831, 27714]), (''project_id'', U ''project-demo'')]], s)"

definition mock_tasks :: "task_op \<Rightarrow> json res" where
  "mock_tasks operation =
     Inr (JList [JObj (text_dict [(''task_id'', U ''task-1''), (''title'', [23436, 25104, 25509, 21475, 23454, 29616]),
       (''status'', U ''completed'')])])"

definition mock_directory :: "directory_op \<Rightarrow> json res" where
  "mock_directory operation =
     (case operation of
        Get_employee employee_id \<Rightarrow>
          Inr (JObj (text_dict [(''employee_id'', employee_id), (''name'', [28436, 31034, 21592, 24037]),
            (''email'', U ''demo@example.invalid'')]))
      | Search_employee query \<Rightarrow>
          Inr (JList [JObj (text_dict [(''employee_id'', U ''employee-a''), (''name'', query)])]))"

section \<open>The registry\<close>

definition unavailable :: "string \<Rightarrow> 's \<Rightarrow> 'a res \<times> 's" where
  "unavailable what s = (Inl (Exn ConnectorUnavailableErr (U (what @ '' connector is not configured''))), s)"

datatype gitlab_source = Gitlab_http ustr ustr | Gitlab_mock | Gitlab_unavailable

datatype wiring = Wired_mock | Wired_unavailable

record connector_registry =
  cr_report_system :: wiring
  cr_email :: wiring
  cr_meeting_im :: wiring
  cr_asr :: wiring
  cr_gitlab :: gitlab_source
  cr_gitlab_cache :: "(ustr \<times> int) option"
  cr_task :: wiring
  cr_directory :: wiring

text \<open>\<open>cached\<close> tells whether a cache was given.\<close>

definition for_environment ::
  "ustr \<Rightarrow> ustr option \<Rightarrow> ustr option \<Rightarrow> bool \<Rightarrow> ustr \<Rightarrow> int \<Rightarrow> connector_registry" where
  "for_environment app_env gitlab_base_url gitlab_access_token cached cache_key_prefix cache_ttl_seconds =
     (let production = (app_env = U ''production'');
          others = (if production then Wired_unavailable else Wired_mock);
          gitlab = (case (gitlab_base_url, gitlab_access_token) of
              (Some (u # us), Some (t # ts)) \<Rightarrow>
                Gitlab_http (rev (dropWhile (\<lambda>c. c = 47) (rev (u # us))) @ U ''/api/v4'') (t # ts)
            | _ \<Rightarrow> if production then Gitlab_unavailable else Gitlab_mock)
      in \<lparr>cr_report_system = others, cr_email = others, cr_meeting_im = others, cr_asr = others,
          cr_gitlab = gitlab,
          cr_gitlab_cache = (if cached then Some (cache_key_prefix, cache_ttl_seconds) else None),
          cr_task = others, cr_directory = others\<rparr>)"

text \<open>The operations of the connectors a registry chose.\<close>

definition report_system_of ::
  "connector_registry \<Rightarrow> ustr \<Rightarrow> report_op \<Rightarrow> request_context \<Rightarrow> (ustr \<times> jdict) list \<Rightarrow>
   json res \<times> (ustr \<times> jdict) list" where
  "report_system_of registry uuid operation c s =
     (case cr_report_system registry of
        Wired_mock \<Rightarrow> mock_report_system uuid operation c s
      | Wired_unavailable \<Rightarrow> unavailable ''report system'' s)"

definition email_of ::
  "connector_registry \<Rightarrow> ustr \<Rightarrow> email_op \<Rightarrow> request_context \<Rightarrow> (ustr \<times> jdict) list \<Rightarrow>
   json res \<times> (ustr \<times> jdict) list" where
  "email_of registry uuid operation c s =
     (case cr_email registry of
        Wired_mock \<Rightarrow> mock_email uuid operation c s
      | Wired_unavailable \<Rightarrow>
          (case operation of
             List_email employee_id date_from date_to \<Rightarrow> unavailable ''email activity'' s
           | _ \<Rightarrow> unavailable ''email'' s))"

definition meeting_of :: "connector_registry \<Rightarrow> meeting_op \<Rightarrow> 's \<Rightarrow> json res \<times> 's" where
  "meeting_of registry operation s =
     (case cr_meeting_im registry of
        Wired_mock \<Rightarrow> (mock_meeting operation, s) | Wired_unavailable \<Rightarrow> unavailable ''meeting IM'' s)"

definition asr_of :: "connector_registry \<Rightarrow> ustr \<Rightarrow> asr_op \<Rightarrow> 's \<Rightarrow> json res \<times> 's" where
  "asr_of registry uuid operation s =
     (case cr_asr registry of
        Wired_mock \<Rightarrow> (mock_asr uuid operation, s) | Wired_unavailable \<Rightarrow> unavailable ''ASR'' s)"

definition task_of :: "connector_registry \<Rightarrow> task_op \<Rightarrow> 's \<Rightarrow> json res \<times> 's" where
  "task_of registry operation s =
     (case cr_task registry of
        Wired_mock \<Rightarrow> (mock_tasks operation, s) | Wired_unavailable \<Rightarrow> unavailable ''task'' s)"

definition directory_of :: "connector_registry \<Rightarrow> directory_op \<Rightarrow> 's \<Rightarrow> json res \<times> 's" where
  "directory_of registry operation s =
     (case cr_directory registry of
        Wired_mock \<Rightarrow> (mock_directory operation, s) | Wired_unavailable \<Rightarrow> unavailable ''directory'' s)"

text \<open>\<open>client base_url\<close> is the HTTP client for a base URL.\<close>

definition gitlab_of ::
  "(json \<Rightarrow> ustr) \<Rightarrow> (ustr \<Rightarrow> 's http_client) \<Rightarrow> (ustr \<Rightarrow> ustr) \<Rightarrow> 'k json_cache \<Rightarrow> connector_registry \<Rightarrow>
   ('s \<times> 'k) gitlab_connector" where
  "gitlab_of rep client sha C registry employee_id date_from date_to c s =
     (let connector =
            (case cr_gitlab registry of
               Gitlab_http base_url access_token \<Rightarrow> gitlab_http_activity rep (client base_url) access_token
             | Gitlab_mock \<Rightarrow> mock_gitlab_activity
             | Gitlab_unavailable \<Rightarrow> (\<lambda>employee_id date_from date_to c. unavailable ''GitLab''))
      in case cr_gitlab_cache registry of
           None \<Rightarrow> (case connector employee_id date_from date_to c (fst s) of (r, s1) \<Rightarrow> (r, (s1, snd s)))
         | Some (key_prefix, ttl_seconds) \<Rightarrow>
             cached_gitlab_activity sha C key_prefix ttl_seconds connector employee_id date_from date_to c s)"

section \<open>An employee id is one path segment\<close>

definition unhex_upper :: "nat \<Rightarrow> nat" where
  "unhex_upper h = (if h < 58 then h - 48 else h - 55)"

text \<open>What a server does with a path segment: percent escapes become bytes again.\<close>

fun unquote :: "ustr \<Rightarrow> nat list" where
  "unquote [] = []"
| "unquote [c] = [c]"
| "unquote [c, d] = [c, d]"
| "unquote (c # a # b # cs) =
     (if c = 37 then (16 * unhex_upper a + unhex_upper b) # unquote cs else c # unquote (a # b # cs))"

lemma unquote_Cons: "c \<noteq> 37 \<Longrightarrow> unquote (c # cs) = c # unquote cs"
  by (cases cs rule: list.exhaust [case_names Nil Cons]; cases "tl cs") auto

lemma hex_upper_range: "n < 16 \<Longrightarrow> unreserved (hex_upper n) \<and> unhex_upper (hex_upper n) = n"
  by (auto simp: hex_upper_def unhex_upper_def unreserved_def)

lemma unquote_byte: "b < 256 \<Longrightarrow> unquote (quote_byte b @ s) = b # unquote s"
  by (auto simp: quote_byte_def unquote_Cons unreserved_def hex_upper_range less_mult_imp_div_less)

lemma utf8_bytes: "c < 1114112 \<Longrightarrow> utf8 c = Some bs \<Longrightarrow> b \<in> set bs \<Longrightarrow> b < 256"
  by (auto simp: utf8_def split: if_splits)

lemma unquote_bytes:
  "\<forall>b \<in> set bs. b < 256 \<Longrightarrow> unquote (concat (map quote_byte bs) @ s) = bs @ unquote s"
  by (induction bs) (simp_all add: unquote_byte)

lemma quote_byte_chars: "b < 256 \<Longrightarrow> c \<in> set (quote_byte b) \<Longrightarrow> unreserved c \<or> c = 37"
  using hex_upper_range by (auto simp: quote_byte_def less_mult_imp_div_less split: if_splits)

text \<open>A Python string holds code points below \<open>0x110000\<close>.\<close>

definition code_points :: "ustr \<Rightarrow> bool" where
  "code_points s \<longleftrightarrow> (\<forall>c \<in> set s. c < 1114112)"

text \<open>
  An employee id is one segment of the path of the GitLab request, whatever it contains: the quoted id
  has only letters, digits, \<open>_ . - ~\<close> and percent escapes, so no slash, question mark or hash of the id
  reaches the URL, and unquoting it gives the bytes of the id back.
\<close>

theorem employee_id_is_one_path_segment:
  assumes "code_points e" "quote_all e = Inr q"
  shows "(\<forall>c \<in> set q. unreserved c \<or> c = 37) \<and> unquote q = concat (map (\<lambda>c. the (utf8 c)) e)"
  using assms
proof (induction e arbitrary: q)
  case (Cons c e)
  from Cons.prems(2) obtain bs t where bs: "utf8 c = Some bs" "quote_all e = Inr t"
    "q = concat (map quote_byte bs) @ t"
    by (auto split: option.splits sum.splits)
  have small: "\<forall>b \<in> set bs. b < 256"
    using utf8_bytes [OF _ bs(1)] Cons.prems(1) by (simp add: code_points_def)
  have "(\<forall>c \<in> set t. unreserved c \<or> c = 37) \<and> unquote t = concat (map (\<lambda>c. the (utf8 c)) e)"
    using Cons.IH [OF _ bs(2)] Cons.prems(1) by (simp add: code_points_def)
  with small bs show ?case
    by (auto simp: unquote_bytes dest: quote_byte_chars)
qed simp

theorem employee_id_is_one_path_segment_witness:
  "quote_all (U ''a/b'') = Inr (U ''a%2Fb'') \<and> unquote (U ''a%2Fb'') = U ''a/b''"
proof
  show q: "quote_all (U ''a/b'') = Inr (U ''a%2Fb'')"
    by (simp add: U_def utf8_def quote_byte_def unreserved_def hex_upper_def)
  have "code_points (U ''a/b'')" by (simp add: code_points_def U_def)
  from employee_id_is_one_path_segment [OF this q] show "unquote (U ''a%2Fb'') = U ''a/b''"
    by (simp add: U_def utf8_def)
qed

text \<open>Dots are unreserved: the ids \<open>.\<close> and \<open>..\<close> stay dot segments, which clients and servers resolve.\<close>

lemma dot_segments_stay: "quote_all (U ''..'') = Inr (U ''..'')"
  by (simp add: U_def utf8_def quote_byte_def unreserved_def)

text \<open>An event whose title is \<open>null\<close> is titled \<open>None\<close>, not by its action.\<close>

lemma null_title_is_None:
  assumes "map_of event (U ''push_data'') = None" "map_of event (U ''target_title'') = Some JNull"
  shows "map_of (normalize_event rep event) (U ''title'') = Some (JStr (U ''None''))"
  using assms by (simp add: normalize_event_def Let_def get_or_null_def get_default_def first_nonempty_def)

section \<open>Production uses no stand-in\<close>

text \<open>
  In production no operation reaches a stand-in: every request to the report system, the e-mail system,
  the meeting system, the speech recognition, the task system and the directory raises
  \<open>ConnectorUnavailableError\<close> and changes nothing, and GitLab is the HTTP connector with the configured
  address and token or raises the same error.
\<close>

theorem production_uses_no_stand_ins:
  "let registry = for_environment (U ''production'') url token cached key_prefix ttl;
       refused = (\<lambda>r. \<exists>m. r = Inl (Exn ConnectorUnavailableErr m))
   in (\<forall>uuid operation c s. refused (fst (report_system_of registry uuid operation c s)) \<and>
         snd (report_system_of registry uuid operation c s) = s) \<and>
      (\<forall>uuid operation c s. refused (fst (email_of registry uuid operation c s)) \<and>
         snd (email_of registry uuid operation c s) = s) \<and>
      (\<forall>operation s. refused (fst (meeting_of registry operation s))) \<and>
      (\<forall>uuid operation s. refused (fst (asr_of registry uuid operation s))) \<and>
      (\<forall>operation s. refused (fst (task_of registry operation s))) \<and>
      (\<forall>operation s. refused (fst (directory_of registry operation s))) \<and>
      (cr_gitlab registry = Gitlab_unavailable \<or>
       (\<exists>u t. url = Some u \<and> token = Some t \<and> u \<noteq> [] \<and> t \<noteq> [] \<and>
          cr_gitlab registry = Gitlab_http (rev (dropWhile (\<lambda>c. c = 47) (rev u)) @ U ''/api/v4'') t))"
  unfolding Let_def
  by (intro conjI allI)
     (simp_all add: for_environment_def report_system_of_def email_of_def meeting_of_def asr_of_def
       task_of_def directory_of_def unavailable_def split: email_op.split option.split list.split)

end
