(* ===== verification/Work_Events.thy ===== *)
theory Work_Events
  imports Connectors
begin

text \<open>
  The collection of work events from four sources (\<open>app/services/work_events.py\<close>): the GitLab activity,
  the tasks, the e-mails sent and the approved meeting minutes of an employee become the events a report
  is made of. The sources run concurrently; a failing one leaves a warning.

  \<open>rep\<close> is \<open>repr\<close> of values \<open>str\<close> does not write out; \<open>parse_time\<close> and \<open>parse_bool\<close> are the validation
  library's reading of a \<open>datetime\<close> and a \<open>bool\<close> field.
\<close>

section \<open>Events\<close>

text \<open>\<open>str(d.get(field, default))\<close> and \<open>str(d[field]) if d.get(field) is not None else None\<close>.\<close>

definition text_of :: "(json \<Rightarrow> ustr) \<Rightarrow> jdict \<Rightarrow> ustr \<Rightarrow> json \<Rightarrow> ustr" where
  "text_of rep d field v = py_str rep (get_default d field v)"

definition optional_text :: "(json \<Rightarrow> ustr) \<Rightarrow> jdict \<Rightarrow> ustr \<Rightarrow> ustr option" where
  "optional_text rep d field =
     (case map_of d field of None \<Rightarrow> None | Some JNull \<Rightarrow> None | Some v \<Rightarrow> Some (py_str rep v))"

definition gitlab_event :: "(json \<Rightarrow> ustr) \<Rightarrow> nat \<Rightarrow> jdict \<Rightarrow> work_event" where
  "gitlab_event rep index item =
     (let ident = text_of rep item (U ''id'') (JInt (int index)) in
      (WorkEvent (U ''gitlab:'' @ ident) (text_of rep item (U ''title'') (JStr [71, 105, 116, 76, 97, 98, 32, 27963, 21160])) Completed_w)
        \<lparr>we_event_type := Code_change, we_project_id := optional_text rep item (U ''project_id''),
         we_source_type := Gitlab, we_source_id := Some ident,
         we_evidence_url := Some (U ''connector://gitlab/'' @ ident)\<rparr>)"

definition status_names :: "(ustr \<times> work_status) list" where
  "status_names =
     [(U ''completed'', Completed_w), (U ''in_progress'', In_progress_w), (U ''blocked'', Blocked_w),
      (U ''planned'', Planned_w), (U ''unknown'', Unknown_w)]"

definition status_aliases :: "(ustr \<times> ustr) list" where
  "status_aliases =
     [(U ''done'', U ''completed''), (U ''closed'', U ''completed''), (U ''doing'', U ''in_progress''),
      (U ''open'', U ''planned'')]"

definition work_status_of :: "(json \<Rightarrow> ustr) \<Rightarrow> json \<Rightarrow> work_status" where
  "work_status_of rep v =
     (let status = py_str rep v;
          normalized = (case map_of status_aliases status of None \<Rightarrow> status | Some t \<Rightarrow> t)
      in case map_of status_names normalized of None \<Rightarrow> Unknown_w | Some st \<Rightarrow> st)"

definition task_event :: "(json \<Rightarrow> ustr) \<Rightarrow> nat \<Rightarrow> jdict \<Rightarrow> work_event" where
  "task_event rep index item =
     (let ident = text_of rep item (U ''task_id'') (JInt (int index)) in
      (WorkEvent (U ''task:'' @ ident) (text_of rep item (U ''title'') (JStr [20219, 21153, 27963, 21160]))
         (work_status_of rep (get_default item (U ''status'') (JStr (U ''unknown'')))))
        \<lparr>we_event_type := Task_progress, we_project_id := optional_text rep item (U ''project_id''),
         we_source_type := Task, we_source_id := Some ident,
         we_evidence_url := Some (U ''connector://task/'' @ ident)\<rparr>)"

subsection \<open>E-mail\<close>

record email_activity =
  ea_message_id :: ustr
  ea_subject :: ustr
  ea_summary :: ustr
  ea_occurred_at :: "instant option"
  ea_sensitive :: bool

text \<open>\<open>EmailActivity.model_validate\<close>, \<open>None\<close> when it raises.\<close>

definition validate_email ::
  "(json \<Rightarrow> instant option) \<Rightarrow> (json \<Rightarrow> bool option) \<Rightarrow> jdict \<Rightarrow> email_activity option" where
  "validate_email parse_time parse_bool d =
     (case (map_of d (U ''message_id''), map_of d (U ''subject''), get_default d (U ''summary'') (JStr []),
            get_default d (U ''direction'') (JStr (U ''sent''))) of
        (Some (JStr message_id), Some (JStr subject), JStr summary, JStr direction) \<Rightarrow>
          (case (get_default d (U ''occurred_at'') JNull, parse_time (get_default d (U ''occurred_at'') JNull),
                 case map_of d (U ''sensitive'') of None \<Rightarrow> Some False | Some v \<Rightarrow> parse_bool v) of
             (at_value, time, Some sensitive) \<Rightarrow>
               if direction = U ''sent'' \<and> (at_value = JNull \<or> time \<noteq> None)
               then Some \<lparr>ea_message_id = message_id, ea_subject = subject, ea_summary = summary,
                          ea_occurred_at = (if at_value = JNull then None else time),
                          ea_sensitive = sensitive\<rparr>
               else None
           | _ \<Rightarrow> None)
      | _ \<Rightarrow> None)"

definition nonempty :: "ustr \<Rightarrow> ustr option" where
  "nonempty s = (if s = [] then None else Some s)"

definition email_event :: "email_activity \<Rightarrow> work_event" where
  "email_event a =
     (WorkEvent (U ''email:'' @ ea_message_id a) ([37038, 20214, 21327, 20316, 65306] @ ea_subject a) Completed_w)
       \<lparr>we_description := nonempty (ea_summary a), we_event_type := Collaboration,
        we_event_time := ea_occurred_at a, we_source_type := Email,
        we_source_id := Some (ea_message_id a),
        we_evidence_url := Some (U ''connector://email/'' @ ea_message_id a)\<rparr>"

definition email_shareable :: "unicode \<Rightarrow> email_activity \<Rightarrow> bool" where
  "email_shareable u a \<longleftrightarrow> \<not> ea_sensitive a \<and> findings u (ea_subject a @ [10] @ ea_summary a) = []"

text \<open>The loop over the activity: the events, the number of invalid and of sensitive items.\<close>

fun email_loop ::
  "unicode \<Rightarrow> (jdict \<Rightarrow> email_activity option) \<Rightarrow> jdict list \<Rightarrow> work_event list \<times> nat \<times> nat" where
  "email_loop u validate [] = ([], 0, 0)"
| "email_loop u validate (item # items) =
     (case email_loop u validate items of
        (events, invalid_count, sensitive_count) \<Rightarrow>
          (case validate item of
             None \<Rightarrow> (events, invalid_count + 1, sensitive_count)
           | Some parsed \<Rightarrow>
               if email_shareable u parsed then (email_event parsed # events, invalid_count, sensitive_count)
               else (events, invalid_count, sensitive_count + 1)))"

definition ignored :: "nat \<Rightarrow> ustr \<Rightarrow> ustr list" where
  "ignored n what = (if n = 0 then [] else [[24050, 24573, 30053, 32] @ nat_dec n @ what])"

definition email_events ::
  "unicode \<Rightarrow> (jdict \<Rightarrow> email_activity option) \<Rightarrow> jdict list \<Rightarrow> work_event list \<times> ustr list" where
  "email_events u validate activity =
     (case email_loop u validate activity of
        (events, invalid_count, sensitive_count) \<Rightarrow>
          (events, ignored invalid_count [32, 26465, 26684, 24335, 26080, 25928, 30340, 37038, 20214, 27963, 21160, 12290] @
                   ignored sensitive_count [32, 26465, 21253, 21547, 25935, 24863, 26631, 35760, 30340, 37038, 20214, 27963, 21160, 12290]))"

subsection \<open>Meetings\<close>

definition meeting_event :: "minutes_draft \<Rightarrow> work_event" where
  "meeting_event m =
     (let decisions = join [65307] (map md_content (take 3 (mm_decisions m)));
          result = (if decisions = [] then mm_summary m else decisions)
      in (WorkEvent (U ''meeting:'' @ mm_meeting_id m) ([20250, 35758, 21327, 20316, 65306] @ mm_title m) Completed_w)
           \<lparr>we_description := nonempty (mm_summary m), we_result := nonempty result,
            we_event_type := Meeting_e, we_event_time := mm_generated_at m, we_source_type := Meeting,
            we_source_id := Some (mm_meeting_id m),
            we_evidence_url := Some (U ''connector://meeting-minutes/'' @ mm_meeting_id m),
            we_participants := mm_participants m\<rparr>)"

definition minutes_shareable :: "unicode \<Rightarrow> minutes_draft \<Rightarrow> bool" where
  "minutes_shareable u m \<longleftrightarrow> findings u (mm_title m @ [10] @ mm_summary m) = []"

definition meeting_events :: "unicode \<Rightarrow> minutes_draft list \<Rightarrow> work_event list \<times> ustr list" where
  "meeting_events u minutes =
     (map meeting_event (filter (minutes_shareable u) minutes),
      ignored (length (filter (\<lambda>m. \<not> minutes_shareable u m) minutes)) [32, 26465, 21253, 21547, 25935, 24863, 20449, 24687, 30340, 20250, 35758, 32426, 35201, 12290])"

section \<open>Collecting\<close>

text \<open>\<open>_safe_collect\<close> of the outcome of a source.\<close>

definition safe_collect ::
  "ustr \<Rightarrow> (work_event list \<times> ustr list) res \<Rightarrow> (ustr \<times> work_event list \<times> ustr list) res" where
  "safe_collect source outcome =
     (case outcome of
        Inr (events, warnings) \<Rightarrow> Inr (source, events, warnings)
      | Inl e \<Rightarrow>
          if caught e [RuntimeErr, TimeoutErr, ValueErr]
          then Inr (source, [], [source @ [32, 25968, 25454, 28304, 26242, 19981, 21487, 29992, 65292, 26085, 25253, 24050, 20351, 29992, 20854, 20182, 26469, 28304, 32487, 32493, 29983, 25104, 12290]])
          else Inl e)"

record work_event_collection =
  wc_events :: "work_event list"
  wc_source_warnings :: "ustr list"
  wc_source_counts :: "(ustr \<times> nat) list"

text \<open>
  \<open>asyncio.gather\<close>: the results in order, or the exception raised first; \<open>pick\<close> tells which of those
  that are raised comes first.
\<close>

definition raised :: "'a res list \<Rightarrow> exn list" where
  "raised rs = concat (map (\<lambda>r. case r of Inl e \<Rightarrow> [e] | Inr _ \<Rightarrow> []) rs)"

definition gather :: "(exn list \<Rightarrow> exn) \<Rightarrow> 'a res list \<Rightarrow> 'a list res" where
  "gather pick rs =
     (if raised rs \<noteq> [] then Inl (pick (raised rs))
      else Inr (map (\<lambda>r. case r of Inr x \<Rightarrow> x) rs))"

text \<open>What the four sources give to one collection.\<close>

record source_replies =
  sr_gitlab :: "jdict list res"
  sr_tasks :: "jdict list res"
  sr_email :: "jdict list res"
  sr_minutes :: "minutes_draft list res"

definition source_outcomes ::
  "(json \<Rightarrow> ustr) \<Rightarrow> unicode \<Rightarrow> (jdict \<Rightarrow> email_activity option) \<Rightarrow> source_replies \<Rightarrow>
   (ustr \<times> (work_event list \<times> ustr list) res) list" where
  "source_outcomes rep u validate replies =
     [(U ''gitlab'',
        map_sum id (\<lambda>activity. (map (\<lambda>(i, item). gitlab_event rep i item) (enumerate 0 activity), [])) (sr_gitlab replies)),
      (U ''task'',
        map_sum id (\<lambda>tasks. (map (\<lambda>(i, item). task_event rep i item) (enumerate 0 tasks), [])) (sr_tasks replies)),
      (U ''email'', map_sum id (email_events u validate) (sr_email replies)),
      (U ''meeting'', map_sum id (meeting_events u) (sr_minutes replies))]"

definition collect_events ::
  "(json \<Rightarrow> ustr) \<Rightarrow> unicode \<Rightarrow> (jdict \<Rightarrow> email_activity option) \<Rightarrow> (exn list \<Rightarrow> exn) \<Rightarrow> source_replies \<Rightarrow>
   work_event_collection res" where
  "collect_events rep u validate pick replies =
     map_sum id (\<lambda>results.
       \<lparr>wc_events = concat (map (fst \<circ> snd) results),
        wc_source_warnings = concat (map (snd \<circ> snd) results),
        wc_source_counts = map (\<lambda>(source, events, warnings). (source, length events)) results\<rparr>)
       (gather pick (map (\<lambda>(source, outcome). safe_collect source outcome)
         (source_outcomes rep u validate replies)))"

text \<open>
  One collection: the employee is \<open>context.employee_id or context.operator_id\<close>. The three connectors and
  the minutes are asked; none of the answers depends on another.
\<close>

definition collect_for ::
  "(json \<Rightarrow> ustr) \<Rightarrow> unicode \<Rightarrow> (jdict \<Rightarrow> email_activity option) \<Rightarrow> (exn list \<Rightarrow> exn) \<Rightarrow>
   (ustr \<Rightarrow> ustr \<Rightarrow> ustr \<Rightarrow> request_context \<Rightarrow> jdict list res) \<Rightarrow> (ustr \<Rightarrow> request_context \<Rightarrow> jdict list res) \<Rightarrow>
   (ustr \<Rightarrow> ustr \<Rightarrow> ustr \<Rightarrow> request_context \<Rightarrow> jdict list res) \<Rightarrow> ('m, 'h) minutes_repo \<Rightarrow> 'm \<Rightarrow>
   ustr \<Rightarrow> ustr \<Rightarrow> request_context \<Rightarrow> work_event_collection res" where
  "collect_for rep u validate pick gitlab tasks email M m date_from date_to c =
     (let employee_id = (case rc_employee_id c of Some (e # es) \<Rightarrow> e # es | _ \<Rightarrow> rc_operator_id c) in
      collect_events rep u validate pick
        \<lparr>sr_gitlab = gitlab employee_id date_from date_to c, sr_tasks = tasks employee_id c,
         sr_email = email employee_id date_from date_to c,
         sr_minutes = Inr (list_for_report M date_from date_to c m)\<rparr>)"

section \<open>A failing source\<close>

definition tolerated :: "exn \<Rightarrow> bool" where
  "tolerated e \<longleftrightarrow> caught e [RuntimeErr, TimeoutErr, ValueErr]"

definition outcome_events :: "(work_event list \<times> ustr list) res \<Rightarrow> work_event list" where
  "outcome_events outcome = (case outcome of Inr (events, warnings) \<Rightarrow> events | Inl e \<Rightarrow> [])"

definition outcome_warnings :: "ustr \<Rightarrow> (work_event list \<times> ustr list) res \<Rightarrow> ustr list" where
  "outcome_warnings source outcome =
     (case outcome of
        Inr (events, warnings) \<Rightarrow> warnings
      | Inl e \<Rightarrow> [source @ [32, 25968, 25454, 28304, 26242, 19981, 21487, 29992, 65292, 26085, 25253, 24050, 20351, 29992, 20854, 20182, 26469, 28304, 32487, 32493, 29983, 25104, 12290]])"

lemma raised_safe_collect:
  "raised (map (\<lambda>(source, outcome). safe_collect source outcome) xs) =
     filter (\<lambda>e. \<not> tolerated e) (raised (map snd xs))"
  by (induction xs)
     (auto simp: raised_def safe_collect_def tolerated_def split: sum.split)

lemma tolerated_results:
  "filter (\<lambda>e. \<not> tolerated e) (raised (map snd xs)) = [] \<Longrightarrow>
   map (\<lambda>r. case r of Inr x \<Rightarrow> x) (map (\<lambda>(source, outcome). safe_collect source outcome) xs) =
   map (\<lambda>(source, outcome). (source, outcome_events outcome, outcome_warnings source outcome)) xs"
proof (induction xs)
  case (Cons x xs)
  obtain source outcome where x: "x = (source, outcome)" by (rule prod.exhaust)
  have "(case safe_collect source outcome of Inr y \<Rightarrow> y) =
      (source, outcome_events outcome, outcome_warnings source outcome)"
  proof (cases outcome)
    case (Inl e)
    with Cons.prems have "tolerated e" by (simp add: x raised_def split: if_splits)
    with Inl show ?thesis
      by (simp add: safe_collect_def tolerated_def outcome_events_def outcome_warnings_def)
  next
    case (Inr y)
    then show ?thesis
      by (cases y) (simp add: safe_collect_def outcome_events_def outcome_warnings_def)
  qed
  moreover have "filter (\<lambda>e. \<not> tolerated e) (raised (map snd xs)) = []"
    using Cons.prems by (simp add: x raised_def)
  ultimately show ?case using Cons.IH by (simp add: x)
qed simp

lemma collected:
  "let outcomes = source_outcomes rep u validate replies;
       fatal = filter (\<lambda>e. \<not> tolerated e) (raised (map snd outcomes))
   in collect_events rep u validate pick replies =
      (if fatal = []
       then Inr \<lparr>wc_events = concat (map (\<lambda>(source, outcome). outcome_events outcome) outcomes),
                 wc_source_warnings = concat (map (\<lambda>(source, outcome). outcome_warnings source outcome) outcomes),
                 wc_source_counts = map (\<lambda>(source, outcome). (source, length (outcome_events outcome))) outcomes\<rparr>
       else Inl (pick fatal))"
proof -
  define outcomes where "outcomes = source_outcomes rep u validate replies"
  define results where "results = map (\<lambda>(source, outcome). safe_collect source outcome) outcomes"
  define fatal where "fatal = filter (\<lambda>e. \<not> tolerated e) (raised (map snd outcomes))"
  have raised: "raised results = fatal"
    unfolding results_def fatal_def by (rule raised_safe_collect)
  have ok: "map (\<lambda>r. case r of Inr x \<Rightarrow> x) results =
      map (\<lambda>(source, outcome). (source, outcome_events outcome, outcome_warnings source outcome)) outcomes"
    if "fatal = []"
    using that unfolding fatal_def results_def by (rule tolerated_results)
  have "collect_events rep u validate pick replies =
      (if fatal = []
       then Inr \<lparr>wc_events = concat (map (\<lambda>(source, outcome). outcome_events outcome) outcomes),
                 wc_source_warnings = concat (map (\<lambda>(source, outcome). outcome_warnings source outcome) outcomes),
                 wc_source_counts = map (\<lambda>(source, outcome). (source, length (outcome_events outcome))) outcomes\<rparr>
       else Inl (pick fatal))"
  proof (cases "fatal = []")
    case True
    have "gather pick results = Inr (map (\<lambda>(source, outcome).
        (source, outcome_events outcome, outcome_warnings source outcome)) outcomes)"
      using True ok raised by (simp add: gather_def)
    then show ?thesis using True
      unfolding collect_events_def outcomes_def [symmetric] results_def [symmetric]
      by (simp add: comp_def case_prod_unfold)
  next
    case False
    then show ?thesis using raised
      unfolding collect_events_def outcomes_def [symmetric] results_def [symmetric]
      by (simp add: gather_def)
  qed
  then show ?thesis unfolding Let_def outcomes_def fatal_def .
qed

text \<open>
  A failing source does not stop the others: when the exceptions the sources raise are all runtime
  errors, time-outs or value errors, the collection succeeds with the events of the other sources in the
  order GitLab, tasks, e-mail, meetings, one warning per failed source in the place of its own warnings,
  and a count of zero for it. Any other exception (a missing field, a wrong type, an overflow) ends the
  whole collection.
\<close>

theorem collection_survives_tolerated_failures:
  "let outcomes = source_outcomes rep u validate replies;
       fatal = filter (\<lambda>e. \<not> tolerated e) (raised (map snd outcomes))
   in collect_events rep u validate pick replies =
      (if fatal = []
       then Inr \<lparr>wc_events = concat (map (\<lambda>(source, outcome). outcome_events outcome) outcomes),
                 wc_source_warnings = concat (map (\<lambda>(source, outcome). outcome_warnings source outcome) outcomes),
                 wc_source_counts = map (\<lambda>(source, outcome). (source, length (outcome_events outcome))) outcomes\<rparr>
       else Inl (pick fatal))"
  by (rule collected)

section \<open>What becomes an event\<close>

lemma outcome_events_map_sum:
  "e \<in> set (outcome_events (map_sum id f r)) \<longleftrightarrow> (\<exists>x. r = Inr x \<and> e \<in> set (fst (f x)))"
  by (cases r) (auto simp: outcome_events_def case_prod_unfold)

lemma outcome_events_Inr: "e \<in> set (outcome_events (Inr x)) \<longleftrightarrow> e \<in> set (fst x)"
  by (simp add: outcome_events_def case_prod_unfold)

lemma collected_sources:
  assumes "collect_events rep u validate pick replies = Inr w" "e \<in> set (wc_events w)"
  shows "\<exists>(source, outcome) \<in> set (source_outcomes rep u validate replies). e \<in> set (outcome_events outcome)"
proof -
  have "wc_events w = concat (map (\<lambda>(source, outcome). outcome_events outcome)
      (source_outcomes rep u validate replies))"
    using assms(1) unfolding collected [unfolded Let_def]
    by (auto split: if_splits)
  with assms(2) show ?thesis by auto
qed

lemma email_loop_events:
  "e \<in> set (fst (email_loop u validate items)) \<Longrightarrow>
     \<exists>item \<in> set items. \<exists>a. validate item = Some a \<and> email_shareable u a \<and> e = email_event a"
proof (induction items)
  case (Cons item items)
  obtain events i n where loop: "email_loop u validate items = (events, i, n)" by (metis prod.exhaust)
  show ?case
  proof (cases "e \<in> set events")
    case True
    with Cons.IH loop show ?thesis by auto
  next
    case False
    with Cons.prems loop show ?thesis
      by (auto split: option.splits if_splits)
  qed
qed simp

lemma email_loop_counts:
  "fst (snd (email_loop u validate items)) = length (filter (\<lambda>item. validate item = None) items)"
  "snd (snd (email_loop u validate items)) =
     length (filter (\<lambda>item. case validate item of None \<Rightarrow> False | Some a \<Rightarrow> \<not> email_shareable u a) items)"
  by (induction items) (auto split: prod.splits option.splits)

lemma source_types:
  "we_source_type (gitlab_event rep i d) = Gitlab" "we_source_type (task_event rep i d) = Task"
  "we_source_type (email_event a) = Email" "we_source_type (meeting_event m) = Meeting"
  by (simp_all add: gitlab_event_def task_event_def email_event_def meeting_event_def Let_def)

text \<open>
  C30: Only shareable texts become events: an e-mail event comes from a well-formed e-mail of the employee
  that is not marked sensitive and in whose subject and summary the sensitive-data patterns find nothing; a
  meeting event from minutes that are approved or sent, dated within the range asked for, and clean in the
  same sense.
\<close>

theorem collected_texts_are_shareable:
  assumes "collect_for rep u validate pick gitlab tasks email M m date_from date_to c = Inr w"
    and "e \<in> set (wc_events w)"
  shows "(we_source_type e = Email \<longrightarrow>
      (\<exists>items item a. email (if rc_employee_id c \<in> {None, Some []} then rc_operator_id c else the (rc_employee_id c))
          date_from date_to c = Inr items \<and> item \<in> set items \<and>
        validate item = Some a \<and> \<not> ea_sensitive a \<and> findings u (ea_subject a @ [10] @ ea_summary a) = [] \<and>
        e = email_event a)) \<and>
    (we_source_type e = Meeting \<longrightarrow>
      (\<exists>d. d \<in> set (list_for_report M date_from date_to c m) \<and> mm_status d \<in> {Approved_m, Sent_m} \<and>
        (\<exists>day. mm_meeting_date d = Some day \<and> date_from \<le> day \<and> day \<le> date_to) \<and>
        findings u (mm_title d @ [10] @ mm_summary d) = [] \<and> e = meeting_event d))"
proof -
  let ?employee = "case rc_employee_id c of Some (e # es) \<Rightarrow> e # es | _ \<Rightarrow> rc_operator_id c"
  have employee: "?employee = (if rc_employee_id c \<in> {None, Some []} then rc_operator_id c else the (rc_employee_id c))"
    by (auto split: option.split list.split)
  from collected_sources [OF assms(1) [unfolded collect_for_def Let_def] assms(2)]
  have "e \<in> set (outcome_events (map_sum id (email_events u validate) (email ?employee date_from date_to c))) \<or>
      e \<in> set (outcome_events (map_sum id (meeting_events u)
        (Inr (list_for_report M date_from date_to c m) :: minutes_draft list res))) \<or> we_source_type e \<in> {Gitlab, Task}"
    by (auto simp: source_outcomes_def outcome_events_map_sum source_types)
  then consider
      (email) items where "email ?employee date_from date_to c = Inr items"
        "e \<in> set (fst (email_events u validate items))"
    | (meeting) "e \<in> set (fst (meeting_events u (list_for_report M date_from date_to c m)))"
    | (other) "we_source_type e \<in> {Gitlab, Task}"
    by (auto simp: outcome_events_map_sum outcome_events_Inr)
  then show ?thesis
  proof cases
    case email
    have "e \<in> set (fst (email_loop u validate items))"
      using email(2) by (simp add: email_events_def split: prod.splits)
    from email_loop_events [OF this] email(1) show ?thesis
      unfolding employee by (auto simp: email_shareable_def source_types)
  next
    case meeting
    then obtain d where d: "d \<in> set (list_for_report M date_from date_to c m)" "minutes_shareable u d"
      "e = meeting_event d"
      by (auto simp: meeting_events_def)
    then have "mm_status d \<in> {Approved_m, Sent_m} \<and>
        (\<exists>day. mm_meeting_date d = Some day \<and> date_from \<le> day \<and> day \<le> date_to)"
      by (auto simp: list_for_report_def split: option.splits)
    with d show ?thesis by (auto simp: minutes_shareable_def source_types)
  next
    case other
    then show ?thesis by auto
  qed
qed

definition demo_email :: jdict where
  "demo_email = text_dict [(''message_id'', U ''m1''), (''subject'', U ''ok''), (''summary'', U ''ok'')]"

definition demo_validate :: "jdict \<Rightarrow> email_activity option" where
  "demo_validate = validate_email (\<lambda>_. None) (\<lambda>_. None)"

definition demo_failing :: "ustr \<Rightarrow> ustr \<Rightarrow> ustr \<Rightarrow> request_context \<Rightarrow> jdict list res" where
  "demo_failing employee_id date_from date_to c = Inl gitlab_failure"

definition demo_collection :: "work_event_collection res" where
  "demo_collection = collect_for (\<lambda>_. []) demo_unicode demo_validate hd demo_failing (\<lambda>_ _. Inr [])
     (\<lambda>_ _ _ _. Inr [demo_email]) mem_minutes_repo \<lparr>mn_heap = [], mn_drafts = [], mn_owners = []\<rparr>
     (U ''2026-07-28'') (U ''2026-07-28'') demo_asker"

lemma demo_shareable: "findings demo_unicode (U ''ok'' @ [10] @ U ''ok'') = []"
  by (simp add: findings_def credential_at_def credential_words_def fixed_token_def U_def same_letter_def
      boundary_def word_opt_def head_def)

lemma demo_collection_value:
  "demo_collection = Inr \<lparr>wc_events = [email_event
       \<lparr>ea_message_id = U ''m1'', ea_subject = U ''ok'', ea_summary = U ''ok'', ea_occurred_at = None, ea_sensitive = False\<rparr>],
     wc_source_warnings = [U ''gitlab'' @ [32, 25968, 25454, 28304, 26242, 19981, 21487, 29992, 65292, 26085, 25253, 24050, 20351, 29992, 20854, 20182, 26469, 28304, 32487, 32493, 29983, 25104, 12290]],
     wc_source_counts = [(U ''gitlab'', 0), (U ''task'', 0), (U ''email'', 1), (U ''meeting'', 0)]\<rparr>"
  using demo_shareable
  by (simp add: demo_collection_def collect_for_def collect_events_def source_outcomes_def safe_collect_def
      gather_def raised_def demo_failing_def gitlab_failure_def caught_def isa_def list_for_report_def
      mem_minutes_repo_def mem_minutes_list_def meeting_events_def email_events_def ignored_def demo_validate_def
      validate_email_def demo_email_def text_dict_def get_default_def email_shareable_def)

theorem collected_texts_are_shareable_witness:
  "\<exists>item a. item \<in> set [demo_email] \<and> demo_validate item = Some a \<and> \<not> ea_sensitive a \<and>
     findings demo_unicode (ea_subject a @ [10] @ ea_summary a) = []"
proof -
  define a where "a = \<lparr>ea_message_id = U ''m1'', ea_subject = U ''ok'', ea_summary = U ''ok'',
    ea_occurred_at = None, ea_sensitive = False\<rparr>"
  obtain w where w: "demo_collection = Inr w" "email_event a \<in> set (wc_events w)"
    unfolding demo_collection_value a_def by simp
  show ?thesis
    using collected_texts_are_shareable [OF w(1) [unfolded demo_collection_def] w(2)]
    by (auto simp: source_types)
qed

section \<open>The week of a report\<close>

text \<open>
  The meetings of a weekly report are those of exactly seven days: for a first day in the extended ISO
  form, minutes with a date in that form fall in the range of the report if and only if their day is one of
  the seven days that start there.
\<close>

theorem weekly_range_is_seven_days:
  assumes "valid_day d" "valid_day e" "iso_after 6 (isoformat d) = Inr date_to"
    and "mm_meeting_date x = Some (isoformat e)"
  shows "x \<in> set (list_for_report M (isoformat d) date_to c m) \<longleftrightarrow>
    x \<in> set (map (mt_obj M m) (mt_list_recent M c 200 m)) \<and> mm_status x \<in> {Approved_m, Sent_m} \<and>
    (\<exists>i \<le> 6. e = (next_day ^^ i) d)"
proof -
  have proper: "proper_day d" "proper_day e" using assms(1,2) by (simp_all add: valid_day_def)
  have "date_to = isoformat ((next_day ^^ 6) d)"
    using assms(3) fromisoformat_isoformat [OF assms(1)]
    by (auto simp: iso_after_def add_days_def Let_def split: if_splits)
  then have "isoformat d \<le> isoformat e \<and> isoformat e \<le> date_to \<longleftrightarrow> (\<exists>i \<le> 6. e = (next_day ^^ i) d)"
    using days_between [OF proper, of 6] by (simp add: isoformat_le)
  with assms(4) show ?thesis by (auto simp: list_for_report_def)
qed

theorem weekly_range_is_seven_days_witness:
  "iso_after 6 (U ''2026-07-27'') = Inr (U ''2026-08-02'') \<and>
   demo_minutes \<in> set (list_for_report sql_minutes_repo (U ''2026-07-27'') (U ''2026-08-02'')
     demo_minutes_context (of_meetings demo_minutes_office))"
proof
  have valid: "valid_day (2026, 7, 27)" "valid_day (2026, 7, 28)"
    by (simp_all add: valid_day_def proper_day_def month_days_def)
  have texts: "isoformat (2026, 7, 27) = U ''2026-07-27''" "isoformat (2026, 7, 28) = U ''2026-07-28''"
    by (simp_all add: isoformat_def two_def U_def)
  have six: "6 = Suc (Suc (Suc (Suc (Suc (Suc 0)))))" by simp
  have week: "(next_day ^^ 6) (2026, 7, 27) = (2026, 8, 2)"
    unfolding six by (simp add: next_day_def month_days_def)
  have "iso_after 6 (isoformat (2026, 7, 27)) = Inr (U ''2026-08-02'')"
    unfolding iso_after_def fromisoformat_isoformat [OF valid(1)] option.case add_days_def Let_def week
    by (simp add: isoformat_def two_def U_def)
  then show after: "iso_after 6 (U ''2026-07-27'') = Inr (U ''2026-08-02'')" by (simp add: texts)
  have "mm_meeting_date demo_minutes = Some (isoformat (2026, 7, 28))"
    unfolding texts demo_minutes_def minutes_draft_of_def by (simp add: U_def)
  note in_range = weekly_range_is_seven_days [OF valid after [folded texts] this,
      of sql_minutes_repo demo_minutes_context "of_meetings demo_minutes_office", unfolded texts]
  have "\<exists>i \<le> 6. (2026, 7, 28) = (next_day ^^ i) (2026, 7, 27)"
    by (rule exI [of _ 1]) (simp add: next_day_def month_days_def)
  moreover have "demo_minutes \<in> set (map (mt_obj sql_minutes_repo (of_meetings demo_minutes_office))
      (mt_list_recent sql_minutes_repo demo_minutes_context 200 (of_meetings demo_minutes_office)))"
    by (simp add: sql_minutes_repo_def sql_minutes_list_def demo_minutes_office_def
        demo_minutes_context_def RequestContext_def)
  ultimately show "demo_minutes \<in> set (list_for_report sql_minutes_repo (U ''2026-07-27'') (U ''2026-08-02'')
     demo_minutes_context (of_meetings demo_minutes_office))"
    unfolding in_range by (simp add: demo_minutes_facts)
qed

text \<open>
  The compact form \<open>YYYYMMDD\<close> is a valid first day too, but no meeting of its year is in its range.
\<close>

definition compact :: "day \<Rightarrow> ustr" where
  "compact d = (case d of (y, m, n) \<Rightarrow> two (y div 100) @ two (y mod 100) @ two m @ two n)"

lemma compact_form_loses_meetings:
  assumes "mm_meeting_date x = Some (isoformat (y, m', n'))"
  shows "x \<notin> set (list_for_report M (compact (y, m, n)) date_to c s)"
proof -
  have "\<not> compact (y, m, n) \<le> isoformat (y, m', n')"
    by (simp add: compact_def isoformat_def two_le) (simp add: two_def)
  with assms show ?thesis by (simp add: list_for_report_def)
qed

lemma compact_form_is_accepted:
  assumes "valid_day d"
  shows "fromisoformat (compact d) = Some d"
proof -
  obtain y m n where d: "d = (y, m, n)" by (metis prod.exhaust)
  note b = valid_day_bounds [OF assms [unfolded d]]
  have m: "m \<le> 12" using assms by (simp add: d valid_day_def proper_day_def)
  have "m div 10 \<noteq> 39" using m by auto
  then show ?thesis using assms b two_two_digits [OF b(1)] two_digits [OF b(2)] two_digits [OF b(3)]
    unfolding fromisoformat_def compact_def d by (simp add: two_def) (simp add: calendar_day_def)
qed

end
