(* ===== verification/Csv.thy ===== *)
theory Csv
  imports Py_Text
begin

text \<open>
  The \<open>csv\<close> module as uploads (\<open>FileService._parse_csv\<close>) and exports (\<open>ArtifactService\<close>) use it: the
  reader, \<open>DictReader\<close> and the writer of the \<open>excel\<close> dialect. \<open>csv.Error\<close> is an \<open>Exception\<close>.

  The reader is the state machine of CPython: it is fed the lines of the text, each of which ends in a line
  feed or at the end of the text, and the end of the line after each.
\<close>

section \<open>The reader\<close>

datatype csv_state = Start_record | Start_field | In_field | In_quoted | Quote_in_quoted | Eat_crnl

record csv_reader =
  cs_state :: csv_state
  cs_field :: ustr
  cs_fields :: "ustr list"
  cs_records :: "ustr list list"

definition csv_start :: csv_reader where
  "csv_start = \<lparr>cs_state = Start_record, cs_field = [], cs_fields = [], cs_records = []\<rparr>"

definition field_limit :: nat where
  "field_limit = 131072"

definition csv_error :: exn where
  "csv_error = Exn ExceptionC (U ''csv.Error'')"

definition add_char :: "nat \<Rightarrow> csv_state \<Rightarrow> csv_reader \<Rightarrow> csv_reader res" where
  "add_char c st s =
     (if field_limit \<le> length (cs_field s) then Inl csv_error
      else Inr (s\<lparr>cs_field := cs_field s @ [c], cs_state := st\<rparr>))"

definition save_field :: "csv_state \<Rightarrow> csv_reader \<Rightarrow> csv_reader" where
  "save_field st s = s\<lparr>cs_fields := cs_fields s @ [cs_field s], cs_field := [], cs_state := st\<rparr>"

definition line_end :: "nat \<Rightarrow> bool" where
  "line_end c \<longleftrightarrow> c = 10 \<or> c = 13"

definition start_field :: "nat \<Rightarrow> nat \<Rightarrow> csv_reader \<Rightarrow> csv_reader res" where
  "start_field delim c s =
     (if line_end c then Inr (save_field Eat_crnl s)
      else if c = 34 then Inr (s\<lparr>cs_state := In_quoted\<rparr>)
      else if c = delim then Inr (save_field Start_field s)
      else add_char c In_field s)"

definition csv_char :: "nat \<Rightarrow> nat \<Rightarrow> csv_reader \<Rightarrow> csv_reader res" where
  "csv_char delim c s =
     (case cs_state s of
        Start_record \<Rightarrow> if line_end c then Inr (s\<lparr>cs_state := Eat_crnl\<rparr>) else start_field delim c s
      | Start_field \<Rightarrow> start_field delim c s
      | In_field \<Rightarrow>
          if line_end c then Inr (save_field Eat_crnl s)
          else if c = delim then Inr (save_field Start_field s)
          else add_char c In_field s
      | In_quoted \<Rightarrow> if c = 34 then Inr (s\<lparr>cs_state := Quote_in_quoted\<rparr>) else add_char c In_quoted s
      | Quote_in_quoted \<Rightarrow>
          if c = 34 then add_char c In_quoted s
          else if c = delim then Inr (save_field Start_field s)
          else if line_end c then Inr (save_field Eat_crnl s)
          else add_char c In_field s
      | Eat_crnl \<Rightarrow> if line_end c then Inr s else Inl csv_error)"

text \<open>The end of a line; a record is complete when the machine is back at its start.\<close>

definition emit :: "csv_reader \<Rightarrow> csv_reader" where
  "emit s = s\<lparr>cs_records := cs_records s @ [cs_fields s], cs_fields := [], cs_state := Start_record\<rparr>"

definition csv_eol :: "csv_reader \<Rightarrow> csv_reader" where
  "csv_eol s =
     (case cs_state s of
        In_quoted \<Rightarrow> s
      | Start_record \<Rightarrow> emit s
      | Eat_crnl \<Rightarrow> emit s
      | _ \<Rightarrow> emit (save_field Start_record s))"

text \<open>At the end of the input an open quoted field is closed.\<close>

definition csv_finish :: "csv_reader \<Rightarrow> ustr list list" where
  "csv_finish s =
     (if cs_state s = In_quoted then cs_records (emit (save_field Start_record s)) else cs_records s)"

fun csv_run :: "nat \<Rightarrow> csv_reader \<Rightarrow> ustr \<Rightarrow> ustr list list res" where
  "csv_run delim s [] = Inr (csv_finish s)"
| "csv_run delim s (c # cs) =
     (case csv_char delim c s of
        Inl e \<Rightarrow> Inl e
      | Inr s1 \<Rightarrow> csv_run delim (if c = 10 \<or> cs = [] then csv_eol s1 else s1) cs)"

definition csv_records :: "nat \<Rightarrow> ustr \<Rightarrow> ustr list list res" where
  "csv_records delim text = csv_run delim csv_start text"

section \<open>The dictionary reader\<close>

text \<open>
  A row of a table is a dictionary. The values beyond the last header are a list under the key \<open>None\<close>,
  missing ones are \<open>None\<close>; of equal headers the last one counts. Empty records are skipped, but not as the
  header.
\<close>

type_synonym table_row = "(ustr option \<times> json) list"

definition csv_row :: "ustr list \<Rightarrow> ustr list \<Rightarrow> table_row" where
  "csv_row headers cells =
     (let named = fold (\<lambda>(k, v). AList.update (Some k) (JStr v)) (zip headers cells) [] in
      if length headers < length cells
      then named @ [(None, JList (map JStr (drop (length headers) cells)))]
      else fold (\<lambda>k. AList.update (Some k) JNull) (drop (length cells) headers) named)"

definition dict_reader :: "nat \<Rightarrow> ustr \<Rightarrow> table_row list res" where
  "dict_reader delim text =
     (case csv_records delim text of
        Inl e \<Rightarrow> Inl e
      | Inr [] \<Rightarrow> Inr []
      | Inr (headers # records) \<Rightarrow> Inr (map (csv_row headers) (filter (\<lambda>r. r \<noteq> []) records)))"

section \<open>The writer\<close>

definition needs_quotes :: "ustr \<Rightarrow> bool" where
  "needs_quotes s \<longleftrightarrow> list_ex (\<lambda>c. c = 44 \<or> c = 34 \<or> line_end c) s"

definition double_quotes :: "ustr \<Rightarrow> ustr" where
  "double_quotes s = concat (map (\<lambda>c. if c = 34 then [34, 34] else [c]) s)"

definition csv_field :: "bool \<Rightarrow> ustr \<Rightarrow> ustr" where
  "csv_field alone s =
     (if needs_quotes s \<or> alone \<and> s = [] then [34] @ double_quotes s @ [34] else s)"

definition writerow :: "ustr list \<Rightarrow> ustr" where
  "writerow cells = join [44] (map (csv_field (length cells = 1)) cells) @ [13, 10]"

definition csv_text :: "ustr list list \<Rightarrow> ustr" where
  "csv_text rows = concat (map writerow rows)"

section \<open>Reading back what was written\<close>

lemma line_end_simps [simp]: "line_end 10" "line_end 13" "\<not> line_end 44" "\<not> line_end 34"
  by (simp_all add: line_end_def)

lemma csv_run_char:
  assumes "csv_char delim c s = Inr s1" "c \<noteq> 10" "rest \<noteq> []"
  shows "csv_run delim s (c # rest) = csv_run delim s1 rest"
  using assms by simp

definition plain :: "nat \<Rightarrow> bool" where
  "plain c \<longleftrightarrow> c \<noteq> 44 \<and> c \<noteq> 34 \<and> \<not> line_end c"

lemma needs_quotes_plain: "\<not> needs_quotes f \<longleftrightarrow> list_all plain f"
  by (induction f) (auto simp: needs_quotes_def plain_def)

lemma plain_not_10: "plain c \<Longrightarrow> c \<noteq> 10"
  by (auto simp: plain_def line_end_def)

lemma run_plain:
  "list_all plain xs \<Longrightarrow> rest \<noteq> [] \<Longrightarrow> length (cs_field s) + length xs \<le> field_limit \<Longrightarrow>
   cs_state s = In_field \<Longrightarrow>
   csv_run 44 s (xs @ rest) = csv_run 44 (s\<lparr>cs_field := cs_field s @ xs\<rparr>) rest"
proof (induction xs arbitrary: s)
  case (Cons c xs)
  let ?s = "s\<lparr>cs_field := cs_field s @ [c], cs_state := In_field\<rparr>"
  have "csv_char 44 c s = Inr ?s"
    using Cons.prems by (auto simp: csv_char_def add_char_def plain_def)
  then have "csv_run 44 s ((c # xs) @ rest) = csv_run 44 ?s (xs @ rest)"
    using Cons.prems plain_not_10 [of c] csv_run_char by simp
  also have "\<dots> = csv_run 44 (?s\<lparr>cs_field := cs_field ?s @ xs\<rparr>) rest"
    by (rule Cons.IH) (use Cons.prems in simp_all)
  finally show ?case using Cons.prems(4) by (cases s) simp
qed simp

lemma run_quoted:
  "rest \<noteq> [] \<Longrightarrow> length (cs_field s) + length xs \<le> field_limit \<Longrightarrow> cs_state s = In_quoted \<Longrightarrow>
   csv_run 44 s (double_quotes xs @ 34 # rest) =
   csv_run 44 (s\<lparr>cs_field := cs_field s @ xs, cs_state := Quote_in_quoted\<rparr>) rest"
proof (induction xs arbitrary: s)
  case Nil
  then show ?case by (simp add: double_quotes_def csv_char_def)
next
  case (Cons c xs)
  let ?s = "s\<lparr>cs_field := cs_field s @ [c], cs_state := In_quoted\<rparr>"
  have step: "csv_run 44 s (double_quotes (c # xs) @ 34 # rest) = csv_run 44 ?s (double_quotes xs @ 34 # rest)"
  proof (cases "c = 34")
    case True
    then show ?thesis using Cons.prems
      by (simp add: double_quotes_def csv_char_def add_char_def)
  next
    case False
    then show ?thesis using Cons.prems
      by (simp add: double_quotes_def csv_char_def add_char_def csv_eol_def)
  qed
  also have "\<dots> = csv_run 44 (?s\<lparr>cs_field := cs_field ?s @ xs, cs_state := Quote_in_quoted\<rparr>) rest"
    by (rule Cons.IH) (use Cons.prems in simp_all)
  finally show ?case using Cons.prems(3) by (cases s) simp
qed

text \<open>After a written field the machine has the field, in a state where it may end.\<close>

definition field_read :: "csv_reader \<Rightarrow> ustr \<Rightarrow> csv_reader \<Rightarrow> bool" where
  "field_read s f s1 \<longleftrightarrow> cs_field s1 = f \<and> cs_fields s1 = cs_fields s \<and> cs_records s1 = cs_records s \<and>
     (cs_state s1 \<in> {In_field, Quote_in_quoted} \<or> f = [] \<and> s1 = s)"

lemma run_field:
  assumes "cs_state s \<in> {Start_record, Start_field}" "cs_field s = []" "rest \<noteq> []" "length f \<le> field_limit"
  shows "\<exists>s1. field_read s f s1 \<and> (csv_field alone f \<noteq> [] \<longrightarrow> cs_state s1 \<in> {In_field, Quote_in_quoted}) \<and>
    csv_run 44 s (csv_field alone f @ rest) = csv_run 44 s1 rest"
proof (cases "needs_quotes f \<or> alone \<and> f = []")
  case True
  let ?q = "s\<lparr>cs_state := In_quoted\<rparr>"
  have "csv_char 44 34 s = Inr ?q"
    using assms(1) by (auto simp: csv_char_def start_field_def)
  then have "csv_run 44 s (csv_field alone f @ rest) = csv_run 44 ?q (double_quotes f @ 34 # rest)"
    using True by (simp add: csv_field_def)
  also have "\<dots> = csv_run 44 (?q\<lparr>cs_field := cs_field ?q @ f, cs_state := Quote_in_quoted\<rparr>) rest"
    by (rule run_quoted) (use assms in simp_all)
  finally show ?thesis using assms(2)
    by (intro exI [of _ "?q\<lparr>cs_field := cs_field ?q @ f, cs_state := Quote_in_quoted\<rparr>"])
       (simp add: field_read_def)
next
  case False
  then have plain: "list_all plain f" and same: "csv_field alone f = f"
    using needs_quotes_plain by (auto simp: csv_field_def)
  show ?thesis
  proof (cases f)
    case Nil
    then show ?thesis using same assms(2) by (intro exI [of _ s]) (simp add: field_read_def)
  next
    case (Cons c xs)
    let ?s = "s\<lparr>cs_field := [c], cs_state := In_field\<rparr>"
    have "csv_char 44 c s = Inr ?s"
      using assms plain Cons
      by (auto simp: csv_char_def start_field_def add_char_def plain_def field_limit_def)
    then have "csv_run 44 s (csv_field alone f @ rest) = csv_run 44 ?s (xs @ rest)"
      using Cons same plain plain_not_10 [of c] csv_run_char [of 44 c s ?s "xs @ rest"] assms(3) by simp
    also have "\<dots> = csv_run 44 (?s\<lparr>cs_field := cs_field ?s @ xs\<rparr>) rest"
      by (rule run_plain) (use Cons plain assms in simp_all)
    finally show ?thesis using Cons
      by (intro exI [of _ "?s\<lparr>cs_field := cs_field ?s @ xs\<rparr>"]) (simp add: field_read_def)
  qed
qed

text \<open>A field that is followed by a comma, and the last field of a record.\<close>

lemma run_comma:
  assumes "cs_state s \<in> {Start_record, Start_field}" "cs_field s = []" "rest \<noteq> []" "length f \<le> field_limit"
  shows "csv_run 44 s (csv_field alone f @ 44 # rest) =
    csv_run 44 (s\<lparr>cs_fields := cs_fields s @ [f], cs_state := Start_field\<rparr>) rest"
proof -
  obtain s1 where s1: "field_read s f s1" "csv_run 44 s (csv_field alone f @ 44 # rest) = csv_run 44 s1 (44 # rest)"
    using run_field [OF assms(1,2) _ assms(4), of "44 # rest" alone] by auto
  have "csv_char 44 44 s1 = Inr (s\<lparr>cs_fields := cs_fields s @ [f], cs_state := Start_field\<rparr>)"
    using s1(1) assms(1,2)
    by (cases s; cases s1) (auto simp: field_read_def csv_char_def start_field_def save_field_def)
  with s1(2) assms(3) show ?thesis by simp
qed

lemma run_last:
  assumes "cs_state s = Start_field \<or> cs_state s = Start_record \<and> csv_field alone f \<noteq> []"
    and "cs_field s = []" "length f \<le> field_limit"
  shows "csv_run 44 s (csv_field alone f @ 13 # 10 # rest) =
    csv_run 44 (s\<lparr>cs_records := cs_records s @ [cs_fields s @ [f]], cs_fields := [], cs_state := Start_record\<rparr>) rest"
proof -
  obtain s1 where s1: "field_read s f s1" "csv_field alone f \<noteq> [] \<Longrightarrow> cs_state s1 \<in> {In_field, Quote_in_quoted}"
    "csv_run 44 s (csv_field alone f @ 13 # 10 # rest) = csv_run 44 s1 (13 # 10 # rest)"
    using run_field [OF _ assms(2) _ assms(3), of "13 # 10 # rest" alone] assms(1) by auto
  let ?s2 = "s\<lparr>cs_fields := cs_fields s @ [f], cs_field := [], cs_state := Eat_crnl\<rparr>"
  have "csv_char 44 13 s1 = Inr ?s2"
    using s1(1,2) assms(1,2)
    by (cases s; cases s1) (auto simp: field_read_def csv_char_def start_field_def save_field_def)
  moreover have "csv_char 44 10 ?s2 = Inr ?s2" by (simp add: csv_char_def)
  ultimately have "csv_run 44 s (csv_field alone f @ 13 # 10 # rest) = csv_run 44 (csv_eol ?s2) rest"
    using s1(3) by simp
  moreover have "csv_eol ?s2 =
      s\<lparr>cs_records := cs_records s @ [cs_fields s @ [f]], cs_fields := [], cs_state := Start_record\<rparr>"
    using assms(2) by (cases s) (simp add: csv_eol_def emit_def)
  ultimately show ?thesis by simp
qed

lemma run_row_rest:
  "cells \<noteq> [] \<Longrightarrow> \<forall>f \<in> set cells. length f \<le> field_limit \<Longrightarrow> cs_state s = Start_field \<Longrightarrow> cs_field s = [] \<Longrightarrow>
   csv_run 44 s (join [44] (map (csv_field False) cells) @ 13 # 10 # rest) =
   csv_run 44 (s\<lparr>cs_records := cs_records s @ [cs_fields s @ cells], cs_fields := [],
                 cs_state := Start_record\<rparr>) rest"
proof (induction cells arbitrary: s rule: induct_list012)
  case (2 f)
  then show ?case using run_last [of s False f rest] by simp
next
  case (3 f g cells)
  let ?s = "s\<lparr>cs_fields := cs_fields s @ [f], cs_state := Start_field\<rparr>"
  have "csv_run 44 s (join [44] (map (csv_field False) (f # g # cells)) @ 13 # 10 # rest) =
      csv_run 44 ?s (join [44] (map (csv_field False) (g # cells)) @ 13 # 10 # rest)"
    using 3(4-6) run_comma [of s "join [44] (map (csv_field False) (g # cells)) @ 13 # 10 # rest" f False] by simp
  also have "\<dots> = csv_run 44 (?s\<lparr>cs_records := cs_records ?s @ [cs_fields ?s @ g # cells], cs_fields := [],
      cs_state := Start_record\<rparr>) rest"
    by (rule 3(2)) (use 3(4-6) in simp_all)
  finally show ?case by simp
qed simp

lemma run_row:
  assumes "cells \<noteq> []" "\<forall>f \<in> set cells. length f \<le> field_limit"
    and "cs_state s = Start_record" "cs_field s = []" "cs_fields s = []"
  shows "csv_run 44 s (writerow cells @ rest) = csv_run 44 (s\<lparr>cs_records := cs_records s @ [cells]\<rparr>) rest"
proof (cases cells rule: remdups_adj.cases)
  case 1
  with assms(1) show ?thesis by simp
next
  case (2 f)
  have "csv_field True f \<noteq> []" by (simp add: csv_field_def needs_quotes_def)
  then have "csv_run 44 s (writerow cells @ rest) =
      csv_run 44 (s\<lparr>cs_records := cs_records s @ [cs_fields s @ [f]], cs_fields := [], cs_state := Start_record\<rparr>) rest"
    using run_last [of s True f rest] assms 2 by (simp add: writerow_def)
  then show ?thesis using assms(3,5) 2 by (cases s) simp
next
  case (3 f g cells')
  let ?s = "s\<lparr>cs_fields := cs_fields s @ [f], cs_state := Start_field\<rparr>"
  have "csv_run 44 s (writerow cells @ rest) =
      csv_run 44 ?s (join [44] (map (csv_field False) (g # cells')) @ 13 # 10 # rest)"
    using run_comma [of s "join [44] (map (csv_field False) (g # cells')) @ 13 # 10 # rest" f False] assms 3
    by (simp add: writerow_def)
  also have "\<dots> = csv_run 44 (?s\<lparr>cs_records := cs_records ?s @ [cs_fields ?s @ g # cells'], cs_fields := [],
      cs_state := Start_record\<rparr>) rest"
    by (rule run_row_rest) (use assms 3 in simp_all)
  finally show ?thesis using assms(3,5) 3 by (cases s) simp
qed

lemma run_rows:
  "\<forall>row \<in> set rows. row \<noteq> [] \<and> (\<forall>f \<in> set row. length f \<le> field_limit) \<Longrightarrow>
   cs_state s = Start_record \<Longrightarrow> cs_field s = [] \<Longrightarrow> cs_fields s = [] \<Longrightarrow>
   csv_run 44 s (csv_text rows) = Inr (cs_records s @ rows)"
proof (induction rows arbitrary: s)
  case (Cons row rows)
  have "csv_run 44 s (csv_text (row # rows)) =
      csv_run 44 (s\<lparr>cs_records := cs_records s @ [row]\<rparr>) (csv_text rows)"
    using run_row [of row s "csv_text rows"] Cons.prems by (simp add: csv_text_def)
  also have "\<dots> = Inr (cs_records (s\<lparr>cs_records := cs_records s @ [row]\<rparr>) @ rows)"
    by (rule Cons.IH) (use Cons.prems in simp_all)
  finally show ?case by simp
qed (simp add: csv_text_def csv_finish_def)

text \<open>
  Reading a written CSV text gives the rows back, whatever characters the cells contain (commas,
  quotes, line breaks, formulas): the reader of the uploads inverts the writer of the exports for all
  rows that have at least one cell and no cell beyond the reader's field limit.
\<close>

lemma csv_roundtrip:
  assumes "\<forall>row \<in> set rows. row \<noteq> [] \<and> (\<forall>f \<in> set row. length f \<le> field_limit)"
  shows "csv_records 44 (csv_text rows) = Inr rows"
  using run_rows [OF assms, of csv_start] by (simp add: csv_records_def csv_start_def)

end
