(* ===== verification/Files.thy ===== *)
theory Files
  imports Csv Identity
begin

text \<open>
  Uploaded files (\<open>app/services/files.py\<close>) and their records (\<open>app/repositories/files.py\<close>): the checks of
  an upload, the parsers, storing, reading and deleting.

  \<open>runtime\<close> collects what the application calls outside its own code: the parsers of Excel, Word and PDF
  files (a raised exception is an \<open>Inl\<close>), \<open>json.loads\<close>, the UTF-8 decoder, \<open>str.lower\<close>, the SHA-256
  digest and \<open>Path.resolve\<close>. The disk maps paths to contents. Paths are those of POSIX.
\<close>

section \<open>Outside the application\<close>

type_synonym bytes = "nat list"

text \<open>
  \<open>rt_xlsx\<close> and \<open>rt_xls\<close> give the rows of the first sheet, \<open>rt_docx\<close> the texts of the paragraphs, \<open>rt_pdf\<close>
  those of the pages, empty where nothing was extracted. \<open>rt_inside p\<close> tells whether the resolved path lies
  in the storage directory.
\<close>

record runtime =
  rt_xlsx :: "bytes \<Rightarrow> json list list res"
  rt_xls :: "bytes \<Rightarrow> json list list res"
  rt_docx :: "bytes \<Rightarrow> ustr list res"
  rt_pdf :: "bytes \<Rightarrow> ustr list res"
  rt_decode :: "bytes \<Rightarrow> ustr option"
  rt_loads :: "ustr \<Rightarrow> json option"
  rt_lower :: "ustr \<Rightarrow> ustr"
  rt_repr :: "json \<Rightarrow> ustr"
  rt_sha :: "ustr \<Rightarrow> ustr"
  rt_sha_bytes :: "bytes \<Rightarrow> ustr"
  rt_inside :: "ustr \<Rightarrow> bool"

section \<open>Checks of an upload\<close>

definition unsafe_file :: "string \<Rightarrow> exn" where
  "unsafe_file message = Exn UnsafeFileErr (U message)"

definition allowed_types :: "ustr list" where
  "allowed_types = map U [''csv'', ''tsv'', ''json'', ''xlsx'', ''xls'', ''docx'', ''pdf'', ''txt'', ''md'']"

definition content_types :: "(ustr \<times> ustr list) list" where
  "content_types =
     [(U ''csv'', [U ''text/csv'', U ''application/csv'']),
      (U ''tsv'', [U ''text/tab-separated-values'', U ''text/tsv'']),
      (U ''json'', [U ''application/json'', U ''text/json'']),
      (U ''xlsx'', [U ''application/vnd.openxmlformats-officedocument.spreadsheetml.sheet'']),
      (U ''xls'', [U ''application/vnd.ms-excel'']),
      (U ''docx'', [U ''application/vnd.openxmlformats-officedocument.wordprocessingml.document'']),
      (U ''pdf'', [U ''application/pdf'']),
      (U ''txt'', [U ''text/plain'']),
      (U ''md'', [U ''text/markdown'', U ''text/plain''])]"

fun split_on :: "nat \<Rightarrow> ustr \<Rightarrow> ustr list" where
  "split_on sep [] = [[]]"
| "split_on sep (c # cs) =
     (if c = sep then [] # split_on sep cs
      else (case split_on sep cs of [] \<Rightarrow> [[c]] | w # ws \<Rightarrow> (c # w) # ws))"

text \<open>\<open>Path(s).name\<close>: the last component that is neither empty nor a dot.\<close>

definition path_name :: "ustr \<Rightarrow> ustr" where
  "path_name s =
     (case rev (filter (\<lambda>p. p \<noteq> [] \<and> p \<noteq> [46]) (split_on 47 s)) of [] \<Rightarrow> [] | p # _ \<Rightarrow> p)"

text \<open>\<open>filename.rsplit(".", 1)[-1].lower() if "." in filename else ""\<close>\<close>

definition file_suffix :: "runtime \<Rightarrow> ustr \<Rightarrow> ustr" where
  "file_suffix rt filename =
     (if 46 \<in> set filename then rt_lower rt (rev (takeWhile (\<lambda>c. c \<noteq> 46) (rev filename))) else [])"

definition max_bytes :: nat where
  "max_bytes = 2 * 1024 * 1024"

definition max_rows :: nat where
  "max_rows = 10000"

definition validate_upload :: "runtime \<Rightarrow> ustr \<Rightarrow> bytes \<Rightarrow> ustr option \<Rightarrow> ustr res" where
  "validate_upload rt filename content content_type =
     (let suffix = file_suffix rt filename in
      if filename = [] \<or> path_name filename \<noteq> filename \<or> 255 < length filename
      then Inl (unsafe_file ''invalid filename'')
      else if list_ex (\<lambda>c. c < 32) filename then Inl (unsafe_file ''invalid filename'')
      else if content = [] then Inl (unsafe_file ''file is empty'')
      else if max_bytes < length content then Inl (unsafe_file ''file exceeds maximum size'')
      else if suffix \<notin> set allowed_types then Inl (unsafe_file ''unsupported file type'')
      else if (case content_type of
                 None \<Rightarrow> False
               | Some t \<Rightarrow> t \<noteq> [] \<and> t \<notin> set (case map_of content_types suffix of None \<Rightarrow> [] | Some ts \<Rightarrow> ts))
      then Inl (unsafe_file ''content type does not match filename'')
      else if suffix = U ''pdf'' \<and> \<not> prefix (U ''%PDF-'') content
      then Inl (unsafe_file ''invalid PDF signature'')
      else if suffix \<in> {U ''xlsx'', U ''docx''} \<and> \<not> prefix (U ''PK'') content
      then Inl (unsafe_file ''invalid Office document signature'')
      else if suffix = U ''xls'' \<and> \<not> prefix [208, 207, 17, 224] content
      then Inl (unsafe_file ''invalid XLS signature'')
      else Inr suffix)"

section \<open>Parsers\<close>

definition formula :: "json \<Rightarrow> bool" where
  "formula v = (case v of JStr (c # _) \<Rightarrow> c \<in> {61, 43, 45, 64} | _ \<Rightarrow> False)"

definition parse_csv :: "nat \<Rightarrow> ustr \<Rightarrow> table_row list res" where
  "parse_csv delim text =
     (case dict_reader delim text of
        Inl e \<Rightarrow> Inl e
      | Inr rows \<Rightarrow>
          if list_ex (\<lambda>row. list_ex formula (map snd row)) rows
          then Inl (unsafe_file ''CSV formula injection detected'')
          else Inr rows)"

definition object_row :: "json \<Rightarrow> table_row" where
  "object_row v = (case v of JObj d \<Rightarrow> map (\<lambda>(k, x). (Some k, x)) d | _ \<Rightarrow> [])"

definition parse_json :: "runtime \<Rightarrow> ustr \<Rightarrow> table_row list res" where
  "parse_json rt text =
     (case rt_loads rt text of
        None \<Rightarrow> Inl (Exn JsonDecodeErr [])
      | Some (JList vs) \<Rightarrow>
          if list_all is_dict vs then Inr (map object_row vs)
          else Inl (unsafe_file ''JSON must be an array of objects'')
      | Some _ \<Rightarrow> Inl (unsafe_file ''JSON must be an array of objects''))"

text \<open>\<open>dict(zip(headers, row, strict=True))\<close>\<close>

definition zip_row :: "ustr list \<Rightarrow> json list \<Rightarrow> table_row res" where
  "zip_row headers row =
     (if length row = length headers
      then Inr (fold (\<lambda>(k, v). AList.update (Some k) v) (zip headers row) [])
      else Inl (Exn ValueErr []))"

fun zip_rows :: "ustr list \<Rightarrow> json list list \<Rightarrow> table_row list res" where
  "zip_rows headers [] = Inr []"
| "zip_rows headers (row # rows) =
     (case zip_row headers row of
        Inl e \<Rightarrow> Inl e
      | Inr r \<Rightarrow> (case zip_rows headers rows of Inl e \<Rightarrow> Inl e | Inr rs \<Rightarrow> Inr (r # rs)))"

definition proper_headers :: "ustr list \<Rightarrow> bool" where
  "proper_headers headers \<longleftrightarrow> list_all (\<lambda>h. h \<noteq> []) headers \<and> distinct headers"

definition parse_xlsx :: "runtime \<Rightarrow> bytes \<Rightarrow> table_row list res" where
  "parse_xlsx rt content =
     (case rt_xlsx rt content of
        Inl e \<Rightarrow> Inl e
      | Inr [] \<Rightarrow> Inr []
      | Inr (first # rows) \<Rightarrow>
          let headers = map (\<lambda>v. if v = JNull then [] else py_str (rt_repr rt) v) first in
          if \<not> proper_headers headers then Inl (unsafe_file ''XLSX headers must be present and unique'')
          else zip_rows headers rows)"

definition parse_xls :: "runtime \<Rightarrow> bytes \<Rightarrow> table_row list res" where
  "parse_xls rt content =
     (case rt_xls rt content of
        Inl e \<Rightarrow> Inl e
      | Inr [] \<Rightarrow> Inr []
      | Inr (first # rows) \<Rightarrow>
          let headers = map (\<lambda>v. strip (py_str (rt_repr rt) v)) first in
          if \<not> proper_headers headers then Inl (unsafe_file ''XLS headers must be present and unique'')
          else Inr (map (\<lambda>row. zip (map Some headers) row) rows))"

definition text_row :: "ustr \<Rightarrow> table_row list" where
  "text_row t = [[(Some (U ''text''), JStr t)]]"

definition parse_file :: "runtime \<Rightarrow> ustr \<Rightarrow> bytes \<Rightarrow> table_row list res" where
  "parse_file rt ext content =
     (if ext = U ''xlsx'' then parse_xlsx rt content
      else if ext = U ''xls'' then parse_xls rt content
      else if ext = U ''docx'' then map_sum id (\<lambda>ps. text_row (join [10] ps)) (rt_docx rt content)
      else if ext = U ''pdf'' then map_sum id (\<lambda>ps. text_row (join [10] ps)) (rt_pdf rt content)
      else
        (case rt_decode rt content of
           None \<Rightarrow> Inl (Exn UnicodeErr [])
         | Some t \<Rightarrow>
             if ext \<in> {U ''txt'', U ''md''} then Inr (text_row t)
             else if ext \<in> {U ''csv'', U ''tsv''} then parse_csv (if ext = U ''tsv'' then 9 else 44) t
             else parse_json rt t))"

definition validate_row_count :: "table_row list \<Rightarrow> unit res" where
  "validate_row_count rows =
     (if max_rows < length rows then Inl (unsafe_file ''file exceeds maximum row count'') else Inr ())"

section \<open>The store\<close>

record file_metadata =
  fm_file_id :: ustr
  fm_filename :: ustr
  fm_content_type :: "ustr option"
  fm_byte_size :: nat
  fm_sha256 :: ustr
  fm_row_count :: nat
  fm_file_type :: ustr
  fm_storage_ref :: ustr
  fm_tenant_id :: ustr
  fm_created_by :: ustr
  fm_status :: ustr

text \<open>A row of the table \<open>files\<close> has the tenant and the creator of the caller who saved it.\<close>

record file_row =
  fr_id :: ustr
  fr_tenant_id :: ustr
  fr_created_by :: ustr
  fr_filename :: ustr
  fr_content_type :: "ustr option"
  fr_byte_size :: nat
  fr_sha256 :: ustr
  fr_row_count :: nat
  fr_file_type :: ustr
  fr_object_ref :: "ustr option"
  fr_status :: ustr

definition sql_file_save :: "file_metadata \<Rightarrow> request_context \<Rightarrow> file_row list \<Rightarrow> unit res \<times> file_row list" where
  "sql_file_save m c rows =
     (if fm_file_id m \<in> fr_id ` set rows then (Inl (Exn IntegrityErr []), rows)
      else (Inr (), rows @
        [\<lparr>fr_id = fm_file_id m, fr_tenant_id = rc_tenant_id c, fr_created_by = rc_operator_id c,
          fr_filename = fm_filename m, fr_content_type = fm_content_type m, fr_byte_size = fm_byte_size m,
          fr_sha256 = fm_sha256 m, fr_row_count = fm_row_count m, fr_file_type = fm_file_type m,
          fr_object_ref = Some (fm_storage_ref m), fr_status = fm_status m\<rparr>]))"

text \<open>\<open>str(Path(row.object_ref))\<close> is the reference itself: it was written as the text of a path.\<close>

definition row_metadata :: "file_row \<Rightarrow> ustr \<Rightarrow> file_metadata" where
  "row_metadata r object_ref =
     \<lparr>fm_file_id = fr_id r, fm_filename = fr_filename r, fm_content_type = fr_content_type r,
      fm_byte_size = fr_byte_size r, fm_sha256 = fr_sha256 r, fm_row_count = fr_row_count r,
      fm_file_type = fr_file_type r, fm_storage_ref = object_ref, fm_tenant_id = fr_tenant_id r,
      fm_created_by = fr_created_by r, fm_status = fr_status r\<rparr>"

definition sql_file_get :: "ustr \<Rightarrow> request_context \<Rightarrow> file_row list \<Rightarrow> file_metadata option res" where
  "sql_file_get file_id c rows =
     (case scalar_one_or_none (filter (\<lambda>r. fr_id r = file_id \<and> fr_tenant_id r = rc_tenant_id c) rows) of
        Inl e \<Rightarrow> Inl e
      | Inr None \<Rightarrow> Inr None
      | Inr (Some row) \<Rightarrow> Inr (map_option (row_metadata row) (fr_object_ref row)))"

definition sql_file_delete :: "ustr \<Rightarrow> request_context \<Rightarrow> file_row list \<Rightarrow> file_row list" where
  "sql_file_delete file_id c rows =
     filter (\<lambda>r. \<not> (fr_id r = file_id \<and> fr_tenant_id r = rc_tenant_id c)) rows"

text \<open>The state: the parsed rows and the metadata kept in the process, the disk, the table if there is one.\<close>

record file_store =
  fs_files :: "(ustr \<times> table_row list) list"
  fs_metadata :: "(ustr \<times> file_metadata) list"
  fs_disk :: "(ustr \<times> bytes) list"
  fs_table :: "file_row list option"

definition storage_path :: "runtime \<Rightarrow> ustr \<Rightarrow> request_context \<Rightarrow> ustr \<Rightarrow> ustr \<Rightarrow> ustr" where
  "storage_path rt storage_dir c file_id ext =
     storage_dir @ [47] @ take 24 (rt_sha rt (rc_tenant_id c)) @ [47] @ file_id @ [46] @ ext"

definition FileMetadata ::
  "runtime \<Rightarrow> ustr \<Rightarrow> ustr \<Rightarrow> ustr \<Rightarrow> bytes \<Rightarrow> request_context \<Rightarrow> ustr option \<Rightarrow> ustr \<Rightarrow> nat \<Rightarrow> file_metadata" where
  "FileMetadata rt storage_dir file_id filename content c content_type ext rows =
     \<lparr>fm_file_id = file_id, fm_filename = filename, fm_content_type = content_type,
      fm_byte_size = length content, fm_sha256 = rt_sha_bytes rt content,
      fm_row_count = rows, fm_file_type = ext, fm_storage_ref = storage_path rt storage_dir c file_id ext,
      fm_tenant_id = rc_tenant_id c, fm_created_by = rc_operator_id c, fm_status = U ''stored''\<rparr>"

definition keep_file :: "file_metadata \<Rightarrow> bytes \<Rightarrow> table_row list \<Rightarrow> file_store \<Rightarrow> file_store" where
  "keep_file m content rows s =
     s\<lparr>fs_disk := AList.update (fm_storage_ref m) content (fs_disk s),
       fs_files := AList.update (fm_file_id m) rows (fs_files s),
       fs_metadata := AList.update (fm_file_id m) m (fs_metadata s)\<rparr>"

definition store_and_parse ::
  "runtime \<Rightarrow> ustr \<Rightarrow> ustr \<Rightarrow> ustr \<Rightarrow> bytes \<Rightarrow> request_context \<Rightarrow> ustr option \<Rightarrow> file_store \<Rightarrow>
   ustr res \<times> file_store" where
  "store_and_parse rt storage_dir file_id filename content c content_type s =
     (case validate_upload rt filename content content_type of
        Inl e \<Rightarrow> (Inl e, s)
      | Inr ext \<Rightarrow>
          (case parse_file rt ext content of
             Inl e \<Rightarrow> (Inl e, s)
           | Inr rows \<Rightarrow>
               (case validate_row_count rows of
                  Inl e \<Rightarrow> (Inl e, s)
                | Inr _ \<Rightarrow>
                    let m = FileMetadata rt storage_dir file_id filename content c content_type ext (length rows);
                        s1 = keep_file m content rows s
                    in (case fs_table s1 of
                          None \<Rightarrow> (Inr file_id, s1)
                        | Some table \<Rightarrow>
                            (case sql_file_save m c table of
                               (Inl e, table') \<Rightarrow> (Inl e, s1\<lparr>fs_table := Some table'\<rparr>)
                             | (Inr _, table') \<Rightarrow> (Inr file_id, s1\<lparr>fs_table := Some table'\<rparr>))))))"

definition file_get_metadata ::
  "ustr \<Rightarrow> request_context \<Rightarrow> file_store \<Rightarrow> file_metadata res \<times> file_store" where
  "file_get_metadata file_id c s =
     (let found =
            (case map_of (fs_metadata s) file_id of
               Some m \<Rightarrow> (Inr (Some m), s)
             | None \<Rightarrow>
                 (case fs_table s of
                    None \<Rightarrow> (Inr None, s)
                  | Some table \<Rightarrow>
                      (case sql_file_get file_id c table of
                         Inl e \<Rightarrow> (Inl e, s)
                       | Inr None \<Rightarrow> (Inr None, s)
                       | Inr (Some m) \<Rightarrow>
                           (Inr (Some m), s\<lparr>fs_metadata := AList.update file_id m (fs_metadata s)\<rparr>))))
      in bnd found (\<lambda>m s1.
           case m of
             None \<Rightarrow> (Inl (Exn KeyErr file_id), s1)
           | Some m \<Rightarrow>
               if fm_tenant_id m \<noteq> rc_tenant_id c then (Inl (Exn KeyErr file_id), s1) else (Inr m, s1)))"

definition get_rows :: "runtime \<Rightarrow> ustr \<Rightarrow> request_context \<Rightarrow> file_store \<Rightarrow> table_row list res \<times> file_store" where
  "get_rows rt file_id c s =
     bnd (file_get_metadata file_id c s) (\<lambda>m s.
       case map_of (fs_files s) file_id of
         Some cached \<Rightarrow> (Inr cached, s)
       | None \<Rightarrow>
           (case map_of (fs_disk s) (fm_storage_ref m) of
              None \<Rightarrow> (Inl (Exn OsErr (U ''FileNotFoundError'')), s)
            | Some content \<Rightarrow>
                (case parse_file rt (fm_file_type m) content of
                   Inl e \<Rightarrow> (Inl e, s)
                 | Inr rows \<Rightarrow>
                     (case validate_row_count rows of
                        Inl e \<Rightarrow> (Inl e, s)
                      | Inr _ \<Rightarrow> (Inr rows, s\<lparr>fs_files := AList.update file_id rows (fs_files s)\<rparr>)))))"

definition file_delete :: "runtime \<Rightarrow> ustr \<Rightarrow> request_context \<Rightarrow> file_store \<Rightarrow> unit res \<times> file_store" where
  "file_delete rt file_id c s =
     bnd (file_get_metadata file_id c s) (\<lambda>m s.
       if \<not> rt_inside rt (fm_storage_ref m) then (Inl (unsafe_file ''invalid storage reference''), s)
       else
         (Inr (), s\<lparr>fs_disk := AList.delete (fm_storage_ref m) (fs_disk s),
                   fs_files := AList.delete file_id (fs_files s),
                   fs_metadata := AList.delete file_id (fs_metadata s),
                   fs_table := map_option (sql_file_delete file_id c) (fs_table s)\<rparr>))"

section \<open>What is accepted\<close>

lemma split_on_parts: "w \<in> set (split_on sep s) \<Longrightarrow> sep \<notin> set w"
proof (induction s arbitrary: w)
  case (Cons c s)
  show ?case
  proof (cases "c = sep \<or> split_on sep s = []")
    case True
    with Cons show ?thesis by (auto split: if_splits)
  next
    case False
    then obtain v vs where "split_on sep s = v # vs" by (meson list.exhaust)
    with False Cons show ?thesis by auto
  qed
qed simp

lemma path_name_component: "path_name f = f \<Longrightarrow> 47 \<notin> set f"
proof -
  assume "path_name f = f"
  moreover have "path_name f = [] \<or> path_name f \<in> set (split_on 47 f)"
  proof (cases "rev (filter (\<lambda>p. p \<noteq> [] \<and> p \<noteq> [46]) (split_on 47 f))")
    case (Cons p ps)
    then have "p \<in> set (rev (filter (\<lambda>p. p \<noteq> [] \<and> p \<noteq> [46]) (split_on 47 f)))" by (metis list.set_intros(1))
    then have "p \<in> set (split_on 47 f)" by simp
    with Cons show ?thesis by (simp add: path_name_def)
  qed (simp add: path_name_def)
  ultimately show ?thesis using split_on_parts by force
qed

lemma validate_upload_Inr:
  assumes "validate_upload rt filename content content_type = Inr ext"
  shows "ext = file_suffix rt filename" "filename \<noteq> []" "47 \<notin> set filename" "length filename \<le> 255"
    "list_all (\<lambda>c. 32 \<le> c) filename" "content \<noteq> []" "length content \<le> max_bytes" "ext \<in> set allowed_types"
    "\<forall>t. content_type = Some t \<and> t \<noteq> [] \<longrightarrow> t \<in> set (the (map_of content_types ext))"
proof -
  let ?ext = "file_suffix rt filename"
  have checks: "ext = ?ext \<and> filename \<noteq> [] \<and> path_name filename = filename \<and> length filename \<le> 255 \<and>
      \<not> list_ex (\<lambda>c. c < 32) filename \<and> content \<noteq> [] \<and> length content \<le> max_bytes \<and>
      ?ext \<in> set allowed_types \<and>
      \<not> (case content_type of
           None \<Rightarrow> False
         | Some t \<Rightarrow> t \<noteq> [] \<and> t \<notin> set (case map_of content_types ?ext of None \<Rightarrow> [] | Some ts \<Rightarrow> ts))"
    using assms unfolding validate_upload_def Let_def by (auto split: if_splits)
  then show "ext = ?ext" "filename \<noteq> []" "length filename \<le> 255" "content \<noteq> []" "length content \<le> max_bytes"
    "ext \<in> set allowed_types"
    by simp_all
  show "47 \<notin> set filename" using checks path_name_component by blast
  show "list_all (\<lambda>c. 32 \<le> c) filename" using checks by (auto simp: list_ex_iff list_all_iff not_less)
  show "\<forall>t. content_type = Some t \<and> t \<noteq> [] \<longrightarrow> t \<in> set (the (map_of content_types ext))"
    using checks by (cases "map_of content_types ext") (auto split: option.splits)
qed

lemma parse_csv_Inr:
  "parse_csv delim t = Inr rows \<Longrightarrow> row \<in> set rows \<Longrightarrow> v \<in> snd ` set row \<Longrightarrow> \<not> formula v"
  by (auto simp: parse_csv_def list_ex_iff split: sum.splits if_splits)

lemma store_and_parse_Inr:
  assumes "store_and_parse rt dir file_id filename content c content_type s = (Inr i, s')"
  shows "\<exists>ext rows. validate_upload rt filename content content_type = Inr ext \<and>
    parse_file rt ext content = Inr rows \<and> length rows \<le> max_rows \<and> i = file_id \<and>
    (let m = FileMetadata rt dir file_id filename content c content_type ext (length rows) in
     (\<exists>t. s' = (keep_file m content rows s)\<lparr>fs_table := t\<rparr> \<and>
       (case fs_table s of
          None \<Rightarrow> t = None
        | Some table \<Rightarrow> t = Some (snd (sql_file_save m c table)) \<and> file_id \<notin> fr_id ` set table)))"
proof -
  obtain ext where ext: "validate_upload rt filename content content_type = Inr ext"
    using assms by (cases "validate_upload rt filename content content_type") (simp_all add: store_and_parse_def)
  obtain rows where rows: "parse_file rt ext content = Inr rows"
    using assms ext by (cases "parse_file rt ext content") (simp_all add: store_and_parse_def)
  have few: "length rows \<le> max_rows"
    using assms ext rows by (auto simp: store_and_parse_def validate_row_count_def split: if_splits)
  let ?m = "FileMetadata rt dir file_id filename content c content_type ext (length rows)"
  have table: "fs_table (keep_file m content rows s) = fs_table s" for m by (simp add: keep_file_def)
  have "i = file_id \<and> (\<exists>t. s' = (keep_file ?m content rows s)\<lparr>fs_table := t\<rparr> \<and>
       (case fs_table s of
          None \<Rightarrow> t = None
        | Some table \<Rightarrow> t = Some (snd (sql_file_save ?m c table)) \<and> file_id \<notin> fr_id ` set table))"
  proof (cases "fs_table s")
    case None
    with assms few ext rows table show ?thesis
      by (simp add: store_and_parse_def validate_row_count_def Let_def) (metis file_store.surjective file_store.update_convs(4) table)
  next
    case (Some tab)
    obtain r tab' where save: "sql_file_save ?m c tab = (r, tab')" by (rule prod.exhaust)
    show ?thesis
    proof (cases r)
      case (Inl e)
      with assms few ext rows table Some save show ?thesis
        by (simp add: store_and_parse_def validate_row_count_def Let_def)
    next
      case (Inr u)
      then have "file_id \<notin> fr_id ` set tab"
        using save by (auto simp: sql_file_save_def FileMetadata_def split: if_splits)
      moreover have "i = file_id \<and> s' = (keep_file ?m content rows s)\<lparr>fs_table := Some tab'\<rparr>"
        using assms few ext rows table Some save Inr
        by (auto simp: store_and_parse_def validate_row_count_def Let_def)
      ultimately show ?thesis using Some save by simp
    qed
  qed
  with ext rows few show ?thesis by (simp add: Let_def)
qed

text \<open>
  C28: What an upload has passed when it is accepted: a file name of one path component with at most 255
  characters, none of them below code point 32 (other control characters, such as DEL, are let through), content of at least one byte and at most two megabytes, a supported
  type that a given content type agrees with, at most 10,000 rows, and, for CSV and TSV, no row in
  which a text under a column of the header starts with \<open>=\<close>, \<open>+\<close>, \<open>-\<close> or \<open>@\<close>; the names in the header and the
  cells beyond the last column are not looked at (\<open>formula_in_header_is_accepted\<close>,
  \<open>formula_in_extra_cell_is_accepted\<close>). The file is then stored under the caller's tenant, with the digest, the size and
  the number of rows of what was parsed.
\<close>

theorem accepted_uploads_are_checked:
  assumes "store_and_parse rt dir file_id filename content c content_type s = (Inr i, s')"
  shows "i = file_id \<and> filename \<noteq> [] \<and> 47 \<notin> set filename \<and> length filename \<le> 255 \<and>
    list_all (\<lambda>c. 32 \<le> c) filename \<and> 0 < length content \<and> length content \<le> max_bytes \<and>
    (\<exists>ext rows m. ext = file_suffix rt filename \<and> ext \<in> set allowed_types \<and>
       parse_file rt ext content = Inr rows \<and> length rows \<le> max_rows \<and>
       (ext \<in> {U ''csv'', U ''tsv''} \<longrightarrow> list_all (\<lambda>row. list_all (\<lambda>v. \<not> formula v) (map snd row)) rows) \<and>
       (content_type \<noteq> None \<and> content_type \<noteq> Some [] \<longrightarrow> the content_type \<in> set (the (map_of content_types ext))) \<and>
       map_of (fs_files s') file_id = Some rows \<and> map_of (fs_metadata s') file_id = Some m \<and>
       map_of (fs_disk s') (fm_storage_ref m) = Some content \<and>
       fm_tenant_id m = rc_tenant_id c \<and> fm_created_by m = rc_operator_id c \<and> fm_row_count m = length rows \<and>
       fm_byte_size m = length content \<and> fm_sha256 m = rt_sha_bytes rt content)"
proof -
  obtain ext rows where ext: "validate_upload rt filename content content_type = Inr ext"
    and rows: "parse_file rt ext content = Inr rows" and few: "length rows \<le> max_rows"
    and kept: "i = file_id" "\<exists>t. s' = (keep_file (FileMetadata rt dir file_id filename content c content_type ext
      (length rows)) content rows s)\<lparr>fs_table := t\<rparr>"
    using store_and_parse_Inr [OF assms] unfolding Let_def by blast
  note checks = validate_upload_Inr [OF ext]
  have stored: "i = file_id \<and> map_of (fs_files s') file_id = Some rows \<and>
      (\<exists>m. map_of (fs_metadata s') file_id = Some m \<and> map_of (fs_disk s') (fm_storage_ref m) = Some content \<and>
       fm_tenant_id m = rc_tenant_id c \<and> fm_created_by m = rc_operator_id c \<and> fm_row_count m = length rows \<and>
       fm_byte_size m = length content \<and> fm_sha256 m = rt_sha_bytes rt content)"
    using kept by (auto simp: keep_file_def FileMetadata_def)
  have clean: "list_all (\<lambda>row. list_all (\<lambda>v. \<not> formula v) (map snd row)) rows"
    if csv: "ext \<in> {U ''csv'', U ''tsv''}"
  proof -
    have "ext \<notin> {U ''xlsx'', U ''xls'', U ''docx'', U ''pdf'', U ''txt'', U ''md''}" using csv by auto
    then obtain delim t where "parse_csv delim t = Inr rows"
      using rows csv by (cases "rt_decode rt content") (auto simp: parse_file_def)
    from parse_csv_Inr [OF this] show ?thesis by (auto simp: list_all_iff)
  qed
  obtain m where m: "map_of (fs_metadata s') file_id = Some m" "map_of (fs_disk s') (fm_storage_ref m) = Some content"
       "fm_tenant_id m = rc_tenant_id c" "fm_created_by m = rc_operator_id c" "fm_row_count m = length rows"
       "fm_byte_size m = length content" "fm_sha256 m = rt_sha_bytes rt content"
    using stored by blast
  show ?thesis
    by (intro conjI exI [of _ ext] exI [of _ rows] exI [of _ m])
       (use checks few clean stored rows m in \<open>auto split: option.splits\<close>)
qed

section \<open>Tenants\<close>

text \<open>
  The owner of a file as the store knows it: the tenant in the metadata, or in the table when the process
  has no metadata. Both agree in a well-formed store.
\<close>

definition file_store_wf :: "file_store \<Rightarrow> bool" where
  "file_store_wf s \<longleftrightarrow>
     (\<forall>i m. map_of (fs_metadata s) i = Some m \<longrightarrow> fm_file_id m = i) \<and>
     (case fs_table s of
        None \<Rightarrow> True
      | Some table \<Rightarrow> distinct (map fr_id table) \<and>
          (\<forall>r \<in> set table. \<forall>m. map_of (fs_metadata s) (fr_id r) = Some m \<longrightarrow> fm_tenant_id m = fr_tenant_id r))"

definition file_owner :: "file_store \<Rightarrow> ustr \<Rightarrow> ustr option" where
  "file_owner s i =
     (case map_of (fs_metadata s) i of
        Some m \<Rightarrow> Some (fm_tenant_id m)
      | None \<Rightarrow>
          (case fs_table s of
             None \<Rightarrow> None
           | Some table \<Rightarrow> map_option fr_tenant_id (find (\<lambda>r. fr_id r = i) table)))"

lemma sql_file_get_find:
  assumes "distinct (map fr_id table)"
  shows "sql_file_get i c table =
    (case find (\<lambda>r. fr_id r = i \<and> fr_tenant_id r = rc_tenant_id c) table of
       None \<Rightarrow> Inr None | Some row \<Rightarrow> Inr (map_option (row_metadata row) (fr_object_ref row)))"
  using filter_scalar [OF assms, of "\<lambda>r. fr_id r = i \<and> fr_tenant_id r = rc_tenant_id c" i]
  by (auto simp: sql_file_get_def split: option.split)

lemma foreign_metadata:
  assumes "file_store_wf s" "file_owner s i \<noteq> Some (rc_tenant_id c)"
  shows "file_get_metadata i c s = (Inl (Exn KeyErr i), s)"
proof (cases "map_of (fs_metadata s) i")
  case (Some m)
  with assms(2) show ?thesis by (simp add: file_get_metadata_def file_owner_def)
next
  case None
  show ?thesis
  proof (cases "fs_table s")
    case None
    with \<open>map_of (fs_metadata s) i = None\<close> show ?thesis by (simp add: file_get_metadata_def)
  next
    case (Some table)
    have dist: "distinct (map fr_id table)" using assms(1) Some by (simp add: file_store_wf_def)
    have "find (\<lambda>r. fr_id r = i \<and> fr_tenant_id r = rc_tenant_id c) table = None"
    proof (rule ccontr)
      assume "find (\<lambda>r. fr_id r = i \<and> fr_tenant_id r = rc_tenant_id c) table \<noteq> None"
      then obtain r where r: "r \<in> set table" "fr_id r = i" "fr_tenant_id r = rc_tenant_id c"
        by (auto dest!: find_SomeD)
      then have "find (\<lambda>r. fr_id r = i) table = Some r"
        using find_distinct_key [OF dist, of r "\<lambda>r. fr_id r = i"] by simp
      with assms(2) None Some r show False by (simp add: file_owner_def)
    qed
    with None Some show ?thesis by (simp add: file_get_metadata_def sql_file_get_find [OF dist])
  qed
qed

text \<open>Storing keeps the store well formed when the identifier is fresh.\<close>

lemma store_keeps_wf:
  assumes "file_store_wf s" "store_and_parse rt dir i filename content c ct s = (Inr j, s')"
  shows "file_store_wf s' \<and> file_owner s' i = Some (rc_tenant_id c)"
proof -
  obtain ext rows t where kept: "s' = (keep_file (FileMetadata rt dir i filename content c ct ext (length rows)) content
      rows s)\<lparr>fs_table := t\<rparr>"
    and t: "case fs_table s of
          None \<Rightarrow> t = None
        | Some table \<Rightarrow> t = Some (snd (sql_file_save (FileMetadata rt dir i filename content c ct ext (length rows)) c table)) \<and>
            i \<notin> fr_id ` set table"
    using store_and_parse_Inr [OF assms(2)] unfolding Let_def by blast
  show ?thesis
  proof (cases "fs_table s")
    case None
    with kept t assms(1) show ?thesis
      by (auto simp: file_store_wf_def keep_file_def FileMetadata_def file_owner_def)
  next
    case (Some table)
    then have "t = Some (snd (sql_file_save (FileMetadata rt dir i filename content c ct ext (length rows)) c table))"
      "i \<notin> fr_id ` set table" using t by simp_all
    with kept Some assms(1) show ?thesis
      by (auto simp: file_store_wf_def keep_file_def FileMetadata_def file_owner_def sql_file_save_def)
  qed
qed

section \<open>Reading a stored file\<close>

text \<open>The process restarts: its memory is gone, the disk and the table stay.\<close>

definition restarted :: "file_store \<Rightarrow> file_store" where
  "restarted s = s\<lparr>fs_files := [], fs_metadata := []\<rparr>"

text \<open>A file that its tenant deletes is not found any more.\<close>

lemma deleted_is_gone:
  assumes "file_store_wf s" "map_of (fs_metadata s) i = Some m" "fm_tenant_id m = rc_tenant_id c"
    and "file_delete rt i c s = (Inr (), s1)"
  shows "get_rows rt i c s1 = (Inl (Exn KeyErr i), s1)"
proof -
  have s1: "fs_metadata s1 = AList.delete i (fs_metadata s)"
    "fs_table s1 = map_option (sql_file_delete i c) (fs_table s)"
    using assms(2-4) by (auto simp: file_delete_def file_get_metadata_def split: if_splits)
  have "file_store_wf s1 \<and> file_owner s1 i = None"
  proof (cases "fs_table s")
    case None
    with s1 assms(1) show ?thesis by (simp add: file_store_wf_def file_owner_def split: if_splits)
  next
    case (Some table)
    have "\<forall>r \<in> set table. fr_id r = i \<longrightarrow> fr_tenant_id r = rc_tenant_id c"
      using assms(1-3) Some by (auto simp: file_store_wf_def)
    then have "find (\<lambda>r. fr_id r = i) (sql_file_delete i c table) = None"
      by (auto simp: find_None_iff sql_file_delete_def)
    moreover have "distinct (map fr_id (sql_file_delete i c table))"
      using assms(1) Some by (auto simp: file_store_wf_def sql_file_delete_def distinct_map_filter)
    ultimately show ?thesis using s1 assms(1) Some
      by (auto simp: file_store_wf_def file_owner_def sql_file_delete_def)
  qed
  then show ?thesis using foreign_metadata [of s1 i c] by (simp add: get_rows_def)
qed

text \<open>
  C16: A stored file is read back: the owner's tenant gets the rows that were parsed from the upload, from
  the same process and, when the records are in the database, from a new one after a restart; once the file
  is deleted it is not found.
\<close>

theorem stored_files_are_read_back:
  assumes "file_store_wf s" "store_and_parse rt dir i filename content c content_type s = (Inr j, s')"
    and "rc_tenant_id c' = rc_tenant_id c"
  shows "\<exists>rows. parse_file rt (file_suffix rt filename) content = Inr rows \<and>
    get_rows rt i c' s' = (Inr rows, s') \<and>
    (fs_table s \<noteq> None \<longrightarrow> fst (get_rows rt i c' (restarted s')) = Inr rows) \<and>
    (\<forall>s1. file_delete rt i c' s' = (Inr (), s1) \<longrightarrow> get_rows rt i c' s1 = (Inl (Exn KeyErr i), s1))"
proof -
  define m where "m = (\<lambda>ext rows. FileMetadata rt dir i filename content c content_type ext (length (rows :: table_row list)))"
  obtain ext rows t where ext: "validate_upload rt filename content content_type = Inr ext"
    and rows: "parse_file rt ext content = Inr rows" "length rows \<le> max_rows"
    and kept: "s' = (keep_file (m ext rows) content rows s)\<lparr>fs_table := t\<rparr>"
    and t: "case fs_table s of
          None \<Rightarrow> t = None
        | Some table \<Rightarrow> t = Some (snd (sql_file_save (m ext rows) c table)) \<and> i \<notin> fr_id ` set table"
    using store_and_parse_Inr [OF assms(2)] unfolding Let_def m_def by blast
  have suffix: "ext = file_suffix rt filename" by (rule validate_upload_Inr(1) [OF ext])
  have m: "fm_file_id (m ext rows) = i" "fm_tenant_id (m ext rows) = rc_tenant_id c" "fm_file_type (m ext rows) = ext"
    by (simp_all add: m_def FileMetadata_def)
  have same: "get_rows rt i c' s' = (Inr rows, s')"
    using assms(3) by (simp add: kept get_rows_def file_get_metadata_def keep_file_def m)
  have restart: "fst (get_rows rt i c' (restarted s')) = Inr rows" if db: "fs_table s \<noteq> None"
  proof -
    obtain table where table: "fs_table s = Some table" using db by blast
    let ?row = "\<lparr>fr_id = i, fr_tenant_id = rc_tenant_id c, fr_created_by = rc_operator_id c,
          fr_filename = fm_filename (m ext rows), fr_content_type = fm_content_type (m ext rows),
          fr_byte_size = fm_byte_size (m ext rows), fr_sha256 = fm_sha256 (m ext rows),
          fr_row_count = fm_row_count (m ext rows), fr_file_type = ext,
          fr_object_ref = Some (fm_storage_ref (m ext rows)), fr_status = fm_status (m ext rows)\<rparr>"
    have fresh: "i \<notin> fr_id ` set table" and saved: "t = Some (table @ [?row])"
      using t table m by (auto simp: sql_file_save_def)
    have "filter (\<lambda>r. fr_id r = i \<and> fr_tenant_id r = rc_tenant_id c') table = []"
      using fresh by (auto simp: filter_empty_conv)
    then have "sql_file_get i c' (table @ [?row]) = Inr (Some (row_metadata ?row (fm_storage_ref (m ext rows))))"
      using assms(3) by (simp add: sql_file_get_def)
    then show ?thesis using assms(3) rows
      by (simp add: get_rows_def file_get_metadata_def restarted_def kept saved keep_file_def row_metadata_def
          validate_row_count_def)
  qed
  have "file_store_wf s'" using store_keeps_wf [OF assms(1,2)] by blast
  then have deleted: "get_rows rt i c' s1 = (Inl (Exn KeyErr i), s1)" if "file_delete rt i c' s' = (Inr (), s1)" for s1
    by (rule deleted_is_gone [where m = "m ext rows"]) (use assms(3) that in \<open>simp_all add: kept keep_file_def m\<close>)
  show ?thesis using rows(1) same restart deleted unfolding suffix by blast
qed

section \<open>Examples\<close>

definition demo_runtime :: runtime where
  "demo_runtime =
     \<lparr>rt_xlsx = (\<lambda>_. Inr []), rt_xls = (\<lambda>_. Inr []), rt_docx = (\<lambda>_. Inr []), rt_pdf = (\<lambda>_. Inr []),
      rt_decode = Some, rt_loads = (\<lambda>_. None), rt_lower = id, rt_repr = (\<lambda>_. []),
      rt_sha = (\<lambda>_. U ''5d''), rt_sha_bytes = (\<lambda>_. U ''e3''), rt_inside = (\<lambda>_. True)\<rparr>"

definition demo_csv :: bytes where
  "demo_csv = U ''n'' @ [10] @ U ''1'' @ [10]"

definition demo_rows :: "table_row list" where
  "demo_rows = [[(Some (U ''n''), JStr (U ''1''))]]"

definition ann :: request_context where
  "ann = RequestContext (U ''r'') (U ''t'') (U ''thread'') (U ''tenant-a'') (U ''ann'')"

definition bob :: request_context where
  "bob = RequestContext (U ''r'') (U ''t'') (U ''thread'') (U ''tenant-b'') (U ''bob'')"

definition empty_store :: file_store where
  "empty_store = \<lparr>fs_files = [], fs_metadata = [], fs_disk = [], fs_table = Some []\<rparr>"

definition demo_stored :: "ustr res \<times> file_store" where
  "demo_stored = store_and_parse demo_runtime (U ''up'') (U ''f1'') (U ''n.csv'') demo_csv ann None empty_store"

lemma demo_validate_csv: "validate_upload demo_runtime (U ''n.csv'') demo_csv None = Inr (U ''csv'')"
  by (simp add: validate_upload_def file_suffix_def path_name_def demo_runtime_def demo_csv_def allowed_types_def
      max_bytes_def U_def)

lemma demo_parse_csv: "parse_file demo_runtime (U ''csv'') demo_csv = Inr demo_rows"
  by (simp add: parse_file_def demo_runtime_def demo_csv_def demo_rows_def parse_csv_def dict_reader_def
      csv_records_def csv_start_def csv_char_def start_field_def add_char_def save_field_def line_end_def
      field_limit_def csv_eol_def emit_def csv_finish_def csv_row_def formula_def U_def)

lemma demo_stored_ok: "fst demo_stored = Inr (U ''f1'')"
  by (simp add: demo_stored_def store_and_parse_def demo_validate_csv demo_parse_csv validate_row_count_def
      demo_rows_def max_rows_def Let_def keep_file_def empty_store_def sql_file_save_def)

lemma demo_stored_run:
  "store_and_parse demo_runtime (U ''up'') (U ''f1'') (U ''n.csv'') demo_csv ann None empty_store =
     (Inr (U ''f1''), snd demo_stored)"
  using demo_stored_ok unfolding demo_stored_def by (simp add: prod_eq_iff)

lemma empty_store_wf: "file_store_wf empty_store"
  by (simp add: file_store_wf_def empty_store_def)

theorem accepted_uploads_are_checked_witness:
  "map_of (fs_files (snd demo_stored)) (U ''f1'') = Some demo_rows"
proof -
  have "file_suffix demo_runtime (U ''n.csv'') = U ''csv''"
    by (simp add: file_suffix_def demo_runtime_def U_def)
  with accepted_uploads_are_checked [OF demo_stored_run] demo_parse_csv show ?thesis by auto
qed

theorem stored_files_are_read_back_witness:
  "get_rows demo_runtime (U ''f1'') ann (snd demo_stored) = (Inr demo_rows, snd demo_stored) \<and>
   fst (get_rows demo_runtime (U ''f1'') ann (restarted (snd demo_stored))) = Inr demo_rows"
proof -
  have "file_suffix demo_runtime (U ''n.csv'') = U ''csv''"
    by (simp add: file_suffix_def demo_runtime_def U_def)
  moreover have "fs_table empty_store \<noteq> None" by (simp add: empty_store_def)
  ultimately show ?thesis
    using stored_files_are_read_back [OF empty_store_wf demo_stored_run, of ann] demo_parse_csv by auto
qed

text \<open>The check for formulas sees neither the headers nor the cells beyond the last header.\<close>

lemma formula_in_header_is_accepted:
  "parse_csv 44 (U ''=f'' @ [10] @ U ''1'') = Inr [[(Some (U ''=f''), JStr (U ''1''))]]"
  by (simp add: parse_csv_def dict_reader_def csv_records_def csv_start_def csv_char_def start_field_def
      add_char_def save_field_def line_end_def field_limit_def csv_eol_def emit_def csv_finish_def csv_row_def
      formula_def U_def)

lemma formula_in_extra_cell_is_accepted:
  "parse_csv 44 (U ''n'' @ [10] @ U ''1,=f'') =
     Inr [[(Some (U ''n''), JStr (U ''1'')), (None, JList [JStr (U ''=f'')])]]"
  by (simp add: parse_csv_def dict_reader_def csv_records_def csv_start_def csv_char_def start_field_def
      add_char_def save_field_def line_end_def field_limit_def csv_eol_def emit_def csv_finish_def csv_row_def
      formula_def U_def)

text \<open>A number below zero is taken for a formula.\<close>

lemma negative_number_is_refused:
  "parse_csv 44 (U ''n'' @ [10] @ U ''-1'') = Inl (unsafe_file ''CSV formula injection detected'')"
  by (simp add: parse_csv_def dict_reader_def csv_records_def csv_start_def csv_char_def start_field_def
      add_char_def save_field_def line_end_def field_limit_def csv_eol_def emit_def csv_finish_def csv_row_def
      formula_def U_def)

end
