(* ===== verification/Analysis.thy ===== *)
theory Analysis
  imports Files "HOL-Library.Multiset"
begin

text \<open>
  The analysis of tables (\<open>app/domain/data_analysis.py\<close>) and the bundle of files it is exported to
  (\<open>app/services/artifacts.py\<close>, \<open>app/repositories/artifacts.py\<close>).

  \<open>float_of\<close> is \<open>float(n)\<close> of an integer (never \<open>-0.0\<close>), \<open>None\<close> when it overflows, and \<open>mean\<close> is
  \<open>sum(values) / len(values)\<close>. A cell of an upload in JSON can be any float, infinities and \<open>NaN\<close> included, because
  \<open>json.loads\<close> reads them. \<open>repr_items\<close> is \<open>repr\<close> of a sorted list of items. The Excel, Word and PDF
  writers are functions of what the application hands them that give the content of the file or raise.
\<close>

section \<open>Analysis\<close>

record column_summary =
  cn_count :: nat
  cn_min :: py_float
  cn_max :: py_float
  cn_mean :: py_float

record analysis_result =
  da_row_count :: nat
  da_columns :: "ustr list"
  da_null_counts :: "(ustr \<times> nat) list"
  da_numeric_summary :: "(ustr \<times> column_summary) list"
  da_duplicate_rows :: nat
  da_quality_warnings :: "ustr list"
  da_source_file_id :: "ustr option"

definition row_keys :: "table_row list \<Rightarrow> ustr option set" where
  "row_keys rows = (\<Union>row \<in> set rows. fst ` set row)"

text \<open>\<open>sorted({key for row in rows for key in row})\<close> cannot compare \<open>None\<close> with a string.\<close>

definition table_columns :: "table_row list \<Rightarrow> ustr list res" where
  "table_columns rows =
     (if None \<in> row_keys rows
      then (if row_keys rows = {None} then Inl (Exn ValidationErr []) else Inl (Exn TypeErr []))
      else Inr (sorted_list_of_set (the ` row_keys rows)))"

definition is_null :: "json option \<Rightarrow> bool" where
  "is_null v \<longleftrightarrow> v \<in> {None, Some JNull, Some (JStr [])}"

definition null_count :: "table_row list \<Rightarrow> ustr \<Rightarrow> nat" where
  "null_count rows column = length (filter (\<lambda>row. is_null (map_of row (Some column))) rows)"

fun numeric_values :: "(int \<Rightarrow> rat option) \<Rightarrow> ustr \<Rightarrow> table_row list \<Rightarrow> py_float list res" where
  "numeric_values float_of column [] = Inr []"
| "numeric_values float_of column (row # rows) =
     (case (case map_of row (Some column) of
              Some (JFloat x) \<Rightarrow> Inr [x]
            | Some (JInt n) \<Rightarrow> (case float_of n of None \<Rightarrow> Inl (Exn OverflowErr []) | Some x \<Rightarrow> Inr [Rational x])
            | _ \<Rightarrow> Inr []) of
        Inl e \<Rightarrow> Inl e
      | Inr xs \<Rightarrow> (case numeric_values float_of column rows of Inl e \<Rightarrow> Inl e | Inr ys \<Rightarrow> Inr (xs @ ys)))"

definition summarise :: "(py_float list \<Rightarrow> py_float) \<Rightarrow> py_float list \<Rightarrow> column_summary" where
  "summarise mean values =
     \<lparr>cn_count = length values, cn_min = py_min values, cn_max = py_max values, cn_mean = mean values\<rparr>"

fun numeric_summary ::
  "(int \<Rightarrow> rat option) \<Rightarrow> (py_float list \<Rightarrow> py_float) \<Rightarrow> table_row list \<Rightarrow> ustr list \<Rightarrow> (ustr \<times> column_summary) list res" where
  "numeric_summary float_of mean rows [] = Inr []"
| "numeric_summary float_of mean rows (column # columns) =
     (case numeric_values float_of column rows of
        Inl e \<Rightarrow> Inl e
      | Inr values \<Rightarrow>
          (case numeric_summary float_of mean rows columns of
             Inl e \<Rightarrow> Inl e
           | Inr rest \<Rightarrow> Inr ((if values = [] then [] else [(column, summarise mean values)]) @ rest)))"

text \<open>The items of a row in the order of their keys; the keys of a row are distinct.\<close>

definition sorted_items :: "table_row \<Rightarrow> (ustr \<times> json) list" where
  "sorted_items row = sort_key fst (map (\<lambda>(k, v). (the k, v)) row)"

definition duplicate_rows :: "((ustr \<times> json) list \<Rightarrow> ustr) \<Rightarrow> table_row list \<Rightarrow> nat" where
  "duplicate_rows repr_items rows =
     length rows - length (remdups (map (\<lambda>row. repr_items (sorted_items row)) rows))"

definition analyze ::
  "(int \<Rightarrow> rat option) \<Rightarrow> (py_float list \<Rightarrow> py_float) \<Rightarrow> ((ustr \<times> json) list \<Rightarrow> ustr) \<Rightarrow> table_row list \<Rightarrow> analysis_result res" where
  "analyze float_of mean repr_items rows =
     (case table_columns rows of
        Inl e \<Rightarrow> Inl e
      | Inr columns \<Rightarrow>
          (case numeric_summary float_of mean rows columns of
             Inl e \<Rightarrow> Inl e
           | Inr numeric \<Rightarrow>
               let null_counts = map (\<lambda>column. (column, null_count rows column)) columns;
                   duplicates = duplicate_rows repr_items rows
               in Inr \<lparr>da_row_count = length rows, da_columns = columns, da_null_counts = null_counts,
                       da_numeric_summary = numeric, da_duplicate_rows = duplicates,
                       da_quality_warnings =
                         (if duplicates \<noteq> 0 then [[26816, 27979, 21040, 32] @ nat_dec duplicates @ [32, 34892, 37325, 22797, 25968, 25454, 65292, 26410, 33258, 21160, 21024, 38500, 12290]] else []) @
                         (if list_ex (\<lambda>(column, n). n \<noteq> 0) null_counts then [[25968, 25454, 21253, 21547, 31354, 20540, 65292, 26410, 33258, 21160, 22635, 20805, 25110, 21024, 38500, 12290]] else []),
                       da_source_file_id = None\<rparr>))"

section \<open>Artifacts\<close>

subsection \<open>Texts\<close>

definition summary_csv :: "analysis_result \<Rightarrow> ustr" where
  "summary_csv r =
     csv_text ([U ''column'', U ''null_count''] # map (\<lambda>(name, nulls). [name, nat_dec nulls]) (da_null_counts r))"

text \<open>\<open>html.escape(s)\<close>\<close>

definition html_char :: "nat \<Rightarrow> ustr" where
  "html_char c =
     (if c = 38 then U ''&amp;'' else if c = 60 then U ''&lt;'' else if c = 62 then U ''&gt;''
      else if c = 34 then U ''&quot;'' else if c = 39 then U ''&#x27;'' else [c])"

definition html_escape :: "ustr \<Rightarrow> ustr" where
  "html_escape s = concat (map html_char s)"

definition svg_bar :: "nat \<Rightarrow> ustr \<times> nat \<Rightarrow> ustr" where
  "svg_bar index item =
     (case item of (name, nulls) \<Rightarrow>
        U ''<text x=\"10\" y=\"'' @ nat_dec (40 + index * 32) @ U ''\">'' @ html_escape name @ U '': '' @
        nat_dec nulls @ U ''</text>'' @
        U ''<rect x=\"180\" y=\"'' @ nat_dec (24 + index * 32) @ U ''\" width=\"'' @
        nat_dec (min nulls 1000 * 30) @ U ''\" '' @ U ''height=\"16\" fill=\"#2563eb\" />'')"

definition chart_svg :: "analysis_result \<Rightarrow> ustr" where
  "chart_svg r =
     U ''<svg xmlns=\"http://www.w3.org/2000/svg\" width=\"480\" '' @
     U ''height=\"'' @ nat_dec (max 80 (40 + length (da_null_counts r) * 32)) @ U ''\">'' @
     U ''<text x=\"10\" y=\"18\">'' @ [31354, 20540, 25968, 37327] @ U ''</text>'' @
     concat (map (\<lambda>(index, item). svg_bar index item) (enumerate 0 (da_null_counts r))) @ U ''</svg>''"

definition markdown_report :: "analysis_result \<Rightarrow> ustr" where
  "markdown_report r =
     join [10]
       ([[35, 32, 25968, 25454, 20998, 26512, 25253, 21578], [], [45, 32, 25968, 25454, 34892, 25968, 65306] @ nat_dec (da_row_count r),
         [45, 32, 23383, 27573, 25968, 37327, 65306] @ nat_dec (length (da_columns r)),
         [45, 32, 37325, 22797, 34892, 25968, 65306] @ nat_dec (da_duplicate_rows r), [], [35, 35, 32, 25968, 25454, 36136, 37327]] @
        map (\<lambda>(column, nulls). U ''- '' @ column @ [65306, 31354, 20540, 32] @ nat_dec nulls) (da_null_counts r) @
        (if da_quality_warnings r \<noteq> []
         then [[], [35, 35, 32, 39118, 38505, 25552, 31034]] @ map (\<lambda>item. U ''- '' @ item) (da_quality_warnings r) else []))"

definition report_html :: "analysis_result \<Rightarrow> ustr" where
  "report_html r =
     U ''<!doctype html><html><head><meta charset=\"utf-8\"><title>'' @ [25968, 25454, 20998, 26512, 25253, 21578] @ U ''</title>'' @
     U ''</head><body><pre>'' @ html_escape (markdown_report r) @ U ''</pre></body></html>''"

text \<open>The values of \<open>trace_metadata\<close>; \<open>dumps\<close> is \<open>json.dumps(trace, ensure_ascii=False, indent=2)\<close>.\<close>

definition trace_value :: "ustr \<Rightarrow> analysis_result \<Rightarrow> json" where
  "trace_value artifact_id r =
     JObj [(U ''artifact_id'', JStr artifact_id),
       (U ''source_file_id'', (case da_source_file_id r of None \<Rightarrow> JNull | Some i \<Rightarrow> JStr i)),
       (U ''columns'', JList (map JStr (da_columns r))), (U ''analysis_spec'', JObj []),
       (U ''chart'', JObj [(U ''type'', JStr (U ''bar'')), (U ''metric'', JStr (U ''null_count'')),
          (U ''aggregation'', JStr (U ''count''))])]"

subsection \<open>Office documents\<close>

datatype sheet_cell = Text_cell ustr | Number_cell nat

definition xlsx_rows :: "analysis_result \<Rightarrow> sheet_cell list list" where
  "xlsx_rows r =
     [Text_cell [23383, 27573], Text_cell [31354, 20540, 25968, 37327]] #
       map (\<lambda>(name, nulls). [Text_cell name, Number_cell nulls]) (da_null_counts r)"

definition write_xlsx :: "(ustr \<Rightarrow> sheet_cell list list \<Rightarrow> ustr res) \<Rightarrow> analysis_result \<Rightarrow> ustr res" where
  "write_xlsx workbook r = workbook [25968, 25454, 36136, 37327] (xlsx_rows r)"

definition docx_paragraphs :: "analysis_result \<Rightarrow> ustr list" where
  "docx_paragraphs r =
     ([25968, 25454, 34892, 25968, 65306] @ nat_dec (da_row_count r)) #
       map (\<lambda>(column, nulls). column @ [65306, 31354, 20540, 32] @ nat_dec nulls) (da_null_counts r)"

definition write_docx :: "(ustr \<Rightarrow> ustr list \<Rightarrow> ustr res) \<Rightarrow> analysis_result \<Rightarrow> ustr res" where
  "write_docx document r = document [25968, 25454, 20998, 26512, 25253, 21578] (docx_paragraphs r)"

definition pdf_strings :: "analysis_result \<Rightarrow> (int \<times> int \<times> ustr) list" where
  "pdf_strings r =
     (72, 800, U ''Data Analysis Report'') # (72, 780, U ''Rows: '' @ nat_dec (da_row_count r)) #
       map (\<lambda>(index, column, nulls). (72, 760 - int index * 18, column @ U '': nulls='' @ nat_dec nulls))
         (enumerate 0 (da_null_counts r))"

definition write_pdf :: "((int \<times> int \<times> ustr) list \<Rightarrow> ustr res) \<Rightarrow> analysis_result \<Rightarrow> ustr res" where
  "write_pdf canvas r = canvas (pdf_strings r)"

text \<open>The page ends after the forty-third column; the others are drawn below it.\<close>

lemma pdf_columns_below_the_page:
  assumes "n < length (da_null_counts r)"
  shows "0 \<le> fst (snd (pdf_strings r ! (n + 2))) \<longleftrightarrow> n \<le> 42"
  using assms by (auto simp: pdf_strings_def nth_enumerate_eq split: prod.split)

subsection \<open>The bundle\<close>

record artifact_row =
  af_id :: ustr
  af_tenant_id :: ustr
  af_created_by :: ustr
  af_kind :: ustr
  af_object_ref :: ustr
  af_sha256 :: ustr
  af_status :: ustr

record artifact_store =
  as_disk :: "(ustr \<times> ustr) list"
  as_table :: "artifact_row list option"

text \<open>
  The writers of the libraries: a sheet with its title and rows, a document with its heading and paragraphs, a
  page with the strings drawn on it and where.
\<close>

record office_writers =
  ow_xlsx :: "ustr \<Rightarrow> sheet_cell list list \<Rightarrow> ustr res"
  ow_docx :: "ustr \<Rightarrow> ustr list \<Rightarrow> ustr res"
  ow_pdf :: "(int \<times> int \<times> ustr) list \<Rightarrow> ustr res"
  ow_dumps :: "json \<Rightarrow> ustr"

definition sql_artifact_save ::
  "ustr \<Rightarrow> ustr \<Rightarrow> ustr \<Rightarrow> ustr \<Rightarrow> request_context \<Rightarrow> artifact_row list \<Rightarrow> artifact_row list" where
  "sql_artifact_save artifact_id kind object_ref sha256 c rows =
     rows @ [\<lparr>af_id = artifact_id, af_tenant_id = rc_tenant_id c, af_created_by = rc_operator_id c,
              af_kind = kind, af_object_ref = object_ref, af_sha256 = sha256, af_status = U ''available''\<rparr>]"

definition tenant_dir :: "(ustr \<Rightarrow> ustr) \<Rightarrow> ustr \<Rightarrow> request_context \<Rightarrow> ustr" where
  "tenant_dir sha base c = base @ [47] @ take 24 (sha (rc_tenant_id c))"

definition artifact_path :: "(ustr \<Rightarrow> ustr) \<Rightarrow> ustr \<Rightarrow> request_context \<Rightarrow> ustr \<Rightarrow> string \<Rightarrow> ustr" where
  "artifact_path sha base c artifact_id ext = tenant_dir sha base c @ [47] @ artifact_id @ U (''.'' @ ext)"

text \<open>The files in the order they are written; the first writer that raises ends the export.\<close>

definition artifact_files ::
  "office_writers \<Rightarrow> ustr \<Rightarrow> analysis_result \<Rightarrow> (string \<times> ustr res) list" where
  "artifact_files w artifact_id r =
     [(''csv'', Inr (summary_csv r)), (''svg'', Inr (chart_svg r)), (''md'', Inr (markdown_report r)),
      (''html'', Inr (report_html r)), (''xlsx'', write_xlsx (ow_xlsx w) r),
      (''docx'', write_docx (ow_docx w) r), (''pdf'', write_pdf (ow_pdf w) r),
      (''json'', Inr (ow_dumps w (trace_value artifact_id r)))]"

fun write_files :: "(string \<Rightarrow> ustr) \<Rightarrow> (string \<times> ustr res) list \<Rightarrow> artifact_store \<Rightarrow> unit res \<times> artifact_store" where
  "write_files path [] s = (Inr (), s)"
| "write_files path ((ext, content) # files) s =
     (case content of
        Inl e \<Rightarrow> (Inl e, s)
      | Inr t \<Rightarrow> write_files path files (s\<lparr>as_disk := AList.update (path ext) t (as_disk s)\<rparr>))"

definition export_analysis ::
  "(ustr \<Rightarrow> ustr) \<Rightarrow> office_writers \<Rightarrow> ustr \<Rightarrow> ustr \<Rightarrow> analysis_result \<Rightarrow> request_context \<Rightarrow> artifact_store \<Rightarrow>
   (ustr \<times> ustr) list res \<times> artifact_store" where
  "export_analysis sha w base artifact_id r c s =
     bnd (write_files (artifact_path sha base c artifact_id) (artifact_files w artifact_id r) s) (\<lambda>_ s1.
       (Inr ((U ''artifact_id'', artifact_id) #
          map (\<lambda>(name, ext). (U name, artifact_path sha base c artifact_id ext))
            [(''summary_csv'', ''csv''), (''chart_svg'', ''svg''), (''report_markdown'', ''md''),
             (''report_html'', ''html''), (''report_excel'', ''xlsx''), (''report_word'', ''docx''),
             (''report_pdf'', ''pdf''), (''trace_metadata'', ''json'')]),
        s1\<lparr>as_table := map_option
             (sql_artifact_save artifact_id (U ''analysis_bundle'') (tenant_dir sha base c)
                (sha (summary_csv r @ chart_svg r)) c) (as_table s1)\<rparr>))"

section \<open>The order of the rows does not matter\<close>

lemma null_count_mset: "mset rows = mset rows' \<Longrightarrow> null_count rows = null_count rows'"
  unfolding null_count_def by (metis mset_filter size_mset)

lemma duplicate_rows_mset:
  assumes "mset rows = mset rows'"
  shows "duplicate_rows f rows = duplicate_rows f rows'"
proof -
  have "set (map (\<lambda>row. f (sorted_items row)) rows) = set (map (\<lambda>row. f (sorted_items row)) rows')"
    using mset_eq_setD [OF assms] by simp
  moreover have "length rows = length rows'" using assms by (metis size_mset)
  ultimately show ?thesis by (simp add: duplicate_rows_def length_remdups_card_conv)
qed

lemma table_columns_set: "set rows = set rows' \<Longrightarrow> table_columns rows = table_columns rows'"
  by (simp add: table_columns_def row_keys_def)

text \<open>The numbers of a column, row by row; an integer too large for a float has none.\<close>

definition column_number :: "(int \<Rightarrow> rat option) \<Rightarrow> ustr \<Rightarrow> table_row \<Rightarrow> py_float option list" where
  "column_number float_of column row =
     (case map_of row (Some column) of
        Some (JFloat x) \<Rightarrow> [Some x] | Some (JInt n) \<Rightarrow> [map_option Rational (float_of n)] | _ \<Rightarrow> [])"

lemma numeric_values_Cons:
  "numeric_values float_of column (row # rows) =
     (let ns = column_number float_of column row in
      if None \<in> set ns then Inl (Exn OverflowErr [])
      else (case numeric_values float_of column rows of Inl e \<Rightarrow> Inl e | Inr ys \<Rightarrow> Inr (map the ns @ ys)))"
proof (cases "map_of row (Some column)")
  case (Some v)
  then show ?thesis
    by (cases v) (auto simp: column_number_def split: option.split sum.split)
qed (simp add: column_number_def split: sum.split)

lemma numeric_values_eq:
  "numeric_values float_of column rows =
     (let ns = concat (map (column_number float_of column) rows) in
      if None \<in> set ns then Inl (Exn OverflowErr []) else Inr (map the ns))"
proof (induction rows)
  case (Cons row rows)
  define ns where "ns = column_number float_of column row"
  define ms where "ms = concat (map (column_number float_of column) rows)"
  show ?case
    unfolding numeric_values_Cons Cons.IH list.map concat.simps ns_def [symmetric] ms_def [symmetric] Let_def
    by simp
qed simp

definition same_values :: "py_float list res \<Rightarrow> py_float list res \<Rightarrow> bool" where
  "same_values r r' \<longleftrightarrow>
     (case (r, r') of (Inl e, Inl e') \<Rightarrow> e = e' | (Inr xs, Inr ys) \<Rightarrow> mset xs = mset ys | _ \<Rightarrow> False)"

lemma numeric_values_mset:
  assumes "mset rows = mset rows'"
  shows "same_values (numeric_values float_of column rows) (numeric_values float_of column rows')"
proof -
  define f where "f = (\<lambda>rows. concat (map (column_number float_of column) rows))"
  have vals: "numeric_values float_of column rows =
      (if None \<in> set (f rows) then Inl (Exn OverflowErr []) else Inr (map the (f rows)))" for rows
    by (simp only: numeric_values_eq f_def Let_def)
  have "mset (f rows) = sum_mset (image_mset (\<lambda>row. mset (column_number float_of column row)) (mset rows))" for rows
    by (simp add: f_def mset_concat sum_mset_sum_list [symmetric] comp_def)
  then have same: "mset (f rows) = mset (f rows')" using assms by simp
  then have "set (f rows) = set (f rows')" by (rule mset_eq_setD)
  moreover have "mset (map the (f rows)) = mset (map the (f rows'))" using same by (simp only: mset_map)
  ultimately show ?thesis unfolding vals same_values_def by simp
qed

text \<open>No cell of the column is \<open>NaN\<close>.\<close>

definition no_nan :: "table_row list \<Rightarrow> ustr \<Rightarrow> bool" where
  "no_nan rows column \<longleftrightarrow> list_all (\<lambda>row. map_of row (Some column) \<noteq> Some (JFloat NaN)) rows"

lemma column_number_NaN:
  assumes "Some NaN \<in> set (column_number float_of column row)"
  shows "map_of row (Some column) = Some (JFloat NaN)"
proof (cases "map_of row (Some column)")
  case None
  with assms show ?thesis by (simp add: column_number_def)
next
  case (Some v)
  with assms show ?thesis by (cases v) (auto simp: column_number_def eq_commute [of "Some NaN"])
qed

lemma numeric_values_NaN:
  assumes "numeric_values float_of column rows = Inr values" "no_nan rows column"
  shows "NaN \<notin> set values"
proof
  assume nan: "NaN \<in> set values"
  define ns where "ns = concat (map (column_number float_of column) rows)"
  have "None \<notin> set ns" "values = map the ns"
    using assms(1) unfolding numeric_values_eq Let_def ns_def [symmetric] by (auto split: if_splits)
  with nan have "Some NaN \<in> set ns" by (auto simp: image_iff) (metis option.collapse)
  then show False using assms(2) column_number_NaN by (fastforce simp: ns_def no_nan_def list_all_iff)
qed

text \<open>
  Two numeric summaries that differ at most in the means and, for a column with a \<open>NaN\<close>, in the extremes
  (which are compared as \<open>==\<close> does, so the sign of a zero may differ).
\<close>

definition same_numbers ::
  "table_row list \<Rightarrow> (ustr \<times> column_summary) list \<Rightarrow> (ustr \<times> column_summary) list \<Rightarrow> bool" where
  "same_numbers rows = list_all2 (\<lambda>(c, s) (c', s'). c = c' \<and> cn_count s = cn_count s' \<and>
     (no_nan rows c \<longrightarrow> float_eq (cn_min s) (cn_min s') \<and> float_eq (cn_max s) (cn_max s')))"

lemma numeric_summary_mset:
  assumes "mset rows = mset rows'"
  shows "case (numeric_summary float_of mean rows columns, numeric_summary float_of mean rows' columns) of
      (Inl e, Inl e') \<Rightarrow> e = e' | (Inr xs, Inr ys) \<Rightarrow> same_numbers rows xs ys | _ \<Rightarrow> False"
proof (induction columns)
  case (Cons column columns)
  have vals: "same_values (numeric_values float_of column rows) (numeric_values float_of column rows')"
    by (rule numeric_values_mset [OF assms])
  show ?case
  proof (cases "numeric_values float_of column rows")
    case (Inl e)
    with vals have "numeric_values float_of column rows' = Inl e"
      by (auto simp: same_values_def split: sum.splits)
    with Inl show ?thesis by simp
  next
    case (Inr xs)
    with vals obtain ys where ys: "numeric_values float_of column rows' = Inr ys" "mset xs = mset ys"
      by (auto simp: same_values_def split: sum.splits)
    then have same: "length xs = length ys" "set xs = set ys" "xs = [] \<longleftrightarrow> ys = []"
      by (auto dest: mset_eq_length mset_eq_setD)
    have "float_eq (py_min xs) (py_min ys) \<and> float_eq (py_max xs) (py_max ys)" if "xs \<noteq> []" "no_nan rows column"
      using py_extremes_eq [OF same(2) that(1)] numeric_values_NaN [OF Inr that(2)] by blast
    with Inr ys(1) same(1,3) Cons.IH show ?thesis
      by (auto simp: same_numbers_def summarise_def split: sum.splits)
  qed
qed (simp add: same_numbers_def)

text \<open>
  C31: Except for \<open>NaN\<close> the analysis does not depend on the order of the rows: for two tables with the same rows in
  another order it fails with the same error, or it finds the same columns, the same numbers of empty cells, the
  same numeric columns with the same counts, the same number of duplicates and the same warnings, and for each
  column without a \<open>NaN\<close> the same minimum and maximum (as \<open>==\<close> compares them). The means may differ by the
  rounding of the sums. With a \<open>NaN\<close>, which an upload in JSON may contain, minimum and maximum do depend on the
  order (\<open>nan_makes_order_matter\<close>).
\<close>

theorem analysis_ignores_row_order:
  assumes "mset rows = mset rows'"
  shows "case (analyze float_of mean f rows, analyze float_of mean f rows') of
      (Inl e, Inl e') \<Rightarrow> e = e'
    | (Inr r, Inr r') \<Rightarrow> r\<lparr>da_numeric_summary := []\<rparr> = r'\<lparr>da_numeric_summary := []\<rparr> \<and>
        same_numbers rows (da_numeric_summary r) (da_numeric_summary r')
    | _ \<Rightarrow> False"
proof -
  have cols: "table_columns rows = table_columns rows'"
    by (rule table_columns_set) (use mset_eq_setD [OF assms] in simp)
  have len: "length rows = length rows'" using assms by (rule mset_eq_length)
  note nulls = null_count_mset [OF assms] and dups = duplicate_rows_mset [OF assms, of f]
  show ?thesis
  proof (cases "table_columns rows'")
    case (Inl e)
    then show ?thesis by (simp add: analyze_def cols)
  next
    case (Inr columns)
    then show ?thesis
      using numeric_summary_mset [OF assms, of float_of mean columns]
      by (auto simp: analyze_def cols len nulls dups Let_def split: sum.splits)
  qed
qed

definition demo_readings :: "table_row list" where
  "demo_readings = [[(Some (U ''n''), JInt 3)], [(Some (U ''n''), JNull)], [(Some (U ''n''), JFloat Neg_inf)]]"

lemma demo_readings_facts:
  "table_columns demo_readings = Inr [U ''n'']" "no_nan demo_readings (U ''n'')"
  by (simp_all add: table_columns_def row_keys_def demo_readings_def no_nan_def)

theorem analysis_ignores_row_order_witness:
  "(case (analyze (\<lambda>n. Some (of_int n)) (\<lambda>_. Neg_inf) (\<lambda>_. []) demo_readings,
         analyze (\<lambda>n. Some (of_int n)) (\<lambda>_. Neg_inf) (\<lambda>_. []) (rev demo_readings)) of
      (Inl e, Inl e') \<Rightarrow> e = e'
    | (Inr r, Inr r') \<Rightarrow> r\<lparr>da_numeric_summary := []\<rparr> = r'\<lparr>da_numeric_summary := []\<rparr> \<and>
        same_numbers demo_readings (da_numeric_summary r) (da_numeric_summary r')
    | _ \<Rightarrow> False) \<and> table_columns demo_readings = Inr [U ''n''] \<and> no_nan demo_readings (U ''n'')"
proof (intro conjI demo_readings_facts)
  show "case (analyze (\<lambda>n. Some (of_int n)) (\<lambda>_. Neg_inf) (\<lambda>_. []) demo_readings,
         analyze (\<lambda>n. Some (of_int n)) (\<lambda>_. Neg_inf) (\<lambda>_. []) (rev demo_readings)) of
      (Inl e, Inl e') \<Rightarrow> e = e'
    | (Inr r, Inr r') \<Rightarrow> r\<lparr>da_numeric_summary := []\<rparr> = r'\<lparr>da_numeric_summary := []\<rparr> \<and>
        same_numbers demo_readings (da_numeric_summary r) (da_numeric_summary r')
    | _ \<Rightarrow> False"
    by (rule analysis_ignores_row_order) simp
qed

text \<open>The minimum of a column depends on where its \<open>NaN\<close> stands.\<close>

lemma nan_makes_order_matter:
  fixes rows :: "table_row list"
  defines "rows \<equiv> [[(Some (U ''n''), JFloat NaN)], [(Some (U ''n''), JInt 1)]]"
  shows "\<exists>s s'. numeric_summary (\<lambda>n. Some (of_int n)) mean rows [U ''n''] = Inr [(U ''n'', s)] \<and>
    numeric_summary (\<lambda>n. Some (of_int n)) mean (rev rows) [U ''n''] = Inr [(U ''n'', s')] \<and>
    cn_min s = NaN \<and> cn_min s' = Rational 1"
  by (simp add: rows_def summarise_def float_lt_def)

section \<open>Exports\<close>

text \<open>
  An exported summary can be uploaded again and gives the same table, one row per column with its name
  and its number of empty cells, unless a column name starts with \<open>=\<close>, \<open>+\<close>, \<open>-\<close> or \<open>@\<close>: then the upload is refused as
  a formula injection. So such a name, which an upload may carry in its header or in JSON, reaches the
  exported CSV as a formula.
\<close>

theorem exported_summary_reads_back:
  assumes "\<forall>(name, nulls) \<in> set (da_null_counts r). length name \<le> field_limit \<and> length (nat_dec nulls) \<le> field_limit"
  shows "parse_csv 44 (summary_csv r) =
    (if \<exists>(name, nulls) \<in> set (da_null_counts r). formula (JStr name)
     then Inl (unsafe_file ''CSV formula injection detected'')
     else Inr (map (\<lambda>(name, nulls). [(Some (U ''column''), JStr name), (Some (U ''null_count''), JStr (nat_dec nulls))])
       (da_null_counts r)))"
proof -
  let ?rows = "map (\<lambda>(name, nulls). [name, nat_dec nulls]) (da_null_counts r)"
  have read: "csv_records 44 (summary_csv r) = Inr ([U ''column'', U ''null_count''] # ?rows)"
    unfolding summary_csv_def
    by (rule csv_roundtrip) (use assms in \<open>auto simp: field_limit_def U_def\<close>)
  have rows: "dict_reader 44 (summary_csv r) =
      Inr (map (\<lambda>(name, nulls). [(Some (U ''column''), JStr name), (Some (U ''null_count''), JStr (nat_dec nulls))])
        (da_null_counts r))"
    by (auto simp: dict_reader_def read csv_row_def filter_map comp_def case_prod_unfold)
  have digit: "\<not> formula (JStr (nat_dec n))" for n
  proof (cases "nat_dec n")
    case (Cons c cs)
    with nat_dec_digits [of n] have "is_digit c" by simp
    with Cons show ?thesis by (auto simp: formula_def is_digit_def)
  qed (simp add: formula_def)
  have "list_ex (\<lambda>row. list_ex formula (map snd row))
      (map (\<lambda>(name, nulls). [(Some (U ''column''), JStr name), (Some (U ''null_count''), JStr (nat_dec nulls))]) items) \<longleftrightarrow>
      (\<exists>(name, nulls) \<in> set items. formula (JStr name))" for items
    by (induction items) (auto simp: digit)
  then show ?thesis unfolding parse_csv_def rows by simp
qed

definition result_with :: "(ustr \<times> nat) list \<Rightarrow> analysis_result" where
  "result_with null_counts =
     \<lparr>da_row_count = 1, da_columns = map fst null_counts, da_null_counts = null_counts, da_numeric_summary = [],
      da_duplicate_rows = 0, da_quality_warnings = [], da_source_file_id = None\<rparr>"

lemma digit_dec: "n < 10 \<Longrightarrow> nat_dec n = [48 + n]"
  by (subst nat_dec.simps) simp

theorem exported_summary_reads_back_witness:
  "parse_csv 44 (summary_csv (result_with [(U ''a,b'', 1)])) =
     Inr [[(Some (U ''column''), JStr (U ''a,b'')), (Some (U ''null_count''), JStr (U ''1''))]] \<and>
   parse_csv 44 (summary_csv (result_with [(U ''=f'', 0)])) = Inl (unsafe_file ''CSV formula injection detected'')"
  using exported_summary_reads_back [of "result_with [(U ''a,b'', 1)]"]
    exported_summary_reads_back [of "result_with [(U ''=f'', 0)]"]
  by (simp add: result_with_def digit_dec field_limit_def formula_def U_def)

subsection \<open>No markup from the data\<close>

definition tags :: "ustr \<Rightarrow> nat" where
  "tags s = length (filter (\<lambda>c. c = 60) s)"

lemma tags_Cons [simp]: "tags [] = 0" "tags (c # s) = (if c = 60 then 1 else 0) + tags s"
  by (simp_all add: tags_def)

lemma tags_append [simp]: "tags (s @ t) = tags s + tags t"
  by (simp add: tags_def)

lemma tags_escape [simp]: "tags (html_escape s) = 0"
  by (induction s) (auto simp: html_escape_def tags_def html_char_def U_def)

lemma tags_dec [simp]: "tags (nat_dec n) = 0"
  using nat_dec_digits [of n] by (auto simp: tags_def filter_empty_conv is_digit_def)

lemma tags_bars: "tags (concat (map (\<lambda>(index, item). svg_bar index item) (enumerate i items))) = 3 * length items"
proof (induction items arbitrary: i)
  case (Cons item items)
  have "tags (svg_bar i item) = 3"
    by (cases item) (simp add: svg_bar_def U_def)
  with Cons [of "Suc i"] show ?case by simp
qed (simp add: tags_def)

text \<open>
  No markup comes from the data: whatever the columns of a table are called, the exported SVG has
  exactly the tags of its template, three for each column and four for the frame, and the HTML report
  exactly the twelve of its frame.
\<close>

theorem exports_have_only_their_own_tags:
  "tags (chart_svg r) = 4 + 3 * length (da_null_counts r) \<and> tags (report_html r) = 12"
  by (simp add: chart_svg_def report_html_def tags_bars U_def)

end
