(* ===== verification/Email_Polish.thy ===== *)
theory Email_Polish
  imports Sensitive_Data
begin

text \<open>
  \<open>EmailPolishService\<close> (\<open>app/domain/email_polish.py\<close>): the layout, the warnings and the classification of
  an e-mail draft. Nothing is sent.
\<close>

section \<open>The service\<close>

datatype sensitivity = Internal | Sensitive

record email_polish_draft =
  ed_subject :: ustr
  ed_body :: ustr
  ed_warnings :: "ustr list"
  ed_send_ready :: bool
  ed_email_type :: ustr
  ed_primary_intent :: ustr
  ed_expected_action :: "ustr option"
  ed_sensitivity :: sensitivity
  ed_issues :: "ustr list"
  ed_changes :: "ustr list"

text \<open>\<open>"\n".join(line.rstrip() for line in body.strip().splitlines())\<close>\<close>

definition polish_body :: "ustr \<Rightarrow> ustr" where
  "polish_body body = join [10] (map rstrip (splitlines (strip body)))"

definition request_words :: "ustr list" where
  "request_words = [[35831], [28902, 35831], [38656, 35201]]"

definition polish :: "unicode \<Rightarrow> ustr \<Rightarrow> ustr \<Rightarrow> ustr list \<Rightarrow> email_polish_draft" where
  "polish u subject body attachments =
     (let missing = contains [38468, 20214] body \<and> attachments = [];
          found = findings u body;
          polished_subject = strip subject;
          polished_body = polish_body body;
          request = list_ex (\<lambda>w. contains w body) request_words;
          warnings = (if missing then [[27491, 25991, 25552, 21450, 38468, 20214, 65292, 20294, 26410, 25552, 20379, 38468, 20214, 24341, 29992, 12290]] else []) @
            (if found \<noteq> [] then [[26816, 27979, 21040, 25935, 24863, 20449, 24687, 65306] @ join (U '', '') found] else [])
      in \<lparr>ed_subject = polished_subject, ed_body = polished_body, ed_warnings = warnings,
          ed_send_ready = (warnings = []),
          ed_email_type = U (if request then ''request'' else ''notice''),
          ed_primary_intent = U (if request then ''request_action'' else ''inform''),
          ed_expected_action = (if request then Some [35831, 25910, 20214, 20154, 25353, 27491, 25991, 35201, 27714, 22788, 29702] else None),
          ed_sensitivity = (if found \<noteq> [] then Sensitive else Internal),
          ed_issues = (if missing then [[38468, 20214, 32570, 22833]] else []) @ (if found \<noteq> [] then [[25935, 24863, 20449, 24687]] else []),
          ed_changes = (if polished_subject \<noteq> subject \<or> polished_body \<noteq> body
                        then [[28165, 29702, 39318, 23614, 31354, 30333, 24182, 32479, 19968, 34892, 23614, 26684, 24335]] else [])\<rparr>)"

section \<open>Lines\<close>

lemma lines_acc_unbroken:
  "list_all (\<lambda>c. \<not> is_linebreak c) l \<Longrightarrow> lines_acc acc l = (if acc = [] \<and> l = [] then [] else [rev acc @ l])"
proof (induction acc l rule: lines_acc.induct)
  case (3 acc c d cs)
  then have "c \<noteq> 13" by (auto simp: is_linebreak_def)
  with 3 show ?case by simp
qed auto

lemma lines_acc_append:
  "list_all (\<lambda>c. \<not> is_linebreak c) l \<Longrightarrow> lines_acc acc (l @ 10 # s) = (rev acc @ l) # lines_acc [] s"
proof (induction l arbitrary: acc)
  case Nil
  show ?case
  proof (cases s)
    case (Cons d cs)
    then show ?thesis by (simp add: is_linebreak_def)
  qed (simp add: is_linebreak_def)
next
  case (Cons c l)
  then have c: "c \<noteq> 13" "\<not> is_linebreak c" by (auto simp: is_linebreak_def)
  show ?case
  proof (cases "l @ 10 # s")
    case (Cons d cs)
    with c have "lines_acc acc (c # l @ 10 # s) = lines_acc (c # acc) (l @ 10 # s)" by simp
    with Cons.IH [of "c # acc"] \<open>list_all (\<lambda>c. \<not> is_linebreak c) (c # l)\<close> show ?thesis by simp
  qed simp
qed

lemma splitlines_join:
  "\<forall>l \<in> set ls. list_all (\<lambda>c. \<not> is_linebreak c) l \<Longrightarrow> ls = [] \<or> last ls \<noteq> [] \<Longrightarrow> splitlines (join [10] ls) = ls"
  unfolding splitlines_def
proof (induction ls rule: induct_list012)
  case 1
  show ?case by simp
next
  case (2 l)
  then show ?case by (simp add: lines_acc_unbroken)
next
  case (3 l l' ls)
  then show ?case by (simp add: lines_acc_append)
qed

lemma lines_acc_lines:
  "l \<in> set (lines_acc acc s) \<Longrightarrow> list_all (\<lambda>c. \<not> is_linebreak c) acc \<Longrightarrow> list_all (\<lambda>c. \<not> is_linebreak c) l"
proof (induction acc s arbitrary: l rule: lines_acc.induct)
  case (1 acc)
  then show ?case by (auto split: if_splits)
next
  case (2 acc c)
  then show ?case by (auto split: if_splits)
next
  case (3 acc c d cs)
  then show ?case by (auto split: if_splits)
qed

lemma lines_acc_last:
  "s \<noteq> [] \<Longrightarrow> \<not> is_linebreak (last s) \<Longrightarrow> lines_acc acc s \<noteq> [] \<and> last (lines_acc acc s) \<noteq> [] \<and>
   last (last (lines_acc acc s)) = last s"
proof (induction acc s rule: lines_acc.induct)
  case (3 acc c d cs)
  show ?case
  proof (cases "c = 13 \<and> d = 10")
    case True
    with 3(5) have "cs \<noteq> []" by (auto simp: is_linebreak_def)
    with True 3(1,5) show ?thesis by simp
  next
    case False
    show ?thesis
    proof (cases "is_linebreak c")
      case True
      with False 3(2,5) show ?thesis by auto
    next
      case False
      with \<open>\<not> (c = 13 \<and> d = 10)\<close> 3(3,5) show ?thesis by auto
    qed
  qed
qed (auto split: if_splits)

lemma lines_acc_first:
  "s \<noteq> [] \<Longrightarrow> acc \<noteq> [] \<or> \<not> is_linebreak (hd s) \<Longrightarrow>
   hd (lines_acc acc s) \<noteq> [] \<and> hd (hd (lines_acc acc s)) = hd (rev acc @ s)"
proof (induction acc s rule: lines_acc.induct)
  case (3 acc c d cs)
  show ?case
  proof (cases "is_linebreak c")
    case True
    with 3(5) have "acc \<noteq> []" by simp
    with True show ?thesis by (cases acc rule: rev_cases) auto
  next
    case False
    then have "c \<noteq> 13" by (auto simp: is_linebreak_def)
    with False 3(3) show ?thesis by (cases acc rule: rev_cases) auto
  qed
next
  case (2 acc c)
  then show ?case by (cases acc rule: rev_cases) auto
qed simp

section \<open>Polishing twice\<close>

lemma rstrip_idem [simp]: "rstrip (rstrip l) = rstrip l"
  by (cases "rstrip l = []") (simp_all add: rstrip_last rstrip_id)

lemma rstrip_unbroken: "list_all P l \<Longrightarrow> list_all P (rstrip l)"
  using rstrip_prefix [of l] by (auto simp: prefix_def list_all_append)
    (metis list_all_append)

lemma rstrip_hd: "l \<noteq> [] \<Longrightarrow> \<not> is_space (hd l) \<Longrightarrow> rstrip l \<noteq> [] \<and> hd (rstrip l) = hd l"
proof -
  assume l: "l \<noteq> []" "\<not> is_space (hd l)"
  then have "dropWhile is_space (rev l) \<noteq> []" by (simp add: dropWhile_eq_Nil_conv) (metis hd_in_set)
  then have "rstrip l \<noteq> []" by (simp add: rstrip_def)
  moreover from this rstrip_prefix [of l] have "hd (rstrip l) = hd l" by (metis hd_append2 prefix_def)
  ultimately show ?thesis ..
qed

lemma join_hd: "r \<noteq> [] \<Longrightarrow> join sep (r # rs) \<noteq> [] \<and> hd (join sep (r # rs)) = hd r"
  by (cases rs) simp_all

lemma join_last: "rs \<noteq> [] \<Longrightarrow> last rs \<noteq> [] \<Longrightarrow> join sep rs \<noteq> [] \<and> last (join sep rs) = last (last rs)"
  by (induction rs rule: induct_list012) auto

lemma strip_last: "strip s \<noteq> [] \<Longrightarrow> \<not> is_space (last (strip s))"
  unfolding strip_def by (rule rstrip_last)

lemma strip_trimmed: "t \<noteq> [] \<Longrightarrow> \<not> is_space (hd t) \<Longrightarrow> \<not> is_space (last t) \<Longrightarrow> strip t = t"
  by (cases t) (simp_all add: strip_def lstrip_def rstrip_id)

lemma polish_body_lines:
  "strip (polish_body b) = polish_body b \<and> splitlines (polish_body b) = map rstrip (splitlines (strip b))"
proof (cases "strip b = []")
  case True
  then show ?thesis by (simp add: polish_body_def splitlines_def)
next
  case False
  define ls where "ls = splitlines (strip b)"
  define rs where "rs = map rstrip ls"
  have ends: "\<not> is_space (hd (strip b))" "\<not> is_space (last (strip b))"
    using strip_hd [OF False] strip_last [OF False] by simp_all
  then have breaks: "\<not> is_linebreak (hd (strip b))" "\<not> is_linebreak (last (strip b))"
    using linebreak_space by blast+
  have ls: "ls \<noteq> []" "last ls \<noteq> []" "last (last ls) = last (strip b)" "hd ls \<noteq> []" "hd (hd ls) = hd (strip b)"
    using lines_acc_last [OF False breaks(2), of "[]"] lines_acc_first [OF False, of "[]"] breaks(1)
    by (simp_all add: ls_def splitlines_def)
  have "rstrip (last ls) = last ls" using ls(2,3) ends(2) by (intro rstrip_id) simp_all
  then have rs: "rs \<noteq> []" "last rs = last ls" "hd rs = rstrip (hd ls)"
    using ls(1) by (simp_all add: rs_def last_map hd_map)
  have first: "hd rs \<noteq> []" "hd (hd rs) = hd (strip b)"
    using rstrip_hd [OF ls(4)] ls(5) ends(1) rs(3) by simp_all
  have body: "polish_body b = join [10] rs" by (simp add: polish_body_def rs_def ls_def)
  have "hd (join [10] rs) = hd (strip b)" "join [10] rs \<noteq> []"
    using join_hd [of "hd rs" "[10]" "tl rs"] rs(1) first by simp_all
  moreover have "last (join [10] rs) = last (strip b)"
    using join_last [of rs "[10]"] rs ls by simp
  ultimately have "strip (join [10] rs) = join [10] rs" using ends by (intro strip_trimmed) simp_all
  moreover have "splitlines (join [10] rs) = rs"
  proof (rule splitlines_join)
    show "rs = [] \<or> last rs \<noteq> []" using rs ls by simp
    have "list_all (\<lambda>c. \<not> is_linebreak c) l" if "l \<in> set ls" for l
      using lines_acc_lines [of l "[]" "strip b"] that by (simp add: ls_def splitlines_def)
    then show "\<forall>l \<in> set rs. list_all (\<lambda>c. \<not> is_linebreak c) l" by (auto simp: rs_def rstrip_unbroken)
  qed
  ultimately show ?thesis unfolding body by (simp add: rs_def ls_def)
qed

lemma polish_body_idem: "polish_body (polish_body b) = polish_body b"
proof -
  have "polish_body (polish_body b) = join [10] (map rstrip (map rstrip (splitlines (strip b))))"
    unfolding polish_body_def [of "polish_body b"] using polish_body_lines [of b] by simp
  then show ?thesis by (simp add: polish_body_def comp_def)
qed

text \<open>
  Polishing is idempotent: polishing a polished draft changes neither the subject nor the body and
  reports no change, and no line of a polished body ends in white space.
\<close>

theorem polish_is_idempotent:
  "let d = polish u subject body attachments; d' = polish u (ed_subject d) (ed_body d) attachments
   in ed_subject d' = ed_subject d \<and> ed_body d' = ed_body d \<and> ed_changes d' = [] \<and>
      list_all (\<lambda>l. rstrip l = l) (splitlines (strip (ed_body d)))"
  using polish_body_lines [of body] by (simp add: polish_def Let_def polish_body_idem list_all_iff)

end
