(* ===== verification/Api_Routes.thy ===== *)
theory Api_Routes
  imports Assistant_Api Work_Events Analysis Email_Polish Task_Queue_Runs
begin

text \<open>
  The other routes of \<open>app/api/routes.py\<close>: knowledge, reports, meeting minutes, background tasks, files and
  analyses. A route finds its services in \<open>app.state\<close>; a body that does not validate is answered by FastAPI
  before the route is called (\<open>Request_Bodies\<close>).

  The routes of meeting minutes record their audit in \<open>_audit\<close>, the service this module creates, and not in
  the one of the application. The two are \<open>of_audit\<close> and the second part of \<open>of_ext\<close> in the state here.
\<close>

type_synonym identity = "ustr \<Rightarrow> request_context res"

type_synonym ('r, 'm, 'i, 'c) app_state = "('r, 'm, 'i, 'c \<times> audit_service) office"

definition module_audit :: "('r, 'm, 'i, 'c) app_state \<Rightarrow> audit_service" where
  "module_audit s = snd (of_ext s)"

text \<open>What is called with \<open>audit=_audit\<close> works on the state in which the two services have changed places.\<close>

definition swap_audit :: "('r, 'm, 'i, 'c) app_state \<Rightarrow> ('r, 'm, 'i, 'c) app_state" where
  "swap_audit s = s\<lparr>of_audit := snd (of_ext s), of_ext := (fst (of_ext s), of_audit s)\<rparr>"

definition with_module_audit ::
  "(('r, 'm, 'i, 'c) app_state \<Rightarrow> 'a \<times> ('r, 'm, 'i, 'c) app_state) \<Rightarrow>
   ('r, 'm, 'i, 'c) app_state \<Rightarrow> 'a \<times> ('r, 'm, 'i, 'c) app_state" where
  "with_module_audit f s = (case f (swap_audit s) of (x, s') \<Rightarrow> (x, swap_audit s'))"

section \<open>The handlers of errors\<close>

text \<open>The clauses the routes share: \<open>str(error)\<close> as the detail, or a fixed text.\<close>

definition forbidden :: http_clause where
  "forbidden = ([PermissionErr], 403, exn_msg)"

definition conflict :: http_clause where
  "conflict = ([ValueErr], 409, exn_msg)"

definition unavailable_system :: http_clause where
  "unavailable_system = ([ConnectorUnavailableErr], 503, exn_msg)"

definition not_found :: "string \<Rightarrow> http_clause" where
  "not_found what = ([KeyErr], 404, fixed_detail (what @ '' not found''))"

lemmas clauses = forbidden_def conflict_def unavailable_system_def not_found_def fixed_detail_def

section \<open>Health\<close>

definition health :: "(ustr \<times> ustr) list" where
  "health = [(U ''status'', U ''ok'')]"

definition readiness :: "ustr \<Rightarrow> bool \<Rightarrow> (ustr \<times> ustr) list res" where
  "readiness app_env has_database =
     (if app_env = U ''production'' \<and> \<not> has_database
      then Inl (Exn (HTTPException 503) (U ''database is not initialized''))
      else Inr [(U ''status'', U ''ready'')])"

section \<open>Knowledge\<close>

definition answer_knowledge ::
  "(request_context \<Rightarrow> ustr res) option \<Rightarrow> 's knowledge_connector \<Rightarrow> identity \<Rightarrow> ustr \<Rightarrow> 's \<Rightarrow>
   knowledge_answer res \<times> 's" where
  "answer_knowledge provider connector identity query =
     with_context identity (U ''knowledge:query'') (\<lambda>c s.
       with_http
         [([SsoTokenUnavailableErr], 401, fixed_detail ''SSO token required''),
          ([KnowledgeMcpErr, ValueErr, KeyErr], 503, fixed_detail ''knowledge service unavailable'')]
         (knowledge_service_answer provider connector query c s))"

section \<open>Reports\<close>

record report_request =
  rq_report_date :: ustr
  rq_report_type :: report_type
  rq_events :: "work_event list"
  rq_use_mock_sources :: bool

text \<open>\<open>MockWorkSources.collect_events\<close>\<close>

definition mock_event :: "string \<Rightarrow> ustr \<Rightarrow> work_status \<Rightarrow> string \<Rightarrow> work_event" where
  "mock_event ident title status evidence_url =
     (WorkEvent (U ident) title status)\<lparr>we_evidence_url := Some (U evidence_url)\<rparr>"

definition mock_work_events :: "work_event list" where
  "mock_work_events =
     [mock_event ''im-001'' [30830, 35748, 26085, 25253, 25968, 25454, 21475, 24452] Completed_w ''mock://im/001'',
      mock_event ''git-001'' ([23454, 29616, 25253, 24037, 32, 67, 111, 110, 110, 101, 99, 116, 111, 114]) In_progress_w ''mock://git/001'',
      mock_event ''task-001'' [31561, 24453, 26435, 38480, 30697, 38453] Blocked_w ''mock://task/001'']"

text \<open>
  The events of a report and the warnings about them: those of the request, the stand-ins, or what
  \<open>collect\<close>, the collector of \<open>Work_Events\<close> on the sources of the application, finds between two dates.
\<close>

definition report_events ::
  "(ustr \<Rightarrow> ustr \<Rightarrow> request_context \<Rightarrow> 's \<Rightarrow> work_event_collection res) \<Rightarrow> report_request \<Rightarrow> request_context \<Rightarrow>
   's \<Rightarrow> (work_event list \<times> ustr list) res" where
  "report_events collect payload c s =
     (if rq_events payload \<noteq> [] then Inr (rq_events payload, [])
      else if rq_use_mock_sources payload then Inr (mock_work_events, [])
      else
        (case (if rq_report_type payload = Weekly then iso_after 6 (rq_report_date payload)
               else Inr (rq_report_date payload)) of
           Inl e \<Rightarrow> Inl e
         | Inr date_to \<Rightarrow>
             map_sum id (\<lambda>collection. (wc_events collection, wc_source_warnings collection))
               (collect (rq_report_date payload) date_to c s)))"

definition generate_report ::
  "('r, 'h) report_repo \<Rightarrow> (ustr \<Rightarrow> ustr) \<Rightarrow> ustr \<Rightarrow>
   (ustr \<Rightarrow> ustr \<Rightarrow> request_context \<Rightarrow> ('r, 'm, 'i, 'c) app_state \<Rightarrow> work_event_collection res) \<Rightarrow>
   identity \<Rightarrow> report_request \<Rightarrow> ('r, 'm, 'i, 'c) app_state \<Rightarrow> 'h res \<times> ('r, 'm, 'i, 'c) app_state" where
  "generate_report R lower uuid collect identity payload =
     with_context identity (U ''report:new:'' @ rq_report_date payload) (\<lambda>c s.
       case report_events collect payload c s of
         Inl e \<Rightarrow> (Inl e, s)
       | Inr (events, source_warnings) \<Rightarrow>
           if rq_report_type payload = Weekly
           then on_reports (generate_weekly R lower uuid (rq_report_date payload) events (Some c) source_warnings) s
           else on_reports (generate_daily R lower uuid (rq_report_date payload) events (Some c) source_warnings) s)"

definition report_thread :: "ustr \<Rightarrow> ustr" where
  "report_thread report_id = U ''report:'' @ report_id"

definition review_report_route ::
  "('r, 'h) report_repo \<Rightarrow> identity \<Rightarrow> ustr \<Rightarrow> bool \<Rightarrow> ustr option \<Rightarrow> ('r, 'm, 'i, 'c) app_state \<Rightarrow>
   'h res \<times> ('r, 'm, 'i, 'c) app_state" where
  "review_report_route R identity report_id approved comment =
     with_context identity (report_thread report_id) (\<lambda>c s.
       with_http [not_found ''report'', forbidden] (report_review R report_id approved comment c s))"

definition submit_report_route ::
  "('r, 'h) report_repo \<Rightarrow> 'i idem_repo \<Rightarrow> unicode \<Rightarrow> (report_draft \<Rightarrow> ustr) \<Rightarrow>
   (report_draft \<Rightarrow> ustr \<Rightarrow> request_context \<Rightarrow> ('r, 'm, 'i, 'c) app_state \<Rightarrow> jdict res \<times> ('r, 'm, 'i, 'c) app_state) \<Rightarrow>
   identity \<Rightarrow> ustr \<Rightarrow> ('r, 'm, 'i, 'c) app_state \<Rightarrow> report_submission res \<times> ('r, 'm, 'i, 'c) app_state" where
  "submit_report_route R I u dump submit_to identity report_id =
     with_context identity (report_thread report_id) (\<lambda>c s.
       with_http [not_found ''report'', forbidden, conflict, unavailable_system]
         (report_submit R I u dump submit_to report_id c s))"

section \<open>Meeting minutes\<close>

definition meeting_thread :: "ustr \<Rightarrow> ustr" where
  "meeting_thread meeting_id = U ''meeting:'' @ meeting_id"

definition generate_minutes_route ::
  "('m, 'h) minutes_repo \<Rightarrow> (ustr \<Rightarrow> instant \<Rightarrow> ustr option) \<Rightarrow> (instant \<Rightarrow> ustr) \<Rightarrow> instant \<Rightarrow> identity \<Rightarrow>
   ustr \<Rightarrow> ustr \<Rightarrow> transcript_segment list \<Rightarrow> ustr option \<Rightarrow> ('r, 'm, 'i, 'c) app_state \<Rightarrow>
   'h res \<times> ('r, 'm, 'i, 'c) app_state" where
  "generate_minutes_route M zone_date system_date now identity meeting_id title segments meeting_date =
     with_context identity (meeting_thread meeting_id) (\<lambda>c.
       on_meetings (minutes_generate M zone_date system_date now meeting_id title segments c meeting_date))"

definition review_minutes_route ::
  "('m, 'h) minutes_repo \<Rightarrow> (minutes_draft \<Rightarrow> ustr) \<Rightarrow> instant \<Rightarrow> identity \<Rightarrow> ustr \<Rightarrow> bool \<Rightarrow> ustr option \<Rightarrow>
   ('r, 'm, 'i, 'c) app_state \<Rightarrow> 'h res \<times> ('r, 'm, 'i, 'c) app_state" where
  "review_minutes_route M sha now identity meeting_id approved comment =
     with_context identity (meeting_thread meeting_id) (\<lambda>c s.
       with_http [not_found ''meeting minutes'', forbidden]
         (with_module_audit (minutes_review M sha now meeting_id approved comment c) s))"

definition send_minutes_route ::
  "('m, 'h) minutes_repo \<Rightarrow> 'i idem_repo \<Rightarrow> unicode \<Rightarrow>
   (ustr \<Rightarrow> ustr \<Rightarrow> ustr \<Rightarrow> request_context \<Rightarrow> ('r, 'm, 'i, 'c) app_state \<Rightarrow>
    jdict res \<times> ('r, 'm, 'i, 'c) app_state) \<Rightarrow>
   instant \<Rightarrow> identity \<Rightarrow> ustr \<Rightarrow> ('r, 'm, 'i, 'c) app_state \<Rightarrow> email_status res \<times> ('r, 'm, 'i, 'c) app_state" where
  "send_minutes_route M I u send_email now identity meeting_id =
     with_context identity (meeting_thread meeting_id) (\<lambda>c s.
       with_http [not_found ''meeting minutes'', forbidden, conflict, unavailable_system]
         (with_module_audit
            (minutes_send M I u (\<lambda>subject body k c. with_module_audit (send_email subject body k c)) now meeting_id c) s))"

section \<open>Background tasks\<close>

record task_view =
  tv_task_id :: ustr
  tv_kind :: ustr
  tv_status :: task_status
  tv_progress :: int
  tv_attempts :: int
  tv_max_attempts :: int
  tv_cancel_requested :: bool
  tv_result :: "jdict option"
  tv_error_code :: "ustr option"

text \<open>\<open>_task_response\<close>: the model refuses a progress outside 0 to 100, a negative number of attempts and a budget below one.\<close>

definition task_response :: "background_task \<Rightarrow> task_view res" where
  "task_response t =
     (if 0 \<le> bt_progress t \<and> bt_progress t \<le> 100 \<and> 0 \<le> bt_attempts t \<and> 1 \<le> bt_max_attempts t
      then Inr \<lparr>tv_task_id = bt_task_id t, tv_kind = bt_kind t, tv_status = bt_status t,
                tv_progress = bt_progress t, tv_attempts = bt_attempts t,
                tv_max_attempts = bt_max_attempts t, tv_cancel_requested = bt_cancel_requested t,
                tv_result = bt_result t, tv_error_code = bt_error_code t\<rparr>
      else Inl (Exn ValidationErr []))"

definition respond_task :: "('s, 'h) task_repo \<Rightarrow> 'h res \<times> 's \<Rightarrow> task_view res \<times> 's" where
  "respond_task R m = bnd m (\<lambda>h s. (task_response (tr_obj R s h), s))"

definition start_meeting_transcription ::
  "('s, 'h) task_repo \<Rightarrow> ustr \<Rightarrow> instant \<Rightarrow> identity \<Rightarrow> ustr \<Rightarrow> 's \<Rightarrow> task_view res \<times> 's" where
  "start_meeting_transcription R uuid now identity meeting_id =
     with_context identity (meeting_thread meeting_id @ U '':transcription'') (\<lambda>c s.
       with_http [forbidden]
         (bnd (permission_require c (U ''meeting:transcribe''), s) (\<lambda>_ s.
            respond_task R (task_create R uuid now (U ''meeting_transcription'') c
              (Some [(U ''meeting_id'', JStr meeting_id)]) 3 s))))"

definition task_thread :: "ustr \<Rightarrow> ustr" where
  "task_thread task_id = U ''task:'' @ task_id"

definition get_background_task ::
  "('s, 'h) task_repo \<Rightarrow> identity \<Rightarrow> ustr \<Rightarrow> 's \<Rightarrow> task_view res \<times> 's" where
  "get_background_task R identity task_id =
     with_context identity (task_thread task_id) (\<lambda>c s.
       with_http [not_found ''task''] (respond_task R (task_get R task_id c s)))"

definition cancel_background_task ::
  "('s, 'h) task_repo \<Rightarrow> instant \<Rightarrow> identity \<Rightarrow> ustr \<Rightarrow> 's \<Rightarrow> task_view res \<times> 's" where
  "cancel_background_task R now identity task_id =
     with_context identity (task_thread task_id) (\<lambda>c s.
       with_http [not_found ''task'', forbidden]
         (bnd (permission_require c (U ''task:cancel''), s) (\<lambda>_ s.
            respond_task R (task_cancel R now task_id c s))))"

section \<open>Files and analyses\<close>

record file_state =
  ft_files :: file_store
  ft_artifacts :: artifact_store
  ft_audit :: audit_service

definition on_files :: "(file_store \<Rightarrow> 'a \<times> file_store) \<Rightarrow> file_state \<Rightarrow> 'a \<times> file_state" where
  "on_files f s = (case f (ft_files s) of (x, t) \<Rightarrow> (x, s\<lparr>ft_files := t\<rparr>))"

definition file_thread :: "ustr \<Rightarrow> ustr" where
  "file_thread file_id = U ''file:'' @ file_id"

definition upload_file ::
  "runtime \<Rightarrow> ustr \<Rightarrow> ustr \<Rightarrow> identity \<Rightarrow> ustr option \<Rightarrow> bytes \<Rightarrow> ustr option \<Rightarrow> file_state \<Rightarrow>
   (ustr \<times> ustr) list res \<times> file_state" where
  "upload_file rt storage_dir uuid identity filename content content_type =
     with_context identity (U ''file:upload'') (\<lambda>c s.
       with_http [([UnicodeErr, UnsafeFileErr], 422, exn_msg)]
         (bnd (on_files (store_and_parse rt storage_dir uuid (case filename of None \<Rightarrow> [] | Some f \<Rightarrow> f)
                 content c content_type) s)
           (\<lambda>file_id s. (Inr [(U ''file_id'', file_id), (U ''status'', U ''stored'')], s))))"

definition file_metadata_route :: "identity \<Rightarrow> ustr \<Rightarrow> file_state \<Rightarrow> file_metadata res \<times> file_state" where
  "file_metadata_route identity file_id =
     with_context identity (file_thread file_id) (\<lambda>c s.
       with_http [not_found ''file''] (on_files (file_get_metadata file_id c) s))"

definition delete_file ::
  "runtime \<Rightarrow> identity \<Rightarrow> ustr \<Rightarrow> file_state \<Rightarrow> (ustr \<times> ustr) list res \<times> file_state" where
  "delete_file rt identity file_id =
     with_context identity (file_thread file_id) (\<lambda>c s.
       with_http [not_found ''file'', forbidden]
         (bnd (permission_require c (U ''file:delete''), s) (\<lambda>_ s.
          bnd (on_files (file_delete rt file_id c) s) (\<lambda>_ s.
            (Inr [(U ''file_id'', file_id), (U ''status'', U ''deleted'')],
             s\<lparr>ft_audit := audit_record_event (U ''file.delete'') c file_id (ft_audit s)\<rparr>)))))"

text \<open>\<open>analysis\<close> is \<open>DataAnalysisService().analyze\<close>.\<close>

definition analyze_uploaded_file ::
  "runtime \<Rightarrow> (table_row list \<Rightarrow> analysis_result res) \<Rightarrow> identity \<Rightarrow> ustr \<Rightarrow> file_state \<Rightarrow>
   analysis_result res \<times> file_state" where
  "analyze_uploaded_file rt analysis identity file_id =
     with_context identity (file_thread file_id) (\<lambda>c s.
       with_http [not_found ''file'']
         (bnd (on_files (get_rows rt file_id c) s) (\<lambda>rows s. (analysis rows, s))))"

definition export_uploaded_analysis ::
  "runtime \<Rightarrow> (table_row list \<Rightarrow> analysis_result res) \<Rightarrow> (ustr \<Rightarrow> ustr) \<Rightarrow> office_writers \<Rightarrow> ustr \<Rightarrow> ustr \<Rightarrow>
   identity \<Rightarrow> ustr \<Rightarrow> file_state \<Rightarrow> (ustr \<times> ustr) list res \<times> file_state" where
  "export_uploaded_analysis rt analysis sha w base artifact_id identity file_id =
     with_context identity (file_thread file_id) (\<lambda>c s.
       with_http [not_found ''file'']
         (bnd (on_files (get_rows rt file_id c) s) (\<lambda>rows s.
          bnd (analysis rows, s) (\<lambda>r s.
            case export_analysis sha w base artifact_id (r\<lparr>da_source_file_id := Some file_id\<rparr>) c
                   (ft_artifacts s) of
              (x, a) \<Rightarrow> (x, s\<lparr>ft_artifacts := a\<rparr>)))))"


section \<open>What a failing submission leaves\<close>

lemma with_http_Inl: "with_http clauses m = (Inl e, s') \<longleftrightarrow> (\<exists>e0. m = (Inl e0, s') \<and> e = as_http clauses e0)"
  by (cases m; cases "fst m") (auto simp: with_http_def)

lemma as_http_KeyErr: "as_http [not_found what, forbidden, conflict, unavailable_system] (Exn KeyErr m) =
    Exn (HTTPException 404) (U (what @ '' not found''))"
  by (simp add: as_http_def clauses caught_def isa_def)

lemma as_http_ValueErr: "as_http [not_found what, forbidden, conflict, unavailable_system] (Exn ValueErr m) =
    Exn (HTTPException 409) m"
  by (simp add: as_http_def clauses caught_def isa_def)

context report_submission begin

lemma accepted_without_id:
  fixes s s1 :: "('r, 'm, 'i, 'c) office"
  assumes inv: "rinv (of_reports s)" "iinv (of_idem s)" and scope: "U ''report:submit'' \<in> rc_permission_scopes c"
    and d: "view (of_reports s) (rc_tenant_id c, i) = Some d" "rd_status d = Approved_r" "findings u (dump d) = []"
    and first: "memo (of_idem s) (rc_tenant_id c, U ''report.submit'', i) = None"
    and accepted: "f d (report_key c (rd_report_date d) i) c s = (Inr result, s1)"
      "of_reports s1 = of_reports s" "of_idem s1 = of_idem s" "map_of result (U ''submission_id'') = None"
  shows "\<exists>s'. report_submit R I u dump f i c s = (Inl (Exn KeyErr (U ''submission_id'')), s') \<and>
    view (of_reports s') (rc_tenant_id c, i) = Some (d\<lparr>rd_status := Submitted_r\<rparr>) \<and>
    (\<forall>g. report_submit R I u dump g i c s' =
      (Inl (Exn ValueErr (U ''report must be approved before submission'')), s'))"
proof -
  let ?d1 = "d\<lparr>rd_status := Submitted_r\<rparr>"
  have idem: "on_idem (idem_get I p i c) s1 = (Inr (memo (of_idem s1) (rc_tenant_id c, p, i)), s1)"
    if "iinv (of_idem s1)" for s1 :: "('r, 'm, 'i, 'c) office" and p
    using idem.get [OF that] by (simp add: on_idem_eq idem_get_def)
  from reports.the_report_cases [OF inv(1), of c i] d(1) obtain h where
    h: "the_report R i c s = (Inr h, s)" "valid (of_reports s) h" "rr_obj R (of_reports s) h = d" "rd_report_id d = i"
    by auto
  obtain h' s2 where a: "on_reports (rr_assign R h ?d1) s1 = (h', s2)" by fastforce
  from reports.assign_save [OF _ _ _ _ a, of c s2] accepted(2) inv(1) h(2-4) d(1) obtain r where
    r: "on_reports (rr_save R h' (Some c)) s2 = (Inr h', s2\<lparr>of_reports := r\<rparr>)" "rinv r"
      "view r (rc_tenant_id c, i) = Some ?d1"
    by auto
  define s' where "s' = record_audit (U ''report.submit'') c i (s2\<lparr>of_reports := r\<rparr>)"
  have s': "of_reports s' = r" "of_idem s' = of_idem s"
    using a accepted(3) by (auto simp: s'_def record_audit_def on_reports_def split: prod.splits)
  have "report_submit R I u dump f i c s = (Inl (Exn KeyErr (U ''submission_id'')), s')"
    using scope h(1,3) idem [OF inv(2)] first d(2,3) accepted(1,2,4) a r(1)
    by (simp add: report_submit_def lift_res_def permission_require_def Let_def require_shareable_def
        getitem_def s'_def)
  moreover have "report_submit R I u dump g i c s' =
      (Inl (Exn ValueErr (U ''report must be approved before submission'')), s')" for g
  proof -
    from reports.the_report_cases [of s' c i] r(2,3) s'(1) obtain h2 where
      "the_report R i c s' = (Inr h2, s')" "rr_obj R (of_reports s') h2 = ?d1"
      by auto
    with scope idem [of s'] first inv(2) s'(2) show ?thesis
      by (simp add: report_submit_def lift_res_def permission_require_def Let_def)
  qed
  ultimately show ?thesis using r(3) s'(1) by blast
qed

end


text \<open>The approved report of \<open>Reports\<close>, and a report system that answers without an id.\<close>

definition no_records :: audit_service where
  "no_records = \<lparr>au_records = [], au_repository = None\<rparr>"

definition demo_app :: "(report_row list, unit, idem_row list, unit) app_state" where
  "demo_app =
     \<lparr>of_reports = of_reports demo_office, of_meetings = (), of_idem = [], of_audit = no_records,
      of_ext = ((), no_records)\<rparr>"

definition silent_report_system ::
  "report_draft \<Rightarrow> ustr \<Rightarrow> request_context \<Rightarrow> ('r, 'm, 'i, 'c) app_state \<Rightarrow> jdict res \<times> ('r, 'm, 'i, 'c) app_state" where
  "silent_report_system d k c s = (Inr [(U ''status'', JStr (U ''submitted''))], s)"


section \<open>Two audit services\<close>

lemma swap_audit_simps [simp]:
  "swap_audit (swap_audit s) = s" "of_audit (swap_audit s) = module_audit s" "module_audit (swap_audit s) = of_audit s"
  "of_meetings (swap_audit s) = of_meetings s" "of_reports (swap_audit s) = of_reports s"
  "of_idem (swap_audit s) = of_idem s"
  by (simp_all add: swap_audit_def module_audit_def)

lemma office_audit [simp]:
  "of_audit (snd (on_meetings f s)) = of_audit s" "of_audit (snd (on_reports g s)) = of_audit s"
  "of_audit (snd (on_idem h s)) = of_audit s"
  "of_ext (snd (on_meetings f s)) = of_ext s" "of_ext (snd (on_reports g s)) = of_ext s"
  "of_ext (snd (on_idem h s)) = of_ext s" "of_ext (record_audit act c i s) = of_ext s"
  by (simp_all add: on_meetings_def on_reports_def on_idem_def record_audit_def split: prod.split)

lemma with_context_frame:
  assumes "\<And>c. identity t = Inr c \<Longrightarrow> P s (snd (handler c s))" "P s s"
  shows "P s (snd (with_context identity t handler s))"
  using assms by (cases "identity t") (simp_all add: with_context_def)

lemma with_module_audit_frame:
  assumes "module_audit (snd (f (swap_audit s))) = of_audit s"
  shows "of_audit (snd (with_module_audit f s)) = of_audit s"
  using assms by (cases "f (swap_audit s)") (simp add: with_module_audit_def)

lemma module_audit_frames [simp]:
  "module_audit (snd (on_meetings f s)) = module_audit s" "module_audit (snd (on_reports g s)) = module_audit s"
  "module_audit (snd (on_idem h s)) = module_audit s" "module_audit (record_audit act c i s) = module_audit s"
  by (simp_all add: module_audit_def)

lemma the_minutes_audit [simp]: "of_audit (snd (the_minutes M i c s)) = of_audit s"
  unfolding the_minutes_def by (rule bnd_frame) (simp_all split: option.split)

lemma the_minutes_module [simp]: "module_audit (snd (the_minutes M i c s)) = module_audit s"
  unfolding the_minutes_def by (rule bnd_frame) (simp_all split: option.split)

lemma minutes_review_module: "module_audit (snd (minutes_review M sha now i ok comment c s)) = module_audit s"
  unfolding minutes_review_def
  by (intro bnd_frame [where g = module_audit]) (auto split: prod.split dest: arg_cong [of _ _ "module_audit \<circ> snd"])


lemma on_meetings_module: "on_meetings f s = (x, s') \<Longrightarrow> module_audit s' = module_audit s"
  by (metis module_audit_frames(1) snd_conv)

lemma minutes_send_module:
  assumes "\<And>a b k c s. module_audit (snd (f a b k c s)) = module_audit s"
  shows "module_audit (snd (minutes_send M I u f now i c s)) = module_audit s"
  unfolding minutes_send_def
  by (intro bnd_frame [where g = module_audit])
     (auto simp: lift_res_def Let_def assms split: option.split prod.split
        dest!: on_meetings_module
        intro!: bnd_frame [where g = module_audit])

lemma minutes_review_records:
  assumes "minutes_review M sha now i ok comment c s = (Inr h, s')"
  shows "of_audit s' = audit_record_event (U ''meeting_minutes.review'') c i (of_audit s)"
proof -
  obtain h0 s1 where "the_minutes M i c s = (Inr h0, s1)" and
    rest: "(case on_meetings (mt_assign M h0 (reviewed_minutes sha ok comment (mt_obj M (of_meetings s1) h0))) s1 of
         (h, s) \<Rightarrow> on_meetings (mt_save M now h c) (record_audit (U ''meeting_minutes.review'') c i s)) = (Inr h, s')"
    using assms by (auto simp: minutes_review_def lift_res_def bnd_Inr_iff)
  then have "of_audit s1 = of_audit s"
    using the_minutes_audit [of M i c s] by simp
  obtain h1 s2 where s2: "on_meetings (mt_assign M h0 (reviewed_minutes sha ok comment (mt_obj M (of_meetings s1) h0))) s1 =
      (h1, s2)" by (rule prod.exhaust)
  have "of_audit s2 = of_audit s1"
    using office_audit(1) [of "mt_assign M h0 (reviewed_minutes sha ok comment (mt_obj M (of_meetings s1) h0))" s1] s2
    by simp
  moreover have "of_audit s' = of_audit (record_audit (U ''meeting_minutes.review'') c i s2)"
    using rest s2 office_audit(1) [of "mt_save M now h1 c" "record_audit (U ''meeting_minutes.review'') c i s2"]
    by simp
  ultimately show ?thesis using \<open>of_audit s1 = of_audit s\<close> by (simp add: record_audit_def)
qed

text \<open>
  The routes of meeting minutes leave no trace in the audit of the application: whatever they answer,
  a review and a dispatch leave \<open>app.state.audit\<close>, the service with the database behind it, as it was (the
  e-mail system itself recording nothing there), while a completed review is recorded by the service that
  the routes module made for itself.
\<close>

theorem minutes_audit_bypasses_the_application:
  assumes "\<And>a b k c s. of_audit (snd (send_email a b k c s)) = of_audit s"
  shows "of_audit (snd (review_minutes_route M sha now identity i ok comment s)) = of_audit s \<and>
    of_audit (snd (send_minutes_route M I u send_email now identity i s)) = of_audit s \<and>
    (\<forall>h s' c. review_minutes_route M sha now identity i ok comment s = (Inr h, s') \<longrightarrow>
      identity (meeting_thread i) = Inr c \<longrightarrow>
      module_audit s' = audit_record_event (U ''meeting_minutes.review'') c i (module_audit s))"
proof (intro conjI allI impI)
  have review: "of_audit (snd (with_module_audit (minutes_review M sha now i ok comment c) s)) = of_audit s" for c
    by (rule with_module_audit_frame) (simp add: minutes_review_module)
  show "of_audit (snd (review_minutes_route M sha now identity i ok comment s)) = of_audit s"
    by (cases "identity (meeting_thread i)") (simp_all add: review_minutes_route_def review)
  have conn: "module_audit (snd (with_module_audit (send_email a b k c) s)) = module_audit s" for a b k c s
    using assms [of a b k c "swap_audit s"] by (cases "send_email a b k c (swap_audit s)") (simp add: with_module_audit_def)
  have send: "of_audit (snd (with_module_audit
      (minutes_send M I u (\<lambda>subject body k c. with_module_audit (send_email subject body k c)) now i c) s)) = of_audit s" for c
    by (rule with_module_audit_frame) (simp add: minutes_send_module conn)
  show "of_audit (snd (send_minutes_route M I u send_email now identity i s)) = of_audit s"
    by (cases "identity (meeting_thread i)") (simp_all add: send_minutes_route_def send)
next
  fix h s' c
  assume "review_minutes_route M sha now identity i ok comment s = (Inr h, s')" "identity (meeting_thread i) = Inr c"
  then have "with_module_audit (minutes_review M sha now i ok comment c) s = (Inr h, s')"
    by (simp add: review_minutes_route_def)
  then obtain s1 where "minutes_review M sha now i ok comment c (swap_audit s) = (Inr h, s1)" "s' = swap_audit s1"
    by (auto simp: with_module_audit_def split: prod.splits)
  then show "module_audit s' = audit_record_event (U ''meeting_minutes.review'') c i (module_audit s)"
    using minutes_review_records by fastforce
qed

definition demo_meetings :: "(unit, minutes_row list, idem_row list, unit) app_state" where
  "demo_meetings =
     \<lparr>of_reports = (), of_meetings = of_meetings demo_minutes_office, of_idem = [], of_audit = no_records,
      of_ext = ((), no_records)\<rparr>"

theorem minutes_audit_bypasses_the_application_witness:
  "\<exists>d s'. review_minutes_route sql_minutes_repo (\<lambda>_. []) 0 (\<lambda>_. Inr demo_minutes_context) (U ''m1'') False None
      demo_meetings = (Inr d, s') \<and>
    au_records (of_audit s') = [] \<and> length (au_records (module_audit s')) = 1"
proof -
  let ?review = "review_minutes_route sql_minutes_repo (\<lambda>_. []) 0 (\<lambda>_. Inr demo_minutes_context) (U ''m1'') False None
      demo_meetings"
  have "of_meetings demo_meetings = of_meetings demo_minutes_office" by (simp add: demo_meetings_def)
  then have "\<exists>d s'. ?review = (Inr d, s')"
    using sql_minutes_save_any [OF demo_minutes_wf(1), of 0 "reviewed_minutes (\<lambda>_. []) False None demo_minutes" demo_minutes_context]
    by (auto simp: review_minutes_route_def with_module_audit_def minutes_review_def lift_res_def
        the_minutes_def on_meetings_def sql_minutes_repo_def demo_minutes_lookups record_audit_def
        permission_require_def demo_minutes_facts)
  then obtain d s' where run: "?review = (Inr d, s')" by blast
  have mail: "of_audit (snd ((\<lambda>a b k c s. (Inr [], s)) a b k c s)) = of_audit s"
    for a b k :: ustr and c :: request_context and s :: "(unit, minutes_row list, idem_row list, unit) app_state"
    by simp
  from minutes_audit_bypasses_the_application [where send_email = "\<lambda>a b k c s. (Inr [], s)" and s = demo_meetings
      and M = sql_minutes_repo and sha = "\<lambda>_. []" and now = 0 and identity = "\<lambda>_. Inr demo_minutes_context"
      and i = "U ''m1''" and ok = False and comment = None] run
  show ?thesis by (auto simp: demo_meetings_def module_audit_def no_records_def audit_record_event_def Let_def)
qed

section \<open>Views of tasks\<close>

text \<open>
  C38: Every task that a caller can reach has a valid view: in any state the in-memory queue can get into, the
  answer for a task id is the 404 of the route when the caller's tenant has no task with that id, and
  otherwise the task as it is stored, never the error of a response that does not fit its model; asking
  changes nothing.
\<close>

theorem task_views_are_valid:
  assumes "mem_reachable q" "identity (task_thread i) = Inr c"
  shows "get_background_task mem_repo identity i q =
    (case mem_view q (rc_tenant_id c, i) of
       None \<Rightarrow> (Inl (Exn (HTTPException 404) (U ''task not found'')), q)
     | Some t \<Rightarrow>
         (Inr \<lparr>tv_task_id = i, tv_kind = bt_kind t, tv_status = bt_status t, tv_progress = bt_progress t,
               tv_attempts = bt_attempts t, tv_max_attempts = bt_max_attempts t,
               tv_cancel_requested = bt_cancel_requested t, tv_result = bt_result t,
               tv_error_code = bt_error_code t\<rparr>, q))"
proof (cases "map_of (mq_tasks q) (rc_tenant_id c, i)")
  case None
  then show ?thesis
    using assms(2)
    by (simp add: get_background_task_def mem_view_def respond_task_def task_get_def mem_repo_def mem_get_task_def
        with_http_def as_http_def clauses caught_def isa_def)
next
  case (Some h)
  then have view: "mem_view q (rc_tenant_id c, i) = Some (mem_obj q h)" by (simp add: mem_view_def)
  from mem_view_inv [OF assms(1) this] have "task_inv (mem_obj q h)" "bt_key (mem_obj q h) = (rc_tenant_id c, i)"
    by simp_all
  then have valid: "task_response (mem_obj q h) =
      Inr \<lparr>tv_task_id = i, tv_kind = bt_kind (mem_obj q h), tv_status = bt_status (mem_obj q h),
           tv_progress = bt_progress (mem_obj q h), tv_attempts = bt_attempts (mem_obj q h),
           tv_max_attempts = bt_max_attempts (mem_obj q h),
           tv_cancel_requested = bt_cancel_requested (mem_obj q h), tv_result = bt_result (mem_obj q h),
           tv_error_code = bt_error_code (mem_obj q h)\<rparr>"
    by (simp add: task_response_def task_inv_def)
  from Some assms(2) valid show ?thesis
    by (simp add: get_background_task_def view respond_task_def task_get_def mem_repo_def mem_get_task_def)
qed

theorem task_views_are_valid_witness:
  "(\<exists>v. get_background_task mem_repo (\<lambda>_. Inr demo_context) (U ''t1'') demo_created = (Inr v, demo_created) \<and>
      tv_status v = Queued \<and> tv_attempts v = 0) \<and>
   get_background_task mem_repo (\<lambda>_. Inr demo_context) (U ''t2'') demo_created =
     (Inl (Exn (HTTPException 404) (U ''task not found'')), demo_created)"
proof
  have tenant: "rc_tenant_id demo_context = U ''tenant-a''" by (simp add: demo_context_def RequestContext_def)
  note view = task_views_are_valid [OF demo_created_reachable, where identity = "\<lambda>_. Inr demo_context" and c = demo_context]
  show "\<exists>v. get_background_task mem_repo (\<lambda>_. Inr demo_context) (U ''t1'') demo_created = (Inr v, demo_created) \<and>
      tv_status v = Queued \<and> tv_attempts v = 0"
    using view [of "U ''t1''"] by (simp add: tenant demo_created_view new_task_def)
  have "mem_view demo_created (U ''tenant-a'', U ''t2'') = None"
    by (simp add: demo_defs mem_defs task_create_def new_task_def)
  then show "get_background_task mem_repo (\<lambda>_. Inr demo_context) (U ''t2'') demo_created =
     (Inl (Exn (HTTPException 404) (U ''task not found'')), demo_created)"
    using view [of "U ''t2''"] by (simp add: tenant)
qed

section \<open>Deleted files\<close>

lemma file_delete_gone:
  assumes "file_delete rt i c s = (Inr (), t)" "rc_tenant_id c' = rc_tenant_id c"
  shows "file_get_metadata i c' t = (Inl (Exn KeyErr i), t)"
proof -
  obtain ref s1 where "t = s1\<lparr>fs_disk := AList.delete ref (fs_disk s1), fs_files := AList.delete i (fs_files s1),
      fs_metadata := AList.delete i (fs_metadata s1), fs_table := map_option (sql_file_delete i c) (fs_table s1)\<rparr>"
    using assms(1) by (auto simp: file_delete_def bnd_Inr_iff split: if_splits)
  then have "fs_metadata t = AList.delete i (fs_metadata s1)"
    "fs_table t = map_option (sql_file_delete i c) (fs_table s1)"
    by simp_all
  moreover have "sql_file_get i c' (sql_file_delete i c rows) = Inr None" for rows
    using assms(2) by (simp add: sql_file_get_def sql_file_delete_def)
  ultimately show ?thesis
    by (simp add: file_get_metadata_def delete_conv split: option.split)
qed

text \<open>
  A deleted file is gone for its tenant and its deletion is on record: once the route has answered that a
  file is deleted, every request of the tenant for its metadata, its analysis or an export, or to delete it
  again, is answered 404, and the audit has one more record, which names the file and who deleted it.
\<close>

theorem deleted_file_is_gone:
  assumes "delete_file rt identity i s = (Inr r, s')" "identity (file_thread i) = Inr c"
    and "identity' (file_thread i) = Inr c'" "rc_tenant_id c' = rc_tenant_id c"
  shows "file_metadata_route identity' i s' = (Inl (Exn (HTTPException 404) (U ''file not found'')), s') \<and>
    analyze_uploaded_file rt analysis identity' i s' = (Inl (Exn (HTTPException 404) (U ''file not found'')), s') \<and>
    export_uploaded_analysis rt analysis sha w base a identity' i s' =
      (Inl (Exn (HTTPException 404) (U ''file not found'')), s') \<and>
    (U ''file:delete'' \<in> rc_permission_scopes c' \<longrightarrow>
      delete_file rt identity' i s' = (Inl (Exn (HTTPException 404) (U ''file not found'')), s')) \<and>
    ft_audit s' = audit_record_event (U ''file.delete'') c i (ft_audit s)"
proof -
  obtain t where del: "file_delete rt i c (ft_files s) = (Inr (), t)" and
    s': "s' = s\<lparr>ft_files := t, ft_audit := audit_record_event (U ''file.delete'') c i (ft_audit s)\<rparr>"
    using assms(1,2) by (auto simp: delete_file_def bnd_Inr_iff on_files_def split: prod.splits)
  have gone: "file_get_metadata i c' t = (Inl (Exn KeyErr i), t)"
    using file_delete_gone [OF del assms(4)] .
  have clause: "as_http [not_found ''file''] (Exn KeyErr i) = Exn (HTTPException 404) (U ''file not found'')"
    "as_http [not_found ''file'', forbidden] (Exn KeyErr i) = Exn (HTTPException 404) (U ''file not found'')"
    by (simp_all add: as_http_def clauses caught_def isa_def)
  have read: "on_files (file_get_metadata i c') s' = (Inl (Exn KeyErr i), s')"
    "on_files (get_rows rt i c') s' = (Inl (Exn KeyErr i), s')"
    "on_files (file_delete rt i c') s' = (Inl (Exn KeyErr i), s')"
    using gone by (simp_all add: on_files_def get_rows_def file_delete_def s')
  show ?thesis
    using assms(3) read clause
    by (simp add: file_metadata_route_def analyze_uploaded_file_def export_uploaded_analysis_def delete_file_def
        with_http_def permission_require_def s')
qed

theorem deleted_file_is_gone_witness:
  "\<exists>s'. analyze_uploaded_file demo_runtime (\<lambda>_. Inl (Exn ValueErr [])) (\<lambda>_. Inr ann) (U ''f1'') s' =
      (Inl (Exn (HTTPException 404) (U ''file not found'')), s') \<and>
    length (au_records (ft_audit s')) = 1"
proof -
  let ?c = "ann\<lparr>rc_permission_scopes := {U ''file:delete''}\<rparr>"
  let ?s = "\<lparr>ft_files = snd demo_stored, ft_artifacts = \<lparr>as_disk = [], as_table = None\<rparr>, ft_audit = no_records\<rparr>"
  have tenants: "rc_tenant_id ann = rc_tenant_id ?c" by simp
  have "\<exists>m. file_get_metadata (U ''f1'') ?c (snd demo_stored) = (Inr m, snd demo_stored)"
    by (simp add: demo_stored_def store_and_parse_def demo_validate_csv demo_parse_csv validate_row_count_def
      demo_rows_def max_rows_def Let_def keep_file_def empty_store_def sql_file_save_def file_get_metadata_def
      FileMetadata_def)
  then have "\<exists>t. file_delete demo_runtime (U ''f1'') ?c (snd demo_stored) = (Inr (), t)"
    by (auto simp: file_delete_def demo_runtime_def)
  then have "\<exists>s'. delete_file demo_runtime (\<lambda>_. Inr ?c) (U ''f1'') ?s =
      (Inr [(U ''file_id'', U ''f1''), (U ''status'', U ''deleted'')], s')"
    by (auto simp: delete_file_def on_files_def permission_require_def)
  then obtain s' where del: "delete_file demo_runtime (\<lambda>_. Inr ?c) (U ''f1'') ?s =
      (Inr [(U ''file_id'', U ''f1''), (U ''status'', U ''deleted'')], s')" by blast
  note gone = deleted_file_is_gone [where identity' = "\<lambda>_. Inr ann" and analysis = "\<lambda>_. Inl (Exn ValueErr [])",
      OF del refl refl tenants]
  then have "length (au_records (ft_audit s')) = 1"
    by (simp add: no_records_def audit_record_event_def)
  with gone show ?thesis by blast
qed

section \<open>Failures of the knowledge base\<close>

lemma validate_citation_Inl: "validate_citation v = Inl e \<Longrightarrow> exn_class e = ValidationErr"
  by (auto simp: validate_citation_def required_str_def split: json.splits sum.splits option.splits if_splits)

lemma validate_citations_Inl: "validate_all validate_citation cs = Inl e \<Longrightarrow> exn_class e = ValidationErr"
  by (induction cs) (auto split: sum.splits dest: validate_citation_Inl)

lemma validate_knowledge_answer_Inl: "validate_knowledge_answer a cs = Inl e \<Longrightarrow> exn_class e = ValidationErr"
  by (auto simp: validate_knowledge_answer_def split: json.splits sum.splits dest: validate_citations_Inl)

lemma mcp_translate_class: "exn_class (mcp_translate e) \<in> {KnowledgeMcpErr, CancelledErr}"
  by (auto simp: mcp_translate_def caught_Exception caught_Mcp mcp_error_def)

lemma mcp_messages_class: "e \<in> mcp_messages \<Longrightarrow> exn_class e = KnowledgeMcpErr"
  by (auto simp: mcp_messages_def mcp_error_def)

lemma get_access_token_Inl: "get_access_token token = Inl e \<Longrightarrow> exn_class e = SsoTokenUnavailableErr"
  by (auto simp: get_access_token_def split: option.splits)

lemma mcp_answer_Inl:
  assumes "mcp_answer loads client (\<lambda>c. get_access_token token) tool query c s = (Inl e, s')"
  shows "exn_class e \<in> {SsoTokenUnavailableErr, KnowledgeMcpErr, CancelledErr}"
proof (cases "get_access_token token")
  case (Inl e1)
  with assms show ?thesis by (auto simp: mcp_answer_def dest: get_access_token_Inl)
next
  case (Inr t)
  let ?calls = "bnd (mc_get_tools client (mcp_headers t c) s) (\<lambda>tools s1.
     if tool \<notin> set tools then (Inl (mcp_error ''knowledge_mcp_tool_not_found''), s1)
     else mc_invoke client (mcp_headers t c) tool query s1)"
  obtain r s2 where "?calls = (r, s2)" by (rule prod.exhaust)
  with assms Inr mcp_translate_class show ?thesis
    by (cases r) (auto simp: mcp_answer_def dest!: extract_structured_result_Inl mcp_messages_class)
qed

lemma knowledge_errors:
  assumes "knowledge_service_answer (Some (\<lambda>c. get_access_token token))
      (mcp_answer loads client (\<lambda>c. get_access_token token) tool) query c s = (Inl e, s')"
  shows "exn_class e \<in> {SsoTokenUnavailableErr, KnowledgeMcpErr, KeyErr, ValidationErr, CancelledErr}"
proof (cases "get_access_token token")
  case (Inl e1)
  with assms show ?thesis by (auto simp: knowledge_service_answer_def dest: get_access_token_Inl)
next
  case (Inr t)
  let ?connector = "mcp_answer loads client (\<lambda>c. get_access_token token) tool"
  obtain r s1 where call: "?connector query c s = (r, s1)" by (rule prod.exhaust)
  show ?thesis
  proof (cases r)
    case (Inl e1)
    with call have "exn_class e1 \<in> {SsoTokenUnavailableErr, KnowledgeMcpErr, CancelledErr}"
      using mcp_answer_Inl [of loads client token tool query c s e1 s1] by simp
    with assms Inr call Inl show ?thesis by (auto simp: knowledge_service_answer_def)
  next
    case (Inr response)
    with assms \<open>get_access_token token = Inr t\<close> call show ?thesis
      by (auto simp: knowledge_service_answer_def Let_def getitem_def dest: validate_knowledge_answer_Inl
          split: sum.splits if_splits option.splits)
  qed
qed

text \<open>
  C22: A question to the knowledge base fails in three ways only: the caller has no identity, or no token (401
  with a fixed text), or the knowledge base could not be used (503 with a fixed text), whatever its server
  and client raise (other than the cancellation of the request): no text of theirs reaches the caller.
\<close>

theorem knowledge_route_leaks_nothing:
  assumes "answer_knowledge (Some (\<lambda>c. get_access_token token)) (mcp_answer loads client (\<lambda>c. get_access_token token) tool)
      identity query s = (Inl e, s')"
  shows "identity (U ''knowledge:query'') = Inl e \<or>
    e \<in> {Exn (HTTPException 401) (U ''SSO token required''), Exn (HTTPException 503) (U ''knowledge service unavailable'')} \<or>
    exn_class e = CancelledErr"
proof (cases "identity (U ''knowledge:query'')")
  case (Inr c)
  let ?clauses = "[([SsoTokenUnavailableErr], 401, fixed_detail ''SSO token required''),
      ([KnowledgeMcpErr, ValueErr, KeyErr], 503, fixed_detail ''knowledge service unavailable'')]"
  obtain e0 where run: "knowledge_service_answer (Some (\<lambda>c. get_access_token token))
      (mcp_answer loads client (\<lambda>c. get_access_token token) tool) query c s = (Inl e0, s')" "e = as_http ?clauses e0"
    using assms Inr by (auto simp: answer_knowledge_def with_http_Inl)
  have "exn_class e0 \<in> {SsoTokenUnavailableErr, KnowledgeMcpErr, KeyErr, ValidationErr, CancelledErr}"
    using knowledge_errors [OF run(1)] .
  then show ?thesis
    unfolding run(2) by (cases e0) (auto simp: as_http_def caught_def isa_def fixed_detail_def)
qed (use assms in \<open>simp add: answer_knowledge_def\<close>)

theorem knowledge_route_leaks_nothing_witness:
  "answer_knowledge (Some (\<lambda>c. get_access_token (Some (U ''t''))))
      (mcp_answer (\<lambda>_. None) silent_server (\<lambda>c. get_access_token (Some (U ''t''))) (U ''knowledge_answer_tool''))
      (\<lambda>_. Inr demo_asker) (U ''leave'') 0 =
    (Inl (Exn (HTTPException 503) (U ''knowledge service unavailable'')), 2)"
proof -
  have "answer_knowledge (Some (\<lambda>c. get_access_token (Some (U ''t''))))
      (mcp_answer (\<lambda>_. None) silent_server (\<lambda>c. get_access_token (Some (U ''t''))) (U ''knowledge_answer_tool''))
      (\<lambda>_. Inr demo_asker) (U ''leave'') 0 =
    (Inl (as_http [([SsoTokenUnavailableErr], 401, fixed_detail ''SSO token required''),
          ([KnowledgeMcpErr, ValueErr, KeyErr], 503, fixed_detail ''knowledge service unavailable'')]
        (mcp_error ''knowledge_mcp_timeout'')), 2)"
    by (simp add: answer_knowledge_def knowledge_service_answer_def get_access_token_def mcp_answer_def silent_server_def
        mcp_translate_def caught_def isa_def with_http_def)
  with knowledge_route_leaks_nothing [OF this] show ?thesis
    by (auto simp: as_http_def mcp_error_def caught_def isa_def fixed_detail_def)
qed

end
