(* ===== verification/Memory.thy ===== *)
theory Memory
  imports Json_Cache Identity
begin

text \<open>
  Confirmed memories and schedules: \<open>MemoryService\<close> and \<open>ScheduleService\<close>
  (\<open>app/services/runtime_state.py\<close>) over the in-memory and the database repository
  (\<open>app/repositories/runtime.py\<close>), the former with its cache of the list of memories.

  \<open>isoformat\<close> is \<open>datetime.isoformat\<close>, \<open>fromisoformat\<close> \<open>datetime.fromisoformat\<close> (\<open>None\<close> when it raises).
\<close>

section \<open>Memories\<close>

record memory =
  cm_memory_id :: ustr
  cm_tenant_id :: ustr
  cm_operator_id :: ustr
  cm_key :: ustr
  cm_value :: ustr
  cm_confirmed_at :: instant

record 's memory_repo =
  mp_save :: "memory \<Rightarrow> request_context \<Rightarrow> instant \<Rightarrow> 's \<Rightarrow> memory res \<times> 's"
  mp_list :: "request_context \<Rightarrow> 's \<Rightarrow> memory list \<times> 's"

subsection \<open>In memory\<close>

type_synonym mem_memories = "((ustr \<times> ustr \<times> ustr) \<times> memory) list"

definition mem_save_memory ::
  "memory \<Rightarrow> request_context \<Rightarrow> instant \<Rightarrow> mem_memories \<Rightarrow> memory res \<times> mem_memories" where
  "mem_save_memory item c now ms =
     (Inr item, AList.update (rc_tenant_id c, rc_operator_id c, cm_key item) item ms)"

definition mem_list_memories :: "request_context \<Rightarrow> mem_memories \<Rightarrow> memory list \<times> mem_memories" where
  "mem_list_memories c ms =
     (map snd (filter (\<lambda>((tenant, operator, _), item).
        tenant = rc_tenant_id c \<and> operator = rc_operator_id c) ms), ms)"

definition mem_memory_repo :: "mem_memories memory_repo" where
  "mem_memory_repo = \<lparr>mp_save = mem_save_memory, mp_list = mem_list_memories\<rparr>"

subsection \<open>Database\<close>

text \<open>
  A row of \<open>user_memories\<close>. \<open>updated_at\<close> is set by the database when a row is inserted or changed. The
  identifier is the primary key, and a row is unique for its tenant, user and key. The query of \<open>list_memories\<close> has no \<open>ORDER BY\<close>; the model lists the rows in the order of the table.
\<close>

record memory_row =
  um_id :: ustr
  um_tenant_id :: ustr
  um_created_by :: ustr
  um_memory_key :: ustr
  um_memory_value :: ustr
  um_confirmed :: bool
  um_version :: int
  um_updated_at :: instant

definition um_key :: "memory_row \<Rightarrow> ustr \<times> ustr \<times> ustr" where
  "um_key r = (um_tenant_id r, um_created_by r, um_memory_key r)"

definition sql_save_memory ::
  "memory \<Rightarrow> request_context \<Rightarrow> instant \<Rightarrow> memory_row list \<Rightarrow> memory res \<times> memory_row list" where
  "sql_save_memory item c now rows =
     (case scalar_one_or_none
             (filter (\<lambda>r. um_key r = (rc_tenant_id c, rc_operator_id c, cm_key item)) rows) of
        Inl e \<Rightarrow> (Inl e, rows)
      | Inr None \<Rightarrow>
          if cm_memory_id item \<in> um_id ` set rows then (Inl (Exn IntegrityErr []), rows)
          else (Inr item, rows @
             [\<lparr>um_id = cm_memory_id item, um_tenant_id = rc_tenant_id c, um_created_by = rc_operator_id c,
               um_memory_key = cm_key item, um_memory_value = cm_value item, um_confirmed = True,
               um_version = 1, um_updated_at = now\<rparr>])
      | Inr (Some r) \<Rightarrow>
          (Inr item, update_row um_id
             (r\<lparr>um_memory_value := cm_value item, um_confirmed := True, um_version := um_version r + 1,
                um_updated_at := now\<rparr>) rows))"

definition row_memory :: "memory_row \<Rightarrow> memory" where
  "row_memory r =
     \<lparr>cm_memory_id = um_id r, cm_tenant_id = um_tenant_id r, cm_operator_id = um_created_by r,
      cm_key = um_memory_key r, cm_value = um_memory_value r, cm_confirmed_at = um_updated_at r\<rparr>"

definition sql_list_memories :: "request_context \<Rightarrow> memory_row list \<Rightarrow> memory list \<times> memory_row list" where
  "sql_list_memories c rows =
     (map row_memory (filter (\<lambda>r. um_tenant_id r = rc_tenant_id c \<and> um_created_by r = rc_operator_id c \<and>
        um_confirmed r) rows), rows)"

definition sql_memory_repo :: "memory_row list memory_repo" where
  "sql_memory_repo = \<lparr>mp_save = sql_save_memory, mp_list = sql_list_memories\<rparr>"

section \<open>The service\<close>

text \<open>
  The service with its configuration: the repository, the cache (if there is one), the prefix of its keys
  and the time an entry lives. Its state is that of the repository with that of the cache.
\<close>

record ('s, 'k) memory_service =
  ms_repo :: "'s memory_repo"
  ms_cache :: "'k json_cache option"
  ms_key_prefix :: ustr
  ms_ttl :: int

definition memory_cache_key :: "(ustr \<Rightarrow> ustr) \<Rightarrow> ('s, 'k) memory_service \<Rightarrow> request_context \<Rightarrow> ustr" where
  "memory_cache_key sha M c =
     scoped_cache_key sha (ms_key_prefix M) (U ''confirmed-memory'') (rc_tenant_id c) [rc_operator_id c]"

definition memory_remember ::
  "(ustr \<Rightarrow> ustr) \<Rightarrow> ('s, 'k) memory_service \<Rightarrow> ustr \<Rightarrow> instant \<Rightarrow> ustr \<Rightarrow> ustr \<Rightarrow> bool \<Rightarrow> request_context \<Rightarrow>
   's \<times> 'k \<Rightarrow> memory res \<times> ('s \<times> 'k)" where
  "memory_remember sha M uuid now key v confirmed c s =
     (if \<not> confirmed
      then (Inl (Exn PermissionErr (U ''memory requires explicit user confirmation'')), s)
      else
        (let item = \<lparr>cm_memory_id = uuid, cm_tenant_id = rc_tenant_id c, cm_operator_id = rc_operator_id c,
                     cm_key = key, cm_value = v, cm_confirmed_at = now\<rparr>
         in case mp_save (ms_repo M) item c now (fst s) of
              (Inl e, r) \<Rightarrow> (Inl e, (r, snd s))
            | (Inr saved, r) \<Rightarrow>
                (Inr saved,
                 (r, case ms_cache M of
                       None \<Rightarrow> snd s
                     | Some C \<Rightarrow> jc_delete C (memory_cache_key sha M c) (snd s)))))"

text \<open>An entry of the cached list, and reading it back; \<open>rep\<close> is \<open>repr\<close> of the values \<open>str\<close> does not show itself.\<close>

definition encode_memory :: "(instant \<Rightarrow> ustr) \<Rightarrow> memory \<Rightarrow> json" where
  "encode_memory isoformat item =
     JObj [(U ''memory_id'', JStr (cm_memory_id item)), (U ''key'', JStr (cm_key item)),
           (U ''value'', JStr (cm_value item)), (U ''confirmed_at'', JStr (isoformat (cm_confirmed_at item)))]"

definition decode_memory ::
  "(json \<Rightarrow> ustr) \<Rightarrow> (ustr \<Rightarrow> instant option) \<Rightarrow> request_context \<Rightarrow> jdict \<Rightarrow> memory res" where
  "decode_memory rep fromisoformat c d =
     (case (getitem d (U ''memory_id''), getitem d (U ''key''), getitem d (U ''value''),
            getitem d (U ''confirmed_at'')) of
        (Inr i, Inr k, Inr v, Inr t) \<Rightarrow>
          (case fromisoformat (py_str rep t) of
             None \<Rightarrow> Inl (Exn ValueErr [])
           | Some confirmed_at \<Rightarrow>
               Inr \<lparr>cm_memory_id = py_str rep i, cm_tenant_id = rc_tenant_id c,
                    cm_operator_id = rc_operator_id c, cm_key = py_str rep k, cm_value = py_str rep v,
                    cm_confirmed_at = confirmed_at\<rparr>)
      | _ \<Rightarrow> Inl (Exn KeyErr []))"

fun decode_memories ::
  "(json \<Rightarrow> ustr) \<Rightarrow> (ustr \<Rightarrow> instant option) \<Rightarrow> request_context \<Rightarrow> json list \<Rightarrow> memory list res" where
  "decode_memories rep fromisoformat c [] = Inr []"
| "decode_memories rep fromisoformat c (JObj d # vs) =
     (case decode_memory rep fromisoformat c d of
        Inl e \<Rightarrow> Inl e
      | Inr m \<Rightarrow> (case decode_memories rep fromisoformat c vs of Inl e \<Rightarrow> Inl e | Inr ms \<Rightarrow> Inr (m # ms)))"
| "decode_memories rep fromisoformat c (_ # vs) = Inl (Exn ValueErr (U ''invalid cached memory list''))"

text \<open>
  \<open>list_for\<close> in its two halves: the memories and whether they come from the repository, and the filling
  of the cache. Every failure to decode is one of the exceptions the code handles.
\<close>

definition memory_lookup ::
  "(ustr \<Rightarrow> ustr) \<Rightarrow> (json \<Rightarrow> ustr) \<Rightarrow> (ustr \<Rightarrow> instant option) \<Rightarrow> ('s, 'k) memory_service \<Rightarrow>
   request_context \<Rightarrow> 's \<times> 'k \<Rightarrow> (bool \<times> memory list) \<times> ('s \<times> 'k)" where
  "memory_lookup sha rep fromisoformat M c s =
     (case (case ms_cache M of
              None \<Rightarrow> (None, snd s)
            | Some C \<Rightarrow>
                (case jc_get C (memory_cache_key sha M c) (snd s) of
                   (JList vs, k) \<Rightarrow>
                     (case decode_memories rep fromisoformat c vs of
                        Inr ms \<Rightarrow> (Some ms, k)
                      | Inl e \<Rightarrow> (None, jc_delete C (memory_cache_key sha M c) k))
                 | (_, k) \<Rightarrow> (None, k))) of
        (Some ms, k) \<Rightarrow> ((False, ms), (fst s, k))
      | (None, k) \<Rightarrow> (case mp_list (ms_repo M) c (fst s) of (ms, r) \<Rightarrow> ((True, ms), (r, k))))"

definition memory_fill ::
  "(ustr \<Rightarrow> ustr) \<Rightarrow> (instant \<Rightarrow> ustr) \<Rightarrow> ('s, 'k) memory_service \<Rightarrow> request_context \<Rightarrow> bool \<times> memory list \<Rightarrow>
   's \<times> 'k \<Rightarrow> 's \<times> 'k" where
  "memory_fill sha isoformat M c found s =
     (case ms_cache M of
        None \<Rightarrow> s
      | Some C \<Rightarrow>
          if fst found
          then (fst s, jc_set C (memory_cache_key sha M c) (JList (map (encode_memory isoformat) (snd found)))
                         (ms_ttl M) (snd s))
          else s)"

definition memory_list_for ::
  "(ustr \<Rightarrow> ustr) \<Rightarrow> (json \<Rightarrow> ustr) \<Rightarrow> (instant \<Rightarrow> ustr) \<Rightarrow> (ustr \<Rightarrow> instant option) \<Rightarrow>
   ('s, 'k) memory_service \<Rightarrow> request_context \<Rightarrow> 's \<times> 'k \<Rightarrow> memory list \<times> ('s \<times> 'k)" where
  "memory_list_for sha rep isoformat fromisoformat M c s =
     (case memory_lookup sha rep fromisoformat M c s of
        (found, s) \<Rightarrow> (snd found, memory_fill sha isoformat M c found s))"

section \<open>Schedules\<close>

record schedule =
  sc_schedule_id :: ustr
  sc_tenant_id :: ustr
  sc_name :: ustr
  sc_cron :: ustr
  sc_task_type :: ustr
  sc_enabled :: bool

record 's schedule_repo =
  sh_save :: "schedule \<Rightarrow> request_context \<Rightarrow> 's \<Rightarrow> schedule res \<times> 's"
  sh_list :: "request_context \<Rightarrow> 's \<Rightarrow> schedule list \<times> 's"

type_synonym mem_schedules = "((ustr \<times> ustr) \<times> schedule) list"

definition mem_save_schedule ::
  "schedule \<Rightarrow> request_context \<Rightarrow> mem_schedules \<Rightarrow> schedule res \<times> mem_schedules" where
  "mem_save_schedule x c ss = (Inr x, AList.update (rc_tenant_id c, sc_schedule_id x) x ss)"

definition mem_list_schedules :: "request_context \<Rightarrow> mem_schedules \<Rightarrow> schedule list \<times> mem_schedules" where
  "mem_list_schedules c ss = (map snd (filter (\<lambda>((tenant, _), _). tenant = rc_tenant_id c) ss), ss)"

definition mem_schedule_repo :: "mem_schedules schedule_repo" where
  "mem_schedule_repo = \<lparr>sh_save = mem_save_schedule, sh_list = mem_list_schedules\<rparr>"

text \<open>A row of \<open>schedules\<close>; its identifier is the primary key.\<close>

record schedule_row =
  sr_id :: ustr
  sr_tenant_id :: ustr
  sr_created_by :: ustr
  sr_name :: ustr
  sr_cron :: ustr
  sr_task_type :: ustr
  sr_status :: ustr

definition sql_save_schedule ::
  "schedule \<Rightarrow> request_context \<Rightarrow> schedule_row list \<Rightarrow> schedule res \<times> schedule_row list" where
  "sql_save_schedule x c rows =
     (if sc_schedule_id x \<in> sr_id ` set rows then (Inl (Exn IntegrityErr []), rows)
      else (Inr x, rows @
        [\<lparr>sr_id = sc_schedule_id x, sr_tenant_id = rc_tenant_id c, sr_created_by = rc_operator_id c,
          sr_name = sc_name x, sr_cron = sc_cron x, sr_task_type = sc_task_type x,
          sr_status = (if sc_enabled x then U ''active'' else U ''disabled'')\<rparr>]))"

definition row_schedule :: "schedule_row \<Rightarrow> schedule" where
  "row_schedule r =
     \<lparr>sc_schedule_id = sr_id r, sc_tenant_id = sr_tenant_id r, sc_name = sr_name r, sc_cron = sr_cron r,
      sc_task_type = sr_task_type r, sc_enabled = (sr_status r = U ''active'')\<rparr>"

definition sql_list_schedules :: "request_context \<Rightarrow> schedule_row list \<Rightarrow> schedule list \<times> schedule_row list" where
  "sql_list_schedules c rows =
     (map row_schedule (filter (\<lambda>r. sr_tenant_id r = rc_tenant_id c) rows), rows)"

definition sql_schedule_repo :: "schedule_row list schedule_repo" where
  "sql_schedule_repo = \<lparr>sh_save = sql_save_schedule, sh_list = sql_list_schedules\<rparr>"

definition schedule_create ::
  "'s schedule_repo \<Rightarrow> ustr \<Rightarrow> ustr \<Rightarrow> ustr \<Rightarrow> ustr \<Rightarrow> request_context \<Rightarrow> 's \<Rightarrow> schedule res \<times> 's" where
  "schedule_create R uuid name cron task_type c s =
     (if length (str_split cron) \<noteq> 5
      then (Inl (Exn ValueErr (U ''cron expression must contain five fields'')), s)
      else sh_save R \<lparr>sc_schedule_id = uuid, sc_tenant_id = rc_tenant_id c, sc_name = name,
                      sc_cron = cron, sc_task_type = task_type, sc_enabled = True\<rparr> c s)"

definition schedule_list_for :: "'s schedule_repo \<Rightarrow> request_context \<Rightarrow> 's \<Rightarrow> schedule list \<times> 's" where
  "schedule_list_for R c s = sh_list R c s"

section \<open>What the repositories promise\<close>

text \<open>The keys and values of a list of memories.\<close>

definition key_values :: "memory list \<Rightarrow> (ustr \<times> ustr) list" where
  "key_values ms = map (\<lambda>m. (cm_key m, cm_value m)) ms"

text \<open>A memory of the caller.\<close>

definition own_memory :: "request_context \<Rightarrow> memory \<Rightarrow> bool" where
  "own_memory c m \<longleftrightarrow> cm_tenant_id m = rc_tenant_id c \<and> cm_operator_id m = rc_operator_id c"

text \<open>\<open>value s (t, o, k)\<close> is the value the user \<open>o\<close> of the tenant \<open>t\<close> has confirmed for \<open>k\<close>.\<close>

locale memory_store =
  fixes R :: "'s memory_repo"
    and "value" :: "'s \<Rightarrow> ustr \<times> ustr \<times> ustr \<Rightarrow> ustr option"
    and sinv :: "'s \<Rightarrow> bool"
  assumes save_inv: "sinv s \<Longrightarrow> own_memory c m \<Longrightarrow> sinv (snd (mp_save R m c now s))"
    and save_value: "sinv s \<Longrightarrow> own_memory c m \<Longrightarrow> mp_save R m c now s = (Inr m', s') \<Longrightarrow>
      value s' = (value s)((rc_tenant_id c, rc_operator_id c, cm_key m) \<mapsto> cm_value m)"
    and save_error: "sinv s \<Longrightarrow> own_memory c m \<Longrightarrow> mp_save R m c now s = (Inl e, s') \<Longrightarrow> value s' = value s"
    and list_state: "snd (mp_list R c s) = s"
    and list_own: "sinv s \<Longrightarrow> m \<in> set (fst (mp_list R c s)) \<Longrightarrow> own_memory c m"
    and list_distinct: "sinv s \<Longrightarrow> distinct (map cm_key (fst (mp_list R c s)))"
    and list_value: "sinv s \<Longrightarrow>
      map_of (key_values (fst (mp_list R c s))) k = value s (rc_tenant_id c, rc_operator_id c, k)"

definition sql_memories_wf :: "memory_row list \<Rightarrow> bool" where
  "sql_memories_wf rows \<longleftrightarrow>
     distinct (map um_id rows) \<and> distinct (map um_key rows) \<and> (\<forall>r \<in> set rows. um_confirmed r)"

definition sql_memory_value :: "memory_row list \<Rightarrow> ustr \<times> ustr \<times> ustr \<Rightarrow> ustr option" where
  "sql_memory_value rows k = map_option um_memory_value (find (\<lambda>r. um_key r = k) rows)"

text \<open>The value of a key in the listed rows, and after a row has been rewritten.\<close>

lemma key_values_rows:
  "map_of (key_values (map row_memory (filter (\<lambda>r. um_tenant_id r = t \<and> um_created_by r = u \<and> um_confirmed r) rows))) k =
     map_option um_memory_value (find (\<lambda>r. um_key r = (t, u, k) \<and> um_confirmed r) rows)"
  by (induction rows) (auto simp: key_values_def row_memory_def um_key_def)

lemma distinct_filter_keys:
  assumes "distinct (map um_key rows)"
  shows "distinct (map cm_key (map row_memory
    (filter (\<lambda>r. um_tenant_id r = t \<and> um_created_by r = u \<and> um_confirmed r) rows)))"
  using assms by (induction rows) (auto simp: row_memory_def um_key_def image_iff)

lemma sql_memory_rewrite:
  assumes wf: "sql_memories_wf rows" and r: "r \<in> set rows"
    and new: "um_id new = um_id r" "um_key new = um_key r" "um_confirmed new"
  shows "sql_memories_wf (update_row um_id new rows)"
    and "sql_memory_value (update_row um_id new rows) = (sql_memory_value rows)(um_key r \<mapsto> um_memory_value new)"
proof -
  have same: "um_key x = um_key r" if "x \<in> set rows" "um_id x = um_id new" for x
    using distinct_key_unique [of um_id rows x r] wf that r new(1) by (auto simp: sql_memories_wf_def)
  then have keys: "map um_key (update_row um_id new rows) = map um_key rows"
    using new(2) by (auto simp: update_row_def)
  then show "sql_memories_wf (update_row um_id new rows)"
    using wf new(3) by (auto simp: sql_memories_wf_def set_update_row)
  show "sql_memory_value (update_row um_id new rows) = (sql_memory_value rows)(um_key r \<mapsto> um_memory_value new)"
  proof
    fix k
    obtain i where "\<forall>x \<in> set rows. um_key x = k \<longrightarrow> um_id x = i"
      using distinct_key_unique [of um_key rows] wf by (auto simp: sql_memories_wf_def)
    then have "find (\<lambda>x. um_key x = k) (update_row um_id new rows) =
        (if um_key r = k then Some new else find (\<lambda>x. um_key x = k) rows)"
      using wf r new by (intro find_update_row [where key = um_id and k = i]) (simp_all add: sql_memories_wf_def)
    then show "sql_memory_value (update_row um_id new rows) k =
        ((sql_memory_value rows)(um_key r \<mapsto> um_memory_value new)) k"
      by (simp add: sql_memory_value_def)
  qed
qed

lemma sql_memory_append:
  assumes "sql_memories_wf rows" "um_key r \<notin> um_key ` set rows" "um_id r \<notin> um_id ` set rows" "um_confirmed r"
  shows "sql_memories_wf (rows @ [r])"
    and "sql_memory_value (rows @ [r]) = (sql_memory_value rows)(um_key r \<mapsto> um_memory_value r)"
proof -
  show "sql_memories_wf (rows @ [r])"
    using assms by (simp add: sql_memories_wf_def)
  have "find P (rows @ [r]) = (case find P rows of None \<Rightarrow> if P r then Some r else None | Some x \<Rightarrow> Some x)" for P
    by (induction rows) auto
  moreover have "find (\<lambda>x. um_key x = um_key r) rows = None"
    using assms(2) unfolding find_None_iff by (metis imageI)
  ultimately show "sql_memory_value (rows @ [r]) = (sql_memory_value rows)(um_key r \<mapsto> um_memory_value r)"
    by (auto simp: sql_memory_value_def fun_eq_iff split: option.split)
qed

interpretation sql_memory: memory_store sql_memory_repo sql_memory_value sql_memories_wf
proof unfold_locales
  fix s c m now
  assume wf: "sql_memories_wf s" and own: "own_memory c m"
  let ?k = "(rc_tenant_id c, rc_operator_id c, cm_key m)"
  have scalar: "scalar_one_or_none (filter (\<lambda>r. um_key r = ?k) s) = Inr (find (\<lambda>r. um_key r = ?k) s)"
    using wf by (intro filter_scalar [where key = um_key and k = ?k]) (simp_all add: sql_memories_wf_def)
  have found: "r \<in> set s \<and> um_key r = ?k" if "find (\<lambda>r. um_key r = ?k) s = Some r" for r
    using that by (auto simp: find_Some_iff)
  have effect: "sql_memories_wf (snd (sql_save_memory m c now s)) \<and>
    (fst (sql_save_memory m c now s) = Inr m \<longrightarrow>
       sql_memory_value (snd (sql_save_memory m c now s)) = (sql_memory_value s)(?k \<mapsto> cm_value m)) \<and>
    fst (sql_save_memory m c now s) \<in> {Inr m, Inl (Exn IntegrityErr [])}"
  proof (cases "find (\<lambda>r. um_key r = ?k) s")
    case None
    then have "?k \<notin> um_key ` set s" by (auto simp: find_None_iff)
    with None scalar wf show ?thesis
      using sql_memory_append [OF wf, of "\<lparr>um_id = cm_memory_id m, um_tenant_id = rc_tenant_id c,
          um_created_by = rc_operator_id c, um_memory_key = cm_key m, um_memory_value = cm_value m,
          um_confirmed = True, um_version = 1, um_updated_at = now\<rparr>"]
      by (auto simp: sql_save_memory_def um_key_def)
  next
    case (Some r)
    from found [OF this] sql_memory_rewrite [OF wf, of r "r\<lparr>um_memory_value := cm_value m,
        um_confirmed := True, um_version := um_version r + 1, um_updated_at := now\<rparr>"]
    show ?thesis
      using Some scalar by (auto simp: sql_save_memory_def um_key_def)
  qed
  show "sql_memories_wf (snd (mp_save sql_memory_repo m c now s))"
    using effect by (simp add: sql_memory_repo_def)
  show "sql_memory_value s' = (sql_memory_value s)(?k \<mapsto> cm_value m)"
    if "mp_save sql_memory_repo m c now s = (Inr m', s')" for m' s'
    using effect that by (auto simp: sql_memory_repo_def)
  show "sql_memory_value s' = sql_memory_value s"
    if "mp_save sql_memory_repo m c now s = (Inl e, s')" for e s'
    using that scalar
    by (auto simp: sql_memory_repo_def sql_save_memory_def split: option.splits if_splits)
next
  fix c s m k
  show "snd (mp_list sql_memory_repo c s) = s"
    by (simp add: sql_memory_repo_def sql_list_memories_def)
  assume wf: "sql_memories_wf s"
  show "own_memory c m" if "m \<in> set (fst (mp_list sql_memory_repo c s))"
    using that by (auto simp: sql_memory_repo_def sql_list_memories_def own_memory_def row_memory_def)
  show "distinct (map cm_key (fst (mp_list sql_memory_repo c s)))"
    using wf distinct_filter_keys by (simp add: sql_memory_repo_def sql_list_memories_def sql_memories_wf_def)
  have "find (\<lambda>r. um_key r = k \<and> um_confirmed r) s = find (\<lambda>r. um_key r = k) s" for k
    using wf by (intro find_cong_set) (auto simp: sql_memories_wf_def)
  then show "map_of (key_values (fst (mp_list sql_memory_repo c s))) k =
      sql_memory_value s (rc_tenant_id c, rc_operator_id c, k)"
    by (simp add: sql_memory_repo_def sql_list_memories_def key_values_rows sql_memory_value_def)
qed

definition mem_memory_value :: "mem_memories \<Rightarrow> ustr \<times> ustr \<times> ustr \<Rightarrow> ustr option" where
  "mem_memory_value ms k = map_option cm_value (map_of ms k)"

definition mem_memories_wf :: "mem_memories \<Rightarrow> bool" where
  "mem_memories_wf ms \<longleftrightarrow> distinct (map fst ms) \<and>
     (\<forall>(k, m) \<in> set ms. k = (cm_tenant_id m, cm_operator_id m, cm_key m))"

lemma mem_listed_value:
  assumes "\<forall>(k, m) \<in> set ms. k = (cm_tenant_id m, cm_operator_id m, cm_key m)"
  shows "map_of (key_values (map snd (filter (\<lambda>((t', u', _), item). t' = t \<and> u' = u) ms))) k =
    map_option cm_value (map_of ms (t, u, k))"
  using assms by (induction ms) (auto simp: key_values_def)

lemma mem_listed_distinct:
  assumes "distinct (map fst ms)" "\<forall>(k, m) \<in> set ms. k = (cm_tenant_id m, cm_operator_id m, cm_key m)"
  shows "distinct (map cm_key (map snd (filter (\<lambda>((t', u', _), item). t' = t \<and> u' = u) ms)))"
  using assms by (induction ms) (force simp: image_iff)+

interpretation mem_memory: memory_store mem_memory_repo mem_memory_value mem_memories_wf
proof unfold_locales
  fix s c m now
  assume wf: "mem_memories_wf s" and own: "own_memory c m"
  then show "mem_memories_wf (snd (mp_save mem_memory_repo m c now s))"
    using set_AList_update [of "(rc_tenant_id c, rc_operator_id c, cm_key m)" m s]
    by (auto simp: mem_memories_wf_def mem_memory_repo_def mem_save_memory_def own_memory_def
        distinct_update)
next
  fix s c m k
  assume wf: "mem_memories_wf s"
  then show "distinct (map cm_key (fst (mp_list mem_memory_repo c s)))"
    using mem_listed_distinct [of s "rc_tenant_id c" "rc_operator_id c"]
    by (simp add: mem_memory_repo_def mem_list_memories_def mem_memories_wf_def)
  show "map_of (key_values (fst (mp_list mem_memory_repo c s))) k =
      mem_memory_value s (rc_tenant_id c, rc_operator_id c, k)"
    using wf mem_listed_value
    by (simp add: mem_memory_repo_def mem_list_memories_def mem_memories_wf_def mem_memory_value_def)
  show "own_memory c m" if "m \<in> set (fst (mp_list mem_memory_repo c s))"
    using wf that by (force simp: mem_memory_repo_def mem_list_memories_def mem_memories_wf_def own_memory_def)
qed (auto simp: mem_memory_repo_def mem_save_memory_def mem_list_memories_def mem_memory_value_def fun_eq_iff)

end
