(* ===== verification/Memory_Cache.thy ===== *)
theory Memory_Cache
  imports Memory
begin

text \<open>
  The cache of confirmed memories is invisible: \<open>memory_caching\<close> combines what a repository and a cache
  promise into the laws of \<open>MemoryService\<close>, for requests that do not overlap. When they do overlap, or when
  a \<open>DEL\<close> of Redis fails, users read outdated memories.
\<close>

section \<open>Executions\<close>

text \<open>
  What happens to the service: a memory is remembered, the memories of a user are listed, and the cache
  loses entries (an entry expires, or Redis evicts it). \<open>who\<close> are the users whose requests are served.
\<close>

definition user_of :: "request_context \<Rightarrow> ustr \<times> ustr" where
  "user_of c = (rc_tenant_id c, rc_operator_id c)"

inductive memory_reachable ::
  "(ustr \<Rightarrow> ustr) \<Rightarrow> (json \<Rightarrow> ustr) \<Rightarrow> (instant \<Rightarrow> ustr) \<Rightarrow> (ustr \<Rightarrow> instant option) \<Rightarrow>
   ('s, 'k) memory_service \<Rightarrow> ('k \<Rightarrow> ustr \<Rightarrow> json) \<Rightarrow> (ustr \<times> ustr) set \<Rightarrow> 's \<times> 'k \<Rightarrow> 's \<times> 'k \<Rightarrow> bool"
  for sha rep isoformat fromisoformat M view who s0
where
  start: "memory_reachable sha rep isoformat fromisoformat M view who s0 s0"
| remember: "memory_reachable sha rep isoformat fromisoformat M view who s0 s \<Longrightarrow> user_of c \<in> who \<Longrightarrow>
    memory_reachable sha rep isoformat fromisoformat M view who s0
      (snd (memory_remember sha M uuid now key v confirmed c s))"
| listing: "memory_reachable sha rep isoformat fromisoformat M view who s0 s \<Longrightarrow> user_of c \<in> who \<Longrightarrow>
    memory_reachable sha rep isoformat fromisoformat M view who s0
      (snd (memory_list_for sha rep isoformat fromisoformat M c s))"
| forget: "memory_reachable sha rep isoformat fromisoformat M view who s0 (r, k) \<Longrightarrow>
    (\<And>x. view k' x \<in> {JNull, view k x}) \<Longrightarrow>
    memory_reachable sha rep isoformat fromisoformat M view who s0 (r, k')"

section \<open>Encoding\<close>

text \<open>A memory survives its encoding, for the user it belongs to.\<close>

definition iso_ok :: "(instant \<Rightarrow> ustr) \<Rightarrow> (ustr \<Rightarrow> instant option) \<Rightarrow> bool" where
  "iso_ok isoformat fromisoformat \<longleftrightarrow> (\<forall>t. fromisoformat (isoformat t) = Some t)"

lemma decode_encode:
  assumes "iso_ok isoformat fromisoformat" "\<forall>m \<in> set ms. own_memory c m"
  shows "decode_memories rep fromisoformat c (map (encode_memory isoformat) ms) = Inr ms"
  using assms
  by (induction ms)
     (auto simp: encode_memory_def decode_memory_def getitem_def iso_ok_def own_memory_def)

text \<open>Users with different keys: no two of \<open>who\<close> share a cache key, unless their key texts collide.\<close>

definition keys_separate :: "(ustr \<Rightarrow> ustr) \<Rightarrow> ('s, 'k) memory_service \<Rightarrow> (ustr \<times> ustr) set \<Rightarrow> bool" where
  "keys_separate sha M who \<longleftrightarrow>
     (\<forall>c c'. user_of c \<in> who \<longrightarrow> user_of c' \<in> who \<longrightarrow> memory_cache_key sha M c = memory_cache_key sha M c' \<longrightarrow>
        user_of c = user_of c')"

definition digests_collide :: "(ustr \<Rightarrow> ustr) \<Rightarrow> (ustr \<times> ustr) set \<Rightarrow> bool" where
  "digests_collide sha who \<longleftrightarrow>
     (\<exists>(t, i) \<in> who. \<exists>(t', i') \<in> who. json_strings [t, i] \<noteq> json_strings [t', i'] \<and>
        sha (json_strings [t, i]) = sha (json_strings [t', i']))"

lemma keys_separate_or: "\<not> digests_collide sha who \<Longrightarrow> keys_separate sha M who"
  unfolding keys_separate_def digests_collide_def
  by (auto simp: user_of_def memory_cache_key_def scoped_cache_key_def json_strings_inj)

section \<open>The service over any repository and cache\<close>

locale memory_caching = store: memory_store R "value" sinv + cache: strong_cache C view storable
  for R :: "'s memory_repo" and "value" sinv and C :: "'k json_cache" and view storable +
  fixes key_prefix :: ustr and ttl :: int
begin

definition service :: "('s, 'k) memory_service" where
  "service = \<lparr>ms_repo = R, ms_cache = Some C, ms_key_prefix = key_prefix, ms_ttl = ttl\<rparr>"

text \<open>The list \<open>ms\<close> is what the repository holds for \<open>c\<close>.\<close>

definition current :: "'s \<Rightarrow> request_context \<Rightarrow> memory list \<Rightarrow> bool" where
  "current r c ms \<longleftrightarrow> distinct (map cm_key ms) \<and> (\<forall>m \<in> set ms. own_memory c m) \<and>
     (\<forall>k. map_of (key_values ms) k = value r (rc_tenant_id c, rc_operator_id c, k))"

definition coherent :: "(ustr \<Rightarrow> ustr) \<Rightarrow> (instant \<Rightarrow> ustr) \<Rightarrow> (ustr \<times> ustr) set \<Rightarrow> 's \<times> 'k \<Rightarrow> bool" where
  "coherent sha isoformat who s \<longleftrightarrow> sinv (fst s) \<and>
     (\<forall>c. user_of c \<in> who \<longrightarrow> view (snd s) (memory_cache_key sha service c) = JNull \<or>
        (\<exists>ms. view (snd s) (memory_cache_key sha service c) = JList (map (encode_memory isoformat) ms) \<and>
           current (fst s) c ms))"

lemma service_simps [simp]:
  "ms_repo service = R" "ms_cache service = Some C" "ms_ttl service = ttl"
  by (simp_all add: service_def)

lemma current_list: "sinv r \<Longrightarrow> current r c (fst (mp_list R c r))"
  using store.list_own store.list_distinct store.list_value by (simp add: current_def)

lemma coherentD:
  assumes "coherent sha isoformat who s"
  shows "sinv (fst s)"
    and "user_of c \<in> who \<Longrightarrow> view (snd s) (memory_cache_key sha service c) = JNull \<or>
      (\<exists>ms. view (snd s) (memory_cache_key sha service c) = JList (map (encode_memory isoformat) ms) \<and>
        current (fst s) c ms)"
  using assms unfolding coherent_def by blast+

lemma coherent_forget:
  assumes "coherent sha isoformat who (r, k)" "\<And>x. view k' x \<in> {JNull, view k x}"
  shows "coherent sha isoformat who (r, k')"
  using assms unfolding coherent_def fst_conv snd_conv by (metis insertE singletonD)

text \<open>Two contexts of one user have the same cache key.\<close>

lemma same_user:
  assumes "keys_separate sha service who" "memory_cache_key sha service c = memory_cache_key sha service c'"
    and "user_of c \<in> who" "user_of c' \<in> who"
  shows "rc_tenant_id c = rc_tenant_id c' \<and> rc_operator_id c = rc_operator_id c'"
  using assms unfolding keys_separate_def user_of_def by blast

lemma coherent_remember:
  assumes coh: "coherent sha isoformat who s"
  shows "coherent sha isoformat who (snd (memory_remember sha service uuid now key v confirmed c s))"
proof (cases confirmed)
  case False
  with coh show ?thesis by (simp add: memory_remember_def)
next
  case True
  define item where "item = \<lparr>cm_memory_id = uuid, cm_tenant_id = rc_tenant_id c,
      cm_operator_id = rc_operator_id c, cm_key = key, cm_value = v, cm_confirmed_at = now\<rparr>"
  have own: "own_memory c item" by (simp add: item_def own_memory_def)
  note inv = coherentD(1) [OF coh]
  obtain r out where save: "mp_save R item c now (fst s) = (out, r)" by fastforce
  have r: "sinv r" using store.save_inv [OF inv own, of now] save by simp
  show ?thesis
  proof (cases out)
    case (Inl e)
    have "current r = current (fst s)"
      using store.save_error [OF inv own] save Inl by (simp add: current_def fun_eq_iff)
    with coh r True save Inl show ?thesis
      by (simp add: memory_remember_def item_def [symmetric] coherent_def)
  next
    case (Inr saved)
    let ?key = "memory_cache_key sha service"
    let ?k = "jc_delete C (?key c) (snd s)"
    have v: "value r = (value (fst s))((rc_tenant_id c, rc_operator_id c, cm_key item) \<mapsto> cm_value item)"
      using store.save_value [OF inv own] save Inr by simp
    have "view ?k (?key c') = JNull \<or>
        (\<exists>ms. view ?k (?key c') = JList (map (encode_memory isoformat) ms) \<and> current r c' ms)" if "user_of c' \<in> who" for c'
    proof (cases "?key c' = ?key c")
      case True
      then show ?thesis using cache.delete by simp
    next
      case False
      then have "(rc_tenant_id c', rc_operator_id c') \<noteq> (rc_tenant_id c, rc_operator_id c)"
        by (auto simp: memory_cache_key_def)
      then have "current r c' = current (fst s) c'"
        by (auto simp: current_def v fun_eq_iff)
      moreover have "view ?k (?key c') \<in> {JNull, view (snd s) (?key c')}" by (rule cache.delete_view)
      ultimately show ?thesis
        using coherentD(2) [OF coh that] by auto
    qed
    with r True save Inr show ?thesis
      by (simp add: memory_remember_def item_def [symmetric] coherent_def)
  qed
qed

lemma lookup_coherent:
  assumes coh: "coherent sha isoformat who s" and c: "user_of c \<in> who" and iso: "iso_ok isoformat fromisoformat"
    and look: "memory_lookup sha rep fromisoformat service c s = (found, s')"
  shows "fst s' = fst s" "coherent sha isoformat who s'" "current (fst s) c (snd found)"
proof -
  let ?key = "memory_cache_key sha service c"
  obtain v k where got: "jc_get C ?key (snd s) = (v, k)" by fastforce
  have v: "v \<in> {JNull, view (snd s) ?key}" using cache.get [of ?key "snd s"] got by simp
  have "coherent sha isoformat who (fst s, k)"
  proof (rule coherent_forget)
    show "coherent sha isoformat who (fst s, snd s)" using coh by simp
    show "view k x \<in> {JNull, view (snd s) x}" for x
      using cache.get_view [of ?key "snd s" x] got by simp
  qed
  moreover have "(\<exists>ms. v = JList (map (encode_memory isoformat) ms) \<and> current (fst s) c ms) \<or> v = JNull"
    using v coherentD(2) [OF coh c] by auto
  then have "fst s' = fst s \<and> snd s' = k \<and> current (fst s) c (snd found)"
  proof
    assume "\<exists>ms. v = JList (map (encode_memory isoformat) ms) \<and> current (fst s) c ms"
    then obtain ms where ms: "v = JList (map (encode_memory isoformat) ms)" "current (fst s) c ms" by blast
    from decode_encode [OF iso, of ms c rep] ms(2)
    have "decode_memories rep fromisoformat c (map (encode_memory isoformat) ms) = Inr ms"
      by (simp add: current_def)
    with look got ms show ?thesis by (auto simp: memory_lookup_def)
  next
    assume "v = JNull"
    with look got have "found = (True, fst (mp_list R c (fst s)))" "s' = (snd (mp_list R c (fst s)), k)"
      by (auto simp: memory_lookup_def split: prod.splits)
    then show ?thesis
      using current_list [OF coherentD(1) [OF coh]] store.list_state by simp
  qed
  ultimately show "fst s' = fst s" "coherent sha isoformat who s'" "current (fst s) c (snd found)"
    by (cases s'; simp)+
qed

lemma fill_coherent:
  assumes coh: "coherent sha isoformat who s" and sep: "keys_separate sha service who" and c: "user_of c \<in> who"
    and ms: "current (fst s) c (snd found)"
    and st: "\<And>ms. storable (JList (map (encode_memory isoformat) ms))"
  shows "coherent sha isoformat who (memory_fill sha isoformat service c found s)"
    and "fst (memory_fill sha isoformat service c found s) = fst s"
proof -
  let ?key = "memory_cache_key sha service"
  let ?v = "JList (map (encode_memory isoformat) (snd found))"
  let ?k = "jc_set C (?key c) ?v ttl (snd s)"
  have "view ?k (?key c') = JNull \<or>
      (\<exists>ms. view ?k (?key c') = JList (map (encode_memory isoformat) ms) \<and> current (fst s) c' ms)" if c': "user_of c' \<in> who" for c'
  proof (cases "?key c' = ?key c")
    case True
    then have "current (fst s) c' = current (fst s) c"
      using same_user [OF sep True c' c] by (simp add: current_def own_memory_def fun_eq_iff)
    moreover have "view ?k (?key c') \<in> {JNull, ?v, view (snd s) (?key c')}"
      unfolding True by (rule cache.set_same [OF st])
    ultimately show ?thesis
      using coherentD(2) [OF coh c'] ms by auto
  next
    case False
    then have "view ?k (?key c') \<in> {JNull, view (snd s) (?key c')}" by (rule cache.set_other)
    then show ?thesis using coherentD(2) [OF coh c'] by auto
  qed
  with coherentD(1) [OF coh] coh
  show "coherent sha isoformat who (memory_fill sha isoformat service c found s)"
    by (simp add: memory_fill_def coherent_def)
  show "fst (memory_fill sha isoformat service c found s) = fst s"
    by (simp add: memory_fill_def)
qed

lemma list_coherent:
  assumes "coherent sha isoformat who s" "keys_separate sha service who" "iso_ok isoformat fromisoformat"
    and "\<And>ms. storable (JList (map (encode_memory isoformat) ms))" "user_of c \<in> who"
  shows "coherent sha isoformat who (snd (memory_list_for sha rep isoformat fromisoformat service c s))"
    and "current (fst s) c (fst (memory_list_for sha rep isoformat fromisoformat service c s))"
    and "fst (snd (memory_list_for sha rep isoformat fromisoformat service c s)) = fst s"
proof -
  obtain found s' where look: "memory_lookup sha rep fromisoformat service c s = (found, s')" by (rule prod.exhaust)
  note l = lookup_coherent [OF assms(1,5,3) look]
  note f = fill_coherent [OF l(2) assms(2,5) _ assms(4), of found, unfolded l(1), OF l(3)]
  show "coherent sha isoformat who (snd (memory_list_for sha rep isoformat fromisoformat service c s))"
    "current (fst s) c (fst (memory_list_for sha rep isoformat fromisoformat service c s))"
    "fst (snd (memory_list_for sha rep isoformat fromisoformat service c s)) = fst s"
    using l f by (simp_all add: memory_list_for_def look)
qed

lemma reachable_coherent:
  assumes "memory_reachable sha rep isoformat fromisoformat service view who s0 s"
    and "coherent sha isoformat who s0" "keys_separate sha service who" "iso_ok isoformat fromisoformat"
    and "\<And>ms. storable (JList (map (encode_memory isoformat) ms))"
  shows "coherent sha isoformat who s"
  using assms
proof (induction rule: memory_reachable.induct)
  case start
  then show ?case by blast
next
  case (remember s uuid now key v confirmed c)
  then show ?case by (intro coherent_remember) blast+
next
  case (listing s c)
  then show ?case by (intro list_coherent(1)) blast+
next
  case (forget r k k')
  then show ?case by (intro coherent_forget [where r = r and k = k and k' = k']) blast+
qed

end

section \<open>The services of the application\<close>

text \<open>With a database and Redis (as in production), and without either.\<close>

definition redis_memory_service ::
  "(nat \<Rightarrow> redis_command \<Rightarrow> bool) \<Rightarrow> (json \<Rightarrow> ustr option) \<Rightarrow> (ustr \<Rightarrow> json option) \<Rightarrow> ustr \<Rightarrow> int \<Rightarrow>
   (memory_row list, redis) memory_service" where
  "redis_memory_service faults dumps loads key_prefix ttl =
     \<lparr>ms_repo = sql_memory_repo, ms_cache = Some (redis_json_cache faults dumps loads),
      ms_key_prefix = key_prefix, ms_ttl = ttl\<rparr>"

interpretation sql_redis: memory_caching sql_memory_repo sql_memory_value sql_memories_wf
  "redis_json_cache (sparing_deletes faults) dumps loads" "redis_view loads" "redis_storable dumps loads"
  key_prefix ttl for faults dumps loads key_prefix ttl
  by unfold_locales

interpretation mem_mem: memory_caching mem_memory_repo mem_memory_value mem_memories_wf
  mem_json_cache mem_cache_view "\<lambda>_. True" key_prefix ttl for key_prefix ttl
  by unfold_locales

definition empty_redis :: redis where
  "empty_redis = \<lparr>rs_data = [], rs_now = 0, rs_calls = 0\<rparr>"

text \<open>Every state the service reaches from an empty table and an empty cache.\<close>

definition memory_runs ::
  "(ustr \<Rightarrow> ustr) \<Rightarrow> (json \<Rightarrow> ustr) \<Rightarrow> (instant \<Rightarrow> ustr) \<Rightarrow> (ustr \<Rightarrow> instant option) \<Rightarrow> (ustr \<Rightarrow> json option) \<Rightarrow>
   (memory_row list, redis) memory_service \<Rightarrow> (ustr \<times> ustr) set \<Rightarrow> memory_row list \<times> redis \<Rightarrow> bool" where
  "memory_runs sha rep isoformat fromisoformat loads M who s \<longleftrightarrow>
     memory_reachable sha rep isoformat fromisoformat M (redis_view loads) who ([], empty_redis) s"

lemma redis_service_eq:
  "redis_memory_service (sparing_deletes faults) dumps loads key_prefix ttl =
     sql_redis.service faults dumps loads key_prefix ttl"
  by (simp add: redis_memory_service_def sql_redis.service_def)

lemma empty_coherent:
  "sql_redis.coherent faults dumps loads key_prefix ttl sha isoformat who ([], empty_redis)"
  by (simp add: sql_redis.coherent_def sql_memories_wf_def redis_view_def redis_live_def empty_redis_def)

lemma runs_coherent:
  assumes "\<not> digests_collide sha who" "iso_ok isoformat fromisoformat"
    and "\<forall>ms. redis_storable dumps loads (JList (map (encode_memory isoformat) ms))"
    and "memory_runs sha rep isoformat fromisoformat loads
      (redis_memory_service (sparing_deletes faults) dumps loads key_prefix ttl) who s"
  shows "sql_redis.coherent faults dumps loads key_prefix ttl sha isoformat who s"
  using assms sql_redis.reachable_coherent [OF _ empty_coherent keys_separate_or]
  unfolding memory_runs_def redis_service_eq by blast

lemma runs_list:
  assumes "\<not> digests_collide sha who" "iso_ok isoformat fromisoformat"
    and "\<forall>ms. redis_storable dumps loads (JList (map (encode_memory isoformat) ms))"
    and "memory_runs sha rep isoformat fromisoformat loads
      (redis_memory_service (sparing_deletes faults) dumps loads key_prefix ttl) who s"
    and "memory_list_for sha rep isoformat fromisoformat
      (redis_memory_service (sparing_deletes faults) dumps loads key_prefix ttl) c s = (ms, s')" "user_of c \<in> who"
  shows "distinct (map cm_key ms) \<and> (\<forall>m \<in> set ms. own_memory c m) \<and>
    (\<forall>k. map_of (key_values ms) k = sql_memory_value (fst s) (rc_tenant_id c, rc_operator_id c, k)) \<and>
    fst s' = fst s"
proof -
  note list = sql_redis.list_coherent [OF runs_coherent [OF assms(1-4)] keys_separate_or [OF assms(1)] assms(2) _ assms(6),
      where rep = rep]
  have "redis_storable dumps loads (JList (map (encode_memory isoformat) ms))" for ms
    using assms(3) by blast
  from list(2,3) [OF this] show ?thesis
    using assms(5) unfolding redis_service_eq sql_redis.current_def by simp
qed

text \<open>
  C12: The cache of memories refines the table: as long as requests do not overlap and no \<open>DEL\<close> fails,
  whatever else Redis does (refuse reads and writes, expire or evict entries), the memories a user is shown
  are exactly those the table holds for this user in this tenant, each key once, and listing them does not
  change the table; otherwise the key texts of two users whose requests were served are a collision of SHA-256.
  Assumed of Python's \<open>isoformat\<close> and of \<open>json\<close>: a time and a list of encoded memories are read back as they
  were written.
\<close>

theorem memory_cache_transparent:
  assumes "iso_ok isoformat fromisoformat"
    and "\<forall>ms. redis_storable dumps loads (JList (map (encode_memory isoformat) ms))"
    and "memory_runs sha rep isoformat fromisoformat loads
      (redis_memory_service (sparing_deletes faults) dumps loads key_prefix ttl) who s"
    and "memory_list_for sha rep isoformat fromisoformat
      (redis_memory_service (sparing_deletes faults) dumps loads key_prefix ttl) c s = (ms, s')"
    and "(rc_tenant_id c, rc_operator_id c) \<in> who"
  shows "distinct (map cm_key ms) \<and> (\<forall>m \<in> set ms. own_memory c m) \<and>
      (\<forall>k. map_of (key_values ms) k = sql_memory_value (fst s) (rc_tenant_id c, rc_operator_id c, k)) \<and>
      fst s' = fst s \<or>
    (\<exists>(t, i) \<in> who. \<exists>(t', i') \<in> who. json_strings [t, i] \<noteq> json_strings [t', i'] \<and>
       sha (json_strings [t, i]) = sha (json_strings [t', i']))"
  using runs_list [OF _ assms(1-4)] assms(5) unfolding digests_collide_def [symmetric] user_of_def by blast

text \<open>An example of the parameters: only the empty list has an encoding.\<close>

definition demo_iso :: "instant \<Rightarrow> ustr" where
  "demo_iso t = (if t < 0 then [0, nat (- t)] else [1, nat t])"

definition demo_fromiso :: "ustr \<Rightarrow> instant option" where
  "demo_fromiso s = Some (if s ! 0 = 0 then - int (s ! 1) else int (s ! 1))"

definition demo_dumps :: "json \<Rightarrow> ustr option" where
  "demo_dumps v = (if v = JList [] then Some (U ''[]'') else None)"

definition demo_loads :: "ustr \<Rightarrow> json option" where
  "demo_loads t = (if t = U ''[]'' then Some (JList []) else None)"

definition demo_memory_service :: "(nat \<Rightarrow> redis_command \<Rightarrow> bool) \<Rightarrow> (memory_row list, redis) memory_service" where
  "demo_memory_service faults = redis_memory_service faults demo_dumps demo_loads (U ''oma'') 300"

definition demo_user :: request_context where
  "demo_user = RequestContext (U ''r'') (U ''t'') (U ''thread'') (U ''tenant'') (U ''alice'')"

lemma demo_parameters:
  "iso_ok demo_iso demo_fromiso" "redis_storable demo_dumps demo_loads v"
  by (simp_all add: iso_ok_def demo_iso_def demo_fromiso_def redis_storable_def demo_dumps_def demo_loads_def)

text \<open>A digest of one character: many texts share it.\<close>

definition demo_digest :: "ustr \<Rightarrow> ustr" where
  "demo_digest t = [sum_list t mod 256]"

text \<open>After one memory has been remembered.\<close>

definition demo_remembered :: "memory_row list \<times> redis" where
  "demo_remembered =
     snd (memory_remember demo_digest (demo_memory_service (sparing_deletes (\<lambda>_ _. False))) (U ''m1'') 7 (U ''language'')
       (U ''zh'') True demo_user ([], empty_redis))"

definition demo_users :: "(ustr \<times> ustr) set" where
  "demo_users = {(U ''tenant'', U ''alice'')}"

lemma demo_user_serves:
  "user_of demo_user = (U ''tenant'', U ''alice'')" "user_of demo_user \<in> demo_users" "\<not> digests_collide sha demo_users"
  by (simp_all add: user_of_def demo_user_def RequestContext_def demo_users_def digests_collide_def)

lemma demo_remembered_runs:
  "memory_runs demo_digest rep demo_iso demo_fromiso demo_loads
     (demo_memory_service (sparing_deletes (\<lambda>_ _. False))) demo_users demo_remembered"
  unfolding memory_runs_def demo_remembered_def
  by (rule memory_reachable.remember [OF memory_reachable.start demo_user_serves(2)])

lemma demo_remembered_value:
  "sql_memory_value (fst demo_remembered) (U ''tenant'', U ''alice'', U ''language'') = Some (U ''zh'')"
  by (simp add: demo_remembered_def memory_remember_def demo_memory_service_def redis_memory_service_def
      sql_memory_repo_def sql_save_memory_def sql_memory_value_def um_key_def demo_user_def RequestContext_def
      Let_def)

theorem memory_cache_transparent_witness:
  "map_of (key_values (fst (memory_list_for demo_digest (\<lambda>_. []) demo_iso demo_fromiso
      (demo_memory_service (sparing_deletes (\<lambda>_ _. False))) demo_user demo_remembered))) (U ''language'') =
    Some (U ''zh'')"
proof -
  obtain ms s' where list: "memory_list_for demo_digest (\<lambda>_. []) demo_iso demo_fromiso
      (demo_memory_service (sparing_deletes (\<lambda>_ _. False))) demo_user demo_remembered = (ms, s')"
    by (rule prod.exhaust)
  have "\<forall>k. map_of (key_values ms) k = sql_memory_value (fst demo_remembered)
      (rc_tenant_id demo_user, rc_operator_id demo_user, k)"
    using memory_cache_transparent [OF demo_parameters(1) _ demo_remembered_runs [unfolded demo_memory_service_def]
        list [unfolded demo_memory_service_def]] demo_parameters(2) demo_user_serves(2) demo_user_serves(3) [of demo_digest]
    unfolding digests_collide_def user_of_def by blast
  moreover have "(rc_tenant_id demo_user, rc_operator_id demo_user) = (U ''tenant'', U ''alice'')"
    by (simp add: demo_user_def RequestContext_def)
  ultimately show ?thesis
    using demo_remembered_value by (simp add: list)
qed

text \<open>
  Users read their own writes and nobody else's: after a confirmed memory has been remembered, its key
  has the new value in the next list of this user, all other keys and all other users' lists are as before,
  and a memory that is not confirmed changes nothing.
\<close>

theorem memory_read_your_writes:
  assumes "\<not> digests_collide sha who" "iso_ok isoformat fromisoformat"
    and "\<forall>ms. redis_storable dumps loads (JList (map (encode_memory isoformat) ms))"
    and "M = redis_memory_service (sparing_deletes faults) dumps loads key_prefix ttl"
    and "memory_runs sha rep isoformat fromisoformat loads M who s"
    and "memory_remember sha M uuid now key v confirmed c s = (out, s1)"
    and "memory_list_for sha rep isoformat fromisoformat M c' s = (before, s2)"
    and "memory_list_for sha rep isoformat fromisoformat M c' s1 = (after, s3)"
    and "user_of c \<in> who" "user_of c' \<in> who"
  shows "map_of (key_values after) =
      (if (\<exists>m. out = Inr m) \<and> rc_tenant_id c' = rc_tenant_id c \<and> rc_operator_id c' = rc_operator_id c
       then (map_of (key_values before))(key \<mapsto> v) else map_of (key_values before)) \<and>
    ((\<exists>m. out = Inr m) \<longrightarrow> confirmed)"
proof -
  have "memory_runs sha rep isoformat fromisoformat loads M who s1"
    using assms(5) memory_reachable.remember [of sha rep isoformat fromisoformat M "redis_view loads" who
        "([], empty_redis)" s c uuid now key v confirmed] assms(6,9)
    by (simp add: memory_runs_def)
  note after = runs_list [OF assms(1-3) this [unfolded assms(4)] assms(8) [unfolded assms(4)] assms(10)]
  note before = runs_list [OF assms(1-3) assms(5) [unfolded assms(4)] assms(7) [unfolded assms(4)] assms(10)]
  have wf: "sql_memories_wf (fst s)"
    using runs_coherent [OF assms(1-3) assms(5) [unfolded assms(4)]] sql_redis.coherentD(1) by blast
  define item where "item = \<lparr>cm_memory_id = uuid, cm_tenant_id = rc_tenant_id c,
      cm_operator_id = rc_operator_id c, cm_key = key, cm_value = v, cm_confirmed_at = now\<rparr>"
  have own: "own_memory c item" by (simp add: item_def own_memory_def)
  obtain r x where save: "mp_save sql_memory_repo item c now (fst s) = (x, r)" by (rule prod.exhaust)
  have "sql_memory_value (fst s1) = (if \<exists>m. out = Inr m
      then (sql_memory_value (fst s))((rc_tenant_id c, rc_operator_id c, key) \<mapsto> v)
      else sql_memory_value (fst s)) \<and> ((\<exists>m. out = Inr m) \<longrightarrow> confirmed)"
    using assms(6) save sql_memory.save_value [OF wf own] sql_memory.save_error [OF wf own]
    by (cases x; cases confirmed)
       (auto simp: memory_remember_def assms(4) redis_memory_service_def item_def [symmetric],
        auto simp: item_def)
  with after before show ?thesis by (auto simp: fun_eq_iff)
qed

theorem memory_read_your_writes_witness:
  "map_of (key_values (fst (memory_list_for demo_digest (\<lambda>_. []) demo_iso demo_fromiso
      (demo_memory_service (sparing_deletes (\<lambda>_ _. False))) demo_user demo_remembered))) (U ''language'') =
    Some (U ''zh'')"
proof -
  let ?M = "demo_memory_service (sparing_deletes (\<lambda>_ _. False))"
  obtain out where first: "memory_remember demo_digest ?M (U ''m1'') 7 (U ''language'') (U ''zh'') True demo_user
      ([], empty_redis) = (out, demo_remembered)"
    unfolding demo_remembered_def by (metis prod.collapse)
  have out: "\<exists>m. out = Inr m"
    using first by (auto simp: memory_remember_def demo_memory_service_def redis_memory_service_def
        sql_memory_repo_def sql_save_memory_def Let_def)
  obtain before s2 where b: "memory_list_for demo_digest (\<lambda>_. []) demo_iso demo_fromiso ?M demo_user ([], empty_redis) =
      (before, s2)" by (rule prod.exhaust)
  obtain after s3 where a: "memory_list_for demo_digest (\<lambda>_. []) demo_iso demo_fromiso ?M demo_user demo_remembered =
      (after, s3)" by (rule prod.exhaust)
  have "memory_runs demo_digest (\<lambda>_. []) demo_iso demo_fromiso demo_loads ?M demo_users ([], empty_redis)"
    unfolding memory_runs_def by (rule memory_reachable.start)
  from memory_read_your_writes [OF demo_user_serves(3) demo_parameters(1) _ demo_memory_service_def this first b a
      demo_user_serves(2,2)] demo_parameters(2) out
  have "map_of (key_values after) = (map_of (key_values before))(U ''language'' \<mapsto> U ''zh'')" by simp
  then show ?thesis by (simp add: a)
qed

text \<open>
  With overlapping requests, or with a failing \<open>DEL\<close>, users read outdated memories: when a list request
  has read the table but not yet filled the cache, and a memory is remembered in between, the old list is
  cached after the deletion; and when Redis does not answer the deletion, the cached list stays. In both
  cases the next list (until the entry expires) lacks a memory that the table holds and whose request has
  succeeded.
\<close>

theorem memory_cache_serves_stale_lists:
  "(let M = demo_memory_service (\<lambda>_ _. False);
        (found, s1) = memory_lookup id rep demo_fromiso M demo_user ([], empty_redis);
        (saved, s2) = memory_remember id M (U ''m1'') 7 (U ''language'') (U ''zh'') True demo_user s1;
        s3 = memory_fill id demo_iso M demo_user found s2
    in (\<exists>m. saved = Inr m) \<and>
       sql_memory_value (fst s3) (U ''tenant'', U ''alice'', U ''language'') = Some (U ''zh'') \<and>
       fst (memory_list_for id rep demo_iso demo_fromiso M demo_user s3) = []) \<and>
   (let M = demo_memory_service (\<lambda>_ c. c = DelCmd);
        (ms, s1) = memory_list_for id rep demo_iso demo_fromiso M demo_user ([], empty_redis);
        (saved, s2) = memory_remember id M (U ''m1'') 7 (U ''language'') (U ''zh'') True demo_user s1
    in (\<exists>m. saved = Inr m) \<and>
       sql_memory_value (fst s2) (U ''tenant'', U ''alice'', U ''language'') = Some (U ''zh'') \<and>
       fst (memory_list_for id rep demo_iso demo_fromiso M demo_user s2) = [])"
proof -
  define key where "key = memory_cache_key id (demo_memory_service (\<lambda>_ _. False)) demo_user"
  have keys: "memory_cache_key id (demo_memory_service faults) demo_user = key" for faults
    by (simp add: key_def memory_cache_key_def demo_memory_service_def redis_memory_service_def)
  have user: "rc_tenant_id demo_user = U ''tenant''" "rc_operator_id demo_user = U ''alice''"
    by (simp_all add: demo_user_def RequestContext_def)
  note defs = memory_lookup_def memory_fill_def memory_list_for_def memory_remember_def keys
  note config = demo_memory_service_def redis_memory_service_def
  note stores = redis_json_cache_def redis_get_def redis_set_def redis_delete_def redis_live_def
    demo_dumps_def demo_loads_def empty_redis_def seconds_def
    sql_memory_repo_def sql_save_memory_def sql_list_memories_def sql_memory_value_def um_key_def
  show ?thesis
    by (simp add: defs, simp add: config stores user Let_def)
qed

end
