(* ===== verification/Task_Liveness.thy ===== *)
theory Task_Liveness
  imports Task_Worker
begin

text \<open>
  That work gets done: how many claims it takes until a task of the database queue is handed out, and
  when the loop of a worker, \<open>AsyncTaskWorker.run_forever\<close>, returns.
\<close>

declare split_paired_All [simp del] split_paired_Ex [simp del]

section \<open>Repeated claims\<close>

text \<open>The outcomes of \<open>n\<close> claims one after the other, and the queue they leave.\<close>

fun sql_claims ::
  "ustr \<Rightarrow> instant \<Rightarrow> int \<Rightarrow> nat \<Rightarrow> sql_queue \<Rightarrow> background_task option res list \<times> sql_queue" where
  "sql_claims w now lease 0 s = ([], s)"
| "sql_claims w now lease (Suc n) s =
     (case sql_claim_next w now lease s of
        (r, s1) \<Rightarrow> (case sql_claims w now lease n s1 of (rs, s2) \<Rightarrow> (r # rs, s2)))"

text \<open>The tasks a claim would consider.\<close>

definition due_tasks :: "instant \<Rightarrow> int \<Rightarrow> sql_queue \<Rightarrow> (ustr \<times> ustr) set" where
  "due_tasks now lease s = {k. \<exists>t. sql_view s k = Some t \<and> \<not> claim_skips now lease t}"

lemma sql_view_row: "sql_view s k = Some t \<longleftrightarrow> (\<exists>r. sql_row s k = Some r \<and> t = to_task r)"
  by (auto simp: sql_view_def)

lemma finite_due_tasks: "finite (due_tasks now lease s)"
proof (rule finite_subset)
  show "due_tasks now lease s \<subseteq> tk_key ` set (sq_rows s)"
    by (auto simp: due_tasks_def sql_view_row dest!: sql_row_SomeD)
qed simp

text \<open>What is claimed or settled now is not considered again.\<close>

lemma claimed_not_due: "0 < lease \<Longrightarrow> claim_skips now lease (claimed_task w now t)"
  by (simp add: claim_skips_def stale_running_def claimed_task_def seconds_def)

lemma swept_not_due: "\<not> claim_skips now lease t \<Longrightarrow> claim_skips now lease (swept_task now lease t)"
  by (simp add: swept_task_def claim_skips_def stale_running_def cancelled_task_def expired_task_def)

lemma due_tasks_write:
  assumes "sql_wf s" "row \<in> set (sq_rows s)" "tk_key new = tk_key row" "claim_skips now lease (to_task new)"
  shows "due_tasks now lease (write_task new s) = due_tasks now lease s - {tk_key row}"
  using sql_view_write [OF assms(1-3)] assms(4) by (auto simp: due_tasks_def)

lemma write_task_locked [simp]: "sq_locked (write_task r s) = sq_locked s"
  by (simp add: write_task_def)

text \<open>One claim without locked rows: the first due task is handed out or settled, if there is one.\<close>

lemma claim_due:
  assumes "sql_wf s" "sq_locked s = {}" "0 < lease" "sql_claim_next w now lease s = (res, s')"
  obtains (idle) "due_tasks now lease s = {}" "res = Inr None" "s' = s"
  | (sweep) k t where "sql_view s k = Some t" "\<not> claimable now lease t" "k \<in> due_tasks now lease s" "res = Inr None"
      "\<And>k'. sql_view s' k' = (if k' = k then Some (swept_task now lease t) else sql_view s k')"
      "due_tasks now lease s' = due_tasks now lease s - {k}" "sql_wf s'" "sq_locked s' = {}"
  | (take) k t where "sql_view s k = Some t" "claimable now lease t" "k \<in> due_tasks now lease s"
      "res = Inr (Some (claimed_task w now t))"
      "\<And>k'. sql_view s' k' = (if k' = k then Some (claimed_task w now t) else sql_view s k')"
      "due_tasks now lease s' = due_tasks now lease s - {k}" "sql_wf s'" "sq_locked s' = {}"
  using assms(4)
proof (cases rule: sql_claim_cases)
  case idle
  have "k \<notin> due_tasks now lease s" for k
    using idle(1) assms(2)
    by (auto simp: due_tasks_def sql_view_row first_eligible_None sql_eligible_iff dest!: sql_row_SomeD)
  then show ?thesis using idle(2,3) that(1) by blast
next
  case (sweep row row')
  from first_eligible_Some [OF sweep(1)] have row: "row \<in> set (sq_rows s)" "sql_eligible now lease row" by simp_all
  then have view: "sql_view s (tk_key row) = Some (to_task row)"
    using sql_row_of [OF assms(1)] by (simp add: sql_view_def)
  have due: "\<not> claim_skips now lease (to_task row)" using row(2) by (simp add: sql_eligible_iff)
  show ?thesis
  proof (rule that(2) [of "tk_key row" "to_task row"])
    show "due_tasks now lease s' = due_tasks now lease s - {tk_key row}"
      using due_tasks_write [OF assms(1) row(1) sweep(5)] swept_not_due [OF due] sweep(4,6) by simp
    show "sql_view s' k' = (if k' = tk_key row then Some (swept_task now lease (to_task row)) else sql_view s k')" for k'
      using sql_view_write [OF assms(1) row(1) sweep(5)] sweep(4,6) by simp
  qed (use view due sweep assms(1,2) in \<open>auto simp: due_tasks_def\<close>)
next
  case (take row row')
  from first_eligible_Some [OF take(1)] have row: "row \<in> set (sq_rows s)" "sql_eligible now lease row" by simp_all
  then have view: "sql_view s (tk_key row) = Some (to_task row)"
    using sql_row_of [OF assms(1)] by (simp add: sql_view_def)
  have due: "\<not> claim_skips now lease (to_task row)" using row(2) by (simp add: sql_eligible_iff)
  show ?thesis
  proof (rule that(3) [of "tk_key row" "to_task row"])
    show "due_tasks now lease s' = due_tasks now lease s - {tk_key row}"
      using due_tasks_write [OF assms(1) row(1) take(5)] claimed_not_due [OF assms(3)] take(4,6) by simp
    show "sql_view s' k' = (if k' = tk_key row then Some (claimed_task w now (to_task row)) else sql_view s k')" for k'
      using sql_view_write [OF assms(1) row(1) take(5)] take(4,6) by simp
  qed (use view due take assms(1,2) in \<open>auto simp: due_tasks_def\<close>)
qed

lemma claims_reach:
  assumes "0 < lease"
  shows "sql_wf s \<Longrightarrow> sq_locked s = {} \<Longrightarrow> card (due_tasks now lease s) = n \<Longrightarrow>
    sql_claims w now lease n s = (rs, s') \<Longrightarrow>
    due_tasks now lease s' = {} \<and> sql_wf s' \<and> (\<forall>k. k \<notin> due_tasks now lease s \<longrightarrow> sql_view s' k = sql_view s k) \<and>
    (\<forall>k t. sql_view s k = Some t \<and> claimable now lease t \<longrightarrow>
      Inr (Some (claimed_task w now t)) \<in> set rs \<and> sql_view s' k = Some (claimed_task w now t))"
proof (induction n arbitrary: s rs)
  case 0
  then have "due_tasks now lease s = {}" by (simp add: finite_due_tasks)
  then have "\<not> (sql_view s k = Some t \<and> claimable now lease t)" for k t
    by (auto simp: due_tasks_def claimable_def)
  with \<open>due_tasks now lease s = {}\<close> 0(1,4) show ?case by simp
next
  case (Suc n)
  obtain r s1 where r: "sql_claim_next w now lease s = (r, s1)" by (rule prod.exhaust)
  obtain rs1 where rs: "sql_claims w now lease n s1 = (rs1, s')" "rs = r # rs1"
    using Suc.prems(4) r by (auto split: prod.splits)
  show ?case
    using Suc.prems(1,2) assms r
  proof (cases rule: claim_due)
    case idle
    with Suc.prems(3) show ?thesis by simp
  next
    case (sweep k t)
    have "card (due_tasks now lease s1) = n"
      using Suc.prems(3) sweep(3,6) by (simp add: finite_due_tasks)
    note IH = Suc.IH [OF sweep(7,8) this rs(1)]
    have "sql_view s' j = sql_view s j" if "j \<notin> due_tasks now lease s" for j
      using IH that sweep(3,5,6) by auto
    moreover have "Inr (Some (claimed_task w now u)) \<in> set rs1 \<and> sql_view s' j = Some (claimed_task w now u)"
      if "sql_view s j = Some u" "claimable now lease u" for j u
    proof -
      have "j \<noteq> k" using that sweep(1,2) by auto
      then have "sql_view s1 j = Some u" using that sweep(5) by simp
      with IH that show ?thesis by blast
    qed
    moreover have "due_tasks now lease s' = {} \<and> sql_wf s'" using IH by blast
    moreover have "set rs1 \<subseteq> set rs" using rs(2) by auto
    ultimately show ?thesis by blast
  next
    case (take k t)
    have "card (due_tasks now lease s1) = n"
      using Suc.prems(3) take(3,6) by (simp add: finite_due_tasks)
    note IH = Suc.IH [OF take(7,8) this rs(1)]
    have "sql_view s' k = Some (claimed_task w now t)" using IH take(5,6) by simp
    moreover have "sql_view s' j = sql_view s j" if "j \<notin> due_tasks now lease s" for j
      using IH that take(3,5,6) by auto
    moreover have "Inr (Some (claimed_task w now u)) \<in> set rs \<and> sql_view s' j = Some (claimed_task w now u)"
      if "sql_view s j = Some u" "claimable now lease u" for j u
    proof (cases "j = k")
      case True
      then show ?thesis using that take(1,4) rs(2) \<open>sql_view s' k = Some (claimed_task w now t)\<close> by simp
    next
      case False
      then have "sql_view s1 j = Some u" using that take(5) by simp
      with IH that rs(2) show ?thesis by auto
    qed
    moreover have "due_tasks now lease s' = {} \<and> sql_wf s'" using IH by blast
    ultimately show ?thesis by blast
  qed
qed

section \<open>The loop of a worker\<close>

text \<open>
  Round \<open>n\<close> has the clock \<open>clk n\<close> and the ids \<open>ids n\<close>; \<open>stop n\<close> is whether the stop event is set when it
  starts, and \<open>world n\<close> what the others do to the store while an idle worker waits. Nothing bounds the
  number of rounds, so that not returning is the value \<open>None\<close>.
\<close>

partial_function (option) run_forever ::
  "('s, 'h) task_repo \<Rightarrow> ('s, 'h) task_worker \<Rightarrow> (nat \<Rightarrow> nat \<Rightarrow> instant) \<Rightarrow> (nat \<Rightarrow> ustr \<times> ustr) \<Rightarrow> (nat \<Rightarrow> bool) \<Rightarrow>
   (nat \<Rightarrow> 's \<Rightarrow> 's) \<Rightarrow> nat \<Rightarrow> 's \<Rightarrow> (unit res \<times> 's) option" where
  "run_forever R w clk ids stop world n s =
     (if stop n then Some (Inr (), s)
      else
        (case run_once R w (clk n) (ids n) s of
           (Inl e, s) \<Rightarrow> Some (Inl e, s)
         | (Inr handled, s) \<Rightarrow>
             run_forever R w clk ids stop world (Suc n) (if handled then s else world n s)))"

text \<open>The rounds it goes through.\<close>

inductive worker_at ::
  "('s, 'h) task_repo \<Rightarrow> ('s, 'h) task_worker \<Rightarrow> (nat \<Rightarrow> nat \<Rightarrow> instant) \<Rightarrow> (nat \<Rightarrow> ustr \<times> ustr) \<Rightarrow> (nat \<Rightarrow> bool) \<Rightarrow>
   (nat \<Rightarrow> 's \<Rightarrow> 's) \<Rightarrow> nat \<Rightarrow> 's \<Rightarrow> nat \<Rightarrow> 's \<Rightarrow> bool"
  for R w clk ids stop world n s where
  start: "worker_at R w clk ids stop world n s n s"
| again: "worker_at R w clk ids stop world n s j t \<Longrightarrow> \<not> stop j \<Longrightarrow>
    run_once R w (clk j) (ids j) t = (Inr handled, t') \<Longrightarrow>
    worker_at R w clk ids stop world n s (Suc j) (if handled then t' else world j t')"

lemma worker_returns:
  assumes "stop m" "worker_at R w clk ids stop world n s i u" "i \<le> m"
  shows "\<exists>j t r s'. i \<le> j \<and> j \<le> m \<and> worker_at R w clk ids stop world n s j t \<and>
    run_forever R w clk ids stop world i u = Some (r, s') \<and>
    (r = Inr () \<and> stop j \<and> s' = t \<or> (\<exists>e. r = Inl e \<and> run_once R w (clk j) (ids j) t = (Inl e, s')))"
  using assms(2,3)
proof (induction "m - i" arbitrary: i u)
  case 0
  then have "stop i" using assms(1) by simp
  then have "run_forever R w clk ids stop world i u = Some (Inr (), u)" by (simp add: run_forever.simps)
  with 0(2,3) \<open>stop i\<close> show ?case by blast
next
  case (Suc x)
  show ?case
  proof (cases "stop i")
    case True
    then have "run_forever R w clk ids stop world i u = Some (Inr (), u)" by (simp add: run_forever.simps)
    with Suc.prems True show ?thesis by blast
  next
    case False
    obtain r u1 where once: "run_once R w (clk i) (ids i) u = (r, u1)" by (rule prod.exhaust)
    show ?thesis
    proof (cases r)
      case (Inl e)
      then have "run_forever R w clk ids stop world i u = Some (Inl e, u1)"
        using once False by (simp add: run_forever.simps)
      with Suc.prems once Inl show ?thesis by blast
    next
      case (Inr handled)
      let ?u = "if handled then u1 else world i u1"
      have at: "worker_at R w clk ids stop world n s (Suc i) ?u"
        using worker_at.again [OF Suc.prems(1) False] once Inr by simp
      have "run_forever R w clk ids stop world i u = run_forever R w clk ids stop world (Suc i) ?u"
        using once Inr False by (subst run_forever.simps) simp
      moreover have "x = m - Suc i" "Suc i \<le> m" using Suc(2) by simp_all
      ultimately show ?thesis using Suc.hyps(1) [OF _ at] by (metis Suc_leD)
    qed
  qed
qed

section \<open>Properties\<close>

text \<open>
  C19: The database queue starves no task: while no row is locked, as many claims as there are due tasks hand
  out every task that may run (waiting and due, or running under an expired lease with attempts left, and
  not asked to be cancelled), whatever tasks the claims find before it; then no task is due any more.
\<close>

theorem sql_claims_reach_every_task:
  assumes "sql_wf s" "sq_locked s = {}" "0 < lease" "sql_view s k = Some t" "claimable now lease t"
    and "sql_claims w now lease (card (due_tasks now lease s)) s = (rs, s')"
  shows "Inr (Some (claimed_task w now t)) \<in> set rs \<and> sql_view s' k = Some (claimed_task w now t) \<and>
    sql_claim_next w' now lease s' = (Inr None, s')"
proof -
  note all = claims_reach [OF assms(3,1,2) refl assms(6)]
  have "first_eligible now lease s' = None"
    unfolding first_eligible_None
  proof (intro ballI impI)
    fix x assume x: "x \<in> set (sq_rows s')" "sql_eligible now lease x"
    then have "tk_key x \<in> due_tasks now lease s'"
      using sql_row_of [of s' x] all by (auto simp: due_tasks_def sql_view_def sql_eligible_iff)
    with all show "tk_id x \<in> sq_locked s'" by blast
  qed
  then have "sql_claim_next w' now lease s' = (Inr None, s')"
    by (simp add: sql_claim_next_def first_eligible_def split: list.splits)
  with all assms(4,5) show ?thesis by blast
qed

definition demo_pair :: sql_queue where
  "demo_pair =
     \<lparr>sq_rows = [demo_row\<lparr>tk_id := U ''t0'', tk_available_at := 50, tk_cancel_requested := True\<rparr>, demo_row],
      sq_locked = {}\<rparr>"

theorem sql_claims_reach_every_task_witness:
  "\<exists>rs s'. sql_claims (U ''w1'') 200 360 (card (due_tasks 200 360 demo_pair)) demo_pair = (rs, s') \<and>
    Inr (Some demo_claimed) \<in> set rs"
proof -
  obtain rs s' where run: "sql_claims (U ''w1'') 200 360 (card (due_tasks 200 360 demo_pair)) demo_pair = (rs, s')"
    by (rule prod.exhaust)
  have "sql_wf demo_pair" "sq_locked demo_pair = {}"
    "sql_view demo_pair (U ''tenant-a'', U ''t1'') = Some (to_task demo_row)"
    "claimable 200 360 (to_task demo_row)"
    by (simp_all add: demo_pair_def sql_wf_def sql_view_def sql_row_def demo_row_def to_task_def claimable_def
        claim_skips_def stale_running_def)
  from sql_claims_reach_every_task [OF this(1,2) _ this(3,4) run] run show ?thesis
    by (auto simp: demo_claimed_def)
qed

text \<open>
  C39: A worker that is told to stop stops: if the stop event is set by round \<open>m\<close>, the loop returns no later
  than at round \<open>m\<close>, normally with the queue that its rounds have left, once it has seen the event, or with an
  exception that a round let through.
\<close>

theorem told_worker_stops:
  assumes "stop m" "n \<le> m"
  shows "\<exists>j t r s'. n \<le> j \<and> j \<le> m \<and> worker_at R w clk ids stop world n s j t \<and>
    run_forever R w clk ids stop world n s = Some (r, s') \<and>
    (r = Inr () \<and> stop j \<and> s' = t \<or> (\<exists>e. r = Inl e \<and> run_once R w (clk j) (ids j) t = (Inl e, s')))"
  using worker_returns [where stop = stop, OF assms(1) worker_at.start assms(2)] .

theorem told_worker_stops_witness:
  "\<exists>r s'. run_forever sql_repo (demo_worker demo_done) (\<lambda>_. demo_clock) (\<lambda>_. ([], [])) (\<lambda>n. n = 1) (\<lambda>_ s. s) 0
    demo_table = Some (r, s')"
proof -
  have "\<exists>j t r s'. 0 \<le> j \<and> j \<le> 1 \<and>
      worker_at sql_repo (demo_worker demo_done) (\<lambda>_. demo_clock) (\<lambda>_. ([], [])) (\<lambda>n. n = 1) (\<lambda>_ s. s) 0 demo_table j t \<and>
      run_forever sql_repo (demo_worker demo_done) (\<lambda>_. demo_clock) (\<lambda>_. ([], [])) (\<lambda>n. n = 1) (\<lambda>_ s. s) 0
        demo_table = Some (r, s') \<and>
      (r = Inr () \<and> j = 1 \<and> s' = t \<or>
       (\<exists>e. r = Inl e \<and> run_once sql_repo (demo_worker demo_done) demo_clock ([], []) t = (Inl e, s')))"
    by (rule told_worker_stops [where stop = "\<lambda>n. n = 1"]) simp_all
  then show ?thesis by blast
qed

end
