(* ===== verification/App_Start.thy ===== *)
theory App_Start
  imports Api_Routes Memory_Cache Task_Liveness
begin

text \<open>
  What is wired together when the application and the worker start: \<open>app/config.py\<close>, \<open>lifespan\<close> of
  \<open>app/main.py\<close> and \<open>run_worker\<close> of \<open>app/workers.py\<close>.

  A wiring names which of the modelled parts is used. Connecting to the database, to Redis and to the model is
  outside, closing is one function per resource; \<open>truthy\<close> settings are those that are set and not empty.
\<close>

section \<open>Settings\<close>

record settings =
  se_app_env :: ustr
  se_agent_model :: "ustr option"
  se_agent_recursion_limit :: int
  se_agent_timeout_seconds :: int
  se_agent_max_delegations :: int
  se_agent_max_plan_updates :: int
  se_task_worker_poll_seconds :: rat
  se_task_worker_timeout_seconds :: rat
  se_task_worker_lease_seconds :: int
  se_task_worker_retry_delay_seconds :: int
  se_database_url :: "ustr option"
  se_redis_url :: "ustr option"
  se_redis_key_prefix :: ustr
  se_redis_default_ttl_seconds :: int
  se_redis_knowledge_ttl_seconds :: int
  se_redis_memory_ttl_seconds :: int
  se_gitlab_base_url :: "ustr option"
  se_gitlab_access_token :: "ustr option"
  se_knowledge_mcp_url :: "ustr option"
  se_knowledge_mcp_answer_tool :: ustr
  se_max_request_body_bytes :: int

text \<open>The defaults; the environment overrides fields.\<close>

definition Settings :: settings where
  "Settings =
     \<lparr>se_app_env = U ''development'', se_agent_model = None, se_agent_recursion_limit = 48,
      se_agent_timeout_seconds = 180, se_agent_max_delegations = 8, se_agent_max_plan_updates = 3,
      se_task_worker_poll_seconds = 1, se_task_worker_timeout_seconds = 300, se_task_worker_lease_seconds = 360,
      se_task_worker_retry_delay_seconds = 10, se_database_url = None, se_redis_url = None,
      se_redis_key_prefix = U ''office-multi-agent'', se_redis_default_ttl_seconds = 120,
      se_redis_knowledge_ttl_seconds = 120, se_redis_memory_ttl_seconds = 300, se_gitlab_base_url = None,
      se_gitlab_access_token = None, se_knowledge_mcp_url = None,
      se_knowledge_mcp_answer_tool = U ''knowledge_answer_tool'', se_max_request_body_bytes = 2 * 1024 * 1024\<rparr>"

definition given :: "ustr option \<Rightarrow> ustr option" where
  "given setting = (case setting of Some (c # cs) \<Rightarrow> Some (c # cs) | _ \<Rightarrow> None)"

section \<open>The wiring of the application\<close>

datatype storage = In_process | Database

datatype knowledge_source = Knowledge_mcp ustr ustr | Knowledge_mock

record assistant_wiring =
  aw_model :: ustr
  aw_max_delegations :: int
  aw_max_plan_updates :: int
  aw_recursion_limit :: int
  aw_timeout_seconds :: int

text \<open>\<open>wi_store\<close> is the store of the agent; \<open>None\<close> for a cache or a token provider: there is none.\<close>

record application =
  wi_cache :: "ustr option"
  wi_knowledge :: knowledge_source
  wi_knowledge_cache :: "(ustr \<times> int) option"
  wi_knowledge_tokens :: bool
  wi_connectors :: connector_registry
  wi_memory :: storage
  wi_memory_cache :: "(ustr \<times> int) option"
  wi_background_tasks :: storage
  wi_schedules :: storage
  wi_files :: storage
  wi_artifacts :: storage
  wi_reports :: storage
  wi_meetings :: storage
  wi_idempotency :: storage
  wi_audit :: storage
  wi_approvals :: storage
  wi_checkpointer :: storage
  wi_store :: "storage option"
  wi_assistant :: "assistant_wiring option"

text \<open>The settings production cannot do without, in the order they are checked.\<close>

definition required_settings :: "(string \<times> (settings \<Rightarrow> ustr option)) list" where
  "required_settings =
     [(''DATABASE_URL'', se_database_url), (''REDIS_URL'', se_redis_url), (''GITLAB_BASE_URL'', se_gitlab_base_url),
      (''GITLAB_ACCESS_TOKEN'', se_gitlab_access_token), (''KNOWLEDGE_MCP_URL'', se_knowledge_mcp_url),
      (''AGENT_MODEL'', se_agent_model)]"

definition check_settings :: "settings \<Rightarrow> unit res" where
  "check_settings st =
     (if se_app_env st \<noteq> U ''production'' then Inr ()
      else
        (case find (\<lambda>(name, setting). given (setting st) = None) required_settings of
           None \<Rightarrow> Inr ()
         | Some (name, _) \<Rightarrow> Inl (Exn RuntimeErr (U (name @ '' is required in production'')))))"

definition cache_for :: "settings \<Rightarrow> int \<Rightarrow> (ustr \<times> int) option" where
  "cache_for st ttl_seconds =
     (if given (se_redis_url st) = None then None else Some (se_redis_key_prefix st, ttl_seconds))"

text \<open>Up to the \<open>yield\<close>.\<close>

definition lifespan :: "settings \<Rightarrow> application res" where
  "lifespan st =
     (case check_settings st of
        Inl e \<Rightarrow> Inl e
      | Inr _ \<Rightarrow>
          let cache = given (se_redis_url st);
              storage = (if given (se_database_url st) = None then In_process else Database)
          in Inr
            \<lparr>wi_cache = cache,
             wi_knowledge = (case given (se_knowledge_mcp_url st) of
                 Some url \<Rightarrow> Knowledge_mcp url (se_knowledge_mcp_answer_tool st) | None \<Rightarrow> Knowledge_mock),
             wi_knowledge_cache = cache_for st (se_redis_knowledge_ttl_seconds st),
             wi_knowledge_tokens = (given (se_knowledge_mcp_url st) \<noteq> None),
             wi_connectors = for_environment (se_app_env st) (se_gitlab_base_url st) (se_gitlab_access_token st)
               (cache \<noteq> None) (se_redis_key_prefix st) (se_redis_default_ttl_seconds st),
             wi_memory = storage, wi_memory_cache = cache_for st (se_redis_memory_ttl_seconds st),
             wi_background_tasks = storage, wi_schedules = storage, wi_files = storage, wi_artifacts = storage,
             wi_reports = storage, wi_meetings = storage, wi_idempotency = storage, wi_audit = storage,
             wi_approvals = storage, wi_checkpointer = storage,
             wi_store = (if storage = Database
                         then (if given (se_agent_model st) = None then None else Some Database)
                         else Some In_process),
             wi_assistant = (case given (se_agent_model st) of
                 None \<Rightarrow> None
               | Some model \<Rightarrow>
                   Some \<lparr>aw_model = model, aw_max_delegations = se_agent_max_delegations st,
                         aw_max_plan_updates = se_agent_max_plan_updates st,
                         aw_recursion_limit = se_agent_recursion_limit st,
                         aw_timeout_seconds = se_agent_timeout_seconds st\<rparr>)\<rparr>)"

section \<open>Whose services are used\<close>

text \<open>
  A route looks a service up as an attribute of \<open>app.state\<close>; where there is none it falls back on an object the
  module of the routes created for itself. Two services with the same storage are still two objects.
\<close>

datatype 'a service_object = Of_application 'a | Of_module 'a

definition service_for :: "'a option \<Rightarrow> 'a \<Rightarrow> 'a service_object" where
  "service_for attribute fallback =
     (case attribute of None \<Rightarrow> Of_module fallback | Some x \<Rightarrow> Of_application x)"

record wired_services =
  ws_reports :: "storage service_object"
  ws_meetings :: "storage service_object"
  ws_knowledge :: "knowledge_source service_object"
  ws_connectors :: "connector_registry service_object"
  ws_audit :: "storage service_object"
  ws_files :: "storage service_object"
  ws_artifacts :: "storage service_object"
  ws_background_tasks :: "storage service_object"

text \<open>What the routes find; \<open>None\<close> is an application whose \<open>lifespan\<close> has not run.\<close>

definition route_services :: "application option \<Rightarrow> wired_services" where
  "route_services app =
     \<lparr>ws_reports = service_for (map_option wi_reports app) In_process,
      ws_meetings = service_for (map_option wi_meetings app) In_process,
      ws_knowledge = service_for (map_option wi_knowledge app) Knowledge_mock,
      ws_connectors = service_for (map_option wi_connectors app)
        (for_environment (U ''development'') None None False (U ''office-multi-agent'') 120),
      ws_audit = service_for (map_option wi_audit app) In_process,
      ws_files = service_for (map_option wi_files app) In_process,
      ws_artifacts = service_for (map_option wi_artifacts app) In_process,
      ws_background_tasks = service_for (map_option wi_background_tasks app) In_process\<rparr>"

text \<open>What \<open>lifespan\<close> hands to the agent's tools and graphs.\<close>

definition OrchestrationDependencies :: "application \<Rightarrow> wired_services" where
  "OrchestrationDependencies app =
     \<lparr>ws_reports = Of_application (wi_reports app), ws_meetings = Of_application (wi_meetings app),
      ws_knowledge = Of_application (wi_knowledge app), ws_connectors = Of_application (wi_connectors app),
      ws_audit = Of_application (wi_audit app), ws_files = Of_application (wi_files app),
      ws_artifacts = Of_application (wi_artifacts app), ws_background_tasks = Of_application (wi_background_tasks app)\<rparr>"

text \<open>
  In a started application the agent works on the very services of the routes; without \<open>lifespan\<close> the routes
  work on none of the application's.
\<close>

lemma agent_shares_services_of_routes: "OrchestrationDependencies app = route_services (Some app)"
  by (simp add: OrchestrationDependencies_def route_services_def service_for_def)

lemma routes_without_lifespan: "ws_audit (route_services None) = Of_module In_process"
  by (simp add: route_services_def service_for_def)

section \<open>The end of the application\<close>

text \<open>
  The \<open>finally\<close> of \<open>lifespan\<close>: what was opened is closed in this order, and an exception ends the closing.
  \<open>close\<close> closes one resource: the store and the checkpointer of the agent, the connectors, the cache, the pool
  of database connections.
\<close>

datatype resource = Agent_store | Checkpointer | Connectors | Redis_cache | Database_pool

definition opened :: "settings \<Rightarrow> resource list" where
  "opened st =
     (let db = given (se_database_url st) \<noteq> None in
      (if db \<and> given (se_agent_model st) \<noteq> None then [Agent_store] else [])
      @ (if db then [Checkpointer] else []) @ [Connectors]
      @ (if given (se_redis_url st) \<noteq> None then [Redis_cache] else []) @ (if db then [Database_pool] else []))"

fun close_all :: "(resource \<Rightarrow> 's \<Rightarrow> unit res \<times> 's) \<Rightarrow> resource list \<Rightarrow> 's \<Rightarrow> unit res \<times> 's" where
  "close_all close [] s = (Inr (), s)"
| "close_all close (r # rs) s = bnd (close r s) (\<lambda>_ s. close_all close rs s)"

lemma opened_wiring:
  assumes "lifespan st = Inr app"
  shows "Agent_store \<in> set (opened st) \<longleftrightarrow> wi_store app = Some Database"
    and "Checkpointer \<in> set (opened st) \<longleftrightarrow> wi_checkpointer app = Database"
    and "Redis_cache \<in> set (opened st) \<longleftrightarrow> wi_cache app \<noteq> None"
    and "distinct (opened st)"
  using assms by (auto simp: lifespan_def opened_def Let_def split: sum.splits if_splits)

text \<open>What each resource's closing records in a log: the first that fails is the last that is tried.\<close>

lemma close_all_stops_at_failure:
  "close_all (\<lambda>r tries. (if r \<in> bad then Inl e else Inr (), tries @ [r])) rs tries =
    (let tried = takeWhile (\<lambda>r. r \<notin> bad) rs in
     if tried = rs then (Inr (), tries @ rs) else (Inl e, tries @ tried @ [rs ! length tried]))"
  by (induction rs arbitrary: tries) (auto simp: Let_def)

section \<open>The wiring of the worker\<close>

record worker_wiring =
  ww_connectors :: connector_registry
  ww_timeout_seconds :: rat
  ww_lease_seconds :: int
  ww_retry_delay_seconds :: int
  ww_poll_seconds :: rat

definition run_worker :: "settings \<Rightarrow> worker_wiring res" where
  "run_worker st =
     (if given (se_database_url st) = None
      then Inl (Exn RuntimeErr (U ''DATABASE_URL is required for the background worker''))
      else if of_int (se_task_worker_lease_seconds st) \<le> se_task_worker_timeout_seconds st
      then Inl (Exn RuntimeErr
        (U ''TASK_WORKER_LEASE_SECONDS must be greater than TASK_WORKER_TIMEOUT_SECONDS''))
      else Inr
        \<lparr>ww_connectors = for_environment (se_app_env st) None None False (U ''office-multi-agent'') 120,
         ww_timeout_seconds = se_task_worker_timeout_seconds st,
         ww_lease_seconds = se_task_worker_lease_seconds st,
         ww_retry_delay_seconds = se_task_worker_retry_delay_seconds st,
         ww_poll_seconds = se_task_worker_poll_seconds st\<rparr>)"

section \<open>Properties\<close>

text \<open>
  An application that has started in production is wired to no in-process store and to no
  stand-in for a configured system: every store, the checkpoints and the store of the agent are in the database, knowledge comes from
  the configured server under the caller's own token, GitLab is the HTTP connector with the configured
  address and token, both through Redis, and the assistant has its model and its budgets. If one of the six
  settings is missing or empty it does not start.
\<close>

theorem production_start_is_complete:
  assumes "se_app_env st = U ''production''"
  shows "(case lifespan st of
      Inl e \<Rightarrow> exn_class e = RuntimeErr \<and> (\<exists>(name, setting) \<in> set required_settings. given (setting st) = None)
    | Inr app \<Rightarrow>
        {wi_memory app, wi_background_tasks app, wi_schedules app, wi_files app, wi_artifacts app, wi_reports app,
         wi_meetings app, wi_idempotency app, wi_audit app, wi_approvals app, wi_checkpointer app} = {Database} \<and>
        wi_store app = Some Database \<and> wi_cache app = given (se_redis_url st) \<and> wi_cache app \<noteq> None \<and>
        (\<exists>url. se_knowledge_mcp_url st = Some url \<and>
           wi_knowledge app = Knowledge_mcp url (se_knowledge_mcp_answer_tool st)) \<and>
        wi_knowledge_tokens app \<and> wi_knowledge_cache app \<noteq> None \<and> wi_memory_cache app \<noteq> None \<and>
        (\<exists>url token base. se_gitlab_base_url st = Some url \<and> se_gitlab_access_token st = Some token \<and>
           cr_gitlab (wi_connectors app) = Gitlab_http base token) \<and>
        cr_gitlab_cache (wi_connectors app) \<noteq> None \<and>
        (\<exists>a. wi_assistant app = Some a \<and> se_agent_model st = Some (aw_model a) \<and>
           aw_max_delegations a = se_agent_max_delegations st))"
proof (cases "find (\<lambda>(name, setting). given (setting st) = None) required_settings")
  case None
  then have "list_all (\<lambda>(name, setting). given (setting st) \<noteq> None) required_settings"
    by (auto simp: find_None_iff list_all_iff)
  then have all: "given (se_database_url st) \<noteq> None" "given (se_redis_url st) \<noteq> None"
    "given (se_gitlab_base_url st) \<noteq> None" "given (se_gitlab_access_token st) \<noteq> None"
    "given (se_knowledge_mcp_url st) \<noteq> None" "given (se_agent_model st) \<noteq> None"
    by (simp_all add: required_settings_def)
  have nonempty: "\<exists>c cs. x = Some (c # cs)" if "given x \<noteq> None" for x
    using that by (auto simp: given_def split: option.splits list.splits)
  obtain d ds r rs g gs t ts k ks m ms where set:
    "se_database_url st = Some (d # ds)" "se_redis_url st = Some (r # rs)" "se_gitlab_base_url st = Some (g # gs)"
    "se_gitlab_access_token st = Some (t # ts)" "se_knowledge_mcp_url st = Some (k # ks)"
    "se_agent_model st = Some (m # ms)"
    using nonempty [OF all(1)] nonempty [OF all(2)] nonempty [OF all(3)] nonempty [OF all(4)]
      nonempty [OF all(5)] nonempty [OF all(6)] by blast
  have start: "check_settings st = Inr ()" using None assms by (simp add: check_settings_def)
  show ?thesis
    unfolding lifespan_def start sum.case Let_def
    by (simp add: set given_def cache_for_def for_environment_def)
next
  case (Some p)
  then have "p \<in> set required_settings" and "case p of (name, setting) \<Rightarrow> given (setting st) = None"
    by (auto dest: find_SomeD)
  then have missing: "\<exists>(name, setting) \<in> set required_settings. given (setting st) = None" by (rule rev_bexI)
  obtain name setting where "p = (name, setting)" by (rule prod.exhaust)
  then have "lifespan st = Inl (Exn RuntimeErr (U (name @ '' is required in production'')))"
    using Some assms by (simp add: lifespan_def check_settings_def)
  with missing show ?thesis by simp
qed

definition production_settings :: settings where
  "production_settings =
     Settings\<lparr>se_app_env := U ''production'', se_agent_model := Some (U ''m''), se_database_url := Some (U ''d''),
       se_redis_url := Some (U ''r''), se_gitlab_base_url := Some (U ''g''), se_gitlab_access_token := Some (U ''t''),
       se_knowledge_mcp_url := Some (U ''k'')\<rparr>"

theorem production_start_is_complete_witness:
  "\<exists>app. lifespan production_settings = Inr app \<and> wi_audit app = Database"
proof -
  have "given (Some (U [c])) = Some (U [c])" for c by (simp add: given_def U_def)
  then have "\<forall>(name, setting) \<in> set required_settings. given (setting production_settings) \<noteq> None"
    by (simp add: required_settings_def production_settings_def)
  moreover have "se_app_env production_settings = U ''production''" by (simp add: production_settings_def)
  ultimately show ?thesis
    using production_start_is_complete [of production_settings]
    by (cases "lifespan production_settings") auto
qed

text \<open>A worker that starts holds a lease that outlasts the time its handlers get.\<close>

lemma worker_lease_outlasts_handlers:
  "run_worker st = Inr w \<Longrightarrow> ww_timeout_seconds w < of_int (ww_lease_seconds w)"
  by (auto simp: run_worker_def split: if_splits)

end
