(* ===== verification/Assistant_Runs.thy ===== *)
theory Assistant_Runs
  imports Assistant_Api
begin

text \<open>
  Executions of the three assistant routes over one store of approvals: any number of callers of any tenants,
  whatever the agent answers at each step, one whole request after another. The log keeps, per thread, the responses that ask for an approval
  and the resumes that were answered.
\<close>

section \<open>Executions\<close>

datatype thread_event = Awaited | Answered

definition awaits :: "invoke_response res \<Rightarrow> bool" where
  "awaits x = (case x of Inr r \<Rightarrow> av_awaiting_approval r | Inl e \<Rightarrow> False)"

definition asks :: "approval_key \<Rightarrow> invoke_response res \<Rightarrow> (approval_key \<times> thread_event) list" where
  "asks k x = (if awaits x then [(k, Awaited)] else [])"

definition answers :: "approval_key \<Rightarrow> invoke_response res \<Rightarrow> (approval_key \<times> thread_event) list" where
  "answers k x = (if isl x then [] else (k, Answered) # asks k x)"

text \<open>
  \<open>fresh\<close> says that an identifier is in no row of the store yet. The runtime of each step is arbitrary: the
  agent is not assumed to answer twice in the same way. A step is a whole request: the relation does not cover
  requests that overlap while the agent runs. Two resumes that overlap can both look up one pending request
  before either of them has decided it.
\<close>

inductive assistant_run ::
  "'a approval_repo \<Rightarrow> ('a \<Rightarrow> ustr \<Rightarrow> bool) \<Rightarrow> 'a \<Rightarrow> 'g \<times> 'a \<Rightarrow> (approval_key \<times> thread_event) list \<Rightarrow> bool"
  for A fresh none where
  start: "assistant_run A fresh none (g, none) []"
| invoke: "assistant_run A fresh none s seen \<Longrightarrow> fresh (snd s) uuid \<Longrightarrow>
    invoke_assistant A (Some rt) uuid payload c s = (x, s') \<Longrightarrow>
    assistant_run A fresh none s' (seen @ asks (rc_tenant_id c, assistant_thread, iv_thread_id payload) x)"
| resume: "assistant_run A fresh none s seen \<Longrightarrow> fresh (snd s) uuid \<Longrightarrow>
    resume_assistant A (Some rt) uuid thread_id ok comment c s = (x, s') \<Longrightarrow>
    assistant_run A fresh none s' (seen @ answers (rc_tenant_id c, assistant_thread, thread_id) x)"
| look: "assistant_run A fresh none s seen \<Longrightarrow>
    assistant_state A (Some rt) thread_id c s = (v, s') \<Longrightarrow> assistant_run A fresh none s' seen"

section \<open>Taking turns\<close>

definition events_of :: "approval_key \<Rightarrow> (approval_key \<times> thread_event) list \<Rightarrow> thread_event list" where
  "events_of k seen = map snd (filter (\<lambda>e. fst e = k) seen)"

text \<open>
  Whether an approval is awaited after the events, if each answer comes while one is awaited.
\<close>

fun in_turn :: "bool \<Rightarrow> thread_event list \<Rightarrow> bool option" where
  "in_turn w [] = Some w"
| "in_turn w (Awaited # es) = in_turn True es"
| "in_turn w (Answered # es) = (if w then in_turn False es else None)"

lemma in_turn_append: "in_turn w (es @ es') = Option.bind (in_turn w es) (\<lambda>w. in_turn w es')"
  by (induction w es rule: in_turn.induct) auto

lemma events_of_append [simp]: "events_of k (seen @ seen') = events_of k seen @ events_of k seen'"
  by (simp add: events_of_def)

lemma events_of_asks [simp]: "events_of k (asks k' x) = (if k = k' \<and> awaits x then [Awaited] else [])"
  by (simp add: events_of_def asks_def)

lemma events_of_answers [simp]:
  "events_of k (answers k' x) =
    (if k \<noteq> k' \<or> isl x then [] else if awaits x then [Answered, Awaited] else [Answered])"
  by (auto simp: events_of_def answers_def asks_def)

section \<open>What each route does to the approvals\<close>

context approval_store
begin

lemma invoke_awaits:
  assumes "inv (snd s)" "fresh (snd s) uuid" "invoke_assistant A (Some rt) uuid payload c s = (x, s')"
  shows "inv (snd s') \<and>
    (\<forall>k. pend (snd s') k \<longleftrightarrow> pend (snd s) k \<or> k = (rc_tenant_id c, assistant_thread, iv_thread_id payload) \<and> awaits x)"
proof -
  let ?task = "AList.update (U ''require_approval'') (JBool (iv_require_approval payload)) (iv_task_input payload)"
  obtain o1 g1 where run: "rn_invoke rt (Message (JStr (iv_message payload)) ?task) (iv_thread_id payload) c (fst s) = (o1, g1)"
    by (rule prod.exhaust)
  show ?thesis
  proof (cases "\<exists>result. o1 = Inr result \<and> ar_interrupt result \<noteq> None")
    case False
    with assms run show ?thesis
      by (cases o1) (auto simp: invoke_assistant_def runtime_for_def on_graph_def awaits_def Let_def)
  next
    case True
    then obtain result where result: "o1 = Inr result" "ar_interrupt result \<noteq> None" by blast
    obtain a where a:
      "aq_create_pending A uuid assistant_thread (iv_thread_id payload) c (snd s) =
        (Inr (pending_record assistant_thread (iv_thread_id payload) c), a)"
      "inv a" "\<forall>k. pend a k \<longleftrightarrow> k = (rc_tenant_id c, assistant_thread, iv_thread_id payload) \<or> pend (snd s) k"
      using create [OF assms(1,2)] by blast
    have "snd s' = a" "awaits x"
      using assms(3) run result a(1)
      by (auto simp: invoke_assistant_def runtime_for_def on_graph_def on_approvals_def approval_request_def
          awaits_def Let_def split: prod.splits)
    with a(2,3) show ?thesis by auto
  qed
qed

lemma resume_answered_pending:
  assumes "inv (snd s)" "resume_assistant A (Some rt) uuid thread_id ok comment c s = (Inr r, s')"
  shows "pend (snd s) (rc_tenant_id c, assistant_thread, thread_id)"
  using assms require_pending_approval_cases [OF assms(1), of rt thread_id c]
  by (cases "pend (snd s) (rc_tenant_id c, assistant_thread, thread_id)") (simp_all add: resume_assistant_def)

lemma gate_keeps_approvals:
  assumes "inv (snd s)" "require_pending_approval A (Some rt) thread_id c s = (x, s')"
  shows "snd s' = snd s"
  using assms require_pending_approval_cases [OF assms(1), of rt thread_id c] by (auto simp: Let_def split: if_splits)

lemma state_keeps_approvals:
  assumes "inv (snd s)" "assistant_state A (Some rt) thread_id c s = (v, s')"
  shows "snd s' = snd s"
proof -
  obtain x s1 where gate: "require_pending_approval A (Some rt) thread_id c s = (x, s1)" by (rule prod.exhaust)
  then show ?thesis
    using assms(2) gate_keeps_approvals [OF assms(1) gate]
    by (cases x) (auto simp: assistant_state_def runtime_for_def on_graph_def split: prod.splits)
qed

text \<open>A resume that raises leaves the approvals as they are.\<close>

lemma failed_resume_keeps_approvals:
  assumes "inv (snd s)" "fresh (snd s) uuid" "resume_assistant A (Some rt) uuid thread_id ok comment c s = (Inl e, s')"
  shows "snd s' = snd s"
proof -
  obtain x s1 where gate: "require_pending_approval A (Some rt) thread_id c s = (x, s1)" by (rule prod.exhaust)
  note s1 = gate_keeps_approvals [OF assms(1) gate]
  obtain o1 g1 where run: "rn_invoke rt (Command (resume_payload ok comment)) thread_id c (fst s1) = (o1, g1)"
    by (rule prod.exhaust)
  show ?thesis
  proof (cases "isl x \<or> isl o1")
    case True
    with assms(3) gate run s1 show ?thesis
      by (cases x; cases o1) (auto simp: resume_assistant_def runtime_for_def resume_graph_def on_graph_def)
  next
    case False
    then obtain u result where 1: "x = Inr u" "o1 = Inr result" by (cases x; cases o1) auto
    have p: "pend (snd s) (rc_tenant_id c, assistant_thread, thread_id)"
      using gate 1(1) require_pending_approval_cases [OF assms(1), of rt thread_id c] by (auto split: if_splits)
    obtain a where a:
      "aq_decide A assistant_thread thread_id ok comment c (snd s) =
        (Inr ((pending_record assistant_thread thread_id c)\<lparr>ap_status := decided ok, ap_comment := comment\<rparr>), a)"
      "inv a" "fresh a uuid"
      using decide [OF assms(1) p, of ok comment] assms(2) by blast
    obtain a2 where "aq_create_pending A uuid assistant_thread thread_id c a =
        (Inr (pending_record assistant_thread thread_id c), a2)"
      using create [OF a(2,3)] by blast
    with assms(3) gate run s1 1 a(1) show ?thesis
      by (auto simp: resume_assistant_def runtime_for_def resume_graph_def on_graph_def on_approvals_def
          approval_decide_def approval_request_def split: if_splits)
  qed
qed

lemma resume_turns:
  assumes "inv (snd s)" "fresh (snd s) uuid" "resume_assistant A (Some rt) uuid thread_id ok comment c s = (x, s')"
  shows "inv (snd s') \<and>
    in_turn (pend (snd s) k) (events_of k (answers (rc_tenant_id c, assistant_thread, thread_id) x)) =
      Some (pend (snd s') k)"
proof (cases x)
  case (Inl e)
  with failed_resume_keeps_approvals [OF assms(1,2)] assms show ?thesis by simp
next
  case (Inr r)
  with assms(3) have run: "resume_assistant A (Some rt) uuid thread_id ok comment c s = (Inr r, s')" by simp
  from resume_consumes [OF assms(1,2) run] resume_answered_pending [OF assms(1) run] Inr
  show ?thesis by (auto simp: awaits_def simp del: split_paired_All)
qed

lemma runs_take_turns:
  assumes "assistant_run A fresh none s seen" "inv none" "\<forall>k. \<not> pend none k"
  shows "inv (snd s) \<and> (\<forall>k. in_turn False (events_of k seen) = Some (pend (snd s) k))"
  using assms
proof (induction rule: assistant_run.induct)
  case (start g)
  then show ?case by (simp add: events_of_def)
next
  case (invoke s seen uuid rt payload c x s')
  with invoke_awaits [OF _ invoke(2,3)] show ?case by (auto simp: in_turn_append)
next
  case (resume s seen uuid rt thread_id ok comment c x s')
  then have "inv (snd s)" "\<forall>k. in_turn False (events_of k seen) = Some (pend (snd s) k)" by blast+
  with resume_turns [OF _ resume(2,3)] show ?case by (simp only: events_of_append in_turn_append bind.simps) blast
next
  case (look s seen rt thread_id c v s')
  with state_keeps_approvals [OF _ look(2)] show ?case by simp
qed

end

section \<open>Properties\<close>

text \<open>
  C6: When whole requests to the assistant run one after another, none starting while another one is in progress,
  then in every execution of the routes over the database, starting without approvals, on each thread of each tenant the answered
  resumes and the responses that ask for an approval take turns: every answered resume is preceded by a
  request for an approval that no other resume has answered, a retry of an answered resume is refused, and
  what the database holds as pending is exactly what the last event of the thread left awaited. Failed resumes
  and the events of other threads do not count. For requests that overlap this is not claimed: two resumes can both
  find the request pending before either of them decides it.
\<close>

theorem assistant_answers_take_turns:
  assumes "assistant_run sql_approval_repo (\<lambda>rows u. u \<notin> at_id ` set rows) [] s seen"
  shows "in_turn False (events_of k seen) = Some (sql_pend (snd s) k)"
proof -
  have "sql_approvals_wf []" "\<forall>k. \<not> sql_pend [] k" by (simp_all add: sql_approvals_wf_def sql_pend_def)
  with sql_approval.runs_take_turns [OF assms] show ?thesis by blast
qed

text \<open>A message that is interrupted, and the resume that answers it.\<close>

definition demo_interrupted :: assistant_result where
  "demo_interrupted = (agent_timeout Report_submission)\<lparr>ar_interrupt := Some (JList [])\<rparr>"

lemma demo_invoke:
  "\<exists>r. invoke_assistant sql_approval_repo (Some (demo_agent (Inr demo_interrupted))) (U ''a1'')
      \<lparr>iv_thread_id = U ''th'', iv_message = U ''submit'', iv_task_input = [], iv_require_approval = True\<rparr>
      demo_reviewer ((), []) = (Inr r, ((), demo_pending)) \<and> av_awaiting_approval r"
  by (simp add: invoke_assistant_def runtime_for_def demo_agent_def on_graph_def on_approvals_def demo_interrupted_def
      approval_request_def sql_approval_repo_def sql_create_pending_def select_pending_def demo_pending_def demo_reviewer_def
      RequestContext_def agent_timeout_def Let_def)

theorem assistant_answers_take_turns_witness:
  "\<exists>s :: unit \<times> approval_task list. assistant_run sql_approval_repo (\<lambda>rows u. u \<notin> at_id ` set rows) [] s
      [((U ''tenant-a'', assistant_thread, U ''th''), Awaited), ((U ''tenant-a'', assistant_thread, U ''th''), Answered)] \<and>
    \<not> sql_pend (snd s) (U ''tenant-a'', assistant_thread, U ''th'')"
proof -
  let ?k = "(U ''tenant-a'', assistant_thread, U ''th'')"
  let ?fresh = "\<lambda>rows u. u \<notin> at_id ` set rows"
  obtain r where invoked: "invoke_assistant sql_approval_repo (Some (demo_agent (Inr demo_interrupted))) (U ''a1'')
      \<lparr>iv_thread_id = U ''th'', iv_message = U ''submit'', iv_task_input = [], iv_require_approval = True\<rparr>
      demo_reviewer ((), []) = (Inr r, ((), demo_pending))" "av_awaiting_approval r"
    using demo_invoke by blast
  obtain r2 s2 where resumed: "resume_assistant sql_approval_repo
      (Some (demo_agent (Inr (agent_timeout Report_submission)))) (U ''a2'') (U ''th'') True None demo_reviewer
      ((), demo_pending) = (Inr r2, s2)" "\<not> av_awaiting_approval r2"
    using demo_resume_answers by force
  have tenant: "rc_tenant_id demo_reviewer = U ''tenant-a''" by (simp add: demo_reviewer_def RequestContext_def)
  have "assistant_run sql_approval_repo ?fresh [] ((), demo_pending) [(?k, Awaited)]"
    using assistant_run.invoke [OF assistant_run.start _ invoked(1), of ?fresh] invoked(2)
    by (simp add: asks_def awaits_def tenant)
  then have run: "assistant_run sql_approval_repo ?fresh [] s2 [(?k, Awaited), (?k, Answered)]"
    using assistant_run.resume [OF _ _ resumed(1), of ?fresh "[]" "[(?k, Awaited)]"] resumed(2)
    by (simp add: answers_def asks_def awaits_def tenant demo_pending_def)
  from assistant_answers_take_turns [OF run, of ?k] have "\<not> sql_pend (snd s2) ?k" by (simp add: events_of_def)
  with run show ?thesis by blast
qed

text \<open>The same holds in process.\<close>

lemma mem_assistant_answers_take_turns:
  assumes "assistant_run mem_approval_repo (\<lambda>s u. True) [] s seen"
  shows "in_turn False (events_of k seen) = Some (mem_pend (snd s) k)"
proof -
  have "mem_approvals_wf []" "\<forall>k. \<not> mem_pend [] k" by (simp_all add: mem_approvals_wf_def mem_pend_def)
  with mem_approval.runs_take_turns [OF assms] show ?thesis by blast
qed

end
