(* ===== verification/Domain_Graphs.thy ===== *)
theory Domain_Graphs
  imports Reports Meetings Supervisor
begin

text \<open>
  The report and the meeting subgraph (\<open>app/orchestration/worker_graphs.py\<close>).

  Each graph parses the task into a specification (the model's doing), runs the one node its operation
  selects and turns the outcome into a message. A node that calls \<open>interrupt\<close> stops the thread with a
  request; when the thread is resumed the framework runs the node again from its start and the same call
  returns the resume value. A node is therefore a function of the value it is resumed with, if any.

  The services a node uses are a record of functions on the whole state; \<open>office_services\<close> fills it with
  the services of \<open>Reports\<close> and \<open>Meetings\<close>.
\<close>

section \<open>Specifications and outcomes\<close>

datatype report_operation = Draft_op | Review_op | Submit_op

record report_spec =
  sp_operation :: report_operation
  sp_report_date :: "ustr option"
  sp_report_type :: report_type
  sp_events :: "work_event list"
  sp_report_id :: "ustr option"
  sp_approved :: bool
  sp_comment :: "ustr option"

datatype meeting_operation = Transcribe_op | Generate_op | Review_minutes_op | Send_op

record meeting_spec =
  sm_operation :: meeting_operation
  sm_meeting_id :: ustr
  sm_title :: "ustr option"
  sm_meeting_date :: "ustr option"
  sm_segments :: "transcript_segment list"
  sm_approved :: bool
  sm_comment :: "ustr option"

text \<open>The dumped result of a node, before dumping.\<close>

datatype domain_value =
    No_value
  | Report_value report_draft
  | Submission_value report_submission
  | Minutes_value minutes_draft
  | Email_value email_status
  | Task_value ustr ustr

datatype node_out =
    Interrupt json
  | Update (status: ustr) (result: domain_value) (warnings: "ustr list")

record 's domain_services =
  ds_collect :: "ustr \<Rightarrow> ustr \<Rightarrow> request_context \<Rightarrow> 's \<Rightarrow> (work_event list \<times> ustr list) res \<times> 's"
  ds_daily :: "ustr \<Rightarrow> work_event list \<Rightarrow> ustr list \<Rightarrow> request_context \<Rightarrow> 's \<Rightarrow> report_draft res \<times> 's"
  ds_weekly :: "ustr \<Rightarrow> work_event list \<Rightarrow> ustr list \<Rightarrow> request_context \<Rightarrow> 's \<Rightarrow> report_draft res \<times> 's"
  ds_review_report :: "ustr \<Rightarrow> bool \<Rightarrow> ustr option \<Rightarrow> request_context \<Rightarrow> 's \<Rightarrow> report_draft res \<times> 's"
  ds_submit_report :: "ustr \<Rightarrow> request_context \<Rightarrow> 's \<Rightarrow> report_submission res \<times> 's"
  ds_transcribe :: "ustr \<Rightarrow> request_context \<Rightarrow> 's \<Rightarrow> (ustr \<times> ustr) res \<times> 's"
  ds_get_meeting :: "ustr \<Rightarrow> request_context \<Rightarrow> 's \<Rightarrow> jdict res \<times> 's"
  ds_minutes :: "ustr \<Rightarrow> ustr \<Rightarrow> transcript_segment list \<Rightarrow> ustr option \<Rightarrow> request_context \<Rightarrow> 's \<Rightarrow>
     minutes_draft res \<times> 's"
  ds_review_minutes :: "ustr \<Rightarrow> bool \<Rightarrow> ustr option \<Rightarrow> request_context \<Rightarrow> 's \<Rightarrow> minutes_draft res \<times> 's"
  ds_send_minutes :: "ustr \<Rightarrow> request_context \<Rightarrow> 's \<Rightarrow> email_status res \<times> 's"

section \<open>Approval\<close>

fun decision_approved :: "json \<Rightarrow> bool" where
  "decision_approved (JObj d) =
     (case map_of d (U ''decisions'') of
        Some (JList (JObj decision # _)) \<Rightarrow> map_of decision (U ''type'') = Some (JStr (U ''approve''))
      | _ \<Rightarrow> False)"
| "decision_approved _ = False"

definition approval_request_value :: "ustr \<Rightarrow> jdict \<Rightarrow> json" where
  "approval_request_value the_tool arguments =
     JObj
       [(U ''action_requests'',
         JList [JObj [(U ''name'', JStr the_tool), (U ''args'', JObj arguments),
                      (U ''description'', JStr ([21463, 25511, 25805, 20316, 32] @ the_tool @ [32, 27491, 22312, 31561, 24453, 20154, 24037, 23457, 26680]))]]),
        (U ''review_configs'',
         JList [JObj [(U ''action_name'', JStr the_tool),
                      (U ''allowed_decisions'', JList [JStr (U ''approve''), JStr (U ''reject'')])]])]"

text \<open>\<open>interrupt\<close> followed by the test of its value, in the four controlled nodes.\<close>

definition controlled ::
  "ustr \<Rightarrow> jdict \<Rightarrow> ustr \<Rightarrow> json option \<Rightarrow> ('s \<Rightarrow> node_out res \<times> 's) \<Rightarrow> 's \<Rightarrow> node_out res \<times> 's" where
  "controlled the_tool arguments refusal resume act s =
     (case resume of
        None \<Rightarrow> (Inr (Interrupt (approval_request_value the_tool arguments)), s)
      | Some decision \<Rightarrow>
          if \<not> decision_approved decision
          then (Inr (Update (U ''blocked'') No_value [refusal]), s)
          else act s)"

definition completed :: "('a \<Rightarrow> domain_value) \<Rightarrow> 'a res \<times> 's \<Rightarrow> node_out res \<times> 's" where
  "completed f m = bnd m (\<lambda>x s. (Inr (Update (U ''completed'') (f x) []), s))"

section \<open>The report graph\<close>

text \<open>\<open>add6\<close> is \<open>(date.fromisoformat(d) + timedelta(days=6)).isoformat()\<close>.\<close>

definition prepare_draft ::
  "'s domain_services \<Rightarrow> (ustr \<Rightarrow> ustr res) \<Rightarrow> report_spec \<Rightarrow> request_context \<Rightarrow> 's \<Rightarrow> node_out res \<times> 's" where
  "prepare_draft svc add6 spec context s =
     (case sp_report_date spec of
        Some (c # cs) \<Rightarrow>
          let report_date = c # cs in
          bnd (if sp_events spec \<noteq> [] then (Inr (sp_events spec, []), s)
               else
                 bnd (lift_res (if sp_report_type spec = Weekly then add6 report_date else Inr report_date) s)
                   (\<lambda>date_to s. ds_collect svc report_date date_to context s))
            (\<lambda>(events, source_warnings) s.
              completed Report_value
                ((if sp_report_type spec = Weekly then ds_weekly svc else ds_daily svc)
                   report_date events source_warnings context s))
      | _ \<Rightarrow> (Inr (Update (U ''failed'') No_value [[25253, 21578, 33609, 31295, 32570, 23569, 32, 114, 101, 112, 111, 114, 116, 95, 100, 97, 116, 101, 12290]]), s))"

definition report_node ::
  "'s domain_services \<Rightarrow> (ustr \<Rightarrow> ustr res) \<Rightarrow> report_spec \<Rightarrow> json option \<Rightarrow> request_context \<Rightarrow> 's \<Rightarrow>
   node_out res \<times> 's" where
  "report_node svc add6 spec resume context s =
     (case sp_operation spec of
        Draft_op \<Rightarrow> prepare_draft svc add6 spec context s
      | Review_op \<Rightarrow>
          (case sp_report_id spec of
             Some (c # cs) \<Rightarrow>
               controlled (U ''review_report'')
                 [(U ''report_id'', JStr (c # cs)), (U ''approved'', JBool (sp_approved spec))]
                 [29992, 25143, 25298, 32477, 25191, 34892, 25253, 21578, 23457, 26680, 12290] resume
                 (\<lambda>s. completed Report_value
                   (ds_review_report svc (c # cs) (sp_approved spec) (sp_comment spec) context s)) s
           | _ \<Rightarrow> (Inr (Update (U ''failed'') No_value [[25253, 21578, 23457, 26680, 32570, 23569, 32, 114, 101, 112, 111, 114, 116, 95, 105, 100, 12290]]), s))
      | Submit_op \<Rightarrow>
          (case sp_report_id spec of
             Some (c # cs) \<Rightarrow>
               controlled (U ''submit_report'') [(U ''report_id'', JStr (c # cs))]
                 [29992, 25143, 25298, 32477, 25552, 20132, 25253, 21578, 12290] resume
                 (\<lambda>s. completed Submission_value (ds_submit_report svc (c # cs) context s)) s
           | _ \<Rightarrow> (Inr (Update (U ''failed'') No_value [[25253, 21578, 25552, 20132, 32570, 23569, 32, 114, 101, 112, 111, 114, 116, 95, 105, 100, 12290]]), s)))"

section \<open>The meeting graph\<close>

text \<open>
  The title and the date of the minutes: those of the specification, otherwise those of the meeting
  (\<open>meeting_date\<close>, or \<open>start_time\<close> when it is missing or empty), cut to ten characters.
\<close>

definition minutes_title_date :: "(json \<Rightarrow> ustr) \<Rightarrow> meeting_spec \<Rightarrow> jdict \<Rightarrow> ustr \<times> ustr option" where
  "minutes_title_date rep spec meeting =
     ((case sm_title spec of
         Some t \<Rightarrow> t
       | None \<Rightarrow> py_str rep (get_default meeting (U ''title'') (JStr [20250, 35758, 32426, 35201]))),
      (case sm_meeting_date spec of
         Some d \<Rightarrow> Some d
       | None \<Rightarrow>
           (let d = get_default meeting (U ''meeting_date'') JNull;
                raw = (if truthy d then d else get_default meeting (U ''start_time'') JNull)
            in if truthy raw then Some (take 10 (py_str rep raw)) else None)))"

definition generate_node ::
  "'s domain_services \<Rightarrow> (json \<Rightarrow> ustr) \<Rightarrow> meeting_spec \<Rightarrow> request_context \<Rightarrow> 's \<Rightarrow> node_out res \<times> 's" where
  "generate_node svc rep spec context s =
     bnd (if sm_title spec = None \<or> sm_meeting_date spec = None
          then ds_get_meeting svc (sm_meeting_id spec) context s else (Inr [], s))
       (\<lambda>meeting s.
          case minutes_title_date rep spec meeting of
            (title, meeting_date) \<Rightarrow>
              completed Minutes_value
                (ds_minutes svc (sm_meeting_id spec) title (sm_segments spec) meeting_date context s))"

definition meeting_node ::
  "'s domain_services \<Rightarrow> (json \<Rightarrow> ustr) \<Rightarrow> meeting_spec \<Rightarrow> json option \<Rightarrow> request_context \<Rightarrow> 's \<Rightarrow>
   node_out res \<times> 's" where
  "meeting_node svc rep spec resume context s =
     (case sm_operation spec of
        Transcribe_op \<Rightarrow>
          bnd (ds_transcribe svc (sm_meeting_id spec) context s)
            (\<lambda>(task_id, st) s. (Inr (Update (U ''queued'') (Task_value task_id st) []), s))
      | Generate_op \<Rightarrow> generate_node svc rep spec context s
      | Review_minutes_op \<Rightarrow>
          controlled (U ''review_meeting_minutes'')
            [(U ''meeting_id'', JStr (sm_meeting_id spec)), (U ''approved'', JBool (sm_approved spec))]
            [29992, 25143, 25298, 32477, 25191, 34892, 20250, 35758, 32426, 35201, 23457, 26680, 12290] resume
            (\<lambda>s. completed Minutes_value
              (ds_review_minutes svc (sm_meeting_id spec) (sm_approved spec) (sm_comment spec) context s)) s
      | Send_op \<Rightarrow>
          controlled (U ''send_meeting_minutes'') [(U ''meeting_id'', JStr (sm_meeting_id spec))]
            [29992, 25143, 25298, 32477, 21457, 36865, 20250, 35758, 32426, 35201, 12290] resume
            (\<lambda>s. completed Email_value (ds_send_minutes svc (sm_meeting_id spec) context s)) s)"

section \<open>Threads\<close>

text \<open>
  A thread of a graph: waiting for a decision on a request, finished with the payload of its last message,
  or stopped by an exception. \<open>node\<close> is \<open>report_node\<close> or \<open>meeting_node\<close> with its services.
\<close>

datatype 'p thread = Waiting 'p json | Finished ustr domain_value "ustr list" | Broken exn

type_synonym ('p, 's) graph_node = "'p \<Rightarrow> json option \<Rightarrow> request_context \<Rightarrow> 's \<Rightarrow> node_out res \<times> 's"

definition after_node :: "'p \<Rightarrow> node_out res \<times> 's \<Rightarrow> 'p thread \<times> 's" where
  "after_node spec r =
     (case r of
        (Inl e, s) \<Rightarrow> (Broken e, s)
      | (Inr (Interrupt v), s) \<Rightarrow> (Waiting spec v, s)
      | (Inr (Update st v ws), s) \<Rightarrow> (Finished st v ws, s))"

definition thread_start :: "('p, 's) graph_node \<Rightarrow> 'p \<Rightarrow> request_context \<Rightarrow> 's \<Rightarrow> 'p thread \<times> 's" where
  "thread_start node spec context s = after_node spec (node spec None context s)"

fun thread_resume :: "('p, 's) graph_node \<Rightarrow> 'p thread \<Rightarrow> json \<Rightarrow> request_context \<Rightarrow> 's \<Rightarrow> 'p thread \<times> 's" where
  "thread_resume node (Waiting spec v) decision context s =
     after_node spec (node spec (Some decision) context s)"
| "thread_resume node t decision context s = (t, s)"

section \<open>The services of the application\<close>

text \<open>
  \<open>draft\<close> reads the object a service returned through its handle. The times and identifiers the services
  draw are arguments.
\<close>

definition value_of :: "('r \<Rightarrow> 'h \<Rightarrow> 'd) \<Rightarrow> ('s \<Rightarrow> 'r) \<Rightarrow> 'h res \<times> 's \<Rightarrow> 'd res \<times> 's" where
  "value_of obj part m = bnd m (\<lambda>h s. (Inr (obj (part s) h), s))"

definition office_services ::
  "('r, 'h) report_repo \<Rightarrow> ('m, 'g) minutes_repo \<Rightarrow> 'i idem_repo \<Rightarrow> unicode \<Rightarrow> (ustr \<Rightarrow> ustr) \<Rightarrow>
   (report_draft \<Rightarrow> ustr) \<Rightarrow> (minutes_draft \<Rightarrow> ustr) \<Rightarrow> (ustr \<Rightarrow> instant \<Rightarrow> ustr option) \<Rightarrow> (instant \<Rightarrow> ustr) \<Rightarrow>
   (report_draft \<Rightarrow> ustr \<Rightarrow> request_context \<Rightarrow> ('r, 'm, 'i, 'c) office \<Rightarrow> jdict res \<times> ('r, 'm, 'i, 'c) office) \<Rightarrow>
   (ustr \<Rightarrow> ustr \<Rightarrow> ustr \<Rightarrow> request_context \<Rightarrow> ('r, 'm, 'i, 'c) office \<Rightarrow> jdict res \<times> ('r, 'm, 'i, 'c) office) \<Rightarrow>
   (ustr \<Rightarrow> ustr \<Rightarrow> request_context \<Rightarrow> ('r, 'm, 'i, 'c) office \<Rightarrow> (work_event list \<times> ustr list) res \<times> ('r, 'm, 'i, 'c) office) \<Rightarrow>
   (ustr \<Rightarrow> request_context \<Rightarrow> ('r, 'm, 'i, 'c) office \<Rightarrow> (ustr \<times> ustr) res \<times> ('r, 'm, 'i, 'c) office) \<Rightarrow>
   (ustr \<Rightarrow> request_context \<Rightarrow> ('r, 'm, 'i, 'c) office \<Rightarrow> jdict res \<times> ('r, 'm, 'i, 'c) office) \<Rightarrow>
   ustr \<Rightarrow> instant \<Rightarrow> ('r, 'm, 'i, 'c) office domain_services" where
  "office_services R M I u lower dump sha zone system submit_to send_email collect transcribe get_meeting uuid now =
     \<lparr>ds_collect = collect,
      ds_daily = (\<lambda>d events ws c s. value_of (rr_obj R) of_reports
        (on_reports (generate_daily R lower uuid d events (Some c) ws) s)),
      ds_weekly = (\<lambda>d events ws c s. value_of (rr_obj R) of_reports
        (on_reports (generate_weekly R lower uuid d events (Some c) ws) s)),
      ds_review_report = (\<lambda>i ok comment c s. value_of (rr_obj R) of_reports (report_review R i ok comment c s)),
      ds_submit_report = (\<lambda>i c s. report_submit R I u dump submit_to i c s),
      ds_transcribe = transcribe,
      ds_get_meeting = get_meeting,
      ds_minutes = (\<lambda>i title segments d c s. value_of (mt_obj M) of_meetings
        (on_meetings (minutes_generate M zone system now i title segments c d) s)),
      ds_review_minutes = (\<lambda>i ok comment c s. value_of (mt_obj M) of_meetings
        (minutes_review M sha now i ok comment c s)),
      ds_send_minutes = (\<lambda>i c s. minutes_send M I u send_email now i c s)\<rparr>"

section \<open>Properties\<close>

definition controlled_report :: "report_spec \<Rightarrow> bool" where
  "controlled_report spec \<longleftrightarrow> sp_operation spec \<in> {Review_op, Submit_op}"

definition controlled_meeting :: "meeting_spec \<Rightarrow> bool" where
  "controlled_meeting spec \<longleftrightarrow> sm_operation spec \<in> {Review_minutes_op, Send_op}"

text \<open>The value is an approval.\<close>

definition approving :: "json option \<Rightarrow> bool" where
  "approving resume \<longleftrightarrow> (case resume of None \<Rightarrow> False | Some v \<Rightarrow> decision_approved v)"

lemma controlled_unapproved:
  assumes "\<not> approving resume"
  shows "controlled tool args refusal resume act s = controlled tool args refusal resume act' s"
    and "snd (controlled tool args refusal resume act s) = s"
  using assms by (simp_all add: controlled_def approving_def split: option.splits)

text \<open>
  C4: Without an approval nothing controlled happens: when a thread that reviews or submits a report, or
  reviews or mails minutes, is started, or is resumed with anything that is not an approval, the state is
  unchanged and the outcome does not depend on the services at all, so none of them was called.
\<close>

theorem controlled_operations_need_approval:
  assumes "\<not> approving resume"
  shows "(controlled_report spec \<longrightarrow>
      report_node svc add6 spec resume c s = report_node svc' add6 spec resume c s \<and>
      snd (report_node svc add6 spec resume c s) = s) \<and>
    (controlled_meeting spec' \<longrightarrow>
      meeting_node svc rep spec' resume c s = meeting_node svc' rep spec' resume c s \<and>
      snd (meeting_node svc rep spec' resume c s) = s)"
  using controlled_unapproved [OF assms]
  by (auto simp: report_node_def meeting_node_def controlled_report_def controlled_meeting_def
      split: option.split list.split)

text \<open>
  Two sets of services on a counter: those of \<open>counting_services\<close> add one for each call, those of
  \<open>failing_services\<close> raise.
\<close>

definition counting_services :: "nat domain_services" where
  "counting_services =
     \<lparr>ds_collect = (\<lambda>_ _ _ n. (Inr ([], []), n + 1)),
      ds_daily = (\<lambda>_ _ _ _ n. (Inl (Exn ValueErr []), n + 1)),
      ds_weekly = (\<lambda>_ _ _ _ n. (Inl (Exn ValueErr []), n + 1)),
      ds_review_report = (\<lambda>_ _ _ _ n. (Inl (Exn ValueErr []), n + 1)),
      ds_submit_report = (\<lambda>_ _ n. (Inl (Exn KeyErr []), n + 1)),
      ds_transcribe = (\<lambda>i _ n. (Inr (i, []), n + 1)),
      ds_get_meeting = (\<lambda>_ _ n. (Inr [], n + 1)),
      ds_minutes = (\<lambda>_ _ _ _ _ n. (Inl (Exn ValueErr []), n + 1)),
      ds_review_minutes = (\<lambda>_ _ _ _ n. (Inl (Exn ValueErr []), n + 1)),
      ds_send_minutes = (\<lambda>_ _ n. (Inl (Exn KeyErr []), n + 1))\<rparr>"

definition failing_services :: "nat domain_services" where
  "failing_services = counting_services
     \<lparr>ds_submit_report := (\<lambda>_ _ n. (Inl (Exn PermissionErr []), n)),
      ds_send_minutes := (\<lambda>_ _ n. (Inl (Exn PermissionErr []), n))\<rparr>"

definition example_caller :: request_context where
  "example_caller = RequestContext (U ''r'') (U ''t'') (U ''thread'') (U ''tenant'') (U ''alice'')"

definition submit_spec :: report_spec where
  "submit_spec =
     \<lparr>sp_operation = Submit_op, sp_report_date = None, sp_report_type = Daily, sp_events = [],
      sp_report_id = Some (U ''r1''), sp_approved = True, sp_comment = None\<rparr>"

definition send_spec :: meeting_spec where
  "send_spec =
     \<lparr>sm_operation = Send_op, sm_meeting_id = U ''m1'', sm_title = None, sm_meeting_date = None,
      sm_segments = [], sm_approved = True, sm_comment = None\<rparr>"

definition decisions_value :: "ustr \<Rightarrow> json" where
  "decisions_value verdict =
     JObj [(U ''decisions'', JList [JObj [(U ''type'', JStr verdict)]])]"

text \<open>A rejection leaves the counter at zero; the same thread resumed with an approval calls the service.\<close>

theorem controlled_operations_need_approval_witness:
  "snd (report_node counting_services Inr submit_spec (Some (decisions_value (U ''reject''))) example_caller 0) = 0 \<and>
   snd (meeting_node counting_services (\<lambda>_. []) send_spec None example_caller 0) = 0 \<and>
   snd (report_node counting_services Inr submit_spec (Some (decisions_value (U ''approve''))) example_caller 0) = 1"
proof -
  have "\<not> approving (Some (decisions_value (U ''reject'')))" "\<not> approving None"
    by (simp_all add: approving_def decisions_value_def)
  moreover have "controlled_report submit_spec" "controlled_meeting send_spec"
    by (simp_all add: controlled_report_def controlled_meeting_def submit_spec_def send_spec_def)
  moreover have "snd (report_node counting_services Inr submit_spec
      (Some (decisions_value (U ''approve''))) example_caller 0) = 1"
    by (simp add: report_node_def submit_spec_def controlled_def decisions_value_def completed_def
        counting_services_def U_def)
  ultimately show ?thesis
    using controlled_operations_need_approval
      [where svc = counting_services and svc' = failing_services and s = 0 and spec = submit_spec
        and spec' = send_spec and c = example_caller and ?add6.0 = Inr and rep = "\<lambda>_. []"]
    by blast
qed

text \<open>
  The answer of the person reviewing reaches the graph: for a body with a boolean \<open>approved\<close>, the
  value the supervisor resumes the graph with is an approval exactly if \<open>approved\<close> is true, it holds one
  decision per pending action (at least one), and all of them are the same.
\<close>

theorem api_decision_reaches_graph:
  assumes "map_of d (U ''approved'') = Some (JBool approved)"
  shows "decision_approved (fst (resume_value rep g thread_id (JObj d) s)) = approved \<and>
    (\<exists>decision. fst (resume_value rep g thread_id (JObj d) s) =
       JObj [(U ''decisions'', JList (replicate
         (max 1 (length (pending_action_names (fst (gr_state g thread_id s))))) decision))])"
proof -
  obtain n where n: "max 1 (length (pending_action_names (fst (gr_state g thread_id s)))) = Suc n"
    by (metis One_nat_def Suc_le_D max.cobounded1)
  show ?thesis
    using assms n by (simp add: resume_value_def decision_of_def case_prod_unfold)
qed

text \<open>
  A thread with two pending actions, answered \<open>{"approved": false}\<close>: two rejections, and no approval.
\<close>

definition two_actions_graph :: "unit graph" where
  "two_actions_graph =
     \<lparr>gr_invoke = (\<lambda>_ _ _ s. (Inl (Exn TimeoutErr []), s)),
      gr_state = (\<lambda>_ s.
        (\<lparr>sn_messages = [], sn_next = [U ''operate''],
          sn_interrupts =
            [Some (approval_request_value (U ''submit_report'') []),
             Some (approval_request_value (U ''send_meeting_minutes'') [])]\<rparr>, s))\<rparr>"

lemma two_actions_pending:
  "length (pending_action_names (fst (gr_state two_actions_graph t s))) = 2"
  by (simp add: two_actions_graph_def pending_action_names_def approval_request_value_def)

theorem api_decision_reaches_graph_witness:
  "\<exists>d. fst (resume_value (\<lambda>_. []) two_actions_graph (U ''thread'') (JObj [(U ''approved'', JBool False)]) ()) =
      JObj [(U ''decisions'', JList [d, d])] \<and>
    \<not> approving (Some (JObj [(U ''decisions'', JList [d, d])]))"
proof -
  have "map_of [(U ''approved'', JBool False)] (U ''approved'') = Some (JBool False)" by simp
  from api_decision_reaches_graph [OF this, where rep = "\<lambda>_. []" and g = two_actions_graph
      and thread_id = "U ''thread''" and s = "()"]
  show ?thesis
    unfolding two_actions_pending by (auto simp: approving_def numeral_2_eq_2)
qed

end
