(* ===== verification/Agent_Tools.thy ===== *)
theory Agent_Tools
  imports Api_Routes Memory Domain_Graphs
begin

text \<open>
  What the agents can do beside the two domain graphs: the tools of \<open>app/orchestration/toolkit.py\<close>, the
  sub-agents that get them (\<open>build_worker_profiles\<close> of \<open>app/orchestration/workers.py\<close>), and the first and the
  last node of the domain graphs (\<open>app/orchestration/worker_graphs.py\<close>).

  A tool is given the arguments the model chose and the context of the caller, which the framework passes and
  the model cannot change. It returns \<open>model_dump(mode="json")\<close> of the result; a float is the rational it
  denotes.
\<close>

section \<open>Results as JSON\<close>

definition text_list :: "ustr list \<Rightarrow> json" where
  "text_list xs = JList (map JStr xs)"

definition optional :: "ustr option \<Rightarrow> json" where
  "optional v = (case v of None \<Rightarrow> JNull | Some s \<Rightarrow> JStr s)"

definition dump_polish :: "email_polish_draft \<Rightarrow> jdict" where
  "dump_polish d =
     [(U ''subject'', JStr (ed_subject d)), (U ''body'', JStr (ed_body d)), (U ''warnings'', text_list (ed_warnings d)),
      (U ''send_ready'', JBool (ed_send_ready d)), (U ''status'', JStr (U ''draft'')),
      (U ''email_type'', JStr (ed_email_type d)), (U ''primary_intent'', JStr (ed_primary_intent d)),
      (U ''expected_action'', optional (ed_expected_action d)),
      (U ''sensitivity'', JStr (case ed_sensitivity d of Internal \<Rightarrow> U ''internal'' | Sensitive \<Rightarrow> U ''sensitive'')),
      (U ''issues'', text_list (ed_issues d)), (U ''changes'', text_list (ed_changes d)),
      (U ''factual_consistency'', JBool True)]"

definition dump_summary :: "column_summary \<Rightarrow> json" where
  "dump_summary c =
     JObj [(U ''count'', JFloat (Rational (of_nat (cn_count c)))), (U ''min'', JFloat (cn_min c)), (U ''max'', JFloat (cn_max c)),
           (U ''mean'', JFloat (cn_mean c))]"

definition dump_analysis :: "analysis_result \<Rightarrow> jdict" where
  "dump_analysis r =
     [(U ''row_count'', JInt (int (da_row_count r))), (U ''columns'', text_list (da_columns r)),
      (U ''null_counts'', JObj (map (\<lambda>(c, n). (c, JInt (int n))) (da_null_counts r))),
      (U ''status'', JStr (U ''completed'')),
      (U ''numeric_summary'', JObj (map (\<lambda>(c, s). (c, dump_summary s)) (da_numeric_summary r))),
      (U ''duplicate_rows'', JInt (int (da_duplicate_rows r))),
      (U ''quality_warnings'', text_list (da_quality_warnings r)),
      (U ''source_file_id'', optional (da_source_file_id r)), (U ''analysis_spec'', JObj [])]"

definition dump_citation :: "knowledge_citation \<Rightarrow> json" where
  "dump_citation c =
     JObj [(U ''document_id'', JStr (kc_document_id c)), (U ''chunk_id'', JStr (kc_chunk_id c)),
           (U ''title'', JStr (kc_title c))]"

definition dump_answer :: "knowledge_answer \<Rightarrow> jdict" where
  "dump_answer a =
     [(U ''answer'', JStr (ka_answer a)), (U ''citations'', JList (map dump_citation (ka_citations a))),
      (U ''warnings'', text_list (ka_warnings a)),
      (U ''status'', JStr (case ka_status a of
         Completed_k \<Rightarrow> U ''completed'' | Insufficient_evidence \<Rightarrow> U ''insufficient_evidence''))]"

section \<open>The tools\<close>

definition polish_email_tool :: "unicode \<Rightarrow> ustr \<Rightarrow> ustr \<Rightarrow> ustr list \<Rightarrow> jdict" where
  "polish_email_tool u subject body attachments = dump_polish (polish u subject body attachments)"

definition analyze_rows_tool :: "(table_row list \<Rightarrow> analysis_result res) \<Rightarrow> table_row list \<Rightarrow> jdict res" where
  "analyze_rows_tool analysis rows = map_sum id dump_analysis (analysis rows)"

text \<open>The rows of a file of the caller's tenant, analysed, with their source.\<close>

definition file_analysis ::
  "runtime \<Rightarrow> (table_row list \<Rightarrow> analysis_result res) \<Rightarrow> ustr \<Rightarrow> request_context \<Rightarrow> file_state \<Rightarrow>
   analysis_result res \<times> file_state" where
  "file_analysis rt analysis file_id c s =
     bnd (on_files (get_rows rt file_id c) s) (\<lambda>rows s.
       (map_sum id (\<lambda>r. r\<lparr>da_source_file_id := Some file_id\<rparr>) (analysis rows), s))"

definition analyze_file_tool ::
  "runtime \<Rightarrow> (table_row list \<Rightarrow> analysis_result res) \<Rightarrow> ustr \<Rightarrow> request_context \<Rightarrow> file_state \<Rightarrow>
   jdict res \<times> file_state" where
  "analyze_file_tool rt analysis file_id c s =
     bnd (file_analysis rt analysis file_id c s) (\<lambda>r s. (Inr (dump_analysis r), s))"

definition export_analysis_tool ::
  "runtime \<Rightarrow> (table_row list \<Rightarrow> analysis_result res) \<Rightarrow> (ustr \<Rightarrow> ustr) \<Rightarrow> office_writers \<Rightarrow> ustr \<Rightarrow> ustr \<Rightarrow>
   ustr \<Rightarrow> request_context \<Rightarrow> file_state \<Rightarrow> (ustr \<times> ustr) list res \<times> file_state" where
  "export_analysis_tool rt analysis sha w base artifact_id file_id c s =
     bnd (file_analysis rt analysis file_id c s) (\<lambda>r s.
       case export_analysis sha w base artifact_id r c (ft_artifacts s) of
         (x, a) \<Rightarrow> (x, s\<lparr>ft_artifacts := a\<rparr>))"

definition answer_enterprise_knowledge ::
  "(request_context \<Rightarrow> ustr res) option \<Rightarrow> 's knowledge_connector \<Rightarrow> ustr \<Rightarrow> request_context \<Rightarrow> 's \<Rightarrow>
   jdict res \<times> 's" where
  "answer_enterprise_knowledge provider connector query c s =
     bnd (knowledge_service_answer provider connector query c s) (\<lambda>a s. (Inr (dump_answer a), s))"

definition list_confirmed_memories ::
  "(request_context \<Rightarrow> 's \<Rightarrow> memory list \<times> 's) \<Rightarrow> request_context \<Rightarrow> 's \<Rightarrow> jdict list \<times> 's" where
  "list_confirmed_memories list_for c s =
     (case list_for c s of
        (memories, s) \<Rightarrow>
          (map (\<lambda>m. [(U ''key'', JStr (cm_key m)), (U ''value'', JStr (cm_value m))]) memories, s))"

section \<open>The agents\<close>

datatype worker_profile = Tool_agent ustr "ustr list" | Report_graph ustr | Meeting_graph ustr

definition email_tools :: "ustr list" where
  "email_tools = [U ''polish_email'']"

definition data_tools :: "ustr list" where
  "data_tools = [U ''analyze_rows'', U ''analyze_file'', U ''export_analysis'']"

definition knowledge_tools :: "ustr list" where
  "knowledge_tools = [U ''answer_enterprise_knowledge'']"

definition main_tools :: "ustr list" where
  "main_tools = [U ''list_confirmed_memories'']"

definition build_worker_profiles :: "worker_profile list" where
  "build_worker_profiles =
     [Tool_agent (U ''general-purpose'') [], Report_graph (U ''report-agent''), Meeting_graph (U ''meeting-agent''),
      Tool_agent (U ''email-agent'') email_tools, Tool_agent (U ''data-agent'') data_tools,
      Tool_agent (U ''knowledge-agent'') knowledge_tools]"

section \<open>The ends of the domain graphs\<close>

text \<open>\<open>_human_text\<close>, on the reversed messages, and the payload of \<open>_finalize\<close>.\<close>

definition human_text :: "message list \<Rightarrow> ustr" where
  "human_text messages = original_message (rev messages)"

definition finalize_payload :: "(domain_value \<Rightarrow> json) \<Rightarrow> ustr \<Rightarrow> domain_value \<Rightarrow> ustr list \<Rightarrow> json" where
  "finalize_payload dump st value notes =
     JObj [(U ''status'', JStr st), (U ''result'', dump value), (U ''warnings'', text_list notes)]"

section \<open>Tools and routes\<close>

lemma with_http_bnd:
  "with_http cl (bnd m k) = (case m of (Inl e, s) \<Rightarrow> (Inl (as_http cl e), s) | (Inr x, s) \<Rightarrow> with_http cl (k x s))"
  by (cases m; cases "fst m") (auto simp: with_http_def)

text \<open>
  C33: The agent and the API see the same files: for every caller, the tool that analyses a file succeeds
  exactly when the route does, with the result of the route and the file as its source, and fails exactly
  when the route fails, a file that is not found being the \<open>KeyError\<close> behind the 404 of the route; the
  export of the agent and that of the API write the same artifacts. A file of another tenant is not found by
  either.
\<close>

theorem agent_tools_agree_with_routes:
  assumes "identity (file_thread i) = Inr c"
  shows "(case analyze_file_tool rt analysis i c s of
       (Inl e, s') \<Rightarrow> analyze_uploaded_file rt analysis identity i s = (Inl (as_http [not_found ''file''] e), s')
     | (Inr d, s') \<Rightarrow> \<exists>r. analyze_uploaded_file rt analysis identity i s = (Inr r, s') \<and>
         d = dump_analysis (r\<lparr>da_source_file_id := Some i\<rparr>)) \<and>
    (case export_analysis_tool rt analysis sha w base a i c s of
       (Inl e, s') \<Rightarrow>
         export_uploaded_analysis rt analysis sha w base a identity i s = (Inl (as_http [not_found ''file''] e), s')
     | (Inr paths, s') \<Rightarrow> export_uploaded_analysis rt analysis sha w base a identity i s = (Inr paths, s')) \<and>
    (file_store_wf (ft_files s) \<longrightarrow> file_owner (ft_files s) i \<noteq> Some (rc_tenant_id c) \<longrightarrow>
      analyze_file_tool rt analysis i c s = (Inl (Exn KeyErr i), s) \<and>
      export_analysis_tool rt analysis sha w base a i c s = (Inl (Exn KeyErr i), s))"
proof (intro conjI impI)
  obtain r s1 where rows: "on_files (get_rows rt i c) s = (r, s1)" by (rule prod.exhaust)
  note defs = analyze_file_tool_def export_analysis_tool_def file_analysis_def analyze_uploaded_file_def
    export_uploaded_analysis_def assms rows
  show "case analyze_file_tool rt analysis i c s of
       (Inl e, s') \<Rightarrow> analyze_uploaded_file rt analysis identity i s = (Inl (as_http [not_found ''file''] e), s')
     | (Inr d, s') \<Rightarrow> \<exists>r. analyze_uploaded_file rt analysis identity i s = (Inr r, s') \<and>
         d = dump_analysis (r\<lparr>da_source_file_id := Some i\<rparr>)"
  proof (cases r)
    case (Inr table)
    then show ?thesis by (cases "analysis table") (simp_all add: defs with_http_def)
  qed (simp add: defs with_http_def)
  show "case export_analysis_tool rt analysis sha w base a i c s of
       (Inl e, s') \<Rightarrow>
         export_uploaded_analysis rt analysis sha w base a identity i s = (Inl (as_http [not_found ''file''] e), s')
     | (Inr paths, s') \<Rightarrow> export_uploaded_analysis rt analysis sha w base a identity i s = (Inr paths, s')"
  proof (cases r)
    case (Inr table)
    show ?thesis
    proof (cases "analysis table")
      case (Inr res)
      obtain x st where "export_analysis sha w base a (res\<lparr>da_source_file_id := Some i\<rparr>) c (ft_artifacts s1) = (x, st)"
        by (rule prod.exhaust)
      with Inr \<open>r = Inr table\<close> show ?thesis by (cases x) (simp_all add: defs with_http_def)
    qed (use Inr in \<open>simp add: defs with_http_def\<close>)
  qed (simp add: defs with_http_def)
  assume "file_store_wf (ft_files s)" "file_owner (ft_files s) i \<noteq> Some (rc_tenant_id c)"
  from foreign_metadata [OF this] have "on_files (get_rows rt i c) s = (Inl (Exn KeyErr i), s)"
    by (simp add: on_files_def get_rows_def)
  then show "analyze_file_tool rt analysis i c s = (Inl (Exn KeyErr i), s)"
    "export_analysis_tool rt analysis sha w base a i c s = (Inl (Exn KeyErr i), s)"
    by (simp_all add: analyze_file_tool_def export_analysis_tool_def file_analysis_def)
qed

definition no_writers :: office_writers where
  "no_writers = \<lparr>ow_xlsx = \<lambda>_ _. Inr [], ow_docx = \<lambda>_ _. Inr [], ow_pdf = \<lambda>_. Inr [], ow_dumps = \<lambda>_. []\<rparr>"

theorem agent_tools_agree_with_routes_witness:
  "export_analysis_tool demo_runtime (\<lambda>_. Inl (Exn ValueErr [])) id no_writers [] [] (U ''f1'') bob
     \<lparr>ft_files = snd demo_stored, ft_artifacts = \<lparr>as_disk = [], as_table = None\<rparr>, ft_audit = no_records\<rparr> =
   (Inl (Exn KeyErr (U ''f1'')),
     \<lparr>ft_files = snd demo_stored, ft_artifacts = \<lparr>as_disk = [], as_table = None\<rparr>, ft_audit = no_records\<rparr>)"
proof -
  let ?s = "\<lparr>ft_files = snd demo_stored, ft_artifacts = \<lparr>as_disk = [], as_table = None\<rparr>, ft_audit = no_records\<rparr>"
  have "file_store_wf (ft_files ?s)" "file_owner (ft_files ?s) (U ''f1'') = Some (U ''tenant-a'')"
    using store_keeps_wf [OF empty_store_wf demo_stored_run] by (simp_all add: ann_def RequestContext_def)
  moreover have "rc_tenant_id bob = U ''tenant-b''" by (simp add: bob_def RequestContext_def)
  moreover note agent_tools_agree_with_routes [where identity = "\<lambda>_. Inr bob" and c = bob and i = "U ''f1''" and s = ?s
      and rt = demo_runtime and analysis = "\<lambda>_. Inl (Exn ValueErr [])" and sha = id and w = no_writers and base = "[]" and a = "[]", OF refl]
  ultimately show ?thesis by simp
qed

end
