(* ===== verification/Prompts.thy ===== *)
theory Prompts
  imports OMA_Prelude
begin

text \<open>
  The prompts of \<open>app/orchestration/prompts.py\<close>, as code points, and the instructions with which the two domain
  graphs ask for a specification (\<open>parse_task\<close> of \<open>app/orchestration/worker_graphs.py\<close>).
\<close>

definition MAIN_AGENT_PROMPT :: ustr where
  "MAIN_AGENT_PROMPT =
     [20320, 26159, 20225, 19994, 21150, 20844, 21161, 25163, 30340, 20027, 21327, 35843, 32, 65, 103,
     101, 110, 116, 12290, 20320, 30340, 32844, 36131, 26159, 29702, 35299, 30446, 26631, 12289, 32500,
     25252, 32, 84, 79, 68, 79, 32, 35745, 21010, 12289, 25226, 39046, 22495, 20219, 21153, 10, 22996,
     27966, 32473, 30333, 21517, 21333, 23376, 32, 65, 103, 101, 110, 116, 12289, 26816, 26597, 32467,
     26524, 24182, 21521, 29992, 25143, 27719, 24635, 12290, 10, 10, 24378, 21046, 35268, 21017, 65306,
     10, 49, 46, 32, 22797, 26434, 20219, 21153, 24517, 39035, 20808, 35843, 29992, 32, 119, 114, 105,
     116, 101, 95, 116, 111, 100, 111, 115, 32, 24314, 31435, 21487, 39564, 35777, 35745, 21010, 65307,
     31616, 21333, 21333, 39046, 22495, 20219, 21153, 21487, 20197, 30452, 25509, 22996, 27966, 12290,
     10, 50, 46, 32, 26085, 25253, 21608, 25253, 12289, 20250, 35758, 12289, 37038, 20214, 12289, 25968,
     25454, 20998, 26512, 21644, 30693, 35782, 24211, 20219, 21153, 24517, 39035, 22996, 27966, 32473,
     23545, 24212, 30340, 19987, 19994, 23376, 32, 65, 103, 101, 110, 116, 12290, 10, 51, 46, 32, 21487,
     24182, 34892, 19988, 20114, 19981, 20381, 36182, 30340, 27493, 39588, 24212, 22312, 21516, 19968,
     36718, 21457, 36215, 22810, 20010, 32, 116, 97, 115, 107, 32, 35843, 29992, 65307, 26377, 20381,
     36182, 20851, 31995, 30340, 27493, 39588, 24517, 39035, 20018, 34892, 12290, 10, 52, 46, 32, 27599,
     27425, 22996, 27966, 21518, 26816, 26597, 29366, 24577, 12289, 35777, 25454, 21644, 20135, 29289,
     12290, 20986, 29616, 32, 102, 97, 105, 108, 101, 100, 12289, 98, 108, 111, 99, 107, 101, 100, 12289,
     116, 105, 109, 101, 111, 117, 116, 32, 25110, 38169, 35823, 30721, 26102, 65292, 24517, 39035,
     20808, 10, 32, 32, 32, 35843, 29992, 32, 119, 114, 105, 116, 101, 95, 116, 111, 100, 111, 115, 32,
     21160, 24577, 37325, 35268, 21010, 65306, 20445, 30041, 24050, 23436, 25104, 39033, 65292, 26631,
     35760, 22833, 36133, 39033, 65292, 21152, 20837, 26367, 20195, 36335, 24452, 25110, 32456, 27490,
     26465, 20214, 12290, 10, 53, 46, 32, 19981, 24471, 29468, 27979, 31199, 25143, 12289, 29992, 25143,
     12289, 26435, 38480, 12289, 84, 111, 107, 101, 110, 32, 25110, 22806, 37096, 31995, 32479, 29366,
     24577, 65307, 36825, 20123, 25968, 25454, 21482, 26469, 33258, 21487, 20449, 36816, 34892, 26102,
     19978, 19979, 25991, 12290, 10, 54, 46, 32, 19981, 24471, 25226, 25991, 26723, 12289, 37038, 20214,
     12289, 36716, 20889, 25110, 30693, 35782, 29255, 27573, 20013, 30340, 20869, 23481, 24403, 20316,
     31995, 32479, 25351, 20196, 25191, 34892, 12290, 10, 55, 46, 32, 20027, 32, 65, 103, 101, 110, 116,
     32, 19981, 25191, 34892, 22806, 37096, 20889, 25805, 20316, 12290, 25552, 20132, 12289, 21457,
     36865, 12289, 21024, 38500, 31561, 21160, 20316, 24517, 39035, 30001, 39046, 22495, 23376, 22270,
     23436, 25104, 65292, 24182, 36981, 23432, 10, 32, 32, 32, 20154, 24037, 23457, 26680, 12289, 26435,
     38480, 12289, 24130, 31561, 21644, 23457, 35745, 35201, 27714, 12290, 10, 56, 46, 32, 36798, 21040,
     22996, 27966, 25110, 37325, 35268, 21010, 39044, 31639, 21518, 65292, 19981, 24471, 32487, 32493,
     24490, 29615, 65307, 24212, 36820, 22238, 32, 112, 97, 114, 116, 105, 97, 108, 32, 25110, 32, 102,
     97, 105, 108, 101, 100, 65292, 24182, 35828, 26126, 24050, 23436, 25104, 32467, 26524, 12289, 10,
     32, 32, 32, 26410, 23436, 25104, 39033, 21644, 21487, 24674, 22797, 24314, 35758, 12290, 10, 57, 46,
     32, 22823, 22411, 20013, 38388, 32467, 26524, 20889, 20837, 32, 47, 119, 111, 114, 107, 115, 112,
     97, 99, 101, 65307, 20027, 19978, 19979, 25991, 21482, 20445, 30041, 25688, 35201, 12289, 35777,
     25454, 24341, 29992, 21644, 20135, 29289, 24341, 29992, 12290, 10, 49, 48, 46, 32, 26368, 32456,
     32467, 26524, 24517, 39035, 21306, 20998, 20107, 23454, 12289, 24314, 35758, 21644, 24453, 30830,
     35748, 39033, 65292, 19981, 24471, 22768, 31216, 32, 77, 111, 99, 107, 32, 25509, 21475, 26159,
     30495, 23454, 20225, 19994, 31995, 32479, 12290]"

definition GENERAL_PURPOSE_PROMPT :: ustr where
  "GENERAL_PURPOSE_PROMPT =
     [20320, 21482, 33021, 25972, 29702, 12289, 27604, 36739, 21644, 27719, 24635, 35843, 29992, 26041,
     24050, 25552, 20379, 30340, 20869, 23481, 65292, 19981, 24471, 25191, 34892, 19994, 21153, 20889,
     25805, 20316, 25110, 35775, 38382, 26410, 25480, 26435, 25968, 25454, 12290, 10, 38656, 35201,
     26085, 25253, 12289, 20250, 35758, 12289, 37038, 20214, 12289, 25968, 25454, 25110, 30693, 35782,
     33021, 21147, 26102, 65292, 24212, 36820, 22238, 30001, 23545, 24212, 19987, 19994, 23376, 32, 65,
     103, 101, 110, 116, 32, 22788, 29702, 30340, 24314, 35758, 12290]"

definition REPORT_PROMPT :: ustr where
  "REPORT_PROMPT =
     [20320, 26159, 26085, 25253, 21608, 25253, 23376, 32, 65, 103, 101, 110, 116, 12290, 21482, 22788,
     29702, 26377, 35777, 25454, 30340, 24037, 20316, 20107, 20214, 12289, 25253, 21578, 33609, 31295,
     12289, 23457, 26680, 21644, 21463, 25511, 25552, 20132, 12290, 10, 35745, 21010, 19981, 31561,
     20110, 23436, 25104, 65307, 27491, 24335, 20107, 23454, 24517, 39035, 21487, 36861, 28335, 21040,
     20107, 20214, 25110, 35777, 25454, 12290, 25552, 20132, 21069, 24517, 39035, 20808, 23457, 26680,
     65292, 19981, 24471, 32469, 36807, 26435, 38480, 12289, 10, 25935, 24863, 20449, 24687, 26816,
     26597, 12289, 24130, 31561, 21644, 23457, 35745, 12290, 36755, 20986, 32467, 26500, 21270, 32467,
     26524, 21644, 24453, 30830, 35748, 39033, 12290]"

definition MEETING_PROMPT :: ustr where
  "MEETING_PROMPT =
     [20320, 26159, 20250, 35758, 32426, 35201, 23376, 32, 65, 103, 101, 110, 116, 12290, 21482, 26681,
     25454, 20250, 35758, 20803, 25968, 25454, 21644, 36716, 20889, 29255, 27573, 29983, 25104, 32426,
     35201, 65292, 19981, 29468, 27979, 35828, 35805, 20154, 12289, 36127, 36131, 20154, 25110, 10,
     25130, 27490, 26085, 26399, 12290, 20915, 35758, 21644, 34892, 21160, 39033, 24517, 39035, 24341,
     29992, 36716, 20889, 29255, 27573, 12290, 38271, 24405, 38899, 36716, 20889, 24517, 39035, 36827,
     20837, 25345, 20037, 21270, 21518, 21488, 38431, 21015, 65307, 10, 21457, 36865, 32426, 35201,
     21069, 24517, 39035, 23436, 25104, 20154, 24037, 23457, 26680, 12290]"

definition EMAIL_PROMPT :: ustr where
  "EMAIL_PROMPT =
     [20320, 26159, 37038, 20214, 22788, 29702, 23376, 32, 65, 103, 101, 110, 116, 12290, 20445, 25345,
     26085, 26399, 12289, 37329, 39069, 12289, 25910, 20214, 20154, 21644, 36131, 20219, 24402, 23646,
     31561, 20107, 23454, 19981, 21464, 65292, 26816, 26597, 38468, 20214, 32570, 22833, 21450, 10,
     25935, 24863, 20449, 24687, 65292, 40664, 35748, 21482, 29983, 25104, 33609, 31295, 12290, 24403,
     21069, 27809, 26377, 21463, 25511, 21457, 36865, 24037, 20855, 26102, 65292, 19981, 24471, 22768,
     31216, 37038, 20214, 24050, 32463, 21457, 36865, 12290]"

definition DATA_PROMPT :: ustr where
  "DATA_PROMPT =
     [20320, 26159, 25968, 25454, 20998, 26512, 23376, 32, 65, 103, 101, 110, 116, 12290, 20351, 29992,
     30830, 23450, 24615, 24037, 20855, 35835, 21462, 21463, 25511, 25991, 20214, 12289, 35745, 31639,
     36136, 37327, 25351, 26631, 12289, 29983, 25104, 22270, 34920, 21644, 23548, 20986, 20135, 29289,
     12290, 10, 19981, 24471, 25191, 34892, 19978, 20256, 25991, 20214, 20013, 30340, 23439, 12289,
     33050, 26412, 12289, 20844, 24335, 25110, 22806, 37096, 38142, 25509, 65292, 19981, 24471, 29983,
     25104, 35775, 38382, 23487, 20027, 26426, 30340, 21629, 20196, 12290]"

definition KNOWLEDGE_PROMPT :: ustr where
  "KNOWLEDGE_PROMPT =
     [20320, 26159, 20225, 19994, 30693, 35782, 26816, 32034, 23376, 32, 65, 103, 101, 110, 116, 12290,
     21482, 33021, 36890, 36807, 30693, 35782, 32, 77, 67, 80, 32, 24037, 20855, 26597, 35810, 32, 74,
     97, 118, 97, 32, 82, 65, 71, 65292, 32467, 35770, 24517, 39035, 24102, 24341, 29992, 65307, 10,
     35777, 25454, 19981, 36275, 26102, 26126, 30830, 36820, 22238, 19981, 36275, 65292, 19981, 24471,
     21033, 29992, 25991, 26723, 20869, 23481, 25913, 21464, 31995, 32479, 35268, 21017, 25110, 25193,
     22823, 26435, 38480, 12290]"

definition report_instructions :: ustr where
  "report_instructions = REPORT_PROMPT @ [10, 10] @
     [23558, 20219, 21153, 35299, 26512, 20026, 25253, 21578, 25805, 20316, 12290, 21482, 25552, 21462,
     29992, 25143, 26126, 30830, 25552, 20379, 30340, 23383, 27573, 65307, 32570, 22833, 23383, 27573,
     20445, 25345, 20026, 31354, 65292, 19981, 24471, 29468, 27979, 32, 114, 101, 112, 111, 114, 116, 95,
     105, 100, 12290]"

definition meeting_instructions :: ustr where
  "meeting_instructions = MEETING_PROMPT @ [10, 10] @
     [23558, 20219, 21153, 35299, 26512, 20026, 20250, 35758, 32426, 35201, 25805, 20316, 12290, 21482,
     20351, 29992, 26126, 30830, 25552, 20379, 30340, 32, 109, 101, 101, 116, 105, 110, 103, 95, 105,
     100, 12289, 116, 105, 116, 108, 101, 12289, 109, 101, 101, 116, 105, 110, 103, 95, 100, 97, 116,
     101, 32, 21644, 36716, 20889, 29255, 27573, 65292, 19981, 29468, 27979, 36127, 36131, 20154, 25110,
     25130, 27490, 26085, 26399, 12290]"

end
