(* ===== verification/Agent_Graphs.thy ===== *)
theory Agent_Graphs
  imports Agent_Tools Prompts Planning
begin

text \<open>
  The agents as they are put together: the supervisor (\<open>build_supervisor\<close> of \<open>app/orchestration/supervisor.py\<close>),
  the two domain graphs with their edges, their first and their last node (\<open>app/orchestration/worker_graphs.py\<close>),
  and what the answer of a domain graph does to the supervisor's next request.

  The framework that runs the graphs is not modelled. What is used of it: it follows the declared edges, runs
  an interrupted node again with the decision, and hands the text of a graph's last message to the supervisor
  as the answer of the tool \<open>task\<close>.
\<close>

section \<open>The supervisor\<close>

text \<open>
  What \<open>build_supervisor\<close> passes on: \<open>su_routes\<close> are the stores of \<open>CompositeBackend\<close> with their namespaces,
  \<open>su_memory\<close> the files loaded into the prompt, \<open>su_deny_write\<close> the paths no tool may write.
\<close>

record supervisor_parts =
  su_name :: ustr
  su_tools :: "ustr list"
  su_prompt :: ustr
  su_budget :: budget
  su_subagents :: "worker_profile list"
  su_routes :: "(ustr \<times> (request_context \<Rightarrow> ustr list)) list"
  su_memory :: "ustr list"
  su_deny_write :: "ustr list"

definition build_supervisor :: "int \<Rightarrow> int \<Rightarrow> supervisor_parts res" where
  "build_supervisor max_delegations max_plan_updates =
     map_sum id
       (\<lambda>b. \<lparr>su_name = U ''office-main-agent'', su_tools = main_tools, su_prompt = MAIN_AGENT_PROMPT, su_budget = b,
          su_subagents = build_worker_profiles, su_routes = [(U ''/memories/'', memory_namespace)],
          su_memory = [U ''/memories/confirmed.md''], su_deny_write = [U ''/memories/**'', U ''/policies/**'']\<rparr>)
       (PlanningBudget max_delegations max_plan_updates)"

text \<open>
  The files loaded into the prompt lie in a store of the caller's own, under a path whose subtree no tool may
  write.
\<close>

lemma memory_files_are_protected:
  assumes "build_supervisor max_delegations max_plan_updates = Inr parts" "f \<in> set (su_memory parts)"
  shows "\<exists>d. (d, memory_namespace) \<in> set (su_routes parts) \<and> prefix d f \<and> d @ U ''**'' \<in> set (su_deny_write parts)"
proof -
  have "prefix (U ''/memories/'') (U ''/memories/confirmed.md'')"
    "U ''/memories/'' @ U ''**'' = U ''/memories/**''"
    by (simp_all add: U_def)
  with assms show ?thesis
    by (auto simp: build_supervisor_def PlanningBudget_def split: if_splits intro!: exI [of _ "U ''/memories/''"])
qed

lemma memory_namespace_inj:
  "memory_namespace c = memory_namespace c' \<longleftrightarrow>
    rc_tenant_id c = rc_tenant_id c' \<and> rc_operator_id c = rc_operator_id c'"
  by (simp add: memory_namespace_def)

section \<open>The shape of the domain graphs\<close>

datatype place = START | END | Node ustr

text \<open>The edges, and the conditional edges with their source and the node for each label.\<close>

record graph_shape =
  gs_edges :: "(place \<times> place) list"
  gs_branch :: "place \<times> (ustr \<times> ustr) list"

definition report_shape :: graph_shape where
  "report_shape =
     \<lparr>gs_edges =
        (START, Node (U ''parse_report_task''))
        # map (\<lambda>n. (Node n, Node (U ''finalize_report''))) [U ''draft_report'', U ''review_report'', U ''submit_report'']
        @ [(Node (U ''finalize_report''), END)],
      gs_branch =
        (Node (U ''parse_report_task''),
         [(U ''draft'', U ''draft_report''), (U ''review'', U ''review_report''), (U ''submit'', U ''submit_report'')])\<rparr>"

definition meeting_shape :: graph_shape where
  "meeting_shape =
     \<lparr>gs_edges =
        (START, Node (U ''parse_meeting_task''))
        # map (\<lambda>n. (Node n, Node (U ''finalize_meeting'')))
            [U ''enqueue_transcription'', U ''generate_minutes'', U ''review_minutes'', U ''send_minutes'']
        @ [(Node (U ''finalize_meeting''), END)],
      gs_branch =
        (Node (U ''parse_meeting_task''),
         [(U ''transcribe'', U ''enqueue_transcription''), (U ''generate'', U ''generate_minutes''),
          (U ''review'', U ''review_minutes''), (U ''send'', U ''send_minutes'')])\<rparr>"

text \<open>\<open>route\<close>: the label is the operation.\<close>

fun report_route :: "report_operation \<Rightarrow> ustr" where
  "report_route Draft_op = U ''draft''"
| "report_route Review_op = U ''review''"
| "report_route Submit_op = U ''submit''"

fun meeting_route :: "meeting_operation \<Rightarrow> ustr" where
  "meeting_route Transcribe_op = U ''transcribe''"
| "meeting_route Generate_op = U ''generate''"
| "meeting_route Review_minutes_op = U ''review''"
| "meeting_route Send_op = U ''send''"

definition advance :: "graph_shape \<Rightarrow> ustr \<Rightarrow> place \<Rightarrow> place option" where
  "advance g label p =
     (if p = fst (gs_branch g) then map_option Node (map_of (snd (gs_branch g)) label) else map_of (gs_edges g) p)"

fun itinerary :: "nat \<Rightarrow> graph_shape \<Rightarrow> ustr \<Rightarrow> place \<Rightarrow> place list" where
  "itinerary 0 g label p = [p]"
| "itinerary (Suc k) g label p =
     p # (case advance g label p of None \<Rightarrow> [] | Some q \<Rightarrow> itinerary k g label q)"

text \<open>
  Every run parses the task, works at the one node of its operation, finalizes and ends: more fuel does not
  make it longer.
\<close>

lemma report_itinerary:
  "itinerary (k + 5) report_shape (report_route op) START =
    [START, Node (U ''parse_report_task''),
     Node (case op of Draft_op \<Rightarrow> U ''draft_report'' | Review_op \<Rightarrow> U ''review_report''
       | Submit_op \<Rightarrow> U ''submit_report''),
     Node (U ''finalize_report''), END]"
  by (cases op) (simp_all add: numeral_eq_Suc report_shape_def advance_def)

lemma meeting_itinerary:
  "itinerary (k + 5) meeting_shape (meeting_route op) START =
    [START, Node (U ''parse_meeting_task''),
     Node (case op of Transcribe_op \<Rightarrow> U ''enqueue_transcription'' | Generate_op \<Rightarrow> U ''generate_minutes''
       | Review_minutes_op \<Rightarrow> U ''review_minutes'' | Send_op \<Rightarrow> U ''send_minutes''),
     Node (U ''finalize_meeting''), END]"
  by (cases op) (simp_all add: numeral_eq_Suc meeting_shape_def advance_def)

section \<open>The first and the last node\<close>

text \<open>
  \<open>parse_task\<close>: \<open>ask\<close> is the model's structured answer to an instruction and a human message, validated
  as a specification.
\<close>

definition parse_task ::
  "ustr \<Rightarrow> (ustr \<Rightarrow> ustr \<Rightarrow> 's \<Rightarrow> 'p res \<times> 's) \<Rightarrow> message list \<Rightarrow> 's \<Rightarrow> 'p res \<times> 's" where
  "parse_task instructions ask messages s = ask instructions (human_text messages) s"

text \<open>A graph from its start to its first stop: \<open>parse_task\<close>, then the node of the operation.\<close>

definition graph_start ::
  "ustr \<Rightarrow> (ustr \<Rightarrow> ustr \<Rightarrow> 's \<Rightarrow> 'p res \<times> 's) \<Rightarrow> ('p, 's) graph_node \<Rightarrow> message list \<Rightarrow> request_context \<Rightarrow> 's \<Rightarrow>
   'p thread \<times> 's" where
  "graph_start instructions ask node messages c s =
     (case parse_task instructions ask messages s of
        (Inl e, s) \<Rightarrow> (Broken e, s)
      | (Inr spec, s) \<Rightarrow> thread_start node spec c s)"

text \<open>
  \<open>json.dumps(v, ensure_ascii=False)\<close> with the default separators; \<open>fl\<close> is \<open>float.__repr__\<close>.
\<close>

fun json_dumps :: "(py_float \<Rightarrow> ustr) \<Rightarrow> json \<Rightarrow> ustr" where
  "json_dumps fl JNull = U ''null''"
| "json_dumps fl (JBool b) = (if b then U ''true'' else U ''false'')"
| "json_dumps fl (JInt n) = dec n"
| "json_dumps fl (JFloat x) = fl x"
| "json_dumps fl (JStr s) = json_string s"
| "json_dumps fl (JList vs) = [91] @ join [44, 32] (map (json_dumps fl) vs) @ [93]"
| "json_dumps fl (JObj d) = [123] @ join [44, 32] (map (\<lambda>(k, v). json_string k @ [58, 32] @ json_dumps fl v) d) @ [125]"

text \<open>The text of the message that \<open>_finalize\<close> appends; \<open>dump\<close> is \<open>model_dump(mode="json")\<close> of the result.\<close>

definition graph_answer :: "(py_float \<Rightarrow> ustr) \<Rightarrow> (domain_value \<Rightarrow> json) \<Rightarrow> ustr \<Rightarrow> domain_value \<Rightarrow> ustr list \<Rightarrow> ustr" where
  "graph_answer fl dump st value notes = json_dumps fl (finalize_payload dump st value notes)"

section \<open>Threads of the graphs\<close>

text \<open>
  The threads a graph can be in: started on a task, resumed with a decision, each time on whatever state the
  application has reached.
\<close>

inductive graph_run ::
  "ustr \<Rightarrow> (ustr \<Rightarrow> ustr \<Rightarrow> 's \<Rightarrow> 'p res \<times> 's) \<Rightarrow> ('p, 's) graph_node \<Rightarrow> 'p thread \<Rightarrow> bool"
  for instructions ask node where
  begun: "graph_start instructions ask node messages c s = (t, s') \<Longrightarrow> graph_run instructions ask node t"
| resumed: "graph_run instructions ask node t \<Longrightarrow> thread_resume node t decision c s = (t', s') \<Longrightarrow>
    graph_run instructions ask node t'"

lemma graph_run_statuses:
  assumes "graph_run instructions ask node (Finished st value notes)"
    and "\<And>spec resume c s st value notes s'.
      node spec resume c s = (Inr (Update st value notes), s') \<Longrightarrow> st \<in> allowed"
  shows "st \<in> allowed"
proof -
  have "\<forall>st value notes. t = Finished st value notes \<longrightarrow> st \<in> allowed"
    if "graph_run instructions ask node t" for t
    using that
  proof induction
    case (begun messages c s t s')
    then show ?case
      using assms(2) by (auto simp: graph_start_def thread_start_def after_node_def
          split: prod.splits sum.splits node_out.splits)
  next
    case (resumed t decision c s t' s')
    then show ?case
      using assms(2) by (cases t) (auto simp: after_node_def split: prod.splits sum.splits node_out.splits)
  qed
  with assms(1) show ?thesis by blast
qed

lemma completed_status: "completed f m = (Inr (Update st value notes), s') \<Longrightarrow> st = U ''completed''"
  by (auto simp: completed_def bnd_iff)

lemma controlled_status:
  assumes "controlled tool args refusal resume act s = (Inr (Update st value notes), s')"
    and "\<And>s. act s = (Inr (Update st value notes), s') \<Longrightarrow> st = U ''completed''"
  shows "st = U ''blocked'' \<or> st = U ''completed''"
  using assms by (auto simp: controlled_def split: option.splits if_splits)

lemma prepare_draft_status:
  assumes "prepare_draft svc add6 spec c s = (Inr (Update st value notes), s')"
  shows "st = U ''completed'' \<or> st = U ''failed''"
  using assms unfolding prepare_draft_def Let_def
  by (auto simp only: bnd_iff case_prod_unfold prod.inject sum.inject node_out.inject
      split: option.splits list.splits dest: completed_status)

lemma generate_node_status:
  assumes "generate_node svc rep spec c s = (Inr (Update st value notes), s')"
  shows "st = U ''completed''"
  using assms unfolding generate_node_def case_prod_unfold by (auto simp only: bnd_iff dest: completed_status)

lemma report_node_status:
  assumes "report_node svc add6 spec resume c s = (Inr (Update st value notes), s')"
  shows "st \<in> {U ''completed'', U ''failed'', U ''blocked''}"
  using assms unfolding report_node_def
  by (auto split: report_operation.splits option.splits list.splits
      dest!: prepare_draft_status controlled_status [OF _ completed_status])

lemma meeting_node_status:
  assumes "meeting_node svc rep spec resume c s = (Inr (Update st value notes), s')"
  shows "st \<in> {U ''completed'', U ''queued'', U ''blocked''}"
  using assms unfolding meeting_node_def
  by (auto simp: bnd_iff split: meeting_operation.splits prod.splits
      dest!: generate_node_status controlled_status [OF _ completed_status])

section \<open>What the supervisor makes of an answer\<close>

text \<open>The answers of the two graphs, with their status.\<close>

inductive domain_answer ::
  "(ustr \<Rightarrow> ustr \<Rightarrow> 's \<Rightarrow> report_spec res \<times> 's) \<Rightarrow> (ustr \<Rightarrow> ustr \<Rightarrow> 's \<Rightarrow> meeting_spec res \<times> 's) \<Rightarrow>
   's domain_services \<Rightarrow> (ustr \<Rightarrow> ustr res) \<Rightarrow> (json \<Rightarrow> ustr) \<Rightarrow> (py_float \<Rightarrow> ustr) \<Rightarrow> (domain_value \<Rightarrow> json) \<Rightarrow>
   ustr \<Rightarrow> ustr \<Rightarrow> bool"
  for ask_report ask_meeting svc add6 rep fl dump where
  report: "graph_run report_instructions ask_report (report_node svc add6) (Finished st value notes) \<Longrightarrow>
    domain_answer ask_report ask_meeting svc add6 rep fl dump st (graph_answer fl dump st value notes)"
| meeting: "graph_run meeting_instructions ask_meeting (meeting_node svc rep) (Finished st value notes) \<Longrightarrow>
    domain_answer ask_report ask_meeting svc add6 rep fl dump st (graph_answer fl dump st value notes)"

text \<open>Lowering leaves a start without capitals, all of ASCII, as it is.\<close>

definition lowers_ascii :: "(ustr \<Rightarrow> ustr) \<Rightarrow> bool" where
  "lowers_ascii lower \<longleftrightarrow>
     (\<forall>start rest. (\<forall>c \<in> set start. c < 128 \<and> \<not> (65 \<le> c \<and> c \<le> 90)) \<longrightarrow> prefix start (lower (start @ rest)))"

lemma answer_start:
  "prefix (123 # json_string (U ''status'') @ [58, 32] @ json_string st) (graph_answer fl dump st value notes)"
  by (simp add: graph_answer_def finalize_payload_def)

lemma unsuccessful_answer_fails:
  assumes "lowers_ascii lower" "st \<in> {U ''failed'', U ''blocked''}"
  shows "is_failure lower (message.ToolMessage (graph_answer fl dump st value notes))"
proof -
  define start where "start = 123 # json_string (U ''status'') @ [58, 32] @ json_string st"
  obtain rest where "graph_answer fl dump st value notes = start @ rest"
    using answer_start unfolding start_def prefix_def by blast
  moreover have "\<forall>c \<in> set start. c < 128 \<and> \<not> (65 \<le> c \<and> c \<le> 90)"
    using assms(2) by (auto simp: start_def json_string_def json_escape_def short_escapes_def U_def)
  ultimately have "prefix start (lower (graph_answer fl dump st value notes))"
    using assms(1) by (auto simp: lowers_ascii_def)
  moreover have "\<exists>m \<in> set failure_markers. sublist m start"
    using assms(2)
    by (auto simp: start_def failure_markers_def json_string_def json_escape_def short_escapes_def U_def
        simp flip: contains_sublist)
  ultimately show ?thesis
    by (auto simp: list_ex_iff contains_sublist intro: sublist_order.order.trans)
qed

section \<open>Properties\<close>

text \<open>
  C34: Whatever a run of one of the domain graphs answers, its status is one of completed, queued, failed and
  blocked. When the graph failed or was refused, and the supervisor has planned nothing since it received
  that answer, its model may not delegate: while both budgets last, the next request offers all tools but
  \<open>task\<close>.
\<close>

theorem unsuccessful_graphs_gate_delegation:
  assumes "domain_answer ask_report ask_meeting svc add6 rep fl dump st text" "lowers_ascii lower"
    and "mq_messages r = earlier @ message.ToolMessage text # later" "\<forall>m \<in> set later. \<not> is_plan m"
    and "count_tool_calls (mq_messages r) (U ''task'') < pb_max_delegations b"
    and "count_tool_calls (mq_messages r) (U ''write_todos'') < pb_max_plan_updates b"
  shows "st \<in> {U ''completed'', U ''queued'', U ''failed'', U ''blocked''} \<and>
    (st \<in> {U ''failed'', U ''blocked''} \<longrightarrow>
      mq_tools_offered (limited_request lower b r) =
        filter (\<lambda>t. tool_name t \<noteq> Some (U ''task'')) (mq_tools_offered r))"
proof
  show "st \<in> {U ''completed'', U ''queued'', U ''failed'', U ''blocked''}"
    using assms(1)
  proof cases
    case (report v ws)
    have "st \<in> {U ''completed'', U ''failed'', U ''blocked''}"
      using report(2) by (rule graph_run_statuses) (rule report_node_status)
    then show ?thesis by blast
  next
    case (meeting v ws)
    have "st \<in> {U ''completed'', U ''queued'', U ''blocked''}"
      using meeting(2) by (rule graph_run_statuses) (rule meeting_node_status)
    then show ?thesis by blast
  qed
  show "st \<in> {U ''failed'', U ''blocked''} \<longrightarrow>
      mq_tools_offered (limited_request lower b r) =
        filter (\<lambda>t. tool_name t \<noteq> Some (U ''task'')) (mq_tools_offered r)"
  proof
    assume st: "st \<in> {U ''failed'', U ''blocked''}"
    from assms(1) have "is_failure lower (message.ToolMessage text)"
      by cases (use unsuccessful_answer_fails [OF assms(2) st] in \<open>simp_all only:\<close>)
    with assms(3,4) have "requires_replan lower (mq_messages r)"
      unfolding requires_replan_iff by (metis is_plan.simps(3) set_ConsD)
    with assms(5,6) show "mq_tools_offered (limited_request lower b r) =
        filter (\<lambda>t. tool_name t \<noteq> Some (U ''task'')) (mq_tools_offered r)"
      by (simp add: limited_request_def Let_def with_notice_def without_tool_def)
  qed
qed

text \<open>
  A user asks for the submission of a report and refuses it at the interrupt; the supervisor is offered
  everything but another delegation.
\<close>

definition refused_answer :: ustr where
  "refused_answer = graph_answer (\<lambda>_. []) (\<lambda>_. JObj []) (U ''blocked'') No_value
     [[29992, 25143, 25298, 32477, 25552, 20132, 25253, 21578, 12290]]"

lemma refused_run:
  "domain_answer (\<lambda>_ _ s. (Inr submit_spec, s)) (\<lambda>_ _ s. (Inr send_spec, s)) counting_services Inr (\<lambda>_. [])
     (\<lambda>_. []) (\<lambda>_. JObj []) (U ''blocked'') refused_answer"
proof -
  let ?node = "report_node counting_services Inr"
  let ?ask = "\<lambda>_ _ s. (Inr submit_spec, s) :: report_spec res \<times> nat"
  let ?req = "approval_request_value (U ''submit_report'') [(U ''report_id'', JStr (U ''r1''))]"
  have "graph_start report_instructions ?ask ?node [] example_caller 0 = (Waiting submit_spec ?req, 0)"
    by (simp add: graph_start_def parse_task_def thread_start_def after_node_def report_node_def submit_spec_def
        controlled_def U_def)
  then have "graph_run report_instructions ?ask ?node (Waiting submit_spec ?req)"
    by (rule graph_run.begun)
  moreover have "thread_resume ?node (Waiting submit_spec ?req) (decisions_value (U ''reject'')) example_caller 0 =
    (Finished (U ''blocked'') No_value [[29992, 25143, 25298, 32477, 25552, 20132, 25253, 21578, 12290]], 0)"
    by (simp add: after_node_def report_node_def submit_spec_def controlled_def decisions_value_def U_def)
  ultimately have "graph_run report_instructions ?ask ?node
      (Finished (U ''blocked'') No_value [[29992, 25143, 25298, 32477, 25552, 20132, 25253, 21578, 12290]])"
    by (rule graph_run.resumed)
  then show ?thesis unfolding refused_answer_def by (rule domain_answer.report)
qed

theorem unsuccessful_graphs_gate_delegation_witness:
  "mq_tools_offered (limited_request id \<lparr>pb_max_delegations = 8, pb_max_plan_updates = 3\<rparr>
     (demo_request [demo_plan, message.ToolMessage refused_answer])) = [BaseTool (U ''write_todos'')]"
proof -
  let ?r = "demo_request [demo_plan, message.ToolMessage refused_answer]"
  have "lowers_ascii id" by (simp add: lowers_ascii_def)
  moreover have "mq_messages ?r = [demo_plan] @ message.ToolMessage refused_answer # []"
    by (simp add: demo_request_def)
  moreover have "count_tool_calls (mq_messages ?r) (U ''task'') < 8"
    "count_tool_calls (mq_messages ?r) (U ''write_todos'') < 3"
    by (simp_all add: demo_request_def count_tool_calls_def demo_plan_def call_named_def)
  ultimately show ?thesis
    using unsuccessful_graphs_gate_delegation [OF refused_run, of id ?r "[demo_plan]" "[]"
        "\<lparr>pb_max_delegations = 8, pb_max_plan_updates = 3\<rparr>"]
    by (simp add: demo_request_def)
qed

text \<open>
  The gate reads the whole text of an answer: the draft of a report that was completed and only quotes an
  event about a timeout closes it as well.
\<close>

lemma completed_answer_about_timeouts_gates:
  "is_failure id (message.ToolMessage (graph_answer (\<lambda>_. []) (\<lambda>_. JStr (U ''fixed a login timeout'')) (U ''completed'')
     No_value []))"
  by (simp add: graph_answer_def finalize_payload_def text_list_def json_string_def json_escape_def short_escapes_def
      failure_markers_def U_def)

end
