(* ===== verification/Model_Json.thy ===== *)
theory Model_Json
  imports Domain_Graphs Api_Routes "HOL-Library.Monad_Syntax"
begin

text \<open>
  The models of \<open>app/schemas\<close> and of the domain graphs as JSON: what \<open>model_validate\<close> accepts, with the limits
  the fields declare, and what \<open>model_dump(mode="json")\<close> writes. The routes get their bodies through the first;
  the database keeps the drafts of reports and minutes as the second and reads them back through the first.

  A reader returns \<open>None\<close> where the library raises \<open>ValidationError\<close>. The values a number, a truth value or a
  time may be converted from (a numeral in a string, say) are the library's choice: they are a parameter.
  Strings are not converted. Keys a model does not declare are ignored.
\<close>

section \<open>Reading a field\<close>

record conversions =
  lx_int :: "json \<Rightarrow> int option"
  lx_float :: "json \<Rightarrow> rat option"
  lx_bool :: "json \<Rightarrow> bool option"
  lx_time :: "json \<Rightarrow> instant option"

text \<open>Every value of the type itself is taken as it is, and a time from the text that is written for it.\<close>

definition takes_native :: "(instant \<Rightarrow> ustr) \<Rightarrow> conversions \<Rightarrow> bool" where
  "takes_native stamp p \<longleftrightarrow>
     (\<forall>n. lx_int p (JInt n) = Some n) \<and> (\<forall>x. lx_float p (JFloat (Rational x)) = Some x) \<and>
     (\<forall>b. lx_bool p (JBool b) = Some b) \<and> (\<forall>t. lx_time p (JStr (stamp t)) = Some t)"

fun read_str :: "json \<Rightarrow> ustr option" where
  "read_str (JStr s) = Some s"
| "read_str _ = None"

fun read_dict :: "json \<Rightarrow> jdict option" where
  "read_dict (JObj d) = Some d"
| "read_dict _ = None"

fun read_list :: "(json \<Rightarrow> 'a option) \<Rightarrow> json \<Rightarrow> 'a list option" where
  "read_list rd (JList vs) = those (map rd vs)"
| "read_list rd _ = None"

definition read_nullable :: "(json \<Rightarrow> 'a option) \<Rightarrow> json \<Rightarrow> 'a option option" where
  "read_nullable rd v = (if v = JNull then Some None else map_option Some (rd v))"

definition read_literal :: "(string \<times> 'a) list \<Rightarrow> json \<Rightarrow> 'a option" where
  "read_literal table v =
     do { s \<leftarrow> read_str v; map_of (map (\<lambda>(k, x). (U k, x)) table) s }"

definition read_limited :: "('a \<Rightarrow> bool) \<Rightarrow> (json \<Rightarrow> 'a option) \<Rightarrow> json \<Rightarrow> 'a option" where
  "read_limited admits rd v = do { x \<leftarrow> rd v; if admits x then Some x else None }"

definition read_field :: "string \<Rightarrow> (json \<Rightarrow> 'a option) \<Rightarrow> jdict \<Rightarrow> 'a option" where
  "read_field k rd d = do { v \<leftarrow> map_of d (U k); rd v }"

definition read_field_or :: "'a \<Rightarrow> string \<Rightarrow> (json \<Rightarrow> 'a option) \<Rightarrow> jdict \<Rightarrow> 'a option" where
  "read_field_or x k rd d = (case map_of d (U k) of None \<Rightarrow> Some x | Some v \<Rightarrow> rd v)"

abbreviation read_texts :: "json \<Rightarrow> ustr list option" where
  "read_texts \<equiv> read_list read_str"

abbreviation text_or_null :: "string \<Rightarrow> jdict \<Rightarrow> ustr option option" where
  "text_or_null k \<equiv> read_field_or None k (read_nullable read_str)"

abbreviation sized :: "nat \<Rightarrow> nat \<Rightarrow> json \<Rightarrow> ustr option" where
  "sized least greatest \<equiv> read_limited (\<lambda>s. least \<le> length s \<and> length s \<le> greatest) read_str"

section \<open>Writing and reading again\<close>

text \<open>A type whose values are written as JSON and read back; \<open>ok\<close> are the values its model admits.\<close>

locale json_codec =
  fixes dump :: "'a \<Rightarrow> json" and rd :: "json \<Rightarrow> 'a option" and ok :: "'a \<Rightarrow> bool"
  assumes roundtrip: "ok x \<Longrightarrow> rd (dump x) = Some x"
    and dump_not_null: "dump x \<noteq> JNull"
begin

lemma list_roundtrip: "\<forall>x \<in> set xs. ok x \<Longrightarrow> read_list rd (JList (map dump xs)) = Some xs"
  by (induction xs) (simp_all add: roundtrip)

lemma nullable_roundtrip:
  "(case v of None \<Rightarrow> True | Some x \<Rightarrow> ok x) \<Longrightarrow>
    read_nullable rd (case v of None \<Rightarrow> JNull | Some x \<Rightarrow> dump x) = Some v"
  by (cases v) (simp_all add: read_nullable_def roundtrip dump_not_null)

end

interpretation text_codec: json_codec JStr read_str "\<lambda>_. True"
  by unfold_locales simp_all

section \<open>Reports\<close>

definition report_statuses :: "(string \<times> report_status) list" where
  "report_statuses = [(''draft'', Draft_r), (''approved'', Approved_r), (''rejected'', Rejected_r), (''submitted'', Submitted_r)]"

definition report_types :: "(string \<times> report_type) list" where
  "report_types = [(''daily'', Daily), (''weekly'', Weekly)]"

text \<open>The text of a value in a table of literals.\<close>

definition label_of :: "(string \<times> 'a) list \<Rightarrow> 'a \<Rightarrow> json" where
  "label_of table x = JStr (case find (\<lambda>(k, y). y = x) table of Some (k, _) \<Rightarrow> U k | None \<Rightarrow> [])"

definition json_texts :: "ustr list \<Rightarrow> json" where
  "json_texts ts = JList (map JStr ts)"

definition json_nullable :: "('a \<Rightarrow> json) \<Rightarrow> 'a option \<Rightarrow> json" where
  "json_nullable dump v = (case v of None \<Rightarrow> JNull | Some x \<Rightarrow> dump x)"

definition dump_report_draft :: "report_draft \<Rightarrow> jdict" where
  "dump_report_draft d =
     [(U ''report_id'', JStr (rd_report_id d)), (U ''report_date'', JStr (rd_report_date d)),
      (U ''completed'', json_texts (rd_completed d)), (U ''in_progress'', json_texts (rd_in_progress d)),
      (U ''risks'', json_texts (rd_risks d)), (U ''evidence_event_ids'', json_texts (rd_evidence_event_ids d)),
      (U ''status'', label_of report_statuses (rd_status d)),
      (U ''review_comment'', json_nullable JStr (rd_review_comment d)),
      (U ''report_type'', label_of report_types (rd_report_type d)), (U ''overview'', JStr (rd_overview d)),
      (U ''plans'', json_texts (rd_plans d)), (U ''coordination_items'', json_texts (rd_coordination_items d)),
      (U ''source_warnings'', json_texts (rd_source_warnings d)), (U ''version'', JInt (rd_version d))]"

text \<open>\<open>uuid\<close> is the identifier a draft without one is given.\<close>

definition read_report_draft :: "conversions \<Rightarrow> ustr \<Rightarrow> json \<Rightarrow> report_draft option" where
  "read_report_draft p uuid v =
     do { d \<leftarrow> read_dict v;
          i \<leftarrow> read_field_or uuid ''report_id'' read_str d;
          day \<leftarrow> read_field ''report_date'' read_str d;
          completed \<leftarrow> read_field ''completed'' read_texts d;
          in_progress \<leftarrow> read_field ''in_progress'' read_texts d;
          risks \<leftarrow> read_field ''risks'' read_texts d;
          evidence \<leftarrow> read_field ''evidence_event_ids'' read_texts d;
          st \<leftarrow> read_field ''status'' (read_literal report_statuses) d;
          comment \<leftarrow> text_or_null ''review_comment'' d;
          kind \<leftarrow> read_field_or Daily ''report_type'' (read_literal report_types) d;
          overview \<leftarrow> read_field_or [] ''overview'' read_str d;
          plans \<leftarrow> read_field_or [] ''plans'' read_texts d;
          coordination \<leftarrow> read_field_or [] ''coordination_items'' read_texts d;
          warnings \<leftarrow> read_field_or [] ''source_warnings'' read_texts d;
          version \<leftarrow> read_field_or 1 ''version'' (read_limited (\<lambda>n. 1 \<le> n) (lx_int p)) d;
          Some \<lparr>rd_report_id = i, rd_report_date = day, rd_completed = completed, rd_in_progress = in_progress,
                rd_risks = risks, rd_evidence_event_ids = evidence, rd_status = st, rd_review_comment = comment,
                rd_report_type = kind, rd_overview = overview, rd_plans = plans,
                rd_coordination_items = coordination, rd_source_warnings = warnings, rd_version = version\<rparr> }"

definition report_storable :: "report_draft \<Rightarrow> bool" where
  "report_storable d \<longleftrightarrow> 1 \<le> rd_version d"

lemma read_json_texts [simp]: "read_texts (json_texts ts) = Some ts"
  unfolding json_texts_def by (rule text_codec.list_roundtrip) simp

lemma read_json_nullable_text [simp]: "read_nullable read_str (json_nullable JStr v) = Some v"
  unfolding json_nullable_def by (rule text_codec.nullable_roundtrip) (simp split: option.split)

lemma read_labels [simp]:
  "read_literal report_statuses (label_of report_statuses st) = Some st"
  "read_literal report_types (label_of report_types t) = Some t"
  by (cases st; simp add: read_literal_def label_of_def report_statuses_def)
     (cases t; simp add: read_literal_def label_of_def report_types_def)

lemma report_draft_roundtrip:
  assumes "takes_native stamp p" "report_storable d"
  shows "read_report_draft p uuid (JObj (dump_report_draft d)) = Some d"
  using assms
  by (simp add: read_report_draft_def dump_report_draft_def read_field_def read_field_or_def read_limited_def
      takes_native_def report_storable_def)

section \<open>Meeting minutes\<close>

definition minutes_statuses :: "(string \<times> minutes_status) list" where
  "minutes_statuses = [(''draft'', Draft_m), (''approved'', Approved_m), (''rejected'', Rejected_m), (''sent'', Sent_m)]"

definition action_statuses :: "(string \<times> action_status) list" where
  "action_statuses = [(''open'', Open_a), (''in_progress'', In_progress_a), (''completed'', Completed_a)]"

definition dump_decision :: "meeting_decision \<Rightarrow> json" where
  "dump_decision m =
     JObj [(U ''content'', JStr (md_content m)), (U ''evidence_segment_ids'', json_texts (md_evidence_segment_ids m))]"

definition read_decision :: "json \<Rightarrow> meeting_decision option" where
  "read_decision v =
     do { d \<leftarrow> read_dict v;
          content \<leftarrow> read_field ''content'' read_str d;
          evidence \<leftarrow> read_field ''evidence_segment_ids'' (read_limited (\<lambda>xs. xs \<noteq> []) read_texts) d;
          Some \<lparr>md_content = content, md_evidence_segment_ids = evidence\<rparr> }"

definition dump_action :: "action_item \<Rightarrow> json" where
  "dump_action a =
     JObj [(U ''content'', JStr (ai_content a)), (U ''owner_id'', json_nullable JStr (ai_owner_id a)),
           (U ''owner_name'', json_nullable JStr (ai_owner_name a)), (U ''due_date'', json_nullable JStr (ai_due_date a)),
           (U ''status'', label_of action_statuses (ai_status a)),
           (U ''evidence_segment_ids'', json_texts (ai_evidence_segment_ids a))]"

definition read_action :: "json \<Rightarrow> action_item option" where
  "read_action v =
     do { d \<leftarrow> read_dict v;
          content \<leftarrow> read_field ''content'' read_str d;
          owner \<leftarrow> text_or_null ''owner_id'' d;
          owner_name \<leftarrow> text_or_null ''owner_name'' d;
          due \<leftarrow> text_or_null ''due_date'' d;
          st \<leftarrow> read_field_or Open_a ''status'' (read_literal action_statuses) d;
          evidence \<leftarrow> read_field ''evidence_segment_ids'' (read_limited (\<lambda>xs. xs \<noteq> []) read_texts) d;
          Some \<lparr>ai_content = content, ai_owner_id = owner, ai_owner_name = owner_name, ai_due_date = due,
                ai_status = st, ai_evidence_segment_ids = evidence\<rparr> }"

definition dump_minutes_draft :: "(instant \<Rightarrow> ustr) \<Rightarrow> minutes_draft \<Rightarrow> jdict" where
  "dump_minutes_draft stamp m =
     [(U ''meeting_id'', JStr (mm_meeting_id m)), (U ''title'', JStr (mm_title m)), (U ''summary'', JStr (mm_summary m)),
      (U ''evidence_segment_ids'', json_texts (mm_evidence_segment_ids m)), (U ''warnings'', json_texts (mm_warnings m)),
      (U ''status'', label_of minutes_statuses (mm_status m)),
      (U ''review_comment'', json_nullable JStr (mm_review_comment m)),
      (U ''participants'', json_texts (mm_participants m)), (U ''topics'', json_texts (mm_topics m)),
      (U ''decisions'', JList (map dump_decision (mm_decisions m))),
      (U ''action_items'', JList (map dump_action (mm_action_items m))),
      (U ''risks'', json_texts (mm_risks m)), (U ''open_questions'', json_texts (mm_open_questions m)),
      (U ''version'', JInt (mm_version m)), (U ''content_sha256'', json_nullable JStr (mm_content_sha256 m)),
      (U ''meeting_date'', json_nullable JStr (mm_meeting_date m)),
      (U ''generated_at'', json_nullable (\<lambda>t. JStr (stamp t)) (mm_generated_at m))]"

definition read_minutes_draft :: "conversions \<Rightarrow> json \<Rightarrow> minutes_draft option" where
  "read_minutes_draft p v =
     do { d \<leftarrow> read_dict v;
          i \<leftarrow> read_field ''meeting_id'' read_str d;
          title \<leftarrow> read_field ''title'' read_str d;
          summary \<leftarrow> read_field ''summary'' read_str d;
          evidence \<leftarrow> read_field ''evidence_segment_ids'' read_texts d;
          warnings \<leftarrow> read_field ''warnings'' read_texts d;
          st \<leftarrow> read_field ''status'' (read_literal minutes_statuses) d;
          comment \<leftarrow> text_or_null ''review_comment'' d;
          participants \<leftarrow> read_field_or [] ''participants'' read_texts d;
          topics \<leftarrow> read_field_or [] ''topics'' read_texts d;
          decisions \<leftarrow> read_field_or [] ''decisions'' (read_list read_decision) d;
          actions \<leftarrow> read_field_or [] ''action_items'' (read_list read_action) d;
          risks \<leftarrow> read_field_or [] ''risks'' read_texts d;
          questions \<leftarrow> read_field_or [] ''open_questions'' read_texts d;
          version \<leftarrow> read_field_or 1 ''version'' (read_limited (\<lambda>n. 1 \<le> n) (lx_int p)) d;
          digest \<leftarrow> text_or_null ''content_sha256'' d;
          day \<leftarrow> text_or_null ''meeting_date'' d;
          generated \<leftarrow> read_field_or None ''generated_at'' (read_nullable (lx_time p)) d;
          Some \<lparr>mm_meeting_id = i, mm_title = title, mm_summary = summary, mm_evidence_segment_ids = evidence,
                mm_warnings = warnings, mm_status = st, mm_review_comment = comment, mm_participants = participants,
                mm_topics = topics, mm_decisions = decisions, mm_action_items = actions, mm_risks = risks,
                mm_open_questions = questions, mm_version = version, mm_content_sha256 = digest,
                mm_meeting_date = day, mm_generated_at = generated\<rparr> }"

definition minutes_storable :: "minutes_draft \<Rightarrow> bool" where
  "minutes_storable m \<longleftrightarrow> 1 \<le> mm_version m \<and>
     (\<forall>x \<in> set (mm_decisions m). md_evidence_segment_ids x \<noteq> []) \<and>
     (\<forall>x \<in> set (mm_action_items m). ai_evidence_segment_ids x \<noteq> [])"

lemma read_minutes_labels [simp]:
  "read_literal minutes_statuses (label_of minutes_statuses st) = Some st"
  "read_literal action_statuses (label_of action_statuses a) = Some a"
  by (cases st; simp add: read_literal_def label_of_def minutes_statuses_def)
     (cases a; simp add: read_literal_def label_of_def action_statuses_def)

interpretation decision_codec: json_codec dump_decision read_decision "\<lambda>m. md_evidence_segment_ids m \<noteq> []"
  by unfold_locales (simp_all add: dump_decision_def read_decision_def read_field_def read_limited_def)

interpretation action_codec: json_codec dump_action read_action "\<lambda>a. ai_evidence_segment_ids a \<noteq> []"
  by unfold_locales (simp_all add: dump_action_def read_action_def read_field_def read_field_or_def read_limited_def)

lemma read_stamp:
  assumes "takes_native stamp p"
  shows "read_nullable (lx_time p) (json_nullable (\<lambda>t. JStr (stamp t)) v) = Some v"
  using assms by (cases v) (simp_all add: read_nullable_def json_nullable_def takes_native_def)

lemma minutes_draft_roundtrip:
  assumes "takes_native stamp p" "minutes_storable m"
  shows "read_minutes_draft p (JObj (dump_minutes_draft stamp m)) = Some m"
  using assms(2) decision_codec.list_roundtrip [of "mm_decisions m"] action_codec.list_roundtrip [of "mm_action_items m"]
  by (simp add: read_minutes_draft_def dump_minutes_draft_def read_field_def read_field_or_def read_limited_def
      read_stamp [OF assms(1)] minutes_storable_def assms(1) [unfolded takes_native_def])

section \<open>What the services write can be stored\<close>

lemma report_storable_simps [simp]:
  "report_storable (daily_draft lower uuid day events ws)"
  "report_storable d \<Longrightarrow> report_storable (reviewed_report ok comment d)"
  "report_storable (d\<lparr>rd_status := st\<rparr>) \<longleftrightarrow> report_storable d"
  by (simp_all add: report_storable_def daily_draft_def reviewed_report_def Let_def)

lemma minutes_storable_simps [simp]:
  "minutes_storable (minutes_draft_of zone_date system_date now i title segments c day)"
  "minutes_storable m \<Longrightarrow> minutes_storable (reviewed_minutes sha ok comment m)"
  "minutes_storable (m\<lparr>mm_status := st\<rparr>) \<longleftrightarrow> minutes_storable m"
  by (auto simp: minutes_storable_def minutes_draft_of_def reviewed_minutes_def segment_decision_def
      segment_action_def Let_def)

text \<open>Conversions that take each type's own values, whole numbers as floats too, and a text for a time.\<close>

definition demo_stamp :: "instant \<Rightarrow> ustr" where
  "demo_stamp t = [if t < 0 then 45 else 43, nat \<bar>t\<bar>]"

fun demo_time :: "json \<Rightarrow> instant option" where
  "demo_time (JStr [sign, n]) = Some (if sign = 45 then - int n else int n)"
| "demo_time _ = None"

definition demo_conversions :: conversions where
  "demo_conversions =
     \<lparr>lx_int = (\<lambda>v. case v of JInt n \<Rightarrow> Some n | _ \<Rightarrow> None),
      lx_float = (\<lambda>v. case v of JFloat (Rational x) \<Rightarrow> Some x | JInt n \<Rightarrow> Some (of_int n) | _ \<Rightarrow> None),
      lx_bool = (\<lambda>v. case v of JBool b \<Rightarrow> Some b | _ \<Rightarrow> None), lx_time = demo_time\<rparr>"

lemma demo_conversions_native: "takes_native demo_stamp demo_conversions"
  by (simp add: takes_native_def demo_conversions_def demo_stamp_def)

end
