(* ===== verification/Office_Steps.thy ===== *)
theory Office_Steps
  imports Model_Json
begin

text \<open>
  What the operations on reports and minutes do to the database, and what leaves the company on the way.

  The outbox is what the report system and the mail system have accepted. A connector is what those systems
  answer to a request, which may differ from one request to the next; an accepted report or e-mail is
  noted in the outbox together with the context of the caller. A system that accepts a request and answers
  with an error is one whose idempotency key makes the retry harmless; such an answer counts as not accepted.
\<close>

section \<open>What a save does to the tables\<close>

lemma find_snoc: "find P (xs @ [x]) = (case find P xs of None \<Rightarrow> if P x then Some x else None | Some y \<Rightarrow> Some y)"
  by (induction xs) auto

lemma sql_report_save_view:
  assumes "sql_reports_wf rows" "sql_report_save d (Some c) rows = (r, rows')"
  shows "sql_reports_wf rows' \<and>
    (rows' = rows \<or> sql_report_view rows' = (sql_report_view rows)((rc_tenant_id c, rd_report_id d) \<mapsto> d))"
proof (cases "find (\<lambda>r. rw_id r = rd_report_id d) rows")
  case None
  let ?new = "\<lparr>rw_id = rd_report_id d, rw_tenant_id = rc_tenant_id c, rw_created_by = rc_operator_id c,
    rw_report_date = rd_report_date d, rw_status = rd_status d, rw_payload = d, rw_version = 1\<rparr>"
  have rows': "rows' = rows @ [?new]" using assms(2) None by (simp add: sql_report_save_def)
  have fresh: "rd_report_id d \<notin> rw_id ` set rows" using None by (auto simp: find_None_iff)
  have "sql_report_view rows' k = ((sql_report_view rows)((rc_tenant_id c, rd_report_id d) \<mapsto> d)) k" for k
  proof (cases "k = (rc_tenant_id c, rd_report_id d)")
    case True
    moreover have "find (\<lambda>r. rw_id r = rd_report_id d \<and> rw_tenant_id r = rc_tenant_id c) rows = None"
      using fresh by (force simp: find_None_iff)
    ultimately show ?thesis by (simp add: sql_report_view_def rows' find_snoc)
  next
    case False
    then show ?thesis by (cases k) (auto simp: sql_report_view_def rows' find_snoc split: option.split)
  qed
  with fresh assms(1) show ?thesis by (auto simp: rows' sql_reports_wf_def)
next
  case (Some row)
  then have row: "row \<in> set rows" "rw_id row = rd_report_id d" by (auto dest: find_SomeD)
  show ?thesis
  proof (cases "rw_tenant_id row = rc_tenant_id c")
    case False
    then show ?thesis using assms Some by (simp add: sql_report_save_def)
  next
    case True
    let ?new = "row\<lparr>rw_status := rd_status d, rw_payload := d, rw_version := rw_version row + 1\<rparr>"
    have rows': "rows' = update_row rw_id ?new rows" using assms(2) Some True by (simp add: sql_report_save_def)
    have dist: "distinct (map rw_id rows)" using assms(1) by (simp add: sql_reports_wf_def)
    have "sql_report_view rows' k = ((sql_report_view rows)((rc_tenant_id c, rd_report_id d) \<mapsto> d)) k" for k
      using find_update_row [OF dist row(1), of ?new "\<lambda>r. rw_id r = snd k \<and> rw_tenant_id r = fst k" "snd k"]
        row(2) True
      by (cases k) (auto simp: sql_report_view_def rows')
    moreover have "sql_reports_wf rows'"
      using assms(1) row by (auto simp: rows' sql_reports_wf_def set_update_row)
    ultimately show ?thesis by blast
  qed
qed

lemma sql_report_save_known:
  assumes "sql_reports_wf rows" "sql_report_view rows (rc_tenant_id c, rd_report_id d) \<noteq> None"
    and "sql_report_save d (Some c) rows = (r, rows')"
  shows "r = Inr d \<and> sql_reports_wf rows' \<and>
    sql_report_view rows' = (sql_report_view rows)((rc_tenant_id c, rd_report_id d) \<mapsto> d)"
proof -
  from sql_report_save_eq [OF assms(1,2)] assms(3) have "r = Inr d"
    "sql_report_view rows' (rc_tenant_id c, rd_report_id d) = Some d"
    by auto
  with sql_report_save_view [OF assms(1,3)] show ?thesis by (metis fun_upd_triv)
qed

lemma sql_minutes_save_view:
  assumes "sql_minutes_wf rows" "sql_minutes_save n d c rows = (r, rows')"
  shows "r = Inr d \<and> sql_minutes_wf rows' \<and>
    sql_minutes_view rows' = (sql_minutes_view rows)((rc_tenant_id c, mm_meeting_id d) \<mapsto> d)"
proof -
  let ?k = "(rc_tenant_id c, mm_meeting_id d)"
  from sql_minutes_save_any [OF assms(1), of n d c] assms(2)
  have r: "r = Inr d" "sql_minutes_wf rows'" "sql_minutes_view rows' ?k = Some d" by auto
  have dist: "distinct (map mw_key rows)" using assms(1) by (simp add: sql_minutes_wf_def)
  have "sql_minutes_view rows' k = sql_minutes_view rows k" if k: "k \<noteq> ?k" for k
  proof (cases "find (\<lambda>r. mw_key r = ?k) rows")
    case None
    with assms(2) k show ?thesis
      by (auto simp: sql_minutes_save_def select_minutes_eq [OF assms(1)] sql_minutes_view_def find_snoc mw_key_def
          split: option.split)
  next
    case (Some row)
    then have row: "row \<in> set rows" "mw_key row = ?k" by (auto dest: find_SomeD)
    let ?new = "row\<lparr>mw_status := mm_status d, mw_payload := d, mw_version := mw_version row + 1\<rparr>"
    have "mw_key ?new = mw_key row" by (simp add: mw_key_def)
    moreover have "rows' = update_row mw_key ?new rows"
      using assms(2) Some by (simp add: sql_minutes_save_def select_minutes_eq [OF assms(1)])
    ultimately show ?thesis
      using find_update_row [OF dist row(1), of ?new "\<lambda>r. mw_key r = k" k] row(2) k
      by (simp add: sql_minutes_view_def)
  qed
  with r show ?thesis by auto
qed


section \<open>The outbox\<close>

text \<open>Reports with the caller who submitted them; subject, body and idempotency key of e-mails with the caller.\<close>

record outbox =
  ob_reports :: "(request_context \<times> report_draft) list"
  ob_mails :: "(request_context \<times> ustr \<times> ustr \<times> ustr) list"

type_synonym office_db = "(report_row list, minutes_row list, idem_row list, outbox) app_state"

definition post_report ::
  "(report_draft \<Rightarrow> ustr \<Rightarrow> request_context \<Rightarrow> jdict res) \<Rightarrow> report_draft \<Rightarrow> ustr \<Rightarrow> request_context \<Rightarrow>
   office_db \<Rightarrow> jdict res \<times> office_db" where
  "post_report system d k c s =
     (case system d k c of
        Inl e \<Rightarrow> (Inl e, s)
      | Inr answer \<Rightarrow>
          (Inr answer, s\<lparr>of_ext := ((fst (of_ext s))\<lparr>ob_reports := ob_reports (fst (of_ext s)) @ [(c, d)]\<rparr>,
                                   snd (of_ext s))\<rparr>))"

definition post_mail ::
  "(ustr \<Rightarrow> ustr \<Rightarrow> ustr \<Rightarrow> request_context \<Rightarrow> jdict res) \<Rightarrow> ustr \<Rightarrow> ustr \<Rightarrow> ustr \<Rightarrow> request_context \<Rightarrow>
   office_db \<Rightarrow> jdict res \<times> office_db" where
  "post_mail system subject body k c s =
     (case system subject body k c of
        Inl e \<Rightarrow> (Inl e, s)
      | Inr answer \<Rightarrow>
          (Inr answer, s\<lparr>of_ext := ((fst (of_ext s))\<lparr>ob_mails := ob_mails (fst (of_ext s)) @ [(c, subject, body, k)]\<rparr>,
                                   snd (of_ext s))\<rparr>))"

text \<open>An answer that accepts a request names it, as the connectors of the application promise.\<close>

definition names_it :: "string \<Rightarrow> jdict res \<Rightarrow> bool" where
  "names_it field answer = (case answer of Inl e \<Rightarrow> True | Inr d \<Rightarrow> (\<exists>v. map_of d (U field) = Some (JStr v)))"

lemma names_itD: "names_it field (Inr d) \<Longrightarrow> \<exists>v. getitem d (U field) = Inr (JStr v)"
  by (auto simp: names_it_def getitem_def)

section \<open>What a submission and a sending do\<close>

text \<open>A report that may be submitted, and the state once the report system has accepted it.\<close>

definition submittable :: "unicode \<Rightarrow> (report_draft \<Rightarrow> ustr) \<Rightarrow> ustr \<Rightarrow> request_context \<Rightarrow> report_draft \<Rightarrow> office_db \<Rightarrow> bool" where
  "submittable u dump i c d s \<longleftrightarrow>
     U ''report:submit'' \<in> rc_permission_scopes c \<and>
     sql_memo (of_idem s) (rc_tenant_id c, U ''report.submit'', i) = None \<and>
     sql_report_view (of_reports s) (rc_tenant_id c, i) = Some d \<and> rd_report_id d = i \<and>
     rd_status d = Approved_r \<and> findings u (dump d) = []"

definition submitted :: "ustr \<Rightarrow> request_context \<Rightarrow> report_draft \<Rightarrow> office_db \<Rightarrow> office_db \<Rightarrow> bool" where
  "submitted i c d s s' \<longleftrightarrow>
     (\<exists>rows memos m.
       sql_reports_wf rows \<and>
       sql_report_view rows = (sql_report_view (of_reports s))((rc_tenant_id c, i) \<mapsto> d\<lparr>rd_status := Submitted_r\<rparr>) \<and>
       sql_idem_wf memos \<and>
       sql_memo memos = (sql_memo (of_idem s))((rc_tenant_id c, U ''report.submit'', i) \<mapsto> m) \<and>
       s' = s\<lparr>of_reports := rows, of_idem := memos,
              of_audit := audit_record_event (U ''report.submit'') c i (of_audit s),
              of_ext := ((fst (of_ext s))\<lparr>ob_reports := ob_reports (fst (of_ext s)) @ [(c, d)]\<rparr>, snd (of_ext s))\<rparr>)"

lemma report_lookup:
  assumes "sql_reports_wf (of_reports s)" "sql_report_view (of_reports s) (rc_tenant_id c, i) = Some d"
  shows "the_report sql_report_repo i c s = (Inr d, s)"
  using sql_report.the_report_cases [OF assms(1), of c i] assms(2) by (auto simp: sql_report_repo_def)

lemma sql_report_repo_simps:
  "rr_obj sql_report_repo r d = d" "rr_assign sql_report_repo d d' r = (d', r)"
  "rr_save sql_report_repo = sql_report_save"
  by (simp_all add: sql_report_repo_def)

lemma memo_lookup:
  "sql_idem_wf memos \<Longrightarrow> idem_get sql_idem_repo p i c memos = (Inr (sql_memo memos (rc_tenant_id c, p, i)), memos)"
  using sql_idem.get by (simp add: idem_get_def)

lemma memo_lookup_db:
  "sql_idem_wf (of_idem s) \<Longrightarrow>
    on_idem (idem_get sql_idem_repo p i c) s = (Inr (sql_memo (of_idem s) (rc_tenant_id c, p, i)), s)"
  by (simp add: on_idem_def memo_lookup)

lemmas submission_steps = report_submit_def lift_res_def permission_require_def require_shareable_def
  sql_report_repo_simps on_idem_def on_reports_def record_audit_def str_field_def Let_def

lemma submit_unanswered:
  assumes "sql_reports_wf (of_reports s)" "sql_idem_wf (of_idem s)"
  shows "snd (report_submit sql_report_repo sql_idem_repo u dump (\<lambda>d k c s. (Inl e, s)) i c s) = s"
proof -
  from sql_report.the_report_cases [OF assms(1), of c i]
  obtain x where "the_report sql_report_repo i c s = (x, s)" by auto
  then show ?thesis
    using memo_lookup [OF assms(2)] by (cases x) (auto simp: submission_steps split: option.split)
qed

lemma submit_accepted:
  assumes wf: "sql_reports_wf (of_reports s)" "sql_idem_wf (of_idem s)" and d: "submittable u dump i c d s"
    and accepted: "system d (report_key c (rd_report_date d) i) c = Inr answer"
    and ans: "getitem answer (U ''submission_id'') = Inr (JStr v)"
  shows "submitted i c d s (snd (report_submit sql_report_repo sql_idem_repo u dump (post_report system) i c s))"
proof -
  let ?k = "(rc_tenant_id c, i)" and ?m = "(rc_tenant_id c, U ''report.submit'', i)"
  let ?d1 = "d\<lparr>rd_status := Submitted_r\<rparr>"
  note d = d [unfolded submittable_def]
  obtain r rows where save: "sql_report_save ?d1 (Some c) (of_reports s) = (r, rows)" by fastforce
  from sql_report_save_known [OF wf(1) _ save] d
  have rows: "r = Inr ?d1" "sql_reports_wf rows"
    "sql_report_view rows = (sql_report_view (of_reports s))(?k \<mapsto> ?d1)"
    by auto
  let ?result = "dump_submission \<lparr>rs_report_id = i, rs_submission_id = v\<rparr>"
  obtain memos where memos: "remember sql_idem_repo (U ''report.submit'') i ?result c (of_idem s) = (Inr ?result, memos)"
    "sql_idem_wf memos" "sql_memo memos = (sql_memo (of_idem s))(?m \<mapsto> ?result)"
    using sql_idem.remember_cases [OF wf(2), of "U ''report.submit''" i ?result c] d by auto
  have "snd (report_submit sql_report_repo sql_idem_repo u dump (post_report system) i c s) =
    s\<lparr>of_reports := rows, of_idem := memos,
      of_audit := audit_record_event (U ''report.submit'') c i (of_audit s),
      of_ext := ((fst (of_ext s))\<lparr>ob_reports := ob_reports (fst (of_ext s)) @ [(c, d)]\<rparr>, snd (of_ext s))\<rparr>"
    using d accepted ans save rows(1) memos(1)
    by (simp add: submission_steps report_lookup [OF wf(1)] memo_lookup [OF wf(2)] post_report_def)
  with rows memos show ?thesis unfolding submitted_def by blast
qed

lemma report_submit_cases:
  assumes wf: "sql_reports_wf (of_reports s)" "sql_idem_wf (of_idem s)"
    and names: "\<And>d k. names_it ''submission_id'' (system d k c)"
    and run: "report_submit sql_report_repo sql_idem_repo u dump (post_report system) i c s = (x, s')"
  shows "s' = s \<or> (\<exists>d. submittable u dump i c d s \<and> submitted i c d s s')"
proof (cases "\<exists>d. submittable u dump i c d s")
  case False
  have "rd_report_id d = i" if "sql_report_view (of_reports s) (rc_tenant_id c, i) = Some d" for d
    using sql_report.the_report_cases [OF wf(1), of c i] that by auto
  with False sql_submission.submit_to_guard [OF wf, of u dump "post_report system" i c "\<lambda>d k c s. (Inl e, s)"]
  show ?thesis
    using run submit_unanswered [OF wf, of u dump e i c] unfolding submittable_def by (metis snd_conv)
next
  case True
  then obtain d where d: "submittable u dump i c d s" by blast
  let ?key = "report_key c (rd_report_date d) i"
  show ?thesis
  proof (cases "system d ?key c")
    case (Inl e)
    with run d have "s' = s"
      by (simp add: submission_steps report_lookup [OF wf(1)] memo_lookup [OF wf(2)] post_report_def submittable_def)
    then show ?thesis by simp
  next
    case (Inr answer)
    with names_itD [of "''submission_id''"] names obtain v where "getitem answer (U ''submission_id'') = Inr (JStr v)"
      by metis
    from submit_accepted [of s u dump i c d system, OF wf d Inr this] run d show ?thesis by auto
  qed
qed

text \<open>The same for minutes.\<close>

definition mailable :: "unicode \<Rightarrow> ustr \<Rightarrow> request_context \<Rightarrow> minutes_draft \<Rightarrow> office_db \<Rightarrow> bool" where
  "mailable u i c d s \<longleftrightarrow>
     U ''meeting:send'' \<in> rc_permission_scopes c \<and>
     sql_memo (of_idem s) (rc_tenant_id c, U ''meeting_minutes.send'', i) = None \<and>
     sql_minutes_view (of_meetings s) (rc_tenant_id c, i) = Some d \<and> mm_meeting_id d = i \<and>
     mm_status d = Approved_m \<and> findings u (mm_title d @ [10] @ mm_summary d) = []"

definition mailed :: "ustr \<Rightarrow> request_context \<Rightarrow> minutes_draft \<Rightarrow> office_db \<Rightarrow> office_db \<Rightarrow> bool" where
  "mailed i c d s s' \<longleftrightarrow>
     (\<exists>rows memos m.
       sql_minutes_wf rows \<and>
       sql_minutes_view rows = (sql_minutes_view (of_meetings s))((rc_tenant_id c, i) \<mapsto> d\<lparr>mm_status := Sent_m\<rparr>) \<and>
       sql_idem_wf memos \<and>
       sql_memo memos = (sql_memo (of_idem s))((rc_tenant_id c, U ''meeting_minutes.send'', i) \<mapsto> m) \<and>
       s' = s\<lparr>of_meetings := rows, of_idem := memos,
              of_audit := audit_record_event (U ''meeting_minutes.send'') c i (of_audit s),
              of_ext := ((fst (of_ext s))\<lparr>ob_mails := ob_mails (fst (of_ext s)) @
                           [(c, mm_title d, mm_summary d, minutes_key c i)]\<rparr>, snd (of_ext s))\<rparr>)"

abbreviation send_db ::
  "unicode \<Rightarrow> (ustr \<Rightarrow> ustr \<Rightarrow> ustr \<Rightarrow> request_context \<Rightarrow> jdict res) \<Rightarrow> instant \<Rightarrow> ustr \<Rightarrow> request_context \<Rightarrow>
   office_db \<Rightarrow> email_status res \<times> office_db" where
  "send_db u system now i c \<equiv> minutes_send sql_minutes_repo sql_idem_repo u (post_mail system) now i c"

lemma sql_minutes_repo_simps:
  "mt_obj sql_minutes_repo r d = d" "mt_assign sql_minutes_repo d d' r = (d', r)"
  "mt_save sql_minutes_repo = sql_minutes_save"
  by (simp_all add: sql_minutes_repo_def)

lemma minutes_lookup:
  assumes "sql_minutes_wf (of_meetings s)"
  shows "the_minutes sql_minutes_repo i c s =
    (case sql_minutes_view (of_meetings s) (rc_tenant_id c, i) of
       None \<Rightarrow> (Inl (Exn KeyErr i), s) | Some d \<Rightarrow> (Inr d, s))"
  using sql_minutes.the_minutes_cases [OF assms, of c i] by (auto simp: sql_minutes_repo_def)

lemma minutes_view_id:
  assumes "sql_minutes_wf rows" "sql_minutes_view rows (t, i) = Some d"
  shows "mm_meeting_id d = i"
proof -
  obtain r where "find (\<lambda>r. mw_key r = (t, i)) rows = Some r" "d = mw_payload r"
    using assms(2) by (auto simp: sql_minutes_view_def)
  with find_SomeD [OF this(1)] assms(1) show ?thesis by (auto simp: sql_minutes_wf_def mw_key_def)
qed

lemmas sending_steps = minutes_send_def lift_res_def permission_require_def require_shareable_def
  sql_minutes_repo_simps on_idem_def on_meetings_def record_audit_def str_field_def Let_def

lemma send_refused:
  assumes wf: "sql_minutes_wf (of_meetings s)" "sql_idem_wf (of_idem s)" and no: "\<nexists>d. mailable u i c d s"
  shows "snd (send_db u system n i c s) = s"
proof -
  have "sql_minutes_view (of_meetings s) (rc_tenant_id c, i) = Some d \<longrightarrow> mm_meeting_id d = i" for d
    using minutes_view_id [OF wf(1)] by blast
  with no show ?thesis
    using memo_lookup [OF wf(2)] minutes_lookup [OF wf(1)]
    by (auto simp: sending_steps mailable_def simp del: append_Cons append_Nil
        split: option.split)
qed

lemma send_accepted:
  assumes wf: "sql_minutes_wf (of_meetings s)" "sql_idem_wf (of_idem s)" and d: "mailable u i c d s"
    and accepted: "system (mm_title d) (mm_summary d) (minutes_key c i) c = Inr answer"
    and ans: "getitem answer (U ''message_id'') = Inr (JStr v)"
  shows "mailed i c d s (snd (send_db u system n i c s))"
proof -
  let ?k = "(rc_tenant_id c, i)" and ?m = "(rc_tenant_id c, U ''meeting_minutes.send'', i)"
  let ?d1 = "d\<lparr>mm_status := Sent_m\<rparr>"
  note d = d [unfolded mailable_def]
  obtain r rows where save: "sql_minutes_save n ?d1 c (of_meetings s) = (r, rows)" by fastforce
  from sql_minutes_save_view [OF wf(1) save] d
  have rows: "r = Inr ?d1" "sql_minutes_wf rows"
    "sql_minutes_view rows = (sql_minutes_view (of_meetings s))(?k \<mapsto> ?d1)"
    by auto
  let ?result = "dump_email_status \<lparr>es_meeting_id = i, es_message_id = v\<rparr>"
  obtain memos where memos: "remember sql_idem_repo (U ''meeting_minutes.send'') i ?result c (of_idem s) = (Inr ?result, memos)"
    "sql_idem_wf memos" "sql_memo memos = (sql_memo (of_idem s))(?m \<mapsto> ?result)"
    using sql_idem.remember_cases [OF wf(2), of "U ''meeting_minutes.send''" i ?result c] d by auto
  have "snd (send_db u system n i c s) =
    s\<lparr>of_meetings := rows, of_idem := memos,
      of_audit := audit_record_event (U ''meeting_minutes.send'') c i (of_audit s),
      of_ext := ((fst (of_ext s))\<lparr>ob_mails := ob_mails (fst (of_ext s)) @
                   [(c, mm_title d, mm_summary d, minutes_key c i)]\<rparr>, snd (of_ext s))\<rparr>"
    using d accepted ans save rows(1) memos(1)
    by (simp add: sending_steps minutes_lookup [OF wf(1)] memo_lookup [OF wf(2)] post_mail_def
        del: append_Cons append_Nil)
  with rows memos show ?thesis unfolding mailed_def by blast
qed

lemma send_cases:
  assumes wf: "sql_minutes_wf (of_meetings s)" "sql_idem_wf (of_idem s)"
    and names: "\<And>a b k. names_it ''message_id'' (system a b k c)"
    and run: "send_db u system n i c s = (x, s')"
  shows "s' = s \<or> (\<exists>d. mailable u i c d s \<and> mailed i c d s s')"
proof (cases "\<exists>d. mailable u i c d s")
  case False
  with send_refused [OF wf False, of system n] run show ?thesis by simp
next
  case True
  then obtain d where d: "mailable u i c d s" by blast
  show ?thesis
  proof (cases "system (mm_title d) (mm_summary d) (minutes_key c i) c")
    case (Inl e)
    with d have "snd (send_db u system n i c s) = s"
      by (simp add: sending_steps minutes_lookup [OF wf(1)] memo_lookup [OF wf(2)] post_mail_def mailable_def
          del: append_Cons append_Nil)
    with run show ?thesis by simp
  next
    case (Inr answer)
    with names_itD [of "''message_id''"] names obtain v where "getitem answer (U ''message_id'') = Inr (JStr v)"
      by metis
    from send_accepted [of s u i c d system, OF wf d Inr this, of n] run d show ?thesis by auto
  qed
qed

section \<open>What the other requests do\<close>

lemma review_cases:
  assumes wf: "sql_reports_wf (of_reports s)"
  shows "snd (report_review sql_report_repo i ok comment c s) = s \<or>
    (\<exists>d rows. sql_report_view (of_reports s) (rc_tenant_id c, i) = Some d \<and> sql_reports_wf rows \<and>
       sql_report_view rows = (sql_report_view (of_reports s))((rc_tenant_id c, i) \<mapsto> reviewed_report ok comment d) \<and>
       snd (report_review sql_report_repo i ok comment c s) =
         s\<lparr>of_reports := rows, of_audit := audit_record_event (U ''report.review'') c i (of_audit s)\<rparr>)"
proof -
  from sql_report.the_report_cases [OF wf, of c i] show ?thesis
  proof (elim disjE exE conjE)
    fix h d assume v: "sql_report_view (of_reports s) (rc_tenant_id c, i) = Some d"
      and t: "the_report sql_report_repo i c s = (Inr h, s)"
      and h: "rr_obj sql_report_repo (of_reports s) h = d" and id: "rd_report_id d = i"
    obtain r rows where save: "sql_report_save (reviewed_report ok comment d) (Some c) (of_reports s) = (r, rows)"
      by fastforce
    have rid: "rd_report_id (reviewed_report ok comment d) = i" using id by (simp add: reviewed_report_def)
    have "sql_reports_wf rows \<and>
        sql_report_view rows = (sql_report_view (of_reports s))((rc_tenant_id c, i) \<mapsto> reviewed_report ok comment d)"
      using sql_report_save_known [OF wf _ save] v rid by auto
    moreover have "snd (report_review sql_report_repo i ok comment c s) = s \<or>
        snd (report_review sql_report_repo i ok comment c s) =
          s\<lparr>of_reports := rows, of_audit := audit_record_event (U ''report.review'') c i (of_audit s)\<rparr>"
      using t h save by (simp add: report_review_def lift_res_def permission_require_def on_reports_def
          record_audit_def sql_report_repo_simps)
    ultimately show ?thesis using v by blast
  qed (simp add: report_review_def lift_res_def permission_require_def)
qed

text \<open>A save of a new draft, or an error that leaves the table alone.\<close>

definition drafted :: "request_context \<Rightarrow> report_row list \<Rightarrow> report_row list \<Rightarrow> bool" where
  "drafted c rows rows' \<longleftrightarrow> sql_reports_wf rows' \<and>
     (\<forall>k d. sql_report_view rows' k = Some d \<longrightarrow> sql_report_view rows k = Some d \<or>
       rd_status d = Draft_r \<and> report_storable d)"

lemma drafted_save:
  assumes "sql_reports_wf rows" "rd_status d = Draft_r" "report_storable d"
    and "sql_report_save d (Some c) rows = (r, rows')"
  shows "drafted c rows rows'"
  using sql_report_save_view [OF assms(1,4)] assms(1-3) by (auto simp: drafted_def split: if_splits)

lemma drafted_trans: "drafted c rows rows1 \<Longrightarrow> drafted c rows1 rows2 \<Longrightarrow> drafted c rows rows2"
  unfolding drafted_def by blast

lemma generate_drafts:
  assumes wf: "sql_reports_wf rows"
  shows "drafted c rows (snd (generate_daily sql_report_repo lower uuid day events (Some c) notices rows))"
    and "drafted c rows (snd (generate_weekly sql_report_repo lower uuid day events (Some c) notices rows))"
proof -
  let ?d = "daily_draft lower uuid day events notices"
  have st: "rd_status ?d = Draft_r" "report_storable ?d"
    by (simp add: daily_draft_def Let_def) (rule report_storable_simps)
  obtain r rows1 where save: "sql_report_save ?d (Some c) rows = (r, rows1)" by fastforce
  have new: "rr_new sql_report_repo d x = (d, x)" for d x by (simp add: sql_report_repo_def)
  have daily: "generate_daily sql_report_repo lower uuid day events (Some c) notices rows = (r, rows1)"
    by (simp add: generate_daily_def new sql_report_repo_simps save)
  have d1: "drafted c rows rows1" by (rule drafted_save [OF wf st save])
  with daily show "drafted c rows (snd (generate_daily sql_report_repo lower uuid day events (Some c) notices rows))"
    by simp
  have draft: "rd_status d = Draft_r \<and> report_storable d" if "r = Inr d" for d
    using that save st by (auto simp: sql_report_save_def split: option.splits if_splits)
  have "drafted c rows1 (snd (sql_report_save (d\<lparr>rd_report_type := t, rd_overview := v\<rparr>) (Some c) rows1))"
    if "r = Inr d" for d t v
    by (rule drafted_save [OF _ _ _ prod.collapse [symmetric]])
       (use draft [OF that] d1 in \<open>simp_all add: drafted_def report_storable_def\<close>)
  with d1 show "drafted c rows (snd (generate_weekly sql_report_repo lower uuid day events (Some c) notices rows))"
    by (cases r) (auto simp: generate_weekly_def daily sql_report_repo_simps Let_def intro: drafted_trans)
qed

lemma minutes_review_cases:
  assumes wf: "sql_minutes_wf (of_meetings s)"
  shows "snd (minutes_review sql_minutes_repo sha n i ok comment c s) = s \<or>
    (\<exists>d rows. sql_minutes_view (of_meetings s) (rc_tenant_id c, i) = Some d \<and> sql_minutes_wf rows \<and>
       sql_minutes_view rows = (sql_minutes_view (of_meetings s))((rc_tenant_id c, i) \<mapsto> reviewed_minutes sha ok comment d) \<and>
       snd (minutes_review sql_minutes_repo sha n i ok comment c s) =
         s\<lparr>of_meetings := rows, of_audit := audit_record_event (U ''meeting_minutes.review'') c i (of_audit s)\<rparr>)"
proof (cases "sql_minutes_view (of_meetings s) (rc_tenant_id c, i)")
  case None
  then show ?thesis
    using minutes_lookup [OF wf, of i c] by (simp add: minutes_review_def lift_res_def permission_require_def)
next
  case (Some d)
  let ?d = "reviewed_minutes sha ok comment d"
  have id: "mm_meeting_id ?d = i"
    using minutes_view_id [OF wf Some] by (simp add: reviewed_minutes_def Let_def)
  obtain r rows where save: "sql_minutes_save n ?d c (of_meetings s) = (r, rows)" by fastforce
  from sql_minutes_save_view [OF wf save] id have "sql_minutes_wf rows"
    "sql_minutes_view rows = (sql_minutes_view (of_meetings s))((rc_tenant_id c, i) \<mapsto> ?d)" by auto
  moreover have "snd (minutes_review sql_minutes_repo sha n i ok comment c s) = s \<or>
      snd (minutes_review sql_minutes_repo sha n i ok comment c s) =
        s\<lparr>of_meetings := rows, of_audit := audit_record_event (U ''meeting_minutes.review'') c i (of_audit s)\<rparr>"
    using save Some minutes_lookup [OF wf, of i c]
    by (simp add: minutes_review_def lift_res_def permission_require_def on_meetings_def record_audit_def
        sql_minutes_repo_simps)
  ultimately show ?thesis using Some by blast
qed

lemma minutes_generate_view:
  assumes "sql_minutes_wf rows"
  obtains d where "mm_status d = Draft_m" "minutes_storable d"
    "sql_minutes_wf (snd (minutes_generate sql_minutes_repo zd sd n i title segs c day rows))"
    "sql_minutes_view (snd (minutes_generate sql_minutes_repo zd sd n i title segs c day rows)) =
       (sql_minutes_view rows)((rc_tenant_id c, i) \<mapsto> d)"
proof -
  let ?d = "minutes_draft_of zd sd n i title segs c day"
  have d: "mm_status ?d = Draft_m" "minutes_storable ?d" "mm_meeting_id ?d = i"
    by (simp add: minutes_draft_of_def Let_def, rule minutes_storable_simps, simp add: minutes_draft_of_def Let_def)
  have "snd (minutes_generate sql_minutes_repo zd sd n i title segs c day rows) = snd (sql_minutes_save n ?d c rows)"
    by (simp add: minutes_generate_def sql_minutes_repo_def)
  with sql_minutes_save_view [OF assms prod.collapse [symmetric], of n ?d c] d show thesis
    by (intro that [of ?d]) simp_all
qed

text \<open>
  The routes hand the module's audit service to \<open>send\<close>: it is the same call on the state in which the two
  audit services are exchanged.
\<close>

lemma send_module_audit:
  "with_module_audit (minutes_send M I u (\<lambda>subject body k c. with_module_audit (post_mail system subject body k c)) n i c) =
   with_module_audit (minutes_send M I u (post_mail system) n i c)"
proof -
  have "with_module_audit (post_mail system a b k c) = post_mail system a b k c" for a b k c
  proof
    fix s
    show "with_module_audit (post_mail system a b k c) s = post_mail system a b k c s"
      by (cases "system a b k c") (simp_all add: with_module_audit_def post_mail_def swap_audit_def)
  qed
  then show ?thesis by simp
qed

section \<open>The nodes of the agent's graphs\<close>

text \<open>What every operation of the services keeps, every node of the graphs over them keeps.\<close>

lemma completed_snd [simp]: "snd (completed f m) = snd m"
  by (cases m; cases "fst m") (auto simp: completed_def)

lemma value_of_snd [simp]: "snd (value_of obj part m) = snd m"
  by (cases m; cases "fst m") (auto simp: value_of_def)

lemma controlled_ok:
  "P s \<Longrightarrow> (\<And>s. P s \<Longrightarrow> P (snd (act s))) \<Longrightarrow> P (snd (controlled tool args refusal resume act s))"
  by (simp add: controlled_def split: option.split)

definition services_ok :: "('s \<Rightarrow> bool) \<Rightarrow> 's domain_services \<Rightarrow> bool" where
  "services_ok P svc \<longleftrightarrow>
     (\<forall>s. P s \<longrightarrow>
       (\<forall>a b c. P (snd (ds_collect svc a b c s))) \<and> (\<forall>i c. P (snd (ds_transcribe svc i c s))) \<and>
       (\<forall>i c. P (snd (ds_get_meeting svc i c s))) \<and>
       (\<forall>d es ws c. P (snd (ds_daily svc d es ws c s))) \<and> (\<forall>d es ws c. P (snd (ds_weekly svc d es ws c s))) \<and>
       (\<forall>i ok comment c. P (snd (ds_review_report svc i ok comment c s))) \<and>
       (\<forall>i c. P (snd (ds_submit_report svc i c s))) \<and>
       (\<forall>i t segs d c. P (snd (ds_minutes svc i t segs d c s))) \<and>
       (\<forall>i ok comment c. P (snd (ds_review_minutes svc i ok comment c s))) \<and>
       (\<forall>i c. P (snd (ds_send_minutes svc i c s))))"

lemma services_okD:
  assumes "services_ok P svc" "P s"
  shows "P (snd (ds_collect svc a b c s))" "P (snd (ds_transcribe svc i c s))" "P (snd (ds_get_meeting svc i c s))"
    "P (snd (ds_daily svc d es ws c s))" "P (snd (ds_weekly svc d es ws c s))"
    "P (snd (ds_review_report svc i ok comment c s))" "P (snd (ds_submit_report svc i c s))"
    "P (snd (ds_minutes svc i t segs date c s))" "P (snd (ds_review_minutes svc i ok comment c s))"
    "P (snd (ds_send_minutes svc i c s))"
  using assms unfolding services_ok_def by simp_all

lemma prepare_draft_ok:
  assumes ok: "P s" and svc: "services_ok P svc"
  shows "P (snd (prepare_draft svc add6 spec c s))"
proof (cases "\<exists>a as. sp_report_date spec = Some (a # as)")
  case False
  then have "snd (prepare_draft svc add6 spec c s) = s"
    by (auto simp: prepare_draft_def split: option.split list.split)
  with ok show ?thesis by simp
next
  case True
  then obtain day a as where day: "sp_report_date spec = Some (a # as)" "day = a # as" by blast
  let ?events = "if sp_events spec \<noteq> [] then (Inr (sp_events spec, []), s)
    else bnd (lift_res (if sp_report_type spec = Weekly then add6 day else Inr day) s)
      (\<lambda>date_to s. ds_collect svc day date_to c s)"
  have events: "P (snd ?events)"
    using ok services_okD(1) [OF svc ok]
    by (cases "if sp_report_type spec = Weekly then add6 day else Inr day") (simp_all add: lift_res_def)
  have "P (snd ((if sp_report_type spec = Weekly then ds_weekly svc else ds_daily svc) day es ws c s))"
    if "P s" for es ws s
    using services_okD(4,5) [OF svc that] by simp
  then have "P (snd (bnd ?events (\<lambda>(es, ws) s. completed Report_value
      ((if sp_report_type spec = Weekly then ds_weekly svc else ds_daily svc) day es ws c s))))"
    by (intro bnd_keeps [where P = P] events) (simp only: case_prod_unfold completed_snd)
  then show ?thesis unfolding prepare_draft_def Let_def day option.case list.case .
qed

lemma report_node_ok:
  assumes ok: "P s" and svc: "services_ok P svc"
  shows "P (snd (report_node svc add6 spec resume c s))"
proof (cases "sp_operation spec")
  case Draft_op
  then show ?thesis using prepare_draft_ok [where P = P, OF ok svc] by (simp add: report_node_def)
next
  case Review_op
  then show ?thesis unfolding report_node_def Review_op report_operation.case
    by (auto simp: ok services_okD(6) [OF svc] intro!: controlled_ok [where P = P] split: option.split list.split)
next
  case Submit_op
  then show ?thesis unfolding report_node_def Submit_op report_operation.case
    by (auto simp: ok services_okD(7) [OF svc] intro!: controlled_ok [where P = P] split: option.split list.split)
qed

lemma generate_node_ok:
  assumes ok: "P s" and svc: "services_ok P svc"
  shows "P (snd (generate_node svc rep spec c s))"
proof -
  have get: "P (snd (if sp then ds_get_meeting svc (sm_meeting_id spec) c s else (Inr [], s)))" for sp
    using ok services_okD(3) [OF svc ok] by simp
  show ?thesis unfolding generate_node_def
    by (intro bnd_keeps [where P = P] get) (simp only: case_prod_unfold completed_snd services_okD(8) [OF svc])
qed

lemma meeting_node_ok:
  assumes ok: "P s" and svc: "services_ok P svc"
  shows "P (snd (meeting_node svc rep spec resume c s))"
proof (cases "sm_operation spec")
  case Transcribe_op
  show ?thesis unfolding meeting_node_def Transcribe_op meeting_operation.case
    by (rule bnd_keeps [where P = P]) (simp_all only: services_okD(2) [OF svc ok] case_prod_unfold snd_conv)
next
  case Generate_op
  then show ?thesis using generate_node_ok [where P = P, OF ok svc] by (simp add: meeting_node_def)
next
  case Review_minutes_op
  show ?thesis unfolding meeting_node_def Review_minutes_op meeting_operation.case
    by (intro controlled_ok [where P = P] ok) (simp add: services_okD(9) [OF svc])
next
  case Send_op
  show ?thesis unfolding meeting_node_def Send_op meeting_operation.case
    by (intro controlled_ok [where P = P] ok) (simp add: services_okD(10) [OF svc])
qed

end
