(* ===== verification/Office_Runs.thy ===== *)
theory Office_Runs
  imports Office_Steps
begin

text \<open>
  Executions of the application over the database, in so far as reports and minutes are concerned: requests of
  any callers to the report and minutes routes and runs of the agent's domain graphs, each run to its end before
  the next one starts, and everything that leaves the company on the way. Requests that overlap are the subject of
  the last section and of \<open>Office_Overlap\<close>.
\<close>

section \<open>Executions\<close>

definition start_db :: "audit_service \<Rightarrow> audit_service \<Rightarrow> office_db" where
  "start_db a b = \<lparr>of_reports = [], of_meetings = [], of_idem = [], of_audit = a,
     of_ext = (\<lparr>ob_reports = [], ob_mails = []\<rparr>, b)\<rparr>"

text \<open>
  The services the agent's domain graphs are given. What is outside the modelled tables (the sources of work
  events, the background tasks, the meeting system) answers depending on the state and leaves it alone.
\<close>

definition agent_services ::
  "unicode \<Rightarrow> (ustr \<Rightarrow> ustr) \<Rightarrow> (report_draft \<Rightarrow> ustr) \<Rightarrow> (minutes_draft \<Rightarrow> ustr) \<Rightarrow> (ustr \<Rightarrow> instant \<Rightarrow> ustr option) \<Rightarrow>
   (instant \<Rightarrow> ustr) \<Rightarrow> (report_draft \<Rightarrow> ustr \<Rightarrow> request_context \<Rightarrow> jdict res) \<Rightarrow>
   (ustr \<Rightarrow> ustr \<Rightarrow> ustr \<Rightarrow> request_context \<Rightarrow> jdict res) \<Rightarrow>
   (ustr \<Rightarrow> ustr \<Rightarrow> request_context \<Rightarrow> office_db \<Rightarrow> (work_event list \<times> ustr list) res) \<Rightarrow>
   (ustr \<Rightarrow> request_context \<Rightarrow> office_db \<Rightarrow> (ustr \<times> ustr) res) \<Rightarrow>
   (ustr \<Rightarrow> request_context \<Rightarrow> office_db \<Rightarrow> jdict res) \<Rightarrow> ustr \<Rightarrow> instant \<Rightarrow> office_db domain_services" where
  "agent_services u lower dump sha zone_date system_date report_system mail_system collect transcribe get_meeting uuid now =
     office_services sql_report_repo sql_minutes_repo sql_idem_repo u lower dump sha zone_date system_date
       (post_report report_system) (post_mail mail_system) (\<lambda>a b c s. (collect a b c s, s))
       (\<lambda>i c s. (transcribe i c s, s)) (\<lambda>i c s. (get_meeting i c s, s)) uuid now"

text \<open>
  A step is a request to one of the six routes, or a node of a domain graph: run on any specification the
  model came up with, for the first time (\<open>resume\<close> is \<open>None\<close>) or with whatever it is resumed with. The relation
  covers executions under two restrictions: no other request runs while one waits for a connector, and a report
  system or mail system that accepts something answers with its \<open>submission_id\<close> or \<open>message_id\<close>, as a text
  (\<open>names_it\<close>). Without the first a report can leave twice (\<open>overlapping_submissions_reach_twice\<close>), without the
  second the submission is repeated because nothing remembers it.
\<close>

inductive office_run :: "unicode \<Rightarrow> (report_draft \<Rightarrow> ustr) \<Rightarrow> office_db \<Rightarrow> bool" for u dump where
  start: "office_run u dump (start_db a b)"
| generate_report: "office_run u dump s \<Longrightarrow>
    generate_report sql_report_repo lower uuid collect identity payload s = (x, s') \<Longrightarrow> office_run u dump s'"
| review_report: "office_run u dump s \<Longrightarrow>
    review_report_route sql_report_repo identity i ok comment s = (x, s') \<Longrightarrow> office_run u dump s'"
| submit_report: "office_run u dump s \<Longrightarrow> (\<And>d k c. names_it ''submission_id'' (report_system d k c)) \<Longrightarrow>
    submit_report_route sql_report_repo sql_idem_repo u dump (post_report report_system) identity i s = (y, s') \<Longrightarrow>
    office_run u dump s'"
| generate_minutes: "office_run u dump s \<Longrightarrow>
    generate_minutes_route sql_minutes_repo zone_date system_date now identity i title segments day s = (z, s') \<Longrightarrow>
    office_run u dump s'"
| review_minutes: "office_run u dump s \<Longrightarrow>
    review_minutes_route sql_minutes_repo sha now identity i ok comment s = (z, s') \<Longrightarrow> office_run u dump s'"
| send_minutes: "office_run u dump s \<Longrightarrow> (\<And>a b k c. names_it ''message_id'' (mail_system a b k c)) \<Longrightarrow>
    send_minutes_route sql_minutes_repo sql_idem_repo u (post_mail mail_system) now identity i s = (w, s') \<Longrightarrow>
    office_run u dump s'"
| report_agent: "office_run u dump s \<Longrightarrow> (\<And>d k c. names_it ''submission_id'' (report_system d k c)) \<Longrightarrow>
    report_node (agent_services u lower dump sha zone_date system_date report_system mail_system collect transcribe
      get_meeting uuid now) add6 rspec resume c s = (out, s') \<Longrightarrow> office_run u dump s'"
| meeting_agent: "office_run u dump s \<Longrightarrow> (\<And>a b k c. names_it ''message_id'' (mail_system a b k c)) \<Longrightarrow>
    meeting_node (agent_services u lower dump sha zone_date system_date report_system mail_system collect transcribe
      get_meeting uuid now) rep mspec resume c s = (out, s') \<Longrightarrow> office_run u dump s'"

section \<open>The invariant\<close>

definition audited :: "string \<Rightarrow> ustr \<Rightarrow> ustr \<Rightarrow> audit_service \<Rightarrow> bool" where
  "audited action tenant target a \<longleftrightarrow>
     (\<exists>r \<in> set (au_records a). ar_action r = U action \<and> ar_tenant_id r = tenant \<and> ar_target_id r = target)"

lemma audited_event [simp]:
  "audited p t i (audit_record_event act c j a) \<longleftrightarrow>
     audited p t i a \<or> (act = U p \<and> t = rc_tenant_id c \<and> i = j)"
  by (auto simp: audited_def audit_records_append)

text \<open>
  The routes write what happens to minutes to the module's audit service, the agent to the application's.
\<close>

definition on_record :: "string \<Rightarrow> ustr \<Rightarrow> ustr \<Rightarrow> office_db \<Rightarrow> bool" where
  "on_record action tenant target s \<longleftrightarrow>
     audited action tenant target (of_audit s) \<or> audited action tenant target (module_audit s)"

fun report_ref :: "request_context \<times> report_draft \<Rightarrow> ustr \<times> ustr" where
  "report_ref (c, d) = (rc_tenant_id c, rd_report_id d)"

fun mail_ref :: "request_context \<times> ustr \<times> ustr \<times> ustr \<Rightarrow> ustr \<times> ustr" where
  "mail_ref (c, subject, body, k) = (rc_tenant_id c, k)"

text \<open>What is known of a report and of an e-mail in the outbox.\<close>

definition released_report :: "unicode \<Rightarrow> (report_draft \<Rightarrow> ustr) \<Rightarrow> audit_service \<Rightarrow> request_context \<Rightarrow> report_draft \<Rightarrow> bool" where
  "released_report u dump a c d \<longleftrightarrow>
     U ''report:submit'' \<in> rc_permission_scopes c \<and> rd_status d = Approved_r \<and> findings u (dump d) = [] \<and>
     audited ''report.review'' (rc_tenant_id c) (rd_report_id d) a \<and>
     audited ''report.submit'' (rc_tenant_id c) (rd_report_id d) a"

definition released_mail :: "unicode \<Rightarrow> office_db \<Rightarrow> request_context \<Rightarrow> ustr \<Rightarrow> ustr \<Rightarrow> ustr \<Rightarrow> bool" where
  "released_mail u s c subject body i \<longleftrightarrow>
     U ''meeting:send'' \<in> rc_permission_scopes c \<and> findings u (subject @ [10] @ body) = [] \<and>
     on_record ''meeting_minutes.review'' (rc_tenant_id c) i s \<and>
     on_record ''meeting_minutes.send'' (rc_tenant_id c) i s"

definition reports_ok :: "unicode \<Rightarrow> (report_draft \<Rightarrow> ustr) \<Rightarrow> office_db \<Rightarrow> bool" where
  "reports_ok u dump s \<longleftrightarrow> sql_reports_wf (of_reports s) \<and>
     (\<forall>t i d. sql_report_view (of_reports s) (t, i) = Some d \<longrightarrow> rd_status d \<noteq> Draft_r \<longrightarrow>
        audited ''report.review'' t i (of_audit s)) \<and>
     (\<forall>t i d. sql_report_view (of_reports s) (t, i) = Some d \<longrightarrow> report_storable d) \<and>
     distinct (map report_ref (ob_reports (fst (of_ext s)))) \<and>
     (\<forall>(c, d) \<in> set (ob_reports (fst (of_ext s))). released_report u dump (of_audit s) c d \<and>
        sql_memo (of_idem s) (rc_tenant_id c, U ''report.submit'', rd_report_id d) \<noteq> None)"

definition minutes_ok :: "unicode \<Rightarrow> office_db \<Rightarrow> bool" where
  "minutes_ok u s \<longleftrightarrow> sql_minutes_wf (of_meetings s) \<and>
     (\<forall>t i d. sql_minutes_view (of_meetings s) (t, i) = Some d \<longrightarrow> mm_status d \<noteq> Draft_m \<longrightarrow>
        on_record ''meeting_minutes.review'' t i s) \<and>
     (\<forall>t i d. sql_minutes_view (of_meetings s) (t, i) = Some d \<longrightarrow> minutes_storable d) \<and>
     distinct (map mail_ref (ob_mails (fst (of_ext s)))) \<and>
     (\<forall>(c, subject, body, k) \<in> set (ob_mails (fst (of_ext s))).
        \<exists>i. k = minutes_key c i \<and> released_mail u s c subject body i \<and>
          sql_memo (of_idem s) (rc_tenant_id c, U ''meeting_minutes.send'', i) \<noteq> None)"

definition office_ok :: "unicode \<Rightarrow> (report_draft \<Rightarrow> ustr) \<Rightarrow> office_db \<Rightarrow> bool" where
  "office_ok u dump s \<longleftrightarrow> sql_idem_wf (of_idem s) \<and> reports_ok u dump s \<and> minutes_ok u s"

lemma reports_ok_reviewed:
  "reports_ok u dump s \<Longrightarrow> sql_report_view (of_reports s) (t, i) = Some d \<Longrightarrow> rd_status d \<noteq> Draft_r \<Longrightarrow>
    audited ''report.review'' t i (of_audit s)"
  by (simp add: reports_ok_def)

lemma minutes_ok_reviewed:
  "minutes_ok u s \<Longrightarrow> sql_minutes_view (of_meetings s) (t, i) = Some d \<Longrightarrow> mm_status d \<noteq> Draft_m \<Longrightarrow>
    on_record ''meeting_minutes.review'' t i s"
  by (simp add: minutes_ok_def)

lemma minutes_ok_mailed:
  "minutes_ok u s \<Longrightarrow> (c, x, y, k) \<in> set (ob_mails (fst (of_ext s))) \<Longrightarrow>
    \<exists>i. k = minutes_key c i \<and> released_mail u s c x y i \<and>
      sql_memo (of_idem s) (rc_tenant_id c, U ''meeting_minutes.send'', i) \<noteq> None"
  unfolding minutes_ok_def by (elim conjE, drule (1) bspec, simp)

text \<open>What one half of the state does leaves the other half's invariant alone; records are only added.\<close>

definition keeps_records :: "office_db \<Rightarrow> office_db \<Rightarrow> bool" where
  "keeps_records s s' \<longleftrightarrow>
     (\<forall>p t i. audited p t i (of_audit s) \<longrightarrow> audited p t i (of_audit s')) \<and> module_audit s' = module_audit s \<and>
     (\<forall>k. sql_memo (of_idem s) k \<noteq> None \<longrightarrow> sql_memo (of_idem s') k \<noteq> None)"

lemma keeps_records_on_record: "keeps_records s s' \<Longrightarrow> on_record p t i s \<Longrightarrow> on_record p t i s'"
  by (auto simp: keeps_records_def on_record_def)

lemma released_report_kept:
  "keeps_records s s' \<Longrightarrow> released_report u dump (of_audit s) c d \<Longrightarrow> released_report u dump (of_audit s') c d"
  by (auto simp: released_report_def keeps_records_def)

lemma released_mail_kept: "keeps_records s s' \<Longrightarrow> released_mail u s c x y i \<Longrightarrow> released_mail u s' c x y i"
  by (auto simp: released_mail_def intro: keeps_records_on_record)

lemma reports_ok_frame:
  assumes "reports_ok u dump s" "keeps_records s s'" "of_reports s' = of_reports s"
    and "ob_reports (fst (of_ext s')) = ob_reports (fst (of_ext s))"
  shows "reports_ok u dump s'"
  using assms released_report_kept [OF assms(2)] unfolding reports_ok_def keeps_records_def by fastforce

lemma minutes_ok_frame:
  assumes "minutes_ok u s" "keeps_records s s'" "of_meetings s' = of_meetings s"
    and "ob_mails (fst (of_ext s')) = ob_mails (fst (of_ext s))"
  shows "minutes_ok u s'"
proof -
  note ok = assms(1) [unfolded minutes_ok_def]
  have mails: "\<exists>i. k = minutes_key c i \<and> released_mail u s' c x y i \<and>
      sql_memo (of_idem s') (rc_tenant_id c, U ''meeting_minutes.send'', i) \<noteq> None"
    if mail: "(c, x, y, k) \<in> set (ob_mails (fst (of_ext s)))" for c x y k
  proof -
    obtain i where i: "k = minutes_key c i" "released_mail u s c x y i"
      "sql_memo (of_idem s) (rc_tenant_id c, U ''meeting_minutes.send'', i) \<noteq> None"
      using minutes_ok_mailed [OF assms(1) mail] by blast
    then show ?thesis
      using released_mail_kept [OF assms(2) i(2)] assms(2) unfolding keeps_records_def by metis
  qed
  have reviewed: "on_record ''meeting_minutes.review'' t i s'"
    if "sql_minutes_view (of_meetings s) (t, i) = Some d" "mm_status d \<noteq> Draft_m" for t i d
    by (rule keeps_records_on_record [OF assms(2)], rule minutes_ok_reviewed [OF assms(1) that])
  have "\<forall>(c, x, y, k) \<in> set (ob_mails (fst (of_ext s))). \<exists>i. k = minutes_key c i \<and>
      released_mail u s' c x y i \<and> sql_memo (of_idem s') (rc_tenant_id c, U ''meeting_minutes.send'', i) \<noteq> None"
    using mails by blast
  moreover have "\<forall>t i d. sql_minutes_view (of_meetings s) (t, i) = Some d \<longrightarrow> mm_status d \<noteq> Draft_m \<longrightarrow>
      on_record ''meeting_minutes.review'' t i s'"
    using reviewed by blast
  ultimately show ?thesis using ok unfolding minutes_ok_def assms(3,4) by simp
qed

lemma minutes_ok_storable:
  "minutes_ok u s \<Longrightarrow> sql_minutes_view (of_meetings s) k = Some d \<Longrightarrow> minutes_storable d"
  by (cases k) (simp add: minutes_ok_def)

lemma reports_ok_storable:
  "reports_ok u dump s \<Longrightarrow> sql_report_view (of_reports s) k = Some d \<Longrightarrow> report_storable d"
  by (cases k) (simp add: reports_ok_def)

text \<open>Exchanging the two audit services does not matter to the minutes.\<close>

lemma minutes_ok_swap [simp]: "minutes_ok u (swap_audit s) \<longleftrightarrow> minutes_ok u s"
proof -
  have r: "on_record p t i (swap_audit s) \<longleftrightarrow> on_record p t i s" for p t i by (auto simp: on_record_def)
  have "fst (of_ext (swap_audit s)) = fst (of_ext s)" by (simp add: swap_audit_def)
  then show ?thesis by (simp add: minutes_ok_def released_mail_def r)
qed

lemma released_report_mono: "released_report u dump a c d \<Longrightarrow> released_report u dump (audit_record_event act c' i a) c d"
  by (auto simp: released_report_def)

lemma drafted_ok:
  assumes "reports_ok u dump s" "drafted c (of_reports s) rows"
  shows "reports_ok u dump (s\<lparr>of_reports := rows\<rparr>)"
  using assms unfolding reports_ok_def drafted_def by simp blast

lemma reviewed_ok:
  assumes "reports_ok u dump s" "sql_reports_wf rows"
    and "sql_report_view rows = (sql_report_view (of_reports s))((rc_tenant_id c, i) \<mapsto> d)" "report_storable d"
  shows "reports_ok u dump (s\<lparr>of_reports := rows, of_audit := audit_record_event (U ''report.review'') c i (of_audit s)\<rparr>)"
  using assms released_report_mono [where act = "U ''report.review''" and i = i and c' = c and a = "of_audit s"]
  unfolding reports_ok_def by auto

lemma submitted_ok:
  assumes ok: "reports_ok u dump s" and d: "submittable u dump i c d s" and s': "submitted i c d s s'"
  shows "reports_ok u dump s'"
proof -
  note d = d [unfolded submittable_def]
  obtain rows memos m where rows: "sql_reports_wf rows"
    "sql_report_view rows = (sql_report_view (of_reports s))((rc_tenant_id c, i) \<mapsto> d\<lparr>rd_status := Submitted_r\<rparr>)"
    and memos: "sql_memo memos = (sql_memo (of_idem s))((rc_tenant_id c, U ''report.submit'', i) \<mapsto> m)"
    and s': "s' = s\<lparr>of_reports := rows, of_idem := memos,
      of_audit := audit_record_event (U ''report.submit'') c i (of_audit s),
      of_ext := ((fst (of_ext s))\<lparr>ob_reports := ob_reports (fst (of_ext s)) @ [(c, d)]\<rparr>, snd (of_ext s))\<rparr>"
    using s' unfolding submitted_def by blast
  have reviewed: "audited ''report.review'' (rc_tenant_id c) i (of_audit s)"
    by (rule reports_ok_reviewed [OF ok, of _ _ d]) (use d in simp_all)
  have "report_ref x \<noteq> (rc_tenant_id c, i)" if "x \<in> set (ob_reports (fst (of_ext s)))" for x
    using ok d that unfolding reports_ok_def by (cases x) auto
  then have "distinct (map report_ref (ob_reports (fst (of_ext s')))) "
    using ok d by (auto simp: s' reports_ok_def)
  then show ?thesis
    using ok d rows memos reviewed released_report_mono
      [where act = "U ''report.submit''" and i = i and c' = c and a = "of_audit s"]
    unfolding reports_ok_def by (auto simp: s' released_report_def)
qed

text \<open>A step on minutes, seen from the rest of the state.\<close>

definition minutes_step :: "unicode \<Rightarrow> office_db \<Rightarrow> office_db \<Rightarrow> bool" where
  "minutes_step u s s' \<longleftrightarrow> minutes_ok u s' \<and> sql_idem_wf (of_idem s') \<and> keeps_records s s' \<and>
     of_reports s' = of_reports s \<and> ob_reports (fst (of_ext s')) = ob_reports (fst (of_ext s))"

lemma minutes_step_ok: "office_ok u dump s \<Longrightarrow> minutes_step u s s' \<Longrightarrow> office_ok u dump s'"
  using reports_ok_frame by (simp add: office_ok_def minutes_step_def) blast

lemma minutes_step_module_ok:
  assumes "office_ok u dump s" "minutes_step u (swap_audit s) s'"
  shows "office_ok u dump (swap_audit s')"
proof -
  have ext: "fst (of_ext (swap_audit x)) = fst (of_ext x)" for x :: office_db by (simp add: swap_audit_def)
  have "reports_ok u dump (swap_audit s')"
    using assms unfolding office_ok_def minutes_step_def keeps_records_def reports_ok_def by (fastforce simp: ext)
  with assms(2) show ?thesis by (simp add: office_ok_def minutes_step_def)
qed

lemma minutes_reviewed_ok:
  assumes "minutes_ok u s" "sql_idem_wf (of_idem s)" "sql_minutes_wf rows"
    and "sql_minutes_view rows = (sql_minutes_view (of_meetings s))((rc_tenant_id c, i) \<mapsto> d)" "minutes_storable d"
  shows "minutes_step u s
    (s\<lparr>of_meetings := rows, of_audit := audit_record_event (U ''meeting_minutes.review'') c i (of_audit s)\<rparr>)"
    (is "minutes_step u s ?s")
proof -
  have k: "keeps_records s ?s" by (simp add: keeps_records_def module_audit_def)
  have "\<exists>j. k = minutes_key c' j \<and> released_mail u ?s c' x y j \<and>
      sql_memo (of_idem s) (rc_tenant_id c', U ''meeting_minutes.send'', j) \<noteq> None"
    if "(c', x, y, k) \<in> set (ob_mails (fst (of_ext s)))" for c' x y k
    using assms(1) that released_mail_kept [OF k] unfolding minutes_ok_def by fastforce
  moreover have "on_record ''meeting_minutes.review'' (rc_tenant_id c) i ?s" by (simp add: on_record_def)
  ultimately have "minutes_ok u ?s"
    using assms keeps_records_on_record [OF k] unfolding minutes_ok_def by (auto split: if_splits)
  with k assms(2) show ?thesis by (simp add: minutes_step_def)
qed

lemma mailed_ok:
  assumes ok: "minutes_ok u s" and d: "mailable u i c d s" and s': "mailed i c d s s'"
  shows "minutes_step u s s'"
proof -
  note d = d [unfolded mailable_def]
  obtain rows memos m where rows: "sql_minutes_wf rows"
    "sql_minutes_view rows = (sql_minutes_view (of_meetings s))((rc_tenant_id c, i) \<mapsto> d\<lparr>mm_status := Sent_m\<rparr>)"
    and memos: "sql_idem_wf memos"
      "sql_memo memos = (sql_memo (of_idem s))((rc_tenant_id c, U ''meeting_minutes.send'', i) \<mapsto> m)"
    and s': "s' = s\<lparr>of_meetings := rows, of_idem := memos,
      of_audit := audit_record_event (U ''meeting_minutes.send'') c i (of_audit s),
      of_ext := ((fst (of_ext s))\<lparr>ob_mails := ob_mails (fst (of_ext s)) @
                   [(c, mm_title d, mm_summary d, minutes_key c i)]\<rparr>, snd (of_ext s))\<rparr>"
    using s' unfolding mailed_def by blast
  have k: "keeps_records s s'" by (simp add: s' keeps_records_def module_audit_def memos)
  have reviewed: "on_record ''meeting_minutes.review'' (rc_tenant_id c) i s'"
    by (rule keeps_records_on_record [OF k], rule minutes_ok_reviewed [OF ok, of _ _ d]) (use d in simp_all)
  have old: "\<exists>j. k = minutes_key c' j \<and> released_mail u s c' x y j \<and>
      sql_memo (of_idem s) (rc_tenant_id c', U ''meeting_minutes.send'', j) \<noteq> None"
    if "(c', x, y, k) \<in> set (ob_mails (fst (of_ext s)))" for c' x y k
    using ok that unfolding minutes_ok_def by fastforce
  have "(rc_tenant_id c, minutes_key c i) \<notin> mail_ref ` set (ob_mails (fst (of_ext s)))"
  proof
    assume "(rc_tenant_id c, minutes_key c i) \<in> mail_ref ` set (ob_mails (fst (of_ext s)))"
    then obtain c' x y k where "(c', x, y, k) \<in> set (ob_mails (fst (of_ext s)))"
      "rc_tenant_id c = rc_tenant_id c'" "minutes_key c i = k" by auto
    with old [OF this(1)] d show False by (auto simp: minutes_key_def)
  qed
  then have "distinct (map mail_ref (ob_mails (fst (of_ext s'))))"
    using ok by (simp add: s' minutes_ok_def)
  moreover have "\<exists>j. key = minutes_key c' j \<and> released_mail u s' c' x y j \<and>
      sql_memo memos (rc_tenant_id c', U ''meeting_minutes.send'', j) \<noteq> None"
    if "(c', x, y, key) \<in> set (ob_mails (fst (of_ext s')))" for c' x y key
  proof (cases "(c', x, y, key) \<in> set (ob_mails (fst (of_ext s)))")
    case True
    with old released_mail_kept [OF k] show ?thesis by (fastforce simp: memos)
  next
    case False
    with that have "c' = c" "x = mm_title d" "y = mm_summary d" "key = minutes_key c i" by (auto simp: s')
    with d reviewed show ?thesis
      by (intro exI [of _ i]) (simp add: s' memos on_record_def released_mail_def)
  qed
  moreover have "minutes_storable d" using minutes_ok_storable [OF ok] d by blast
  ultimately have "minutes_ok u s'"
    using ok rows reviewed keeps_records_on_record [OF k] unfolding minutes_ok_def
    by (auto simp: s' split: if_splits)
  with k memos show ?thesis by (simp add: minutes_step_def s')
qed

lemma new_minutes_ok:
  assumes "minutes_ok u s" "sql_minutes_wf rows" "mm_status d = Draft_m" "minutes_storable d"
    and "sql_minutes_view rows = (sql_minutes_view (of_meetings s))(k \<mapsto> d)"
  shows "minutes_ok u (s\<lparr>of_meetings := rows\<rparr>)"
  using assms unfolding minutes_ok_def released_mail_def on_record_def by (simp add: module_audit_def)

text \<open>The steps.\<close>

lemma on_reports_snd: "snd (on_reports f s) = s\<lparr>of_reports := snd (f (of_reports s))\<rparr>"
  by (simp add: on_reports_def split: prod.split)

lemma on_meetings_snd: "snd (on_meetings f s) = s\<lparr>of_meetings := snd (f (of_meetings s))\<rparr>"
  by (simp add: on_meetings_def split: prod.split)

text \<open>The operations of the services.\<close>

lemma office_ok_wf:
  assumes "office_ok u dump s"
  shows "sql_reports_wf (of_reports s)" "sql_minutes_wf (of_meetings s)" "sql_idem_wf (of_idem s)" "minutes_ok u s"
  using assms by (simp_all add: office_ok_def reports_ok_def minutes_ok_def)

lemma reports_step_ok:
  assumes "office_ok u dump s" "reports_ok u dump s'" "sql_idem_wf (of_idem s')" "keeps_records s s'"
    and "of_meetings s' = of_meetings s" "ob_mails (fst (of_ext s')) = ob_mails (fst (of_ext s))"
  shows "office_ok u dump s'"
  using assms minutes_ok_frame [OF office_ok_wf(4) [OF assms(1)] assms(4-6)] by (simp add: office_ok_def)

lemma drafting_ok:
  assumes "office_ok u dump s" "drafted c (of_reports s) rows"
  shows "office_ok u dump (s\<lparr>of_reports := rows\<rparr>)"
  using assms drafted_ok [OF _ assms(2)]
  by (intro reports_step_ok [OF assms(1)]) (simp_all add: office_ok_def keeps_records_def module_audit_def)

lemma generate_ok:
  assumes "office_ok u dump s"
  shows "office_ok u dump (snd (on_reports (generate_daily sql_report_repo lower uuid day events (Some c) ws) s))"
    and "office_ok u dump (snd (on_reports (generate_weekly sql_report_repo lower uuid day events (Some c) ws) s))"
  using drafting_ok [OF assms generate_drafts(1) [OF office_ok_wf(1) [OF assms]]]
    drafting_ok [OF assms generate_drafts(2) [OF office_ok_wf(1) [OF assms]]] by (simp_all add: on_reports_snd)

lemma report_review_ok:
  assumes "office_ok u dump s"
  shows "office_ok u dump (snd (report_review sql_report_repo i ok comment c s))"
proof -
  have "office_ok u dump (s\<lparr>of_reports := rows, of_audit := audit_record_event (U ''report.review'') c i (of_audit s)\<rparr>)"
    if "sql_reports_wf rows" "sql_report_view rows = (sql_report_view (of_reports s))((rc_tenant_id c, i) \<mapsto> d)"
      "report_storable d" for rows d
    using assms reviewed_ok [OF _ that]
    by (intro reports_step_ok [OF assms]) (simp_all add: office_ok_def keeps_records_def module_audit_def)
  moreover have "report_storable (reviewed_report ok comment d)"
    if "sql_report_view (of_reports s) (rc_tenant_id c, i) = Some d" for d
    using assms that by (auto simp: office_ok_def reports_ok_def)
  ultimately show ?thesis using assms review_cases [OF office_ok_wf(1) [OF assms], of i ok comment c] by auto
qed

lemma report_submit_ok:
  assumes ok: "office_ok u dump s" and names: "\<And>d k c. names_it ''submission_id'' (system d k c)"
  shows "office_ok u dump (snd (report_submit sql_report_repo sql_idem_repo u dump (post_report system) i c s))"
proof -
  have "office_ok u dump s'" if d: "submittable u dump i c d s" "submitted i c d s s'" for d s'
  proof -
    have "reports_ok u dump s'" using ok submitted_ok [OF _ d] by (simp add: office_ok_def)
    moreover have "sql_idem_wf (of_idem s')" "keeps_records s s'" "of_meetings s' = of_meetings s"
      "ob_mails (fst (of_ext s')) = ob_mails (fst (of_ext s))"
      using d(2) unfolding submitted_def by (auto simp: keeps_records_def module_audit_def)
    ultimately show ?thesis by (rule reports_step_ok [OF ok])
  qed
  with ok report_submit_cases [where system = system and u = u and dump = dump and i = i and c = c,
      OF office_ok_wf(1,3) [OF ok] names prod.collapse [symmetric]]
  show ?thesis by auto
qed

lemma minutes_generate_ok:
  assumes "office_ok u dump s"
  shows "office_ok u dump (snd (on_meetings (minutes_generate sql_minutes_repo zd sd n i title segs c day) s))"
proof -
  let ?rows = "snd (minutes_generate sql_minutes_repo zd sd n i title segs c day (of_meetings s))"
  obtain d where d: "mm_status d = Draft_m" "minutes_storable d" "sql_minutes_wf ?rows"
    "sql_minutes_view ?rows = (sql_minutes_view (of_meetings s))((rc_tenant_id c, i) \<mapsto> d)"
    by (rule minutes_generate_view [OF office_ok_wf(2) [OF assms]])
  have "keeps_records s (s\<lparr>of_meetings := ?rows\<rparr>)" by (simp add: keeps_records_def module_audit_def)
  with assms new_minutes_ok [OF _ d(3,1,2,4)] reports_ok_frame [of u dump s "s\<lparr>of_meetings := ?rows\<rparr>"]
  show ?thesis by (simp add: office_ok_def on_meetings_snd)
qed

lemma minutes_step_refl: "minutes_ok u s \<Longrightarrow> sql_idem_wf (of_idem s) \<Longrightarrow> minutes_step u s s"
  by (simp add: minutes_step_def keeps_records_def)

lemma minutes_review_step:
  assumes "minutes_ok u s" "sql_idem_wf (of_idem s)"
  shows "minutes_step u s (snd (minutes_review sql_minutes_repo sha n i ok comment c s))"
proof -
  have wf: "sql_minutes_wf (of_meetings s)" using assms(1) by (simp add: minutes_ok_def)
  have "minutes_storable (reviewed_minutes sha ok comment d)"
    if "sql_minutes_view (of_meetings s) (rc_tenant_id c, i) = Some d" for d
    using assms(1) that by (auto simp: minutes_ok_def)
  with minutes_review_cases [OF wf, of sha n i ok comment c] show ?thesis
    using minutes_step_refl [OF assms] minutes_reviewed_ok [OF assms] by auto
qed

lemma minutes_send_step:
  assumes "minutes_ok u s" "sql_idem_wf (of_idem s)" "\<And>a b k c. names_it ''message_id'' (system a b k c)"
  shows "minutes_step u s (snd (send_db u system n i c s))"
proof -
  have "sql_minutes_wf (of_meetings s)" using assms(1) by (simp add: minutes_ok_def)
  from send_cases [where system = system and u = u and n = n and i = i and c = c, OF this assms(2,3)
      prod.collapse [symmetric]]
  show ?thesis using minutes_step_refl [OF assms(1,2)] mailed_ok [OF assms(1)] by auto
qed

text \<open>The same operations when the route runs them with the module's audit service.\<close>

lemma snd_with_module_audit: "snd (with_module_audit f s) = swap_audit (snd (f (swap_audit s)))"
  by (simp add: with_module_audit_def split: prod.split)

lemma with_module_audit_ok:
  assumes "office_ok u dump s" "minutes_step u (swap_audit s) (snd (f (swap_audit s)))"
  shows "office_ok u dump (snd (with_module_audit f s))"
  using minutes_step_module_ok [OF assms] by (simp add: snd_with_module_audit)

lemma swapped_ok: "office_ok u dump s \<Longrightarrow> minutes_ok u (swap_audit s) \<and> sql_idem_wf (of_idem (swap_audit s))"
  by (simp add: office_ok_def)

text \<open>The routes.\<close>

lemma generate_report_ok:
  "office_ok u dump s \<Longrightarrow>
    office_ok u dump (snd (generate_report sql_report_repo lower uuid collect identity payload s))"
  unfolding generate_report_def by (rule with_context_state) (auto simp: generate_ok split: sum.split)

lemma review_report_ok:
  "office_ok u dump s \<Longrightarrow> office_ok u dump (snd (review_report_route sql_report_repo identity i ok comment s))"
  unfolding review_report_route_def by (rule with_context_state) (simp_all add: report_review_ok)

lemma submit_report_ok:
  assumes "office_ok u dump s" "\<And>d k c. names_it ''submission_id'' (system d k c)"
  shows "office_ok u dump (snd (submit_report_route sql_report_repo sql_idem_repo u dump (post_report system) identity i s))"
  unfolding submit_report_route_def by (rule with_context_state) (simp_all add: report_submit_ok assms)

lemma generate_minutes_ok:
  "office_ok u dump s \<Longrightarrow>
    office_ok u dump (snd (generate_minutes_route sql_minutes_repo zd sd n identity i title segs day s))"
  unfolding generate_minutes_route_def by (rule with_context_state) (simp_all add: minutes_generate_ok)

lemma review_minutes_ok:
  assumes "office_ok u dump s"
  shows "office_ok u dump (snd (review_minutes_route sql_minutes_repo sha n identity i ok comment s))"
proof -
  have "office_ok u dump (snd (with_module_audit (minutes_review sql_minutes_repo sha n i ok comment c) s))" for c
    using swapped_ok [OF assms] by (intro with_module_audit_ok [OF assms] minutes_review_step) simp_all
  then show ?thesis
    unfolding review_minutes_route_def
    by (intro with_context_state [where P = "office_ok u dump"]) (simp_all only: with_http_state assms)
qed

lemma send_minutes_ok:
  assumes "office_ok u dump s" "\<And>a b k c. names_it ''message_id'' (system a b k c)"
  shows "office_ok u dump (snd (send_minutes_route sql_minutes_repo sql_idem_repo u (post_mail system) n identity i s))"
proof -
  have "office_ok u dump (snd (with_module_audit (send_db u system n i c) s))" for c
    using swapped_ok [OF assms(1)]
    by (intro with_module_audit_ok [OF assms(1)] minutes_send_step assms(2)) simp_all
  then show ?thesis
    unfolding send_minutes_route_def send_module_audit
    by (intro with_context_state [where P = "office_ok u dump"]) (simp_all only: with_http_state assms)
qed

text \<open>The nodes of the agent's graphs.\<close>

lemma agent_services_simps:
  fixes u lower dump sha zd sd report_system mail_system collect transcribe get_meeting uuid n
  defines "svc \<equiv> agent_services u lower dump sha zd sd report_system mail_system collect transcribe get_meeting uuid n"
  shows "snd (ds_collect svc a b c s) = s" "snd (ds_transcribe svc i c s) = s" "snd (ds_get_meeting svc i c s) = s"
    and "snd (ds_daily svc d events ws c s) = snd (on_reports (generate_daily sql_report_repo lower uuid d events (Some c) ws) s)"
    and "snd (ds_weekly svc d events ws c s) = snd (on_reports (generate_weekly sql_report_repo lower uuid d events (Some c) ws) s)"
    and "snd (ds_review_report svc i ok comment c s) = snd (report_review sql_report_repo i ok comment c s)"
    and "snd (ds_submit_report svc i c s) = snd (report_submit sql_report_repo sql_idem_repo u dump (post_report report_system) i c s)"
    and "snd (ds_minutes svc i title segs day c s) =
      snd (on_meetings (minutes_generate sql_minutes_repo zd sd n i title segs c day) s)"
    and "snd (ds_review_minutes svc i ok comment c s) = snd (minutes_review sql_minutes_repo sha n i ok comment c s)"
    and "snd (ds_send_minutes svc i c s) = snd (send_db u mail_system n i c s)"
  by (simp_all add: svc_def agent_services_def office_services_def)

lemma agent_services_ok:
  assumes "\<And>d k c. names_it ''submission_id'' (report_system d k c)"
    and "\<And>a b k c. names_it ''message_id'' (mail_system a b k c)"
  shows "services_ok (office_ok u dump)
    (agent_services u lower dump sha zd sd report_system mail_system collect transcribe get_meeting uuid n)"
proof -
  have "office_ok u dump (snd (send_db u mail_system n i c s))" if "office_ok u dump s" for i c s
    using minutes_step_ok [OF that minutes_send_step [where system = mail_system, OF office_ok_wf(4,3) [OF that] assms(2)]] .
  moreover have "office_ok u dump (snd (minutes_review sql_minutes_repo sha n i ok comment c s))"
    if "office_ok u dump s" for i ok comment c s
    using minutes_step_ok [OF that minutes_review_step [OF office_ok_wf(4,3) [OF that]]] .
  ultimately show ?thesis
    unfolding services_ok_def agent_services_simps
    by (simp add: generate_ok report_review_ok minutes_generate_ok report_submit_ok [OF _ assms(1)])
qed

text \<open>The graph of reports does not use the mail system, the graph of meetings not the report system.\<close>

lemma unused_services:
  "report_node (svc\<lparr>ds_send_minutes := h\<rparr>) = report_node svc"
  "meeting_node (svc\<lparr>ds_submit_report := k\<rparr>) = meeting_node svc"
proof -
  have "prepare_draft (svc\<lparr>ds_send_minutes := h\<rparr>) = prepare_draft svc"
    "generate_node (svc\<lparr>ds_submit_report := k\<rparr>) = generate_node svc"
    by (cases svc; intro ext; simp only: prepare_draft_def generate_node_def domain_services.select_convs
        domain_services.update_convs)+
  then show "report_node (svc\<lparr>ds_send_minutes := h\<rparr>) = report_node svc"
    "meeting_node (svc\<lparr>ds_submit_report := k\<rparr>) = meeting_node svc"
    by (cases svc; intro ext; simp only: report_node_def meeting_node_def domain_services.select_convs
        domain_services.update_convs)+
qed

lemma agent_services_parts:
  "agent_services u lower dump sha zd sd f g collect transcribe get_meeting uuid n =
    (agent_services u lower dump sha zd sd f g' collect transcribe get_meeting uuid n)
      \<lparr>ds_send_minutes := (\<lambda>i c s. send_db u g n i c s)\<rparr>"
  "agent_services u lower dump sha zd sd f g collect transcribe get_meeting uuid n =
    (agent_services u lower dump sha zd sd f' g collect transcribe get_meeting uuid n)
      \<lparr>ds_submit_report := (\<lambda>i c s. report_submit sql_report_repo sql_idem_repo u dump (post_report f) i c s)\<rparr>"
  by (simp_all add: agent_services_def office_services_def)

definition refusing_connector :: "jdict res" where
  "refusing_connector = Inl (Exn RuntimeErr [])"

lemma refusing_names_it: "names_it p refusing_connector"
  by (simp add: names_it_def refusing_connector_def)

lemma agent_nodes_ok:
  fixes u lower dump sha zd sd report_system mail_system collect transcribe get_meeting uuid n
  defines "svc \<equiv> agent_services u lower dump sha zd sd report_system mail_system collect transcribe get_meeting uuid n"
  assumes ok: "office_ok u dump s"
  shows "(\<And>d k c. names_it ''submission_id'' (report_system d k c)) \<Longrightarrow>
      office_ok u dump (snd (report_node svc add6 rspec resume c s))"
    and "(\<And>a b k c. names_it ''message_id'' (mail_system a b k c)) \<Longrightarrow>
      office_ok u dump (snd (meeting_node svc rep mspec resume c s))"
proof -
  assume "\<And>d k c. names_it ''submission_id'' (report_system d k c)"
  from report_node_ok [where P = "office_ok u dump", OF ok agent_services_ok [OF this refusing_names_it]]
  show "office_ok u dump (snd (report_node svc add6 rspec resume c s))"
    unfolding svc_def agent_services_parts(1) [where g = mail_system and g' = "\<lambda>a b k c. refusing_connector"]
      unused_services .
next
  assume "\<And>a b k c. names_it ''message_id'' (mail_system a b k c)"
  from meeting_node_ok [where P = "office_ok u dump", OF ok agent_services_ok [OF refusing_names_it this]]
  show "office_ok u dump (snd (meeting_node svc rep mspec resume c s))"
    unfolding svc_def agent_services_parts(2) [where f = report_system and f' = "\<lambda>d k c. refusing_connector"]
      unused_services .
qed

lemma office_run_ok: "office_run u dump s \<Longrightarrow> office_ok u dump s"
proof (induction rule: office_run.induct)
  case (start a b)
  then show ?case
    by (simp add: office_ok_def reports_ok_def minutes_ok_def start_db_def sql_idem_wf_def sql_reports_wf_def
        sql_minutes_wf_def sql_report_view_def sql_minutes_view_def)
next
  case (report_agent s report_system)
  show ?case unfolding arg_cong [OF report_agent.hyps(3), where f = snd, unfolded snd_conv, symmetric]
    by (rule agent_nodes_ok(1) [OF report_agent.IH report_agent.hyps(2)])
next
  case (meeting_agent s mail_system)
  show ?case unfolding arg_cong [OF meeting_agent.hyps(3), where f = snd, unfolded snd_conv, symmetric]
    by (rule agent_nodes_ok(2) [OF meeting_agent.IH meeting_agent.hyps(2)])
qed (metis snd_conv generate_report_ok review_report_ok submit_report_ok generate_minutes_ok review_minutes_ok
    send_minutes_ok)+

section \<open>Properties\<close>

text \<open>One report and one meeting on their way out.\<close>

definition demo_clerk :: request_context where
  "demo_clerk =
     (RequestContext (U ''r'') (U ''t'') (U ''th'') (U ''tenant-a'') (U ''ann''))
       \<lparr>rc_permission_scopes := {U ''report:review'', U ''report:submit'', U ''meeting:review'', U ''meeting:send''}\<rparr>"

definition demo_report :: report_draft where
  "demo_report = daily_draft id (U ''r1'') (U ''2026-07-28'') mock_work_events []"

definition demo_db1 :: office_db where
  "demo_db1 = snd (generate_report sql_report_repo id (U ''r1'') (\<lambda>_ _ _ _. Inr (undefined :: work_event_collection))
     (\<lambda>_. Inr demo_clerk)
     \<lparr>rq_report_date = U ''2026-07-28'', rq_report_type = Daily, rq_events = [], rq_use_mock_sources = True\<rparr>
     (start_db no_records no_records))"

definition demo_db2 :: office_db where
  "demo_db2 = snd (review_report_route sql_report_repo (\<lambda>_. Inr demo_clerk) (U ''r1'') True None demo_db1)"

definition demo_report_system :: "report_draft \<Rightarrow> ustr \<Rightarrow> request_context \<Rightarrow> jdict res" where
  "demo_report_system d k c = Inr [(U ''submission_id'', JStr (U ''s1''))]"

definition demo_db3 :: office_db where
  "demo_db3 = snd (submit_report_route sql_report_repo sql_idem_repo demo_unicode (\<lambda>_. []) (post_report demo_report_system)
     (\<lambda>_. Inr demo_clerk) (U ''r1'') demo_db2)"

lemma demo_report_facts:
  "rd_report_id demo_report = U ''r1''" "rd_status demo_report = Draft_r"
  "rc_tenant_id demo_clerk = U ''tenant-a''"
  "rc_permission_scopes demo_clerk = {U ''report:review'', U ''report:submit'', U ''meeting:review'', U ''meeting:send''}"
  by (simp_all add: demo_report_def daily_draft_def Let_def demo_clerk_def RequestContext_def)

lemma demo_db_run:
  "office_run demo_unicode (\<lambda>_. []) demo_db1" "office_run demo_unicode (\<lambda>_. []) demo_db2"
  "office_run demo_unicode (\<lambda>_. []) demo_db3"
proof -
  show 1: "office_run demo_unicode (\<lambda>_. []) demo_db1"
    unfolding demo_db1_def by (rule office_run.generate_report [OF office_run.start prod.collapse [symmetric]])
  show 2: "office_run demo_unicode (\<lambda>_. []) demo_db2"
    unfolding demo_db2_def by (rule office_run.review_report [OF 1 prod.collapse [symmetric]])
  show "office_run demo_unicode (\<lambda>_. []) demo_db3"
    unfolding demo_db3_def
    by (rule office_run.submit_report [OF 2 _ prod.collapse [symmetric]])
       (simp add: names_it_def demo_report_system_def)
qed

lemma demo_db1_eq: "demo_db1 = (start_db no_records no_records)\<lparr>of_reports :=
    snd (sql_report_save demo_report (Some demo_clerk) [])\<rparr>"
  by (simp add: demo_db1_def generate_report_def report_events_def mock_work_events_def generate_daily_def on_reports_snd
      sql_report_repo_def demo_report_def start_db_def)

lemma demo_db1_view: "sql_report_view (of_reports demo_db1) (U ''tenant-a'', U ''r1'') = Some demo_report"
  by (simp add: demo_db1_eq sql_report_save_def sql_report_view_def demo_report_facts)

lemma demo_db_wf:
  "sql_reports_wf (of_reports demo_db1)" "sql_reports_wf (of_reports demo_db2)" "sql_idem_wf (of_idem demo_db2)"
  using demo_db_run [THEN office_run_ok] by (simp_all add: office_ok_def reports_ok_def)

lemma demo_db2_view:
  "sql_report_view (of_reports demo_db2) (U ''tenant-a'', U ''r1'') = Some (reviewed_report True None demo_report)"
  "of_idem demo_db2 = []" "of_ext demo_db2 = (\<lparr>ob_reports = [], ob_mails = []\<rparr>, no_records)"
proof -
  let ?d = "reviewed_report True None demo_report"
  have id: "rd_report_id ?d = U ''r1''" by (simp add: reviewed_report_def demo_report_facts)
  have t: "the_report sql_report_repo (U ''r1'') demo_clerk demo_db1 = (Inr demo_report, demo_db1)"
    using report_lookup [OF demo_db_wf(1), of demo_clerk "U ''r1''"] demo_db1_view by (simp add: demo_report_facts)
  obtain r rows where save: "sql_report_save ?d (Some demo_clerk) (of_reports demo_db1) = (r, rows)" by fastforce
  with sql_report_save_known [OF demo_db_wf(1) _ save] demo_db1_view id
  have r: "r = Inr ?d" "sql_report_view rows (U ''tenant-a'', U ''r1'') = Some ?d"
    by (simp_all add: demo_report_facts)
  have db2: "demo_db2 = demo_db1\<lparr>of_reports := rows,
      of_audit := audit_record_event (U ''report.review'') demo_clerk (U ''r1'') (of_audit demo_db1)\<rparr>"
    using t save r(1) by (simp add: demo_db2_def review_report_route_def report_review_def lift_res_def
        permission_require_def demo_report_facts sql_report_repo_simps on_reports_def record_audit_def)
  show "sql_report_view (of_reports demo_db2) (U ''tenant-a'', U ''r1'') = Some ?d"
    "of_idem demo_db2 = []" "of_ext demo_db2 = (\<lparr>ob_reports = [], ob_mails = []\<rparr>, no_records)"
    by (simp_all add: db2 r(2) demo_db1_eq start_db_def)
qed

lemma demo_db3_outbox: "ob_reports (fst (of_ext demo_db3)) = [(demo_clerk, reviewed_report True None demo_report)]"
proof -
  let ?d = "reviewed_report True None demo_report"
  have "submittable demo_unicode (\<lambda>_. []) (U ''r1'') demo_clerk ?d demo_db2"
    using demo_db2_view by (simp add: submittable_def demo_report_facts sql_memo_def demo_findings reviewed_report_def)
  from submit_accepted [where system = demo_report_system, OF demo_db_wf(2,3) this, of _ "U ''s1''"]
  show ?thesis
    by (auto simp: demo_report_system_def getitem_def submitted_def demo_db3_def submit_report_route_def demo_db2_view)
qed

text \<open>
  The agent's submission of a report, once it is approved at the interrupt, changes the state as the route does.
\<close>

lemma agent_submits_like_route:
  assumes "sp_operation spec = Submit_op" "sp_report_id spec = Some i" "i \<noteq> []" "decision_approved v"
  shows "snd (report_node (agent_services u lower dump sha zd sd report_system mail_system collect transcribe
      get_meeting uuid n) add6 spec (Some v) c s) =
    snd (submit_report_route sql_report_repo sql_idem_repo u dump (post_report report_system) (\<lambda>_. Inr c) i s)"
  using assms
  by (cases i) (simp_all add: report_node_def controlled_def agent_services_simps submit_report_route_def)

definition demo_agent_db :: office_db where
  "demo_agent_db = snd (report_node (agent_services demo_unicode id (\<lambda>_. []) (\<lambda>_. []) (\<lambda>_ _. None) (\<lambda>_. [])
     demo_report_system (\<lambda>_ _ _ _. Inl (Exn RuntimeErr [])) (\<lambda>_ _ _ _. Inr ([], [])) (\<lambda>_ _ _. Inr ([], []))
     (\<lambda>_ _ _. Inr []) (U ''r2'') 0) Inr submit_spec (Some (decisions_value (U ''approve''))) demo_clerk demo_db2)"

lemma demo_agent_db_eq: "demo_agent_db = demo_db3"
  unfolding demo_agent_db_def demo_db3_def
  by (rule agent_submits_like_route) (simp_all add: submit_spec_def decisions_value_def)

lemma demo_agent_run: "office_run demo_unicode (\<lambda>_. []) demo_agent_db"
  unfolding demo_agent_db_def
  by (rule office_run.report_agent [OF demo_db_run(2) _ prod.collapse [symmetric]])
     (simp_all add: names_it_def demo_report_system_def)

definition demo_mail_system :: "ustr \<Rightarrow> ustr \<Rightarrow> ustr \<Rightarrow> request_context \<Rightarrow> jdict res" where
  "demo_mail_system subject body k c = Inr [(U ''message_id'', JStr (U ''x1''))]"

definition demo_db4 :: office_db where
  "demo_db4 = snd (generate_minutes_route sql_minutes_repo (\<lambda>_ _. None) (\<lambda>_. U ''2026-07-28'') 0 (\<lambda>_. Inr demo_clerk)
     (U ''m1'') [] [] None (start_db no_records no_records))"

definition demo_db5 :: office_db where
  "demo_db5 = snd (review_minutes_route sql_minutes_repo (\<lambda>_. []) 0 (\<lambda>_. Inr demo_clerk) (U ''m1'') True None demo_db4)"

definition demo_db6 :: office_db where
  "demo_db6 = snd (send_minutes_route sql_minutes_repo sql_idem_repo demo_unicode (post_mail demo_mail_system) 0
     (\<lambda>_. Inr demo_clerk) (U ''m1'') demo_db5)"

lemma demo_mail_run:
  "office_run demo_unicode (\<lambda>_. []) demo_db4" "office_run demo_unicode (\<lambda>_. []) demo_db5"
  "office_run demo_unicode (\<lambda>_. []) demo_db6"
proof -
  show 1: "office_run demo_unicode (\<lambda>_. []) demo_db4"
    unfolding demo_db4_def by (rule office_run.generate_minutes [OF office_run.start prod.collapse [symmetric]])
  show 2: "office_run demo_unicode (\<lambda>_. []) demo_db5"
    unfolding demo_db5_def by (rule office_run.review_minutes [OF 1 prod.collapse [symmetric]])
  show "office_run demo_unicode (\<lambda>_. []) demo_db6"
    unfolding demo_db6_def
    by (rule office_run.send_minutes [OF 2 _ prod.collapse [symmetric]])
       (simp add: names_it_def demo_mail_system_def)
qed

lemma demo_mail_wf:
  "sql_minutes_wf (of_meetings demo_db4)" "sql_minutes_wf (of_meetings demo_db5)" "sql_idem_wf (of_idem demo_db5)"
  using demo_mail_run [THEN office_run_ok] by (simp_all add: office_ok_def minutes_ok_def)

definition demo_minutes_draft :: minutes_draft where
  "demo_minutes_draft = minutes_draft_of (\<lambda>_ _. None) (\<lambda>_. U ''2026-07-28'') 0 (U ''m1'') [] [] demo_clerk None"

lemma demo_minutes_draft_facts:
  "mm_meeting_id demo_minutes_draft = U ''m1''" "mm_title demo_minutes_draft = []" "mm_summary demo_minutes_draft = []"
  by (simp_all add: demo_minutes_draft_def minutes_draft_of_def Let_def)

lemma demo_db4_view:
  "sql_minutes_view (of_meetings demo_db4) (U ''tenant-a'', U ''m1'') = Some demo_minutes_draft"
  "of_idem demo_db4 = []" "of_ext demo_db4 = (\<lparr>ob_reports = [], ob_mails = []\<rparr>, no_records)"
proof -
  have db4: "demo_db4 = (start_db no_records no_records)\<lparr>of_meetings :=
      snd (sql_minutes_save 0 demo_minutes_draft demo_clerk [])\<rparr>"
    by (simp add: demo_db4_def generate_minutes_route_def on_meetings_snd minutes_generate_def sql_minutes_repo_def
        demo_minutes_draft_def start_db_def)
  have v: "sql_minutes_view (snd (sql_minutes_save 0 demo_minutes_draft demo_clerk [])) (U ''tenant-a'', U ''m1'') =
      Some demo_minutes_draft"
    using sql_minutes_save_view [of "[]" 0 demo_minutes_draft demo_clerk, OF _ prod.collapse [symmetric]]
    by (simp add: sql_minutes_wf_def demo_report_facts demo_minutes_draft_facts)
  show "sql_minutes_view (of_meetings demo_db4) (U ''tenant-a'', U ''m1'') = Some demo_minutes_draft"
    "of_idem demo_db4 = []" "of_ext demo_db4 = (\<lparr>ob_reports = [], ob_mails = []\<rparr>, no_records)"
    by (simp_all add: db4 v start_db_def)
qed

lemma demo_db5_view:
  "sql_minutes_view (of_meetings demo_db5) (U ''tenant-a'', U ''m1'') =
     Some (reviewed_minutes (\<lambda>_. []) True None demo_minutes_draft)"
  "of_idem demo_db5 = []" "ob_mails (fst (of_ext demo_db5)) = []"
proof -
  let ?d = "reviewed_minutes (\<lambda>_. []) True None demo_minutes_draft"
  have id: "mm_meeting_id ?d = U ''m1''" by (simp add: reviewed_minutes_def Let_def demo_minutes_draft_facts)
  obtain r rows where save: "sql_minutes_save 0 ?d demo_clerk (of_meetings demo_db4) = (r, rows)" by fastforce
  with sql_minutes_save_view [OF demo_mail_wf(1) save] id
  have r: "r = Inr ?d" "sql_minutes_view rows (U ''tenant-a'', U ''m1'') = Some ?d"
    by (simp_all add: demo_report_facts)
  have db5: "demo_db5 = demo_db4\<lparr>of_meetings := rows, of_ext := (fst (of_ext demo_db4),
      audit_record_event (U ''meeting_minutes.review'') demo_clerk (U ''m1'') no_records)\<rparr>"
    using save r(1) minutes_lookup [of "swap_audit demo_db4" "U ''m1''" demo_clerk] demo_db4_view demo_mail_wf(1)
    by (simp add: demo_db5_def review_minutes_route_def with_module_audit_def minutes_review_def lift_res_def
        permission_require_def demo_report_facts sql_minutes_repo_simps on_meetings_def record_audit_def)
       (simp add: swap_audit_def module_audit_def demo_db4_view)
  show "sql_minutes_view (of_meetings demo_db5) (U ''tenant-a'', U ''m1'') = Some ?d"
    "of_idem demo_db5 = []" "ob_mails (fst (of_ext demo_db5)) = []"
    by (simp_all add: db5 r(2) demo_db4_view)
qed

lemma demo_db6_outbox:
  "ob_mails (fst (of_ext demo_db6)) = [(demo_clerk, [], [], U ''tenant-a:m1'')]"
proof -
  let ?d = "reviewed_minutes (\<lambda>_. []) True None demo_minutes_draft"
  have d: "mm_meeting_id ?d = U ''m1''" "mm_title ?d = []" "mm_summary ?d = []" "mm_status ?d = Approved_m"
    by (simp_all add: reviewed_minutes_def Let_def demo_minutes_draft_facts)
  have "mailable demo_unicode (U ''m1'') demo_clerk ?d (swap_audit demo_db5)"
    using demo_db5_view d by (simp add: mailable_def demo_report_facts sql_memo_def demo_newline)
  from send_accepted [where system = demo_mail_system and n = 0, OF _ _ this, of _ "U ''x1''"]
  have "mailed (U ''m1'') demo_clerk ?d (swap_audit demo_db5)
      (snd (send_db demo_unicode demo_mail_system 0 (U ''m1'') demo_clerk (swap_audit demo_db5)))"
    by (simp add: demo_mail_wf demo_mail_system_def getitem_def)
  moreover have "fst (of_ext (swap_audit x)) = fst (of_ext x)" for x :: office_db by (simp add: swap_audit_def)
  ultimately show ?thesis
    by (auto simp: mailed_def demo_db6_def send_minutes_route_def send_module_audit snd_with_module_audit
        demo_db5_view d minutes_key_def demo_report_facts U_def)
qed

lemma office_run_releases:
  assumes "office_run u dump s"
  shows "(c, d) \<in> set (ob_reports (fst (of_ext s))) \<Longrightarrow> released_report u dump (of_audit s) c d"
    and "(c, a, b, k) \<in> set (ob_mails (fst (of_ext s))) \<Longrightarrow> \<exists>i. k = minutes_key c i \<and> released_mail u s c a b i"
  using office_run_ok [OF assms] minutes_ok_mailed unfolding office_ok_def reports_ok_def by (blast, blast)

text \<open>
  C2: When whole requests run one after another (none starts while another one waits for a connector) and the
  report system and the mail system name what they accept (in their answer \<open>submission_id\<close> or \<open>message_id\<close> is
  a text), then over every execution, whatever callers of any tenants request and whatever the agent's graphs do
  on whatever specification and decision, in whatever order, no report reaches the report system twice (per
  tenant and report id) and no tenant mails the minutes of a meeting twice, however often they are regenerated
  and approved again; and what left was, when it left, free of sensitive data, a report also approved, and was sent
  by a caller with the scope \<open>report:submit\<close> or \<open>meeting:send\<close>, and the review and the submission or sending in the
  caller's own tenant are on record. Submissions that overlap can reach the report system twice
  (\<open>overlapping_submissions_reach_twice\<close>); what still holds then is \<open>nothing_leaves_unreviewed\<close>.
\<close>

theorem serial_requests_leave_once:
  assumes "office_run u dump s"
  shows "distinct (map report_ref (ob_reports (fst (of_ext s)))) \<and>
    distinct (map mail_ref (ob_mails (fst (of_ext s)))) \<and>
    (\<forall>(c, d) \<in> set (ob_reports (fst (of_ext s))).
       U ''report:submit'' \<in> rc_permission_scopes c \<and> rd_status d = Approved_r \<and> findings u (dump d) = [] \<and>
       audited ''report.review'' (rc_tenant_id c) (rd_report_id d) (of_audit s) \<and>
       audited ''report.submit'' (rc_tenant_id c) (rd_report_id d) (of_audit s)) \<and>
    (\<forall>(c, subject, body, k) \<in> set (ob_mails (fst (of_ext s))).
       \<exists>i. k = minutes_key c i \<and>
         U ''meeting:send'' \<in> rc_permission_scopes c \<and> findings u (subject @ [10] @ body) = [] \<and>
         on_record ''meeting_minutes.review'' (rc_tenant_id c) i s \<and>
         on_record ''meeting_minutes.send'' (rc_tenant_id c) i s)"
proof -
  have "distinct (map report_ref (ob_reports (fst (of_ext s))))" "distinct (map mail_ref (ob_mails (fst (of_ext s))))"
    using office_run_ok [OF assms] by (simp_all add: office_ok_def reports_ok_def minutes_ok_def)
  then show ?thesis
    using office_run_releases [OF assms] unfolding released_report_def released_mail_def by fast
qed

theorem serial_requests_leave_once_witness:
  "office_run demo_unicode (\<lambda>_. []) demo_agent_db \<and> length (ob_reports (fst (of_ext demo_agent_db))) = 1 \<and>
    audited ''report.review'' (U ''tenant-a'') (U ''r1'') (of_audit demo_agent_db) \<and>
    office_run demo_unicode (\<lambda>_. []) demo_db6 \<and> length (ob_mails (fst (of_ext demo_db6))) = 1 \<and>
    (\<exists>i. U ''tenant-a:m1'' = minutes_key demo_clerk i \<and>
       on_record ''meeting_minutes.review'' (U ''tenant-a'') i demo_db6)"
  using serial_requests_leave_once [OF demo_agent_run] demo_agent_run
    serial_requests_leave_once [OF demo_mail_run(3)] demo_mail_run(3)
  by (auto simp: demo_agent_db_eq demo_db3_outbox demo_db6_outbox demo_report_facts reviewed_report_def)

section \<open>Drafts in the database\<close>



section \<open>Submissions that overlap\<close>

text \<open>After the report system has accepted a report nothing else goes out.\<close>

lemma submit_ext:
  assumes wf: "sql_reports_wf (of_reports s)" "sql_idem_wf (of_idem s)" and d: "submittable u dump i c d s"
    and f: "f d (report_key c (rd_report_date d) i) c s = (Inr answer, s1)"
  shows "of_ext (snd (report_submit sql_report_repo sql_idem_repo u dump f i c s)) = of_ext s1"
proof -
  note d = d [unfolded submittable_def]
  have ext: "of_ext (snd (on_reports g x)) = of_ext x" "of_ext (snd (on_idem h x)) = of_ext x"
    "of_ext (record_audit act c j x) = of_ext x" "of_ext (snd (lift_res r x)) = of_ext x"
    for g h act j r and x :: "(report_row list, 'm, idem_row list, 'c) office"
    by (simp_all add: on_reports_def on_idem_def record_audit_def lift_res_def split: prod.split)
  obtain h s2 where a: "on_reports (rr_assign sql_report_repo d ((rr_obj sql_report_repo (of_reports s1) d)\<lparr>rd_status := Submitted_r\<rparr>)) s1 = (h, s2)"
    "of_ext s2 = of_ext s1"
    by (simp add: on_reports_def sql_report_repo_simps)
  have "snd (report_submit sql_report_repo sql_idem_repo u dump f i c s) =
    snd (bnd (on_reports (rr_save sql_report_repo h (Some c)) s2) (\<lambda>_ s.
           let s = record_audit (U ''report.submit'') c i s in
           bnd (lift_res (getitem answer (U ''submission_id'')) s) (\<lambda>v s.
           bnd (lift_res (str_field v) s) (\<lambda>sid s.
           bnd (on_idem (remember sql_idem_repo (U ''report.submit'') i
                  (dump_submission \<lparr>rs_report_id = i, rs_submission_id = sid\<rparr>) c) s)
             (\<lambda>stored s. lift_res (validate_submission stored) s)))))"
    using d f a(1)
    by (simp add: report_submit_def lift_res_def [abs_def] permission_require_def require_shareable_def Let_def
        report_lookup [OF wf(1)] memo_lookup_db [OF wf(2)] sql_report_repo_simps(1))
  also have "of_ext \<dots> = of_ext s1"
    by (rule bnd_frame [where g = of_ext], simp add: ext a(2), simp only: Let_def,
        (rule bnd_frame [where g = of_ext], simp add: ext)+) (simp_all add: ext)
  finally show ?thesis .
qed
text \<open>Another submission of the same report that is answered while the first one waits for the report system.\<close>

definition meanwhile ::
  "unicode \<Rightarrow> (report_draft \<Rightarrow> ustr) \<Rightarrow> (report_draft \<Rightarrow> ustr \<Rightarrow> request_context \<Rightarrow> jdict res) \<Rightarrow> ustr \<Rightarrow> request_context \<Rightarrow>
   report_draft \<Rightarrow> ustr \<Rightarrow> request_context \<Rightarrow> office_db \<Rightarrow> jdict res \<times> office_db" where
  "meanwhile u dump system i c2 d k c s =
     post_report system d k c
       (snd (report_submit sql_report_repo sql_idem_repo u dump (post_report system) i c2 s))"

lemma meanwhile_outbox:
  assumes "sql_reports_wf (of_reports s)" "sql_idem_wf (of_idem s)"
    and d: "submittable u dump i c1 d s" "submittable u dump i c2 d s"
    and system: "\<And>d k c. \<exists>answer v. system d k c = Inr answer \<and> getitem answer (U ''submission_id'') = Inr (JStr v)"
  shows "ob_reports (fst (of_ext (snd (report_submit sql_report_repo sql_idem_repo u dump
      (meanwhile u dump system i c2) i c1 s)))) = ob_reports (fst (of_ext s)) @ [(c2, d), (c1, d)]"
proof -
  let ?s2 = "snd (report_submit sql_report_repo sql_idem_repo u dump (post_report system) i c2 s)"
  obtain answer v where "system d (report_key c2 (rd_report_date d) i) c2 = Inr answer"
    "getitem answer (U ''submission_id'') = Inr (JStr v)"
    using system by blast
  from submit_accepted [where system = system, OF assms(1,2) d(2) this]
  have second: "ob_reports (fst (of_ext ?s2)) = ob_reports (fst (of_ext s)) @ [(c2, d)]"
    unfolding submitted_def by auto
  obtain answer1 where "system d (report_key c1 (rd_report_date d) i) c1 = Inr answer1" using system by blast
  then have "meanwhile u dump system i c2 d (report_key c1 (rd_report_date d) i) c1 s =
      (Inr answer1, snd (post_report system d (report_key c1 (rd_report_date d) i) c1 ?s2))"
    by (simp add: meanwhile_def post_report_def)
  from submit_ext [where f = "meanwhile u dump system i c2", OF assms(1,2) d(1) this] second
    \<open>system d (report_key c1 (rd_report_date d) i) c1 = Inr answer1\<close>
  show ?thesis by (simp add: post_report_def)
qed

definition demo_employee :: "string \<Rightarrow> request_context" where
  "demo_employee e = demo_clerk\<lparr>rc_employee_id := Some (U e)\<rparr>"

lemma demo_employees_submit:
  "submittable demo_unicode (\<lambda>_. []) (U ''r1'') (demo_employee e) (reviewed_report True None demo_report) demo_db2"
  using demo_db2_view
  by (simp add: demo_employee_def submittable_def demo_report_facts sql_memo_def demo_findings reviewed_report_def)

lemma demo_report_system_accepts:
  "\<exists>answer v. demo_report_system d k c = Inr answer \<and> getitem answer (U ''submission_id'') = Inr (JStr v)"
  by (simp add: demo_report_system_def getitem_def)

text \<open>
  C23: Submissions that overlap are not serialised: when a second employee of the tenant submits a report while
  the first one's submission waits for the report system, both are accepted, and because the idempotency key
  contains the employee of the caller they carry different keys, so the report system cannot tell that the two
  are the same report.
\<close>

theorem overlapping_submissions_reach_twice:
  assumes "sql_reports_wf (of_reports s)" "sql_idem_wf (of_idem s)"
    and d: "submittable u dump i c1 d s" "submittable u dump i c2 d s" "rc_tenant_id c2 = rc_tenant_id c1"
    and employees: "rc_employee_id c1 = Some e1" "rc_employee_id c2 = Some e2" "e1 \<noteq> e2"
    and system: "\<And>d k c. \<exists>answer v. system d k c = Inr answer \<and> getitem answer (U ''submission_id'') = Inr (JStr v)"
  shows "ob_reports (fst (of_ext (snd (report_submit sql_report_repo sql_idem_repo u dump
      (meanwhile u dump system i c2) i c1 s)))) = ob_reports (fst (of_ext s)) @ [(c2, d), (c1, d)] \<and>
    report_key c1 (rd_report_date d) i \<noteq> report_key c2 (rd_report_date d) i"
  using meanwhile_outbox [OF assms(1,2) d(1,2) system] employees d(3) by (simp add: report_key_def)

theorem overlapping_submissions_reach_twice_witness:
  "ob_reports (fst (of_ext (snd (report_submit sql_report_repo sql_idem_repo demo_unicode (\<lambda>_. [])
      (meanwhile demo_unicode (\<lambda>_. []) demo_report_system (U ''r1'') (demo_clerk\<lparr>rc_employee_id := Some (U ''e2'')\<rparr>))
      (U ''r1'') (demo_clerk\<lparr>rc_employee_id := Some (U ''e1'')\<rparr>) demo_db2)))) =
   [(demo_clerk\<lparr>rc_employee_id := Some (U ''e2'')\<rparr>, reviewed_report True None demo_report),
    (demo_clerk\<lparr>rc_employee_id := Some (U ''e1'')\<rparr>, reviewed_report True None demo_report)]"
proof -
  note submit = demo_employees_submit [unfolded demo_employee_def]
  from overlapping_submissions_reach_twice [OF demo_db_wf(2,3) submit [of "''e1''"] submit [of "''e2''"] _ _ _ _
      demo_report_system_accepts, of "U ''e1''" "U ''e2''"]
  show ?thesis by (simp add: demo_db2_view U_def)
qed

end
