(* ===== verification/Office_Overlap.thy ===== *)
theory Office_Overlap
  imports Office_Runs
begin

text \<open>
  Requests that overlap: while a request waits for the report system, for the mail system or for another
  connector, any other requests run, and they may wait in their turn. What a request does between two of these
  waits is one step, its calls of the database included: an event loop that switches to another request at such a
  call is not covered. The systems may answer anything, accept what they answer with an error, and answer
  without naming what they accepted.
\<close>

section \<open>Executions\<close>

definition sent_report :: "request_context \<Rightarrow> report_draft \<Rightarrow> office_db \<Rightarrow> office_db" where
  "sent_report c d s = s\<lparr>of_ext := ((fst (of_ext s))\<lparr>ob_reports := ob_reports (fst (of_ext s)) @ [(c, d)]\<rparr>, snd (of_ext s))\<rparr>"

definition sent_mail :: "request_context \<Rightarrow> ustr \<Rightarrow> ustr \<Rightarrow> ustr \<Rightarrow> office_db \<Rightarrow> office_db" where
  "sent_mail c subject body k s =
     s\<lparr>of_ext := ((fst (of_ext s))\<lparr>ob_mails := ob_mails (fst (of_ext s)) @ [(c, subject, body, k)]\<rparr>, snd (of_ext s))\<rparr>"

text \<open>
  From one state of the database to another. A connector is a function of the whole state: other requests run,
  the report may reach the report system, other requests run, and there is some answer. The route that generates a
  report waits for the sources of work events before it touches the tables, so whatever runs then runs before it.
\<close>

inductive office_overlap :: "unicode \<Rightarrow> (report_draft \<Rightarrow> ustr) \<Rightarrow> office_db \<Rightarrow> office_db \<Rightarrow> bool" for u dump where
  wait: "office_overlap u dump s s"
| generate_report: "office_overlap u dump s t \<Longrightarrow>
    generate_report sql_report_repo lower uuid collect identity payload t = (x, t') \<Longrightarrow> office_overlap u dump s t'"
| review_report: "office_overlap u dump s t \<Longrightarrow>
    review_report_route sql_report_repo identity i ok comment t = (x, t') \<Longrightarrow> office_overlap u dump s t'"
| submit_report: "office_overlap u dump s t \<Longrightarrow>
    (\<forall>d k c x. \<exists>y z. office_overlap u dump x y \<and> z \<in> {y, sent_report c d y} \<and>
       office_overlap u dump z (snd (submit_to d k c x))) \<Longrightarrow>
    submit_report_route sql_report_repo sql_idem_repo u dump submit_to identity i t = (w, t') \<Longrightarrow>
    office_overlap u dump s t'"
| generate_minutes: "office_overlap u dump s t \<Longrightarrow>
    generate_minutes_route sql_minutes_repo zone_date system_date now identity i title segments day t = (x', t') \<Longrightarrow>
    office_overlap u dump s t'"
| review_minutes: "office_overlap u dump s t \<Longrightarrow>
    review_minutes_route sql_minutes_repo sha now identity i ok comment t = (x', t') \<Longrightarrow> office_overlap u dump s t'"
| send_minutes: "office_overlap u dump s t \<Longrightarrow>
    (\<forall>a b k c x. \<exists>y z. office_overlap u dump x y \<and> z \<in> {y, sent_mail c a b k y} \<and>
       office_overlap u dump z (snd (send_email a b k c x))) \<Longrightarrow>
    send_minutes_route sql_minutes_repo sql_idem_repo u send_email now identity i t = (w', t') \<Longrightarrow>
    office_overlap u dump s t'"
| agent: "office_overlap u dump s t \<Longrightarrow>
    (\<forall>d k c x. \<exists>y z. office_overlap u dump x y \<and> z \<in> {y, sent_report c d y} \<and>
       office_overlap u dump z (snd (submit_to d k c x))) \<Longrightarrow>
    (\<forall>a b k c x. \<exists>y z. office_overlap u dump x y \<and> z \<in> {y, sent_mail c a b k y} \<and>
       office_overlap u dump z (snd (send_email a b k c x))) \<Longrightarrow>
    (\<forall>a b c x. office_overlap u dump x (snd (collect' a b c x))) \<Longrightarrow>
    (\<forall>j c x. office_overlap u dump x (snd (transcribe j c x))) \<Longrightarrow>
    (\<forall>j c x. office_overlap u dump x (snd (get_meeting j c x))) \<Longrightarrow>
    svc = office_services sql_report_repo sql_minutes_repo sql_idem_repo u lower dump sha zone_date system_date
      submit_to send_email collect' transcribe get_meeting uuid now \<Longrightarrow>
    t' \<in> {snd (report_node svc add6 rspec resume c t), snd (meeting_node svc rep mspec resume c t)} \<Longrightarrow>
    office_overlap u dump s t'"

section \<open>What holds at every moment\<close>

definition cleared_report :: "unicode \<Rightarrow> (report_draft \<Rightarrow> ustr) \<Rightarrow> office_db \<Rightarrow> request_context \<Rightarrow> report_draft \<Rightarrow> bool" where
  "cleared_report u dump s c d \<longleftrightarrow>
     U ''report:submit'' \<in> rc_permission_scopes c \<and> rd_status d = Approved_r \<and> findings u (dump d) = [] \<and>
     on_record ''report.review'' (rc_tenant_id c) (rd_report_id d) s"

definition cleared_mail :: "unicode \<Rightarrow> office_db \<Rightarrow> request_context \<Rightarrow> ustr \<Rightarrow> ustr \<Rightarrow> ustr \<Rightarrow> bool" where
  "cleared_mail u s c subject body k \<longleftrightarrow>
     U ''meeting:send'' \<in> rc_permission_scopes c \<and> findings u (subject @ [10] @ body) = [] \<and>
     (\<exists>i. k = minutes_key c i \<and> on_record ''meeting_minutes.review'' (rc_tenant_id c) i s)"

definition records_kept :: "office_db \<Rightarrow> office_db \<Rightarrow> bool" where
  "records_kept s t \<longleftrightarrow> (\<forall>p tn i. on_record p tn i s \<longrightarrow> on_record p tn i t)"

definition office_safe :: "unicode \<Rightarrow> (report_draft \<Rightarrow> ustr) \<Rightarrow> office_db \<Rightarrow> bool" where
  "office_safe u dump s \<longleftrightarrow>
     sql_reports_wf (of_reports s) \<and> sql_minutes_wf (of_meetings s) \<and>
     (\<forall>t i d. sql_report_view (of_reports s) (t, i) = Some d \<longrightarrow> rd_status d \<noteq> Draft_r \<longrightarrow>
        on_record ''report.review'' t i s) \<and>
     (\<forall>t i d. sql_minutes_view (of_meetings s) (t, i) = Some d \<longrightarrow> mm_status d \<noteq> Draft_m \<longrightarrow>
        on_record ''meeting_minutes.review'' t i s) \<and>
     (\<forall>(c, d) \<in> set (ob_reports (fst (of_ext s))). cleared_report u dump s c d) \<and>
     (\<forall>(c, a, b, k) \<in> set (ob_mails (fst (of_ext s))). cleared_mail u s c a b k)"

text \<open>What a step guarantees, and what the steps of others may be relied on for.\<close>

definition guarantee :: "unicode \<Rightarrow> (report_draft \<Rightarrow> ustr) \<Rightarrow> office_db \<Rightarrow> office_db \<Rightarrow> bool" where
  "guarantee u dump s t \<longleftrightarrow> (office_safe u dump s \<longrightarrow> office_safe u dump t \<and> records_kept s t)"

lemma records_kept_refl [simp]: "records_kept s s"
  by (simp add: records_kept_def)

lemma records_kept_trans: "records_kept r s \<Longrightarrow> records_kept s t \<Longrightarrow> records_kept r t"
  by (simp add: records_kept_def)

lemma records_keptD: "records_kept s t \<Longrightarrow> on_record p tn i s \<Longrightarrow> on_record p tn i t"
  by (simp add: records_kept_def)

lemma guarantee_refl [simp]: "guarantee u dump s s"
  by (simp add: guarantee_def)

lemma guarantee_trans: "guarantee u dump r s \<Longrightarrow> guarantee u dump s t \<Longrightarrow> guarantee u dump r t"
  by (auto simp: guarantee_def intro: records_kept_trans)

lemma cleared_kept:
  "records_kept s t \<Longrightarrow> cleared_report u dump s c d \<Longrightarrow> cleared_report u dump t c d"
  "records_kept s t \<Longrightarrow> cleared_mail u s c a b k \<Longrightarrow> cleared_mail u t c a b k"
  by (auto simp: cleared_report_def cleared_mail_def dest: records_keptD)

lemma safeD:
  assumes "office_safe u dump s"
  shows "sql_reports_wf (of_reports s)" "sql_minutes_wf (of_meetings s)"
    "sql_report_view (of_reports s) (t, i) = Some d \<Longrightarrow> rd_status d \<noteq> Draft_r \<Longrightarrow> on_record ''report.review'' t i s"
    "sql_minutes_view (of_meetings s) (t, i) = Some m \<Longrightarrow> mm_status m \<noteq> Draft_m \<Longrightarrow>
      on_record ''meeting_minutes.review'' t i s"
    "(c, d) \<in> set (ob_reports (fst (of_ext s))) \<Longrightarrow> cleared_report u dump s c d"
    "(c, a, b, k) \<in> set (ob_mails (fst (of_ext s))) \<Longrightarrow> cleared_mail u s c a b k"
  using assms unfolding office_safe_def by (blast, blast, blast, blast, fast, fast)

lemma safeI:
  assumes "sql_reports_wf (of_reports s)" "sql_minutes_wf (of_meetings s)"
    and "\<And>t i d. sql_report_view (of_reports s) (t, i) = Some d \<Longrightarrow> rd_status d \<noteq> Draft_r \<Longrightarrow> on_record ''report.review'' t i s"
    and "\<And>t i m. sql_minutes_view (of_meetings s) (t, i) = Some m \<Longrightarrow> mm_status m \<noteq> Draft_m \<Longrightarrow>
      on_record ''meeting_minutes.review'' t i s"
    and "\<And>c d. (c, d) \<in> set (ob_reports (fst (of_ext s))) \<Longrightarrow> cleared_report u dump s c d"
    and "\<And>c a b k. (c, a, b, k) \<in> set (ob_mails (fst (of_ext s))) \<Longrightarrow> cleared_mail u s c a b k"
  shows "office_safe u dump s"
  using assms unfolding office_safe_def by blast

section \<open>Updates of one part\<close>

lemma on_record_updates [simp]:
  "on_record p t i (s\<lparr>of_reports := rows\<rparr>) \<longleftrightarrow> on_record p t i s"
  "on_record p t i (s\<lparr>of_meetings := minutes\<rparr>) \<longleftrightarrow> on_record p t i s"
  "on_record p t i (s\<lparr>of_idem := memos\<rparr>) \<longleftrightarrow> on_record p t i s"
  "on_record p t i (sent_report c d s) \<longleftrightarrow> on_record p t i s"
  "on_record p t i (sent_mail c a b k s) \<longleftrightarrow> on_record p t i s"
  "on_record p t i (swap_audit s) \<longleftrightarrow> on_record p t i s"
  by (auto simp: on_record_def module_audit_def sent_report_def sent_mail_def swap_audit_def)

lemma on_record_audit [simp]:
  "on_record p t i (s\<lparr>of_audit := audit_record_event act c j (of_audit s)\<rparr>) \<longleftrightarrow>
    on_record p t i s \<or> act = U p \<and> t = rc_tenant_id c \<and> i = j"
  by (auto simp: on_record_def module_audit_def)

lemma cleared_updates [simp]:
  "cleared_report u dump (s\<lparr>of_reports := rows\<rparr>) = cleared_report u dump s"
  "cleared_report u dump (s\<lparr>of_meetings := minutes\<rparr>) = cleared_report u dump s"
  "cleared_report u dump (s\<lparr>of_idem := memos\<rparr>) = cleared_report u dump s"
  "cleared_report u dump (sent_report c d s) = cleared_report u dump s"
  "cleared_report u dump (sent_mail c a b k s) = cleared_report u dump s"
  "cleared_report u dump (swap_audit s) = cleared_report u dump s"
  "cleared_mail u (s\<lparr>of_reports := rows\<rparr>) = cleared_mail u s"
  "cleared_mail u (s\<lparr>of_meetings := minutes\<rparr>) = cleared_mail u s"
  "cleared_mail u (s\<lparr>of_idem := memos\<rparr>) = cleared_mail u s"
  "cleared_mail u (sent_report c d s) = cleared_mail u s"
  "cleared_mail u (sent_mail c a b k s) = cleared_mail u s"
  "cleared_mail u (swap_audit s) = cleared_mail u s"
  by (simp_all add: cleared_report_def cleared_mail_def fun_eq_iff)

lemma records_kept_updates [simp]:
  "records_kept s (s\<lparr>of_reports := rows\<rparr>)" "records_kept s (s\<lparr>of_meetings := minutes\<rparr>)"
  "records_kept s (s\<lparr>of_idem := memos\<rparr>)" "records_kept s (sent_report c d s)" "records_kept s (sent_mail c a b k s)"
  "records_kept s (s\<lparr>of_audit := audit_record_event act c j (of_audit s)\<rparr>)"
  "records_kept (swap_audit s) (swap_audit t) \<longleftrightarrow> records_kept s t"
  by (simp_all add: records_kept_def)

lemma safe_swap [simp]: "office_safe u dump (swap_audit s) \<longleftrightarrow> office_safe u dump s"
proof -
  have "of_reports (swap_audit s) = of_reports s" "of_meetings (swap_audit s) = of_meetings s"
    "fst (of_ext (swap_audit s)) = fst (of_ext s)" by (simp_all add: swap_audit_def)
  then show ?thesis by (simp add: office_safe_def)
qed

lemma safe_idem [simp]: "office_safe u dump (s\<lparr>of_idem := memos\<rparr>) \<longleftrightarrow> office_safe u dump s"
  by (simp add: office_safe_def)

lemma safe_reports:
  assumes "office_safe u dump s" "sql_reports_wf rows"
    and "\<And>t i d. sql_report_view rows (t, i) = Some d \<Longrightarrow> rd_status d \<noteq> Draft_r \<Longrightarrow>
      sql_report_view (of_reports s) (t, i) = Some d \<or> on_record ''report.review'' t i s"
  shows "office_safe u dump (s\<lparr>of_reports := rows\<rparr>)"
  using assms(2) safeD [OF assms(1)] assms(3) by (intro safeI) (simp_all, blast)

lemma safe_minutes:
  assumes "office_safe u dump s" "sql_minutes_wf rows"
    and "\<And>t i d. sql_minutes_view rows (t, i) = Some d \<Longrightarrow> mm_status d \<noteq> Draft_m \<Longrightarrow>
      sql_minutes_view (of_meetings s) (t, i) = Some d \<or> on_record ''meeting_minutes.review'' t i s"
  shows "office_safe u dump (s\<lparr>of_meetings := rows\<rparr>)"
  using assms(2) safeD [OF assms(1)] assms(3) by (intro safeI) (simp_all, blast)

lemma safe_audit:
  assumes "office_safe u dump s"
  shows "office_safe u dump (s\<lparr>of_audit := audit_record_event act c j (of_audit s)\<rparr>)"
proof -
  note kept = cleared_kept [OF records_kept_updates(6) [of s act c j]]
  show ?thesis using safeD [OF assms] by (intro safeI) (simp_all add: kept)
qed

lemma sent_simps [simp]:
  "of_reports (sent_report c d s) = of_reports s" "of_meetings (sent_report c d s) = of_meetings s"
  "ob_reports (fst (of_ext (sent_report c d s))) = ob_reports (fst (of_ext s)) @ [(c, d)]"
  "ob_mails (fst (of_ext (sent_report c d s))) = ob_mails (fst (of_ext s))"
  "of_reports (sent_mail c a b k s) = of_reports s" "of_meetings (sent_mail c a b k s) = of_meetings s"
  "ob_reports (fst (of_ext (sent_mail c a b k s))) = ob_reports (fst (of_ext s))"
  "ob_mails (fst (of_ext (sent_mail c a b k s))) = ob_mails (fst (of_ext s)) @ [(c, a, b, k)]"
  by (simp_all add: sent_report_def sent_mail_def)

lemma safe_sent_report:
  assumes "office_safe u dump s" "cleared_report u dump s c d"
  shows "office_safe u dump (sent_report c d s)"
  using safeD [OF assms(1)] assms(2) by (intro safeI) auto

lemma safe_sent_mail:
  assumes "office_safe u dump s" "cleared_mail u s c a b k"
  shows "office_safe u dump (sent_mail c a b k s)"
  using safeD [OF assms(1)] assms(2) by (intro safeI) auto

section \<open>Submitting and sending\<close>

text \<open>The steps after the answer of a connector keep what holds and the records.\<close>

abbreviation kept_from :: "unicode \<Rightarrow> (report_draft \<Rightarrow> ustr) \<Rightarrow> office_db \<Rightarrow> office_db \<Rightarrow> bool" where
  "kept_from u dump s t \<equiv> office_safe u dump t \<and> records_kept s t"

lemma lift_res_snd [simp]: "snd (lift_res r s) = s"
  by (simp add: lift_res_def)

lemma on_idem_kept: "kept_from u dump s t \<Longrightarrow> kept_from u dump s (snd (on_idem g t))"
  by (auto simp: on_idem_def intro: records_kept_trans split: prod.split)

lemma record_audit_kept: "kept_from u dump s t \<Longrightarrow> kept_from u dump s (record_audit act c i t)"
  unfolding record_audit_def using safe_audit records_kept_trans records_kept_updates(6) by blast

lemma submitted_report_kept:
  assumes "kept_from u dump s t" "on_record ''report.review'' (rc_tenant_id c) (rd_report_id d) s"
  shows "kept_from u dump s (snd (on_reports (sql_report_save (d\<lparr>rd_status := Submitted_r\<rparr>) (Some c)) t))"
proof -
  let ?d = "d\<lparr>rd_status := Submitted_r\<rparr>"
  obtain r rows where save: "sql_report_save ?d (Some c) (of_reports t) = (r, rows)" by fastforce
  have v: "sql_reports_wf rows" "rows = of_reports t \<or>
      sql_report_view rows = (sql_report_view (of_reports t))((rc_tenant_id c, rd_report_id d) \<mapsto> ?d)"
    using sql_report_save_view [OF safeD(1) save] assms(1) by auto
  have rec: "on_record ''report.review'' (rc_tenant_id c) (rd_report_id d) t"
    using assms records_keptD by blast
  have "office_safe u dump (t\<lparr>of_reports := rows\<rparr>)"
    by (rule safe_reports [OF conjunct1 [OF assms(1)] v(1)]) (use v(2) rec in \<open>auto split: if_splits\<close>)
  moreover have "records_kept s (t\<lparr>of_reports := rows\<rparr>)"
    using assms(1) records_kept_trans records_kept_updates(1) by blast
  ultimately show ?thesis by (simp add: on_reports_snd save)
qed

lemma sent_minutes_kept:
  assumes "kept_from u dump s t" "on_record ''meeting_minutes.review'' (rc_tenant_id c) (mm_meeting_id d) s"
  shows "kept_from u dump s (snd (on_meetings (sql_minutes_save n (d\<lparr>mm_status := Sent_m\<rparr>) c) t))"
proof -
  let ?d = "d\<lparr>mm_status := Sent_m\<rparr>"
  obtain r rows where save: "sql_minutes_save n ?d c (of_meetings t) = (r, rows)" by fastforce
  have v: "sql_minutes_wf rows"
      "sql_minutes_view rows = (sql_minutes_view (of_meetings t))((rc_tenant_id c, mm_meeting_id d) \<mapsto> ?d)"
    using sql_minutes_save_view [OF safeD(2) save] assms(1) by auto
  have rec: "on_record ''meeting_minutes.review'' (rc_tenant_id c) (mm_meeting_id d) t"
    using assms records_keptD by blast
  have "office_safe u dump (t\<lparr>of_meetings := rows\<rparr>)"
    by (rule safe_minutes [OF conjunct1 [OF assms(1)] v(1)]) (use v(2) rec in \<open>auto split: if_splits\<close>)
  moreover have "records_kept s (t\<lparr>of_meetings := rows\<rparr>)"
    using assms(1) records_kept_trans records_kept_updates(2) by blast
  ultimately show ?thesis by (simp add: on_meetings_snd save)
qed

lemma idem_get_unchanged: "\<exists>r. on_idem (idem_get sql_idem_repo p i c) s = (r, s)"
  by (auto simp: on_idem_def idem_get_def sql_idem_repo_def sql_idem_get_def split: sum.split option.split)

lemma assign_in_place:
  "on_reports (rr_assign sql_report_repo d x) t = (x, t)" "on_meetings (mt_assign sql_minutes_repo m y) t = (y, t)"
  by (simp_all add: on_reports_def on_meetings_def sql_report_repo_simps sql_minutes_repo_simps)

lemma remembering_kept:
  assumes "kept_from u dump s t"
  shows "kept_from u dump s (snd (bnd (lift_res r t) (\<lambda>v z. bnd (lift_res (str_field v) z) (\<lambda>i z.
    bnd (on_idem (g i) z) (\<lambda>stored z. lift_res (h stored) z)))))"
  by (intro bnd_keeps [where P = "kept_from u dump s"] on_idem_kept) (simp_all add: assms)

lemma submit_kept:
  assumes ok: "office_safe u dump s"
    and f: "\<And>d k. cleared_report u dump s c d \<Longrightarrow> kept_from u dump s (snd (f d k c s))"
  shows "kept_from u dump s (snd (report_submit sql_report_repo sql_idem_repo u dump f i c s))"
proof -
  have self: "kept_from u dump s s" using ok by simp
  obtain memo where memo: "on_idem (idem_get sql_idem_repo (U ''report.submit'') i c) s = (memo, s)"
    using idem_get_unchanged by blast
  have rest: "kept_from u dump s (snd (bnd (on_reports (sql_report_save (d\<lparr>rd_status := Submitted_r\<rparr>) (Some c)) t)
      (\<lambda>_ z. bnd (lift_res (getitem result (U ''submission_id'')) (record_audit (U ''report.submit'') c i z)) (\<lambda>v z.
         bnd (lift_res (str_field v) z) (\<lambda>sid z.
         bnd (on_idem (remember sql_idem_repo (U ''report.submit'') i
                (dump_submission \<lparr>rs_report_id = i, rs_submission_id = sid\<rparr>) c) z)
           (\<lambda>stored z. lift_res (validate_submission stored) z))))))"
    if "kept_from u dump s t" "on_record ''report.review'' (rc_tenant_id c) (rd_report_id d) s" for t d result
    by (intro bnd_keeps [where P = "kept_from u dump s", OF submitted_report_kept [OF that]] remembering_kept
        record_audit_kept)
  from sql_report.the_report_cases [OF safeD(1) [OF ok], of c i] show ?thesis
  proof (elim disjE exE conjE)
    assume "the_report sql_report_repo i c s = (Inl (Exn KeyErr i), s)"
    then show ?thesis using self by (simp add: report_submit_def lift_res_def permission_require_def)
  next
    fix h d assume v: "sql_report_view (of_reports s) (rc_tenant_id c, i) = Some d"
      and t: "the_report sql_report_repo i c s = (Inr h, s)"
      and h: "rr_obj sql_report_repo (of_reports s) h = d" and id: "rd_report_id d = i"
    have hd: "h = d" using h by (simp add: sql_report_repo_simps)
    show ?thesis
    proof (cases "U ''report:submit'' \<in> rc_permission_scopes c \<and> memo = Inr None \<and> rd_status d = Approved_r \<and>
        findings u (dump d) = []")
      case False
      then show ?thesis using self t h
        by (cases memo)
           (auto simp: report_submit_def lift_res_def permission_require_def memo require_shareable_def Let_def
             split: option.split)
    next
      case True
      have rec: "on_record ''report.review'' (rc_tenant_id c) (rd_report_id d) s"
        using safeD(3) [OF ok v] True id by simp
      then have sent: "kept_from u dump s (snd (f d (report_key c (rd_report_date d) i) c s))"
        using True id by (intro f) (simp add: cleared_report_def)
      obtain r y where call: "f d (report_key c (rd_report_date d) i) c s = (r, y)" by fastforce
      with True t hd rest [of y d] sent rec show ?thesis
        by (cases r)
           (simp_all add: report_submit_def lift_res_def [of "Inr ()"] permission_require_def memo require_shareable_def
             assign_in_place sql_report_repo_simps Let_def)
    qed
  qed
qed

lemma send_kept:
  assumes ok: "office_safe u dump s"
    and f: "\<And>a b k. cleared_mail u s c a b k \<Longrightarrow> kept_from u dump s (snd (f a b k c s))"
  shows "kept_from u dump s (snd (minutes_send sql_minutes_repo sql_idem_repo u f n i c s))"
proof -
  have self: "kept_from u dump s s" using ok by simp
  obtain memo where memo: "on_idem (idem_get sql_idem_repo (U ''meeting_minutes.send'') i c) s = (memo, s)"
    using idem_get_unchanged by blast
  have rest: "kept_from u dump s (snd (bnd (on_meetings (sql_minutes_save n (d\<lparr>mm_status := Sent_m\<rparr>) c) t)
      (\<lambda>_ z. bnd (lift_res (getitem result (U ''message_id'')) z) (\<lambda>v z.
         bnd (lift_res (str_field v) z) (\<lambda>mid z.
         bnd (on_idem (remember sql_idem_repo (U ''meeting_minutes.send'') i
                (dump_email_status \<lparr>es_meeting_id = i, es_message_id = mid\<rparr>) c)
                (record_audit (U ''meeting_minutes.send'') c i z))
           (\<lambda>stored z. lift_res (validate_email_status stored) z))))))"
    if "kept_from u dump s t" "on_record ''meeting_minutes.review'' (rc_tenant_id c) (mm_meeting_id d) s" for t d result
    by (intro bnd_keeps [where P = "kept_from u dump s", OF sent_minutes_kept [OF that]]
        bnd_keeps [where P = "kept_from u dump s"] on_idem_kept record_audit_kept) simp_all
  show ?thesis
  proof (cases "sql_minutes_view (of_meetings s) (rc_tenant_id c, i)")
    case None
    with minutes_lookup [OF safeD(2) [OF ok], of i c] have "the_minutes sql_minutes_repo i c s = (Inl (Exn KeyErr i), s)"
      by simp
    then show ?thesis using self
      by (cases memo) (auto simp: minutes_send_def lift_res_def permission_require_def memo split: option.split)
  next
    case (Some d)
    have t: "the_minutes sql_minutes_repo i c s = (Inr d, s)"
      using minutes_lookup [OF safeD(2) [OF ok], of i c] Some by simp
    have id: "mm_meeting_id d = i" by (rule minutes_view_id [OF safeD(2) [OF ok] Some])
    show ?thesis
    proof (cases "U ''meeting:send'' \<in> rc_permission_scopes c \<and> memo = Inr None \<and> mm_status d = Approved_m \<and>
        findings u (mm_title d @ [10] @ mm_summary d) = []")
      case False
      then show ?thesis using self t
        by (cases memo)
           (auto simp: minutes_send_def lift_res_def permission_require_def memo require_shareable_def Let_def
             sql_minutes_repo_simps simp del: append_Cons append_Nil split: option.split)
    next
      case True
      have rec: "on_record ''meeting_minutes.review'' (rc_tenant_id c) i s"
        using safeD(4) [OF ok Some] True by simp
      then have sent: "kept_from u dump s (snd (f (mm_title d) (mm_summary d) (minutes_key c i) c s))"
        using True by (intro f) (auto simp: cleared_mail_def)
      obtain r y where call: "f (mm_title d) (mm_summary d) (minutes_key c i) c s = (r, y)" by fastforce
      with True t rest [of y d] sent rec id show ?thesis
        by (cases r)
           (simp_all add: minutes_send_def lift_res_def [of "Inr ()"] permission_require_def memo require_shareable_def
             assign_in_place sql_minutes_repo_simps Let_def del: append_Cons append_Nil)
    qed
  qed
qed

section \<open>The other operations\<close>

lemma generate_report_kept:
  assumes "office_safe u dump s"
  shows "kept_from u dump s (snd (on_reports (generate_daily sql_report_repo lower uuid day events (Some c) ws) s))"
    and "kept_from u dump s (snd (on_reports (generate_weekly sql_report_repo lower uuid day events (Some c) ws) s))"
proof -
  have "kept_from u dump s (s\<lparr>of_reports := rows\<rparr>)" if "drafted c (of_reports s) rows" for rows
    using that safe_reports [OF assms, of rows] unfolding drafted_def by fastforce
  with generate_drafts [OF safeD(1) [OF assms]]
  show "kept_from u dump s (snd (on_reports (generate_daily sql_report_repo lower uuid day events (Some c) ws) s))"
    "kept_from u dump s (snd (on_reports (generate_weekly sql_report_repo lower uuid day events (Some c) ws) s))"
    by (simp_all add: on_reports_snd)
qed

lemma safe_reviewed:
  assumes "office_safe u dump s"
  shows "sql_reports_wf rows \<Longrightarrow> sql_report_view rows = (sql_report_view (of_reports s))((rc_tenant_id c, i) \<mapsto> d) \<Longrightarrow>
      kept_from u dump s
        (s\<lparr>of_reports := rows, of_audit := audit_record_event (U ''report.review'') c i (of_audit s)\<rparr>)"
    and "sql_minutes_wf minutes \<Longrightarrow>
      sql_minutes_view minutes = (sql_minutes_view (of_meetings s))((rc_tenant_id c, i) \<mapsto> m) \<Longrightarrow>
      kept_from u dump s
        (s\<lparr>of_meetings := minutes, of_audit := audit_record_event (U ''meeting_minutes.review'') c i (of_audit s)\<rparr>)"
proof -
  let ?r = "s\<lparr>of_audit := audit_record_event (U ''report.review'') c i (of_audit s)\<rparr>"
  have eq: "s\<lparr>of_reports := rows, of_audit := audit_record_event (U ''report.review'') c i (of_audit s)\<rparr> =
    ?r\<lparr>of_reports := rows\<rparr>" by simp
  assume "sql_reports_wf rows" "sql_report_view rows = (sql_report_view (of_reports s))((rc_tenant_id c, i) \<mapsto> d)"
  then have "office_safe u dump (?r\<lparr>of_reports := rows\<rparr>)"
    by (intro safe_reports safe_audit assms) (auto split: if_splits)
  moreover have "records_kept s (?r\<lparr>of_reports := rows\<rparr>)"
    by (rule records_kept_trans [OF records_kept_updates(6) records_kept_updates(1)])
  ultimately show "kept_from u dump s
      (s\<lparr>of_reports := rows, of_audit := audit_record_event (U ''report.review'') c i (of_audit s)\<rparr>)"
    unfolding eq by blast
next
  let ?m = "s\<lparr>of_audit := audit_record_event (U ''meeting_minutes.review'') c i (of_audit s)\<rparr>"
  have eq: "s\<lparr>of_meetings := minutes, of_audit := audit_record_event (U ''meeting_minutes.review'') c i (of_audit s)\<rparr> =
    ?m\<lparr>of_meetings := minutes\<rparr>" by simp
  assume "sql_minutes_wf minutes" "sql_minutes_view minutes = (sql_minutes_view (of_meetings s))((rc_tenant_id c, i) \<mapsto> m)"
  then have "office_safe u dump (?m\<lparr>of_meetings := minutes\<rparr>)"
    by (intro safe_minutes safe_audit assms) (auto split: if_splits)
  moreover have "records_kept s (?m\<lparr>of_meetings := minutes\<rparr>)"
    by (rule records_kept_trans [OF records_kept_updates(6) records_kept_updates(2)])
  ultimately show "kept_from u dump s
      (s\<lparr>of_meetings := minutes, of_audit := audit_record_event (U ''meeting_minutes.review'') c i (of_audit s)\<rparr>)"
    unfolding eq by blast
qed

lemma report_review_kept:
  "office_safe u dump s \<Longrightarrow> kept_from u dump s (snd (report_review sql_report_repo i ok comment c s))"
  using review_cases [OF safeD(1), of u dump s i ok comment c] safe_reviewed(1) by (metis records_kept_refl)

lemma minutes_review_kept:
  "office_safe u dump s \<Longrightarrow> kept_from u dump s (snd (minutes_review sql_minutes_repo sha n i ok comment c s))"
  using minutes_review_cases [OF safeD(2), of u dump s sha n i ok comment c] safe_reviewed(2)
  by (metis records_kept_refl)

lemma minutes_generate_kept:
  assumes "office_safe u dump s"
  shows "kept_from u dump s (snd (on_meetings (minutes_generate sql_minutes_repo zd sd n i title segs c day) s))"
proof -
  let ?rows = "snd (minutes_generate sql_minutes_repo zd sd n i title segs c day (of_meetings s))"
  obtain d where "mm_status d = Draft_m" "sql_minutes_wf ?rows"
    "sql_minutes_view ?rows = (sql_minutes_view (of_meetings s))((rc_tenant_id c, i) \<mapsto> d)"
    by (rule minutes_generate_view [OF safeD(2) [OF assms]])
  then have "office_safe u dump (s\<lparr>of_meetings := ?rows\<rparr>)"
    by (intro safe_minutes [OF assms]) (auto split: if_splits)
  then show ?thesis by (simp add: on_meetings_snd)
qed

section \<open>The routes\<close>

text \<open>What the induction gives for a connector whose calls other requests overlap.\<close>

definition posts_reports :: "unicode \<Rightarrow> (report_draft \<Rightarrow> ustr) \<Rightarrow>
    (report_draft \<Rightarrow> ustr \<Rightarrow> request_context \<Rightarrow> office_db \<Rightarrow> jdict res \<times> office_db) \<Rightarrow> bool" where
  "posts_reports u dump f \<longleftrightarrow> (\<forall>d k c x. \<exists>y z. guarantee u dump x y \<and> z \<in> {y, sent_report c d y} \<and>
     guarantee u dump z (snd (f d k c x)))"

definition posts_mails :: "unicode \<Rightarrow> (report_draft \<Rightarrow> ustr) \<Rightarrow>
    (ustr \<Rightarrow> ustr \<Rightarrow> ustr \<Rightarrow> request_context \<Rightarrow> office_db \<Rightarrow> jdict res \<times> office_db) \<Rightarrow> bool" where
  "posts_mails u dump f \<longleftrightarrow> (\<forall>a b k c x. \<exists>y z. guarantee u dump x y \<and> z \<in> {y, sent_mail c a b k y} \<and>
     guarantee u dump z (snd (f a b k c x)))"

lemma kept_trans: "kept_from u dump r s \<Longrightarrow> kept_from u dump s t \<Longrightarrow> kept_from u dump r t"
  using records_kept_trans by blast

lemma guaranteeD: "guarantee u dump s t \<Longrightarrow> office_safe u dump s \<Longrightarrow> kept_from u dump s t"
  by (simp add: guarantee_def)

lemma posted_report:
  assumes "posts_reports u dump f" "office_safe u dump s" "cleared_report u dump s c d"
  shows "kept_from u dump s (snd (f d k c s))"
proof -
  obtain y z where yz: "guarantee u dump s y" "z \<in> {y, sent_report c d y}" "guarantee u dump z (snd (f d k c s))"
    using assms(1) unfolding posts_reports_def by blast
  have y: "kept_from u dump s y" by (rule guaranteeD [OF yz(1) assms(2)])
  with yz(2) assms(3) have "kept_from u dump y z" by (auto intro: safe_sent_report cleared_kept(1))
  with y yz(3) show ?thesis by (metis guaranteeD kept_trans)
qed

lemma posted_mail:
  assumes "posts_mails u dump f" "office_safe u dump s" "cleared_mail u s c a b k"
  shows "kept_from u dump s (snd (f a b k c s))"
proof -
  obtain y z where yz: "guarantee u dump s y" "z \<in> {y, sent_mail c a b k y}" "guarantee u dump z (snd (f a b k c s))"
    using assms(1) unfolding posts_mails_def by blast
  have y: "kept_from u dump s y" by (rule guaranteeD [OF yz(1) assms(2)])
  with yz(2) assms(3) have "kept_from u dump y z" by (auto intro: safe_sent_mail cleared_kept(2))
  with y yz(3) show ?thesis by (metis guaranteeD kept_trans)
qed

text \<open>The routes to the minutes run an operation on the state in which the audit services have changed places.\<close>

lemma swap_swap [simp]: "swap_audit (swap_audit s) = s"
  by (simp add: swap_audit_def)

lemma with_module_audit_kept:
  assumes "kept_from u dump (swap_audit s) (snd (f (swap_audit s)))"
  shows "kept_from u dump s (snd (with_module_audit f s))"
  using assms records_kept_updates(7) [of "swap_audit s" "snd (f (swap_audit s))"] by (simp add: snd_with_module_audit)

lemma route_kept:
  assumes "office_safe u dump s" "\<And>c. kept_from u dump s (snd (handler c s))"
  shows "guarantee u dump s (snd (with_context identity t handler s))"
  unfolding guarantee_def using assms by (intro impI with_context_state [where P = "kept_from u dump s"]) simp_all

lemma report_routes_kept:
  assumes "office_safe u dump s"
  shows "guarantee u dump s (snd (generate_report sql_report_repo lower uuid collect identity payload s))"
    and "guarantee u dump s (snd (review_report_route sql_report_repo identity i ok comment s))"
    and "posts_reports u dump f \<Longrightarrow>
      guarantee u dump s (snd (submit_report_route sql_report_repo sql_idem_repo u dump f identity i s))"
  unfolding generate_report_def review_report_route_def submit_report_route_def
  by (rule route_kept [OF assms], auto simp: generate_report_kept [OF assms] assms split: sum.split)
     (rule route_kept [OF assms], simp only: with_http_state,
       intro report_review_kept submit_kept posted_report assms; assumption)+

lemma minutes_routes_kept:
  assumes "office_safe u dump s"
  shows "guarantee u dump s (snd (generate_minutes_route sql_minutes_repo zd sd n identity i title segs day s))"
    and "guarantee u dump s (snd (review_minutes_route sql_minutes_repo sha n identity i ok comment s))"
    and "posts_mails u dump f \<Longrightarrow>
      guarantee u dump s (snd (send_minutes_route sql_minutes_repo sql_idem_repo u f n identity i s))"
proof -
  have swapped: "office_safe u dump (swap_audit s)" using assms by simp
  show "guarantee u dump s (snd (generate_minutes_route sql_minutes_repo zd sd n identity i title segs day s))"
    unfolding generate_minutes_route_def by (rule route_kept [OF assms], rule minutes_generate_kept [OF assms])
  show "guarantee u dump s (snd (review_minutes_route sql_minutes_repo sha n identity i ok comment s))"
    unfolding review_minutes_route_def
    by (rule route_kept [OF assms], simp only: with_http_state)
       (intro with_module_audit_kept minutes_review_kept swapped)
  assume f: "posts_mails u dump f"
  have "kept_from u dump (swap_audit s) (snd (with_module_audit (f a b k c) (swap_audit s)))"
    if "cleared_mail u (swap_audit s) c a b k" for a b k c
    by (rule with_module_audit_kept) (use posted_mail [OF f assms, of c a b k] that in simp)
  then show "guarantee u dump s (snd (send_minutes_route sql_minutes_repo sql_idem_repo u f n identity i s))"
    unfolding send_minutes_route_def
    by (intro route_kept [OF assms], simp only: with_http_state)
       (rule with_module_audit_kept, rule send_kept [OF swapped], assumption)
qed

section \<open>The agent's graphs\<close>

definition keeps_office :: "unicode \<Rightarrow> (report_draft \<Rightarrow> ustr) \<Rightarrow> (office_db \<Rightarrow> 'a \<times> office_db) \<Rightarrow> bool" where
  "keeps_office u dump f \<longleftrightarrow> (\<forall>x. guarantee u dump x (snd (f x)))"

lemma overlapped_services_ok:
  assumes "posts_reports u dump f" "posts_mails u dump g" "\<And>a b c. keeps_office u dump (collect a b c)"
    and "\<And>j c. keeps_office u dump (transcribe j c)" "\<And>j c. keeps_office u dump (get_meeting j c)"
  shows "services_ok (kept_from u dump s) (office_services sql_report_repo sql_minutes_repo sql_idem_repo u lower dump
    sha zd sd f g collect transcribe get_meeting uuid n)"
proof -
  define P where "P = kept_from u dump s"
  have "P (snd (collect a b c t))" "P (snd (transcribe j c t))" "P (snd (get_meeting j c t))"
    "P (snd (report_submit sql_report_repo sql_idem_repo u dump f j c t))"
    "P (snd (minutes_send sql_minutes_repo sql_idem_repo u g n j c t))"
    "P (snd (on_reports (generate_daily sql_report_repo lower uuid day events (Some c) ws) t))"
    "P (snd (on_reports (generate_weekly sql_report_repo lower uuid day events (Some c) ws) t))"
    "P (snd (report_review sql_report_repo j ok comment c t))"
    "P (snd (on_meetings (minutes_generate sql_minutes_repo zd sd n j title segs c held) t))"
    "P (snd (minutes_review sql_minutes_repo sha n j ok comment c t))"
    if "P t" for a b c j t day events ws ok comment title segs held
  proof -
    have t: "office_safe u dump t" and trans: "kept_from u dump t t' \<Longrightarrow> P t'" for t'
      using that kept_trans unfolding P_def by blast+
    show "P (snd (collect a b c t))" "P (snd (transcribe j c t))" "P (snd (get_meeting j c t))"
      using assms(3-5) guaranteeD [OF _ t] unfolding keeps_office_def by (intro trans; blast)+
    show "P (snd (report_submit sql_report_repo sql_idem_repo u dump f j c t))"
      "P (snd (minutes_send sql_minutes_repo sql_idem_repo u g n j c t))"
      by (intro trans submit_kept send_kept posted_report [OF assms(1)] posted_mail [OF assms(2)] t; assumption)+
    show "P (snd (on_reports (generate_daily sql_report_repo lower uuid day events (Some c) ws) t))"
      "P (snd (on_reports (generate_weekly sql_report_repo lower uuid day events (Some c) ws) t))"
      "P (snd (report_review sql_report_repo j ok comment c t))"
      "P (snd (on_meetings (minutes_generate sql_minutes_repo zd sd n j title segs c held) t))"
      "P (snd (minutes_review sql_minutes_repo sha n j ok comment c t))"
      by (intro trans generate_report_kept [OF t] report_review_kept [OF t] minutes_generate_kept [OF t]
          minutes_review_kept [OF t])+
  qed
  then have "services_ok P (office_services sql_report_repo sql_minutes_repo sql_idem_repo u lower dump
      sha zd sd f g collect transcribe get_meeting uuid n)"
    unfolding services_ok_def office_services_def by simp
  then show ?thesis by (simp add: P_def)
qed

lemma overlapped_connectors:
  "\<forall>d k c x. \<exists>y z. (office_overlap u dump x y \<and> guarantee u dump x y) \<and> z \<in> {y, sent_report c d y} \<and>
     office_overlap u dump z (snd (f d k c x)) \<and> guarantee u dump z (snd (f d k c x)) \<Longrightarrow> posts_reports u dump f"
  "\<forall>a b k c x. \<exists>y z. (office_overlap u dump x y \<and> guarantee u dump x y) \<and> z \<in> {y, sent_mail c a b k y} \<and>
     office_overlap u dump z (snd (g a b k c x)) \<and> guarantee u dump z (snd (g a b k c x)) \<Longrightarrow> posts_mails u dump g"
  "\<forall>a b c x. office_overlap u dump x (snd (h a b c x)) \<and> guarantee u dump x (snd (h a b c x)) \<Longrightarrow>
     keeps_office u dump (h a b c)"
  "\<forall>j c x. office_overlap u dump x (snd (l j c x)) \<and> guarantee u dump x (snd (l j c x)) \<Longrightarrow>
     keeps_office u dump (l j c)"
  unfolding posts_reports_def posts_mails_def keeps_office_def by meson+

lemma guarantee_step:
  "guarantee u dump s t \<Longrightarrow> (office_safe u dump t \<Longrightarrow> guarantee u dump t (snd p)) \<Longrightarrow> p = (x, t') \<Longrightarrow> guarantee u dump s t'"
  by (auto simp: guarantee_def intro: records_kept_trans)

lemma overlap_guarantee: "office_overlap u dump s t \<Longrightarrow> guarantee u dump s t"
proof (induction rule: office_overlap.induct)
  case (submit_report s t submit_to)
  have "posts_reports u dump submit_to" by (rule overlapped_connectors(1) [OF submit_report.IH(2)])
  then show ?case by (intro guarantee_step [OF submit_report.IH(1) _ submit_report.hyps(2)] report_routes_kept(3))
next
  case (send_minutes s t send_email)
  have "posts_mails u dump send_email" by (rule overlapped_connectors(2) [OF send_minutes.IH(2)])
  then show ?case by (intro guarantee_step [OF send_minutes.IH(1) _ send_minutes.hyps(2)] minutes_routes_kept(3))
next
  case (agent s t submit_to send_email collect' transcribe get_meeting svc)
  have "posts_reports u dump submit_to" "posts_mails u dump send_email"
    by (rule overlapped_connectors(1) [OF agent.IH(2)], rule overlapped_connectors(2) [OF agent.IH(3)])
  moreover have "keeps_office u dump (collect' a b c)" "keeps_office u dump (transcribe j c)"
    "keeps_office u dump (get_meeting j c)" for a b c j
    by (rule overlapped_connectors(3) [OF agent.IH(4)], rule overlapped_connectors(4) [OF agent.IH(5)],
        rule overlapped_connectors(4) [OF agent.IH(6)])
  ultimately have svc: "services_ok (kept_from u dump t) svc"
    unfolding agent.hyps(2) by (rule overlapped_services_ok)
  have "guarantee u dump t t'" if t': "t' \<in> {snd (report_node svc add6 rspec resume c t), snd (meeting_node svc rep mspec resume c t)}"
    for t' add6 rspec resume c rep mspec
    using t' report_node_ok [where P = "kept_from u dump t", OF _ svc]
      meeting_node_ok [where P = "kept_from u dump t", OF _ svc] by (auto simp: guarantee_def)
  then show ?case using agent.hyps(3) guarantee_trans [OF agent.IH(1)] by blast
qed (rule guarantee_refl, (rule guarantee_step, assumption,
    (rule report_routes_kept(1,2) minutes_routes_kept(1,2), assumption), assumption)+)

lemma start_db_safe: "office_safe u dump (start_db a b)"
  by (simp add: office_safe_def start_db_def sql_reports_wf_def sql_minutes_wf_def sql_report_view_def
      sql_minutes_view_def)

section \<open>Property\<close>

text \<open>Two employees submit the same report, one while the other one's submission waits for the report system.\<close>

definition demo_db_overlap :: office_db where
  "demo_db_overlap = snd (submit_report_route sql_report_repo sql_idem_repo demo_unicode (\<lambda>_. [])
     (meanwhile demo_unicode (\<lambda>_. []) demo_report_system (U ''r1'') (demo_employee ''e2''))
     (\<lambda>_. Inr (demo_employee ''e1'')) (U ''r1'') demo_db2)"

lemma demo_overlap_outbox:
  "ob_reports (fst (of_ext demo_db_overlap)) =
     [(demo_employee ''e2'', reviewed_report True None demo_report),
      (demo_employee ''e1'', reviewed_report True None demo_report)]"
  using meanwhile_outbox [OF demo_db_wf(2,3) demo_employees_submit [of "''e1''"] demo_employees_submit [of "''e2''"]
      demo_report_system_accepts]
  by (simp add: demo_db_overlap_def submit_report_route_def demo_db2_view)

lemma undisturbed_post: "\<exists>y z. office_overlap u dump x y \<and> z \<in> {y, sent_report c d y} \<and>
    office_overlap u dump z (snd (post_report system d k c x))"
  by (intro exI [of _ x] exI [of _ "snd (post_report system d k c x)"])
     (auto simp: post_report_def sent_report_def intro: office_overlap.wait split: sum.split)

lemma demo_overlap_run: "office_overlap demo_unicode (\<lambda>_. []) (start_db no_records no_records) demo_db_overlap"
proof -
  let ?R = "office_overlap demo_unicode (\<lambda>_. [])"
  let ?second = "\<lambda>x. snd (submit_report_route sql_report_repo sql_idem_repo demo_unicode (\<lambda>_. [])
    (post_report demo_report_system) (\<lambda>_. Inr (demo_employee ''e2'')) (U ''r1'') x)"
  have second: "?R x (?second x)" for x
    by (rule office_overlap.submit_report [OF office_overlap.wait _ prod.collapse [symmetric]])
       (intro allI undisturbed_post)
  have eq: "meanwhile demo_unicode (\<lambda>_. []) demo_report_system (U ''r1'') (demo_employee ''e2'') d k c x =
      post_report demo_report_system d k c (?second x)" for d k c x
    by (simp add: meanwhile_def submit_report_route_def)
  have "\<exists>y z. ?R x y \<and> z \<in> {y, sent_report c d y} \<and>
      ?R z (snd (meanwhile demo_unicode (\<lambda>_. []) demo_report_system (U ''r1'') (demo_employee ''e2'') d k c x))"
    for d k c x
    using second [of x] unfolding eq
    by (intro exI [of _ "?second x"] exI [of _ "sent_report c d (?second x)"])
       (auto simp: post_report_def sent_report_def demo_report_system_def intro: office_overlap.wait)
  then show ?thesis
    unfolding demo_db_overlap_def demo_db2_def demo_db1_def
    by (intro office_overlap.submit_report [OF office_overlap.review_report [OF office_overlap.generate_report
          [OF office_overlap.wait prod.collapse [symmetric]] prod.collapse [symmetric]] _ prod.collapse [symmetric]] allI)
qed



end
