(* ===== verification/File_Runs.thy ===== *)
theory File_Runs
  imports Agent_Tools
begin

text \<open>
  Executions of the file routes and of the tools that read files, and who may reach a file in them: one process
  with its store, whole requests of callers of any tenants one after another, and restarts of the process.
\<close>

section \<open>Executions\<close>

text \<open>
  The log has every identifier handed out to an upload, with the tenant of the caller. \<open>uuid4\<close> does not hand out
  an identifier twice. The process starts without records (\<open>t\<close> is the table, if there is a database), whatever is on
  the disk.
\<close>

inductive file_run :: "runtime \<Rightarrow> (ustr \<times> ustr) list \<Rightarrow> file_state \<Rightarrow> bool" for rt where
  start: "t \<in> {None, Some []} \<Longrightarrow> file_run rt []
    \<lparr>ft_files = \<lparr>fs_files = [], fs_metadata = [], fs_disk = disk, fs_table = t\<rparr>, ft_artifacts = a, ft_audit = b\<rparr>"
| upload: "file_run rt seen s \<Longrightarrow> uuid \<notin> fst ` set seen \<Longrightarrow> identity (U ''file:upload'') = Inr c \<Longrightarrow>
    upload_file rt dir uuid identity filename content content_type s = (x, s') \<Longrightarrow>
    file_run rt ((uuid, rc_tenant_id c) # seen) s'"
| metadata: "file_run rt seen s \<Longrightarrow> file_metadata_route identity i s = (m, s') \<Longrightarrow> file_run rt seen s'"
| analyze: "file_run rt seen s \<Longrightarrow> analyze_uploaded_file rt analysis identity i s = (r, s') \<Longrightarrow> file_run rt seen s'"
| export: "file_run rt seen s \<Longrightarrow>
    export_uploaded_analysis rt analysis sha w base artifact_id identity i s = (p, s') \<Longrightarrow> file_run rt seen s'"
| delete: "file_run rt seen s \<Longrightarrow> delete_file rt identity i s = (p, s') \<Longrightarrow> file_run rt seen s'"
| analyze_tool: "file_run rt seen s \<Longrightarrow> analyze_file_tool rt analysis i c s = (d, s') \<Longrightarrow> file_run rt seen s'"
| export_tool: "file_run rt seen s \<Longrightarrow>
    export_analysis_tool rt analysis sha w base artifact_id i c s = (p, s') \<Longrightarrow> file_run rt seen s'"
| restart: "file_run rt seen s \<Longrightarrow> file_run rt seen (s\<lparr>ft_files := restarted (ft_files s)\<rparr>)"

section \<open>Owners\<close>

text \<open>Every record, in the process and in the table, belongs to the tenant of the upload.\<close>

definition files_owned :: "(ustr \<times> ustr) list \<Rightarrow> file_store \<Rightarrow> bool" where
  "files_owned seen s \<longleftrightarrow>
     (\<forall>i m. map_of (fs_metadata s) i = Some m \<longrightarrow> fm_file_id m = i \<and> map_of seen i = Some (fm_tenant_id m)) \<and>
     (\<forall>table. fs_table s = Some table \<longrightarrow> distinct (map fr_id table) \<and>
        (\<forall>r \<in> set table. map_of seen (fr_id r) = Some (fr_tenant_id r)))"

lemma owned_wf: "files_owned seen s \<Longrightarrow> file_store_wf s"
  unfolding files_owned_def file_store_wf_def by (simp split: option.split) (metis option.inject)

lemma owned_owner: "files_owned seen s \<Longrightarrow> file_owner s i = Some t \<Longrightarrow> map_of seen i = Some t"
  by (auto simp: files_owned_def file_owner_def split: option.splits dest!: find_SomeD)

lemma owned_parts [simp]:
  "files_owned seen (s\<lparr>fs_files := f\<rparr>) = files_owned seen s" "files_owned seen (s\<lparr>fs_disk := d\<rparr>) = files_owned seen s"
  by (simp_all add: files_owned_def)

lemma owned_more: "files_owned seen s \<Longrightarrow> map_of seen i = None \<Longrightarrow> files_owned ((i, t) # seen) s"
  by (fastforce simp: files_owned_def)

lemma owned_restarted: "files_owned seen s \<Longrightarrow> files_owned seen (restarted s)"
  by (simp add: files_owned_def restarted_def)

lemma owned_get: "files_owned seen s \<Longrightarrow> files_owned seen (snd (file_get_metadata i c s))"
proof -
  assume own: "files_owned seen s"
  show ?thesis
  proof (cases "snd (file_get_metadata i c s) = s")
    case False
    then obtain table m where found: "fs_table s = Some table" "sql_file_get i c table = Inr (Some m)"
      "snd (file_get_metadata i c s) = s\<lparr>fs_metadata := AList.update i m (fs_metadata s)\<rparr>"
      by (auto simp: file_get_metadata_def Let_def split: option.splits sum.splits if_splits)
    then obtain r ref where r: "r \<in> set table" "fr_id r = i" "m = row_metadata r ref"
      using sql_file_get_find [of table i c] own
      by (cases "find (\<lambda>r. fr_id r = i \<and> fr_tenant_id r = rc_tenant_id c) table")
         (force simp: files_owned_def map_option_case split: option.splits dest: find_SomeD)+
    then show ?thesis using own found(1,3) by (auto simp: files_owned_def row_metadata_def update_conv')
  qed (simp add: own)
qed

lemma owned_rows: "files_owned seen s \<Longrightarrow> files_owned seen (snd (get_rows rt i c s))"
  unfolding get_rows_def
  by (rule bnd_keeps [where P = "files_owned seen"]) (auto simp: owned_get split: option.split sum.split)

lemma owned_removed: "files_owned seen s \<Longrightarrow> files_owned seen (s\<lparr>fs_disk := d, fs_files := f,
    fs_metadata := AList.delete i (fs_metadata s), fs_table := map_option (sql_file_delete i c) (fs_table s)\<rparr>)"
  by (auto simp: files_owned_def delete_conv' sql_file_delete_def distinct_map_filter split: if_splits)

lemma owned_delete: "files_owned seen s \<Longrightarrow> files_owned seen (snd (file_delete rt i c s))"
  unfolding file_delete_def
  by (rule bnd_keeps [where P = "files_owned seen"]) (simp_all add: owned_get owned_removed)

lemma owned_store:
  assumes own: "files_owned seen s" and fresh: "map_of seen i = None"
  shows "files_owned ((i, rc_tenant_id c) # seen) (snd (store_and_parse rt dir i filename content c content_type s))"
proof -
  have same: "files_owned ((i, rc_tenant_id c) # seen) s" by (rule owned_more [OF own fresh])
  have new: "i \<notin> fr_id ` set table" if "fs_table s = Some table" for table
    using own fresh that by (fastforce simp: files_owned_def)
  obtain r s' where run: "store_and_parse rt dir i filename content c content_type s = (r, s')" by fastforce
  show ?thesis
  proof (cases r)
    case (Inl e)
    with run new have "s' = s"
      by (auto simp: store_and_parse_def Let_def keep_file_def sql_file_save_def FileMetadata_def
          split: sum.splits option.splits prod.splits if_splits)
    with run same show ?thesis by simp
  next
    case (Inr j)
    obtain ext rows t where kept: "s' = (keep_file (FileMetadata rt dir i filename content c content_type ext (length rows))
        content rows s)\<lparr>fs_table := t\<rparr>"
      and t: "case fs_table s of None \<Rightarrow> t = None
          | Some table \<Rightarrow> t = Some (snd (sql_file_save
              (FileMetadata rt dir i filename content c content_type ext (length rows)) c table)) \<and> i \<notin> fr_id ` set table"
      using store_and_parse_Inr [OF run [unfolded Inr]] unfolding Let_def by blast
    show ?thesis
    proof (cases "fs_table s")
      case None
      with kept t run own fresh show ?thesis
        by (auto simp: files_owned_def keep_file_def FileMetadata_def)
    next
      case (Some table)
      with t obtain row where "t = Some (table @ [row])" "fr_id row = i" "fr_tenant_id row = rc_tenant_id c"
        by (auto simp: sql_file_save_def FileMetadata_def)
      with kept run own fresh new [OF Some] Some show ?thesis
        by (fastforce simp: files_owned_def keep_file_def FileMetadata_def)
    qed
  qed
qed

section \<open>Every execution\<close>

abbreviation all_owned :: "(ustr \<times> ustr) list \<Rightarrow> file_state \<Rightarrow> bool" where
  "all_owned seen s \<equiv> files_owned seen (ft_files s)"

lemma on_files_owned: "files_owned seen (snd (f (ft_files s))) \<Longrightarrow> all_owned seen (snd (on_files f s))"
  by (simp add: on_files_def case_prod_unfold)

lemma routes_owned:
  assumes "all_owned seen s"
  shows "all_owned seen (snd (file_metadata_route identity i s))"
    "all_owned seen (snd (analyze_uploaded_file rt analysis identity i s))"
    "all_owned seen (snd (export_uploaded_analysis rt analysis sha w base a identity i s))"
    "all_owned seen (snd (delete_file rt identity i s))"
    "all_owned seen (snd (analyze_file_tool rt analysis i c s))"
    "all_owned seen (snd (export_analysis_tool rt analysis sha w base a i c s))"
proof -
  have get: "all_owned seen (snd (on_files (file_get_metadata i c) s))"
    "all_owned seen (snd (on_files (get_rows rt i c) s))" "all_owned seen (snd (on_files (file_delete rt i c) s))" for c
    using owned_get owned_rows owned_delete assms by (blast intro: on_files_owned)+
  have analysed: "all_owned seen (snd (file_analysis rt analysis i c s))" for c
    unfolding file_analysis_def by (rule bnd_keeps [where P = "all_owned seen"]) (simp_all add: get)
  show "all_owned seen (snd (file_metadata_route identity i s))"
    "all_owned seen (snd (analyze_uploaded_file rt analysis identity i s))"
    "all_owned seen (snd (export_uploaded_analysis rt analysis sha w base a identity i s))"
    "all_owned seen (snd (delete_file rt identity i s))"
    unfolding file_metadata_route_def analyze_uploaded_file_def export_uploaded_analysis_def delete_file_def
    by (rule with_context_state [where P = "all_owned seen"];
        (simp only: with_http_state)?; intro assms get bnd_keeps [where P = "all_owned seen"];
        auto simp: get assms split: prod.split)+
  show "all_owned seen (snd (analyze_file_tool rt analysis i c s))"
    "all_owned seen (snd (export_analysis_tool rt analysis sha w base a i c s))"
    unfolding analyze_file_tool_def export_analysis_tool_def
    by (rule bnd_keeps [where P = "all_owned seen", OF analysed]; auto split: prod.split)+
qed

lemma upload_owned:
  assumes "all_owned seen s" "uuid \<notin> fst ` set seen" "identity (U ''file:upload'') = Inr c"
  shows "all_owned ((uuid, rc_tenant_id c) # seen)
    (snd (upload_file rt dir uuid identity filename content content_type s))"
proof -
  have "map_of seen uuid = None" using assms(2) by (simp add: map_of_eq_None_iff)
  then have "all_owned ((uuid, rc_tenant_id c) # seen)
      (snd (on_files (store_and_parse rt dir uuid name content c content_type) s))" for name
    by (intro on_files_owned owned_store assms(1))
  then show ?thesis
    by (simp only: upload_file_def with_context_simps(2) [where identity = identity, OF assms(3)] with_http_state)
       (intro bnd_keeps [where P = "all_owned ((uuid, rc_tenant_id c) # seen)"]; simp)
qed

lemma file_run_owned: "file_run rt seen s \<Longrightarrow> all_owned seen s"
proof (induction rule: file_run.induct)
  case (start t disk a b)
  then show ?case by (auto simp: files_owned_def)
next
  case (upload seen s uuid identity c dir filename content content_type x s')
  show ?case
    using upload_owned [where identity = identity, OF upload.IH upload.hyps(2,3), of rt dir filename content content_type]
      upload.hyps(4) by simp
next
  case (restart seen s)
  then show ?case by (simp add: owned_restarted)
next
  case (metadata seen s identity i m s')
  show ?case using routes_owned(1) [OF metadata.IH, of identity i] metadata.hyps(2) by simp
next
  case (analyze seen s analysis identity i r s')
  show ?case using routes_owned(2) [OF analyze.IH, of rt analysis identity i] analyze.hyps(2) by simp
next
  case (export seen s analysis sha w base artifact_id identity i p s')
  show ?case using routes_owned(3) [OF export.IH, of rt analysis sha w base artifact_id identity i] export.hyps(2) by simp
next
  case (delete seen s identity i p s')
  show ?case using routes_owned(4) [OF delete.IH, of rt identity i] delete.hyps(2) by simp
next
  case (analyze_tool seen s analysis i c d s')
  show ?case using routes_owned(5) [OF analyze_tool.IH, of rt analysis i c] analyze_tool.hyps(2) by simp
next
  case (export_tool seen s analysis sha w base artifact_id i c p s')
  show ?case
    using routes_owned(6) [OF export_tool.IH, of rt analysis sha w base artifact_id i c] export_tool.hyps(2) by simp
qed

section \<open>Property\<close>

text \<open>
  C14: Files are isolated by tenant. In every execution of the file routes and tools in one process, whole requests
  one after another, with any restarts of it, from a store without records, each upload under a fresh identifier:
  when a file was uploaded by another tenant, or the identifier never by anyone, then for this caller the routes that
  show its metadata, analyse it and export the analysis, and with the scope \<open>file:delete\<close> the one that deletes it,
  all answer 404, the two tools of the agent fail with \<open>KeyError\<close>, and nothing changes: no file, no artifact and
  no audit record.
\<close>

theorem files_are_isolated_by_tenant:
  assumes "file_run rt seen s" "map_of seen i \<noteq> Some (rc_tenant_id c)" "identity (file_thread i) = Inr c"
  shows "file_metadata_route identity i s = (Inl (Exn (HTTPException 404) (U ''file not found'')), s) \<and>
    analyze_uploaded_file rt analysis identity i s = (Inl (Exn (HTTPException 404) (U ''file not found'')), s) \<and>
    export_uploaded_analysis rt analysis sha w base a identity i s =
      (Inl (Exn (HTTPException 404) (U ''file not found'')), s) \<and>
    (U ''file:delete'' \<in> rc_permission_scopes c \<longrightarrow>
      delete_file rt identity i s = (Inl (Exn (HTTPException 404) (U ''file not found'')), s)) \<and>
    analyze_file_tool rt analysis i c s = (Inl (Exn KeyErr i), s) \<and>
    export_analysis_tool rt analysis sha w base a i c s = (Inl (Exn KeyErr i), s)"
proof -
  note own = file_run_owned [OF assms(1)]
  have "file_owner (ft_files s) i \<noteq> Some (rc_tenant_id c)" using owned_owner [OF own] assms(2) by blast
  note gone = foreign_metadata [OF owned_wf [OF own] this]
  have read: "on_files (file_get_metadata i c) s = (Inl (Exn KeyErr i), s)"
    "on_files (get_rows rt i c) s = (Inl (Exn KeyErr i), s)" "on_files (file_delete rt i c) s = (Inl (Exn KeyErr i), s)"
    by (simp_all add: on_files_def get_rows_def file_delete_def gone)
  show ?thesis
    using assms(3) read
    by (simp add: file_metadata_route_def analyze_uploaded_file_def export_uploaded_analysis_def delete_file_def
        analyze_file_tool_def export_analysis_tool_def file_analysis_def with_http_def permission_require_def
        as_http_def clauses caught_def isa_def)
qed

text \<open>A file of one tenant, uploaded through the route; the process restarts, and another tenant asks for it.\<close>

definition demo_uploaded :: file_state where
  "demo_uploaded = snd (upload_file demo_runtime (U ''up'') (U ''f1'') (\<lambda>_. Inr ann) (Some (U ''n.csv'')) demo_csv None
     \<lparr>ft_files = empty_store, ft_artifacts = \<lparr>as_disk = [], as_table = None\<rparr>, ft_audit = no_records\<rparr>)"

lemma demo_uploaded_files: "ft_files demo_uploaded = snd demo_stored"
  by (simp add: demo_uploaded_def upload_file_def with_http_state on_files_def demo_stored_run)

lemma demo_file_run:
  "file_run demo_runtime [(U ''f1'', rc_tenant_id ann)] (demo_uploaded\<lparr>ft_files := restarted (ft_files demo_uploaded)\<rparr>)"
  unfolding demo_uploaded_def empty_store_def
  by (intro file_run.restart file_run.upload [OF file_run.start _ _ prod.collapse [symmetric], where identity = "\<lambda>_. Inr ann"])
     simp_all

theorem files_are_isolated_by_tenant_witness:
  "\<exists>s. file_run demo_runtime [(U ''f1'', rc_tenant_id ann)] s \<and> fs_table (ft_files s) \<noteq> Some [] \<and>
    analyze_uploaded_file demo_runtime (\<lambda>_. Inl (Exn ValueErr [])) (\<lambda>_. Inr bob) (U ''f1'') s =
      (Inl (Exn (HTTPException 404) (U ''file not found'')), s)"
proof -
  let ?s = "demo_uploaded\<lparr>ft_files := restarted (ft_files demo_uploaded)\<rparr>"
  have "map_of [(U ''f1'', rc_tenant_id ann)] (U ''f1'') \<noteq> Some (rc_tenant_id bob)"
    by (simp add: ann_def bob_def RequestContext_def)
  from files_are_isolated_by_tenant [OF demo_file_run this, of "\<lambda>_. Inr bob"]
  have "analyze_uploaded_file demo_runtime (\<lambda>_. Inl (Exn ValueErr [])) (\<lambda>_. Inr bob) (U ''f1'') ?s =
      (Inl (Exn (HTTPException 404) (U ''file not found'')), ?s)"
    by simp
  moreover have "fs_table (ft_files ?s) \<noteq> Some []"
    using store_and_parse_Inr [OF demo_stored_run]
    by (auto simp: Let_def demo_uploaded_files restarted_def empty_store_def sql_file_save_def)
  ultimately show ?thesis using demo_file_run by blast
qed

end
