(* ===== verification/Db_Schema.thy ===== *)
theory Db_Schema
  imports OMA_Prelude
begin

text \<open>
  The tables of the application: as the migrations create and drop them (\<open>migrations/versions\<close>) and as the
  models declare them (\<open>app/models/persistence.py\<close>).

  A migration is the list of the operations its \<open>upgrade\<close> or \<open>downgrade\<close> calls on \<open>alembic.op\<close>; an operation is
  a step of the schema that can fail, as the statement it issues does: a table that exists cannot be created,
  a column without a default that is not nullable cannot be added to a table that holds rows, and so on.
  Dropping a table or a column drops the indexes over it.
\<close>

section \<open>Schemas\<close>

datatype column_type = Varchar nat | Timestamp | Integer_t | Text_t | Json_t | Boolean_t

record column =
  cl_name :: string
  cl_type :: column_type
  cl_nullable :: bool
  cl_primary_key :: bool
  cl_server_default :: "string option"

definition id_column :: "column_type \<Rightarrow> column" where
  "id_column t = \<lparr>cl_name = ''id'', cl_type = t, cl_nullable = False, cl_primary_key = True, cl_server_default = None\<rparr>"

definition required :: "string \<Rightarrow> column_type \<Rightarrow> column" where
  "required c t = \<lparr>cl_name = c, cl_type = t, cl_nullable = False, cl_primary_key = False, cl_server_default = None\<rparr>"

definition nullable :: "string \<Rightarrow> column_type \<Rightarrow> column" where
  "nullable c t = \<lparr>cl_name = c, cl_type = t, cl_nullable = True, cl_primary_key = False, cl_server_default = None\<rparr>"

definition defaulted :: "string \<Rightarrow> column_type \<Rightarrow> string \<Rightarrow> column" where
  "defaulted c t d = \<lparr>cl_name = c, cl_type = t, cl_nullable = False, cl_primary_key = False, cl_server_default = Some d\<rparr>"

text \<open>A table with its unique constraints; \<open>ta_rows\<close> tells whether it holds rows.\<close>

record db_table =
  ta_name :: string
  ta_columns :: "column list"
  ta_uniques :: "(string \<times> string list) list"
  ta_rows :: bool

record db_index =
  ix_name :: string
  ix_table :: string
  ix_columns :: "string list"

record schema =
  sc_tables :: "db_table list"
  sc_indexes :: "db_index list"

datatype schema_op =
  Create_table string "column list" "(string \<times> string list) list"
| Drop_table string
| Add_column string column
| Drop_column string string
| Create_index string string "string list"
| Drop_index string

definition has_table :: "schema \<Rightarrow> string \<Rightarrow> bool" where
  "has_table s t \<longleftrightarrow> t \<in> ta_name ` set (sc_tables s)"

definition find_table :: "schema \<Rightarrow> string \<Rightarrow> db_table option" where
  "find_table s t = find (\<lambda>x. ta_name x = t) (sc_tables s)"

definition has_column :: "db_table \<Rightarrow> string \<Rightarrow> bool" where
  "has_column t c \<longleftrightarrow> c \<in> cl_name ` set (ta_columns t)"

fun apply_op :: "schema_op \<Rightarrow> schema \<Rightarrow> schema option" where
  "apply_op (Create_table t cols uniques) s =
     (if has_table s t then None
      else Some (s\<lparr>sc_tables := sc_tables s @
                    [\<lparr>ta_name = t, ta_columns = cols, ta_uniques = uniques, ta_rows = False\<rparr>]\<rparr>))"
| "apply_op (Drop_table t) s =
     (if \<not> has_table s t then None
      else Some \<lparr>sc_tables = filter (\<lambda>x. ta_name x \<noteq> t) (sc_tables s),
                 sc_indexes = filter (\<lambda>i. ix_table i \<noteq> t) (sc_indexes s)\<rparr>)"
| "apply_op (Add_column t c) s =
     (case find_table s t of
        None \<Rightarrow> None
      | Some x \<Rightarrow>
          if has_column x (cl_name c) \<or> (ta_rows x \<and> \<not> cl_nullable c \<and> cl_server_default c = None) then None
          else Some (s\<lparr>sc_tables := update_row ta_name (x\<lparr>ta_columns := ta_columns x @ [c]\<rparr>) (sc_tables s)\<rparr>))"
| "apply_op (Drop_column t c) s =
     (case find_table s t of
        None \<Rightarrow> None
      | Some x \<Rightarrow>
          if \<not> has_column x c then None
          else Some \<lparr>sc_tables = update_row ta_name (x\<lparr>ta_columns := filter (\<lambda>y. cl_name y \<noteq> c) (ta_columns x)\<rparr>)
                                   (sc_tables s),
                     sc_indexes = filter (\<lambda>i. \<not> (ix_table i = t \<and> c \<in> set (ix_columns i))) (sc_indexes s)\<rparr>)"
| "apply_op (Create_index i t cols) s =
     (case find_table s t of
        None \<Rightarrow> None
      | Some x \<Rightarrow>
          if i \<in> ix_name ` set (sc_indexes s) \<or> \<not> list_all (has_column x) cols then None
          else Some (s\<lparr>sc_indexes := sc_indexes s @ [\<lparr>ix_name = i, ix_table = t, ix_columns = cols\<rparr>]\<rparr>))"
| "apply_op (Drop_index i) s =
     (if i \<notin> ix_name ` set (sc_indexes s) then None
      else Some (s\<lparr>sc_indexes := filter (\<lambda>x. ix_name x \<noteq> i) (sc_indexes s)\<rparr>))"

fun apply_ops :: "schema_op list \<Rightarrow> schema \<Rightarrow> schema option" where
  "apply_ops [] s = Some s"
| "apply_ops (p # ps) s = (case apply_op p s of None \<Rightarrow> None | Some s \<Rightarrow> apply_ops ps s)"

section \<open>The migrations\<close>

definition tenant_columns :: "column list" where
  "tenant_columns =
     [required ''tenant_id'' (Varchar 128), required ''created_by'' (Varchar 128),
      defaulted ''created_at'' Timestamp ''now()'', defaulted ''updated_at'' Timestamp ''now()'',
      defaulted ''version'' Integer_t ''1'']"

definition index_name :: "string \<Rightarrow> string \<Rightarrow> string" where
  "index_name table column = ''ix_'' @ table @ ''_'' @ column"

definition upgrade_01 :: "schema_op list" where
  "upgrade_01 =
    [Create_table ''agent_threads''
       ([id_column (Varchar 128)] @ tenant_columns @
        [required ''status'' (Varchar 32),
         nullable ''state_ref'' (Varchar 512)])
       [],
     Create_table ''agent_runs''
       ([id_column (Varchar 36)] @ tenant_columns @
        [required ''thread_id'' (Varchar 128),
         required ''status'' (Varchar 32),
         nullable ''intent'' (Varchar 64),
         nullable ''result_ref'' (Varchar 512)])
       [],
     Create_table ''audit_logs''
       ([id_column (Varchar 36)] @ tenant_columns @
        [required ''action'' (Varchar 128),
         required ''target_id'' (Varchar 128),
         required ''trace_id'' (Varchar 128)])
       [],
     Create_table ''approval_tasks''
       ([id_column (Varchar 36)] @ tenant_columns @
        [required ''target_type'' (Varchar 64),
         required ''target_id'' (Varchar 128),
         required ''status'' (Varchar 32),
         nullable ''comment'' Text_t])
       [],
     Create_table ''reports''
       ([id_column (Varchar 36)] @ tenant_columns @
        [required ''report_date'' (Varchar 10),
         required ''status'' (Varchar 32),
         required ''payload'' Json_t])
       [(''uq_reports_tenant_id'', [''tenant_id'', ''id''])],
     Create_table ''files''
       ([id_column (Varchar 36)] @ tenant_columns @
        [required ''filename'' (Varchar 512),
         nullable ''content_type'' (Varchar 128),
         required ''byte_size'' Integer_t,
         nullable ''object_ref'' (Varchar 512),
         required ''status'' (Varchar 32)])
       []] @
    map (\<lambda>(table, column). Create_index (index_name table column) table [column])
      [(''agent_threads'', ''tenant_id''),
       (''agent_runs'', ''tenant_id''),
       (''agent_runs'', ''thread_id''),
       (''audit_logs'', ''tenant_id''),
       (''audit_logs'', ''action''),
       (''audit_logs'', ''target_id''),
       (''audit_logs'', ''trace_id''),
       (''approval_tasks'', ''tenant_id''),
       (''approval_tasks'', ''target_id''),
       (''reports'', ''tenant_id''),
       (''reports'', ''report_date''),
       (''reports'', ''status''),
       (''files'', ''tenant_id'')]"

definition downgrade_01 :: "schema_op list" where
  "downgrade_01 =
    [Drop_table ''files'',
     Drop_table ''reports'',
     Drop_table ''approval_tasks'',
     Drop_table ''audit_logs'',
     Drop_table ''agent_runs'',
     Drop_table ''agent_threads'']"

definition upgrade_02 :: "schema_op list" where
  "upgrade_02 =
    [Create_table ''idempotency_records''
       ([id_column (Varchar 36)] @ tenant_columns @
        [required ''operation'' (Varchar 128),
         required ''idempotency_key'' (Varchar 256),
         required ''status'' (Varchar 32),
         nullable ''result'' Json_t])
       [(''uq_idempotency_scope'', [''tenant_id'', ''operation'', ''idempotency_key''])],
     Create_table ''user_memories''
       ([id_column (Varchar 36)] @ tenant_columns @
        [required ''memory_key'' (Varchar 128),
         required ''memory_value'' Text_t,
         defaulted ''confirmed'' Boolean_t ''false''])
       [(''uq_user_memory_key'', [''tenant_id'', ''created_by'', ''memory_key''])],
     Create_table ''background_tasks''
       ([id_column (Varchar 36)] @ tenant_columns @
        [required ''kind'' (Varchar 128),
         required ''status'' (Varchar 32),
         defaulted ''progress'' Integer_t ''0'',
         nullable ''error_code'' (Varchar 128)])
       [],
     Create_table ''schedules''
       ([id_column (Varchar 36)] @ tenant_columns @
        [required ''name'' (Varchar 128),
         required ''cron'' (Varchar 128),
         required ''task_type'' (Varchar 128),
         required ''payload'' Json_t,
         defaulted ''status'' (Varchar 32) ''active''])
       []]"

definition downgrade_02 :: "schema_op list" where
  "downgrade_02 =
    [Drop_table ''schedules'',
     Drop_table ''background_tasks'',
     Drop_table ''user_memories'',
     Drop_table ''idempotency_records'']"

definition upgrade_03 :: "schema_op list" where
  "upgrade_03 =
    [Add_column ''files'' (defaulted ''sha256'' (Varchar 64) ''''),
     Add_column ''files'' (defaulted ''row_count'' Integer_t ''0''),
     Add_column ''files'' (defaulted ''file_type'' (Varchar 32) ''''),
     Create_table ''meeting_minutes''
       ([id_column (Varchar 36)] @ tenant_columns @
        [required ''meeting_id'' (Varchar 128),
         required ''status'' (Varchar 32),
         required ''payload'' Json_t])
       [(''uq_meeting_minutes_tenant'', [''tenant_id'', ''meeting_id''])],
     Create_index ''ix_meeting_minutes_tenant_id'' ''meeting_minutes'' [''tenant_id''],
     Create_index ''ix_meeting_minutes_meeting_id'' ''meeting_minutes'' [''meeting_id''],
     Create_index ''ix_meeting_minutes_status'' ''meeting_minutes'' [''status''],
     Create_table ''artifacts''
       ([id_column (Varchar 36)] @ tenant_columns @
        [required ''kind'' (Varchar 64),
         required ''object_ref'' (Varchar 512),
         required ''sha256'' (Varchar 64),
         required ''status'' (Varchar 32)])
       [],
     Create_index ''ix_artifacts_tenant_id'' ''artifacts'' [''tenant_id''],
     Create_index ''ix_artifacts_kind'' ''artifacts'' [''kind'']]"

definition downgrade_03 :: "schema_op list" where
  "downgrade_03 =
    [Drop_table ''artifacts'',
     Drop_table ''meeting_minutes'',
     Drop_column ''files'' ''file_type'',
     Drop_column ''files'' ''row_count'',
     Drop_column ''files'' ''sha256'']"

definition upgrade_04 :: "schema_op list" where
  "upgrade_04 =
    [Add_column ''background_tasks'' (defaulted ''payload'' Json_t ''{}''),
     Add_column ''background_tasks'' (nullable ''result'' Json_t),
     Add_column ''background_tasks'' (defaulted ''attempts'' Integer_t ''0''),
     Add_column ''background_tasks'' (defaulted ''max_attempts'' Integer_t ''3''),
     Add_column ''background_tasks'' (defaulted ''available_at'' Timestamp ''now()''),
     Add_column ''background_tasks'' (nullable ''locked_at'' Timestamp),
     Add_column ''background_tasks'' (nullable ''locked_by'' (Varchar 128)),
     Add_column ''background_tasks'' (defaulted ''cancel_requested'' Boolean_t ''false''),
     Add_column ''background_tasks'' (nullable ''finished_at'' Timestamp),
     Create_index ''ix_background_tasks_claim'' ''background_tasks'' [''status'', ''available_at'']]"

definition downgrade_04 :: "schema_op list" where
  "downgrade_04 =
    [Drop_index ''ix_background_tasks_claim'',
     Drop_column ''background_tasks'' ''finished_at'',
     Drop_column ''background_tasks'' ''cancel_requested'',
     Drop_column ''background_tasks'' ''locked_by'',
     Drop_column ''background_tasks'' ''locked_at'',
     Drop_column ''background_tasks'' ''available_at'',
     Drop_column ''background_tasks'' ''max_attempts'',
     Drop_column ''background_tasks'' ''attempts'',
     Drop_column ''background_tasks'' ''result'',
     Drop_column ''background_tasks'' ''payload'']"

record revision =
  rv_revision :: string
  rv_down_revision :: "string option"
  rv_upgrade :: "schema_op list"
  rv_downgrade :: "schema_op list"

definition revisions :: "revision list" where
  "revisions =
     [\<lparr>rv_revision = ''20260728_01'', rv_down_revision = None,
       rv_upgrade = upgrade_01, rv_downgrade = downgrade_01\<rparr>,
      \<lparr>rv_revision = ''20260728_02'', rv_down_revision = Some ''20260728_01'',
       rv_upgrade = upgrade_02, rv_downgrade = downgrade_02\<rparr>,
      \<lparr>rv_revision = ''20260728_03'', rv_down_revision = Some ''20260728_02'',
       rv_upgrade = upgrade_03, rv_downgrade = downgrade_03\<rparr>,
      \<lparr>rv_revision = ''20260728_04'', rv_down_revision = Some ''20260728_03'',
       rv_upgrade = upgrade_04, rv_downgrade = downgrade_04\<rparr>]"

text \<open>Alembic follows \<open>down_revision\<close> from the head to the start.\<close>

fun lineage :: "nat \<Rightarrow> string option \<Rightarrow> revision list" where
  "lineage 0 r = []"
| "lineage (Suc n) None = []"
| "lineage (Suc n) (Some r) =
     (case find (\<lambda>x. rv_revision x = r) revisions of
        None \<Rightarrow> [] | Some x \<Rightarrow> lineage n (rv_down_revision x) @ [x])"

definition head_schema :: "schema option" where
  "head_schema = apply_ops (concat (map rv_upgrade (lineage 5 (Some ''20260728_04'')))) \<lparr>sc_tables = [], sc_indexes = []\<rparr>"

section \<open>The models\<close>

text \<open>The columns of a model, each with its \<open>index=True\<close>; a model inherits those of \<open>TenantModel\<close>.\<close>

record model =
  md_table :: string
  md_columns :: "(column \<times> bool) list"
  md_uniques :: "(string \<times> string list) list"

definition tenant_model :: "(column \<times> bool) list" where
  "tenant_model =
     [(required ''tenant_id'' (Varchar 128), True),
      (required ''created_by'' (Varchar 128), False),
      (required ''created_at'' Timestamp, False),
      (required ''updated_at'' Timestamp, False),
      (required ''version'' Integer_t, False)]"

definition agent_thread_model :: model where
  "agent_thread_model =
    \<lparr>md_table = ''agent_threads'', md_columns = tenant_model @
     [(id_column (Varchar 128), False),
      (required ''status'' (Varchar 32), False),
      (nullable ''state_ref'' (Varchar 512), False)],
     md_uniques = []\<rparr>"

definition agent_run_model :: model where
  "agent_run_model =
    \<lparr>md_table = ''agent_runs'', md_columns = tenant_model @
     [(id_column (Varchar 36), False),
      (required ''thread_id'' (Varchar 128), True),
      (required ''status'' (Varchar 32), False),
      (nullable ''intent'' (Varchar 64), False),
      (nullable ''result_ref'' (Varchar 512), False)],
     md_uniques = []\<rparr>"

definition audit_log_model :: model where
  "audit_log_model =
    \<lparr>md_table = ''audit_logs'', md_columns = tenant_model @
     [(id_column (Varchar 36), False),
      (required ''action'' (Varchar 128), True),
      (required ''target_id'' (Varchar 128), True),
      (required ''trace_id'' (Varchar 128), True)],
     md_uniques = []\<rparr>"

definition approval_task_model :: model where
  "approval_task_model =
    \<lparr>md_table = ''approval_tasks'', md_columns = tenant_model @
     [(id_column (Varchar 36), False),
      (required ''target_type'' (Varchar 64), False),
      (required ''target_id'' (Varchar 128), True),
      (required ''status'' (Varchar 32), False),
      (nullable ''comment'' Text_t, False)],
     md_uniques = []\<rparr>"

definition report_model :: model where
  "report_model =
    \<lparr>md_table = ''reports'', md_columns = tenant_model @
     [(id_column (Varchar 36), False),
      (required ''report_date'' (Varchar 10), True),
      (required ''status'' (Varchar 32), True),
      (required ''payload'' Json_t, False)],
     md_uniques = [(''uq_reports_tenant_id'', [''tenant_id'', ''id''])]\<rparr>"

definition file_record_model :: model where
  "file_record_model =
    \<lparr>md_table = ''files'', md_columns = tenant_model @
     [(id_column (Varchar 36), False),
      (required ''filename'' (Varchar 512), False),
      (nullable ''content_type'' (Varchar 128), False),
      (required ''byte_size'' Integer_t, False),
      (required ''sha256'' (Varchar 64), False),
      (required ''row_count'' Integer_t, False),
      (required ''file_type'' (Varchar 32), False),
      (nullable ''object_ref'' (Varchar 512), False),
      (required ''status'' (Varchar 32), False)],
     md_uniques = []\<rparr>"

definition idempotency_record_model :: model where
  "idempotency_record_model =
    \<lparr>md_table = ''idempotency_records'', md_columns = tenant_model @
     [(id_column (Varchar 36), False),
      (required ''operation'' (Varchar 128), False),
      (required ''idempotency_key'' (Varchar 256), False),
      (required ''status'' (Varchar 32), False),
      (nullable ''result'' Json_t, False)],
     md_uniques = [(''uq_idempotency_scope'', [''tenant_id'', ''operation'', ''idempotency_key''])]\<rparr>"

definition user_memory_model :: model where
  "user_memory_model =
    \<lparr>md_table = ''user_memories'', md_columns = tenant_model @
     [(id_column (Varchar 36), False),
      (required ''memory_key'' (Varchar 128), False),
      (required ''memory_value'' Text_t, False),
      (required ''confirmed'' Boolean_t, False)],
     md_uniques = [(''uq_user_memory_key'', [''tenant_id'', ''created_by'', ''memory_key''])]\<rparr>"

definition background_task_record_model :: model where
  "background_task_record_model =
    \<lparr>md_table = ''background_tasks'', md_columns = tenant_model @
     [(id_column (Varchar 36), False),
      (required ''kind'' (Varchar 128), False),
      (required ''status'' (Varchar 32), True),
      (required ''progress'' Integer_t, False),
      (nullable ''error_code'' (Varchar 128), False),
      (required ''payload'' Json_t, False),
      (nullable ''result'' Json_t, False),
      (required ''attempts'' Integer_t, False),
      (required ''max_attempts'' Integer_t, False),
      (required ''available_at'' Timestamp, True),
      (nullable ''locked_at'' Timestamp, False),
      (nullable ''locked_by'' (Varchar 128), False),
      (required ''cancel_requested'' Boolean_t, False),
      (nullable ''finished_at'' Timestamp, False)],
     md_uniques = []\<rparr>"

definition schedule_record_model :: model where
  "schedule_record_model =
    \<lparr>md_table = ''schedules'', md_columns = tenant_model @
     [(id_column (Varchar 36), False),
      (required ''name'' (Varchar 128), False),
      (required ''cron'' (Varchar 128), False),
      (required ''task_type'' (Varchar 128), False),
      (required ''payload'' Json_t, False),
      (required ''status'' (Varchar 32), False)],
     md_uniques = []\<rparr>"

definition meeting_minutes_record_model :: model where
  "meeting_minutes_record_model =
    \<lparr>md_table = ''meeting_minutes'', md_columns = tenant_model @
     [(id_column (Varchar 36), False),
      (required ''meeting_id'' (Varchar 128), True),
      (required ''status'' (Varchar 32), True),
      (required ''payload'' Json_t, False)],
     md_uniques = [(''uq_meeting_minutes_tenant'', [''tenant_id'', ''meeting_id''])]\<rparr>"

definition artifact_record_model :: model where
  "artifact_record_model =
    \<lparr>md_table = ''artifacts'', md_columns = tenant_model @
     [(id_column (Varchar 36), False),
      (required ''kind'' (Varchar 64), True),
      (required ''object_ref'' (Varchar 512), False),
      (required ''sha256'' (Varchar 64), False),
      (required ''status'' (Varchar 32), False)],
     md_uniques = []\<rparr>"

definition metadata :: "model list" where
  "metadata =
    [agent_thread_model,
     agent_run_model,
     audit_log_model,
     approval_task_model,
     report_model,
     file_record_model,
     idempotency_record_model,
     user_memory_model,
     background_task_record_model,
     schedule_record_model,
     meeting_minutes_record_model,
     artifact_record_model]"

section \<open>The migrated schema and the models\<close>

text \<open>What a model says of a column; the models leave defaults to the application.\<close>

definition column_shape :: "column \<Rightarrow> string \<times> column_type \<times> bool \<times> bool" where
  "column_shape c = (cl_name c, cl_type c, cl_nullable c, cl_primary_key c)"

definition model_matches :: "schema \<Rightarrow> model \<Rightarrow> bool" where
  "model_matches s m =
     (case find_table s (md_table m) of
        None \<Rightarrow> False
      | Some t \<Rightarrow>
          set (map column_shape (ta_columns t)) = set (map (column_shape \<circ> fst) (md_columns m)) \<and>
          distinct (map cl_name (ta_columns t)) \<and> ta_uniques t = md_uniques m)"

text \<open>The indexes \<open>index=True\<close> asks for.\<close>

definition declared_indexes :: "(string \<times> string \<times> string list) list" where
  "declared_indexes =
     concat (map (\<lambda>m. map (\<lambda>(c, i). (index_name (md_table m) (cl_name c), md_table m, [cl_name c]))
                       (filter snd (md_columns m))) metadata)"

definition created_indexes :: "schema \<Rightarrow> (string \<times> string \<times> string list) list" where
  "created_indexes s = map (\<lambda>i. (ix_name i, ix_table i, ix_columns i)) (sc_indexes s)"

section \<open>Undoing a migration\<close>

text \<open>Names of tables are unique, and every index is over columns that exist.\<close>

definition schema_wf :: "schema \<Rightarrow> bool" where
  "schema_wf s \<longleftrightarrow> distinct (map ta_name (sc_tables s)) \<and>
     (\<forall>i \<in> set (sc_indexes s). \<exists>t. find_table s (ix_table i) = Some t \<and> list_all (has_column t) (ix_columns i))"

lemma apply_ops_append:
  "apply_ops (ps @ qs) s = (case apply_ops ps s of None \<Rightarrow> None | Some s \<Rightarrow> apply_ops qs s)"
  by (induction ps arbitrary: s) (auto split: option.split)

lemma filter_absent: "n \<notin> f ` set xs \<Longrightarrow> filter (\<lambda>x. f x \<noteq> n) xs = xs"
  by (induction xs) auto

lemma find_table_SomeD: "find_table s t = Some x \<Longrightarrow> x \<in> set (sc_tables s) \<and> ta_name x = t"
  unfolding find_table_def by (rule find_SomeD)

lemma find_table_None: "find_table s t = None \<longleftrightarrow> \<not> has_table s t"
  by (auto simp: find_table_def has_table_def find_None_iff)

lemma schema_wf_index: "schema_wf s \<Longrightarrow> i \<in> set (sc_indexes s) \<Longrightarrow> has_table s (ix_table i)"
  by (metis find_table_None option.distinct(1) schema_wf_def)

text \<open>A column that was added can be dropped again, which gives back the schema.\<close>

lemma update_row_twice: "key y = key x \<Longrightarrow> update_row key x (update_row key y rows) = update_row key x rows"
  by (induction rows) (auto simp: update_row_def)

lemma update_row_same: "distinct (map key rows) \<Longrightarrow> x \<in> set rows \<Longrightarrow> update_row key x rows = rows"
  by (auto simp: update_row_def intro!: map_idI dest: distinct_key_unique)

lemma find_table_update:
  assumes "distinct (map ta_name (sc_tables s))" "find_table s t = Some x" "ta_name y = t" "sc_tables s' = update_row ta_name y (sc_tables s)"
  shows "find_table s' t' = (if t' = t then Some y else find_table s t')"
  using find_update_row [OF assms(1), of x y "\<lambda>z. ta_name z = t'" t'] find_table_SomeD [OF assms(2)] assms(3,4)
  by (auto simp: find_table_def)

lemma add_column_undone:
  assumes wf: "schema_wf s" and add: "apply_op (Add_column t c) s = Some s'"
  shows "apply_op (Drop_column t (cl_name c)) s' = Some s \<and> schema_wf s'"
proof -
  obtain x where x: "find_table s t = Some x" "\<not> has_column x (cl_name c)"
    using add by (auto split: option.splits if_splits)
  let ?y = "x\<lparr>ta_columns := ta_columns x @ [c]\<rparr>"
  have s': "s' = s\<lparr>sc_tables := update_row ta_name ?y (sc_tables s)\<rparr>"
    using add x by (auto split: if_splits)
  have dist: "distinct (map ta_name (sc_tables s))" using wf by (simp add: schema_wf_def)
  have xs: "x \<in> set (sc_tables s)" "ta_name x = t" using find_table_SomeD [OF x(1)] by simp_all
  have look: "find_table s' t' = (if t' = t then Some ?y else find_table s t')" for t'
    using find_table_update [OF dist x(1), of ?y s'] xs(2) by (simp add: s')
  have old: "?y\<lparr>ta_columns := filter (\<lambda>z. cl_name z \<noteq> cl_name c) (ta_columns ?y)\<rparr> = x"
    using x(2) by (simp add: has_column_def filter_absent)
  have rows: "update_row ta_name x (update_row ta_name ?y (sc_tables s)) = sc_tables s"
    using update_row_twice [of ta_name ?y x] update_row_same [OF dist xs(1)] by simp
  have no: "\<not> (ix_table i = t \<and> cl_name c \<in> set (ix_columns i))" if "i \<in> set (sc_indexes s)" for i
    using wf that x by (force simp: schema_wf_def list_all_iff)
  have "apply_op (Drop_column t (cl_name c)) s' = Some s"
    using look [of t] old rows no by (simp add: has_column_def s')
  moreover have "schema_wf s'"
    using wf look unfolding schema_wf_def by (auto simp: s' list_all_iff has_column_def) (metis option.inject x(1))+
  ultimately show ?thesis by blast
qed

lemma add_columns_undone:
  assumes "schema_wf s" "apply_ops (map (Add_column t) cs) s = Some s'"
  shows "apply_ops (map (Drop_column t) (rev (map cl_name cs))) s' = Some s \<and> schema_wf s'"
  using assms
proof (induction cs arbitrary: s)
  case (Cons c cs)
  then obtain s1 where s1: "apply_op (Add_column t c) s = Some s1" "apply_ops (map (Add_column t) cs) s1 = Some s'"
    by (auto simp del: apply_op.simps split: option.splits)
  from add_column_undone [OF Cons.prems(1) s1(1)] Cons.IH [OF _ s1(2)]
  show ?case by (simp add: apply_ops_append del: apply_op.simps)
qed simp

text \<open>Tables and indexes that were created disappear when the tables are dropped.\<close>

fun new_tables :: "schema_op list \<Rightarrow> db_table list" where
  "new_tables (Create_table t cols uniques # ps) =
     \<lparr>ta_name = t, ta_columns = cols, ta_uniques = uniques, ta_rows = False\<rparr> # new_tables ps"
| "new_tables (_ # ps) = new_tables ps"
| "new_tables [] = []"

fun new_indexes :: "schema_op list \<Rightarrow> db_index list" where
  "new_indexes (Create_index i t cols # ps) = \<lparr>ix_name = i, ix_table = t, ix_columns = cols\<rparr> # new_indexes ps"
| "new_indexes (_ # ps) = new_indexes ps"
| "new_indexes [] = []"

fun creates :: "schema_op \<Rightarrow> bool" where
  "creates (Create_table t cols uniques) = True"
| "creates (Create_index i t cols) = True"
| "creates p = False"

lemma creation:
  assumes "list_all creates ps" "apply_ops ps s = Some s'"
  shows "s' = \<lparr>sc_tables = sc_tables s @ new_tables ps, sc_indexes = sc_indexes s @ new_indexes ps\<rparr> \<and>
    ta_name ` set (new_tables ps) \<inter> ta_name ` set (sc_tables s) = {} \<and>
    ix_name ` set (new_indexes ps) \<inter> ix_name ` set (sc_indexes s) = {}"
  using assms
proof (induction ps arbitrary: s)
  case (Cons p ps)
  then obtain s1 where s1: "apply_op p s = Some s1" "apply_ops ps s1 = Some s'"
    by (auto simp del: apply_op.simps split: option.splits)
  with Cons.IH [OF _ s1(2)] Cons.prems(1) show ?case
    by (cases p) (auto simp: has_table_def split: if_splits option.splits)
qed simp

lemma drop_tables:
  assumes "distinct ts" "set ts \<subseteq> ta_name ` set (sc_tables s)"
  shows "apply_ops (map Drop_table ts) s =
    Some \<lparr>sc_tables = filter (\<lambda>x. ta_name x \<notin> set ts) (sc_tables s),
          sc_indexes = filter (\<lambda>i. ix_table i \<notin> set ts) (sc_indexes s)\<rparr>"
  using assms
proof (induction ts arbitrary: s)
  case (Cons t ts)
  let ?s1 = "\<lparr>sc_tables = filter (\<lambda>x. ta_name x \<noteq> t) (sc_tables s), sc_indexes = filter (\<lambda>i. ix_table i \<noteq> t) (sc_indexes s)\<rparr>"
  have "set ts \<subseteq> ta_name ` set (sc_tables ?s1)" using Cons.prems by force
  with Cons show ?case by (simp add: has_table_def conj_commute cong: filter_cong)
qed simp

lemma creation_undone:
  assumes wf: "schema_wf s" and up: "apply_ops ps s = Some s'" and ps: "list_all creates ps"
    and ts: "distinct ts" "set ts = ta_name ` set (new_tables ps)" "ix_table ` set (new_indexes ps) \<subseteq> set ts"
  shows "apply_ops (map Drop_table ts) s' = Some s"
proof -
  from creation [OF ps up] have s': "s' = \<lparr>sc_tables = sc_tables s @ new_tables ps, sc_indexes = sc_indexes s @ new_indexes ps\<rparr>"
    and new: "set ts \<inter> ta_name ` set (sc_tables s) = {}" using ts(2) by simp_all
  have tables: "filter (\<lambda>x. ta_name x \<notin> set ts) (sc_tables s') = sc_tables s"
    using new ts(2) by (auto simp: s' filter_empty_conv intro!: filter_True)
  have "ix_table i \<notin> set ts" if "i \<in> set (sc_indexes s)" for i
    using schema_wf_index [OF wf that] new by (auto simp: has_table_def)
  then have indexes: "filter (\<lambda>i. ix_table i \<notin> set ts) (sc_indexes s') = sc_indexes s"
    using ts(3) by (auto simp: s' filter_empty_conv intro!: filter_True)
  have "set ts \<subseteq> ta_name ` set (sc_tables s')" using ts(2) by (auto simp: s')
  from drop_tables [OF ts(1) this] show ?thesis by (simp add: tables indexes)
qed

lemma undo_01:
  assumes "schema_wf s" "apply_ops upgrade_01 s = Some s'"
  shows "apply_ops downgrade_01 s' = Some s"
proof -
  have "apply_ops (map Drop_table [''files'', ''reports'', ''approval_tasks'', ''audit_logs'', ''agent_runs'', ''agent_threads'']) s' = Some s"
    by (rule creation_undone [OF assms]) (auto simp: upgrade_01_def)
  then show ?thesis by (simp add: downgrade_01_def del: apply_op.simps)
qed

lemma undo_02:
  assumes "schema_wf s" "apply_ops upgrade_02 s = Some s'"
  shows "apply_ops downgrade_02 s' = Some s"
proof -
  have "apply_ops (map Drop_table [''schedules'', ''background_tasks'', ''user_memories'', ''idempotency_records'']) s' = Some s"
    by (rule creation_undone [OF assms]) (auto simp: upgrade_02_def)
  then show ?thesis by (simp add: downgrade_02_def del: apply_op.simps)
qed

text \<open>A migration that adds columns first and then creates or indexes something.\<close>

lemma apply_ops_split:
  "apply_ops (ps @ qs) s = Some s' \<longleftrightarrow> (\<exists>s1. apply_ops ps s = Some s1 \<and> apply_ops qs s1 = Some s')"
  by (simp add: apply_ops_append split: option.split)

lemma undo_03:
  assumes "schema_wf s" "apply_ops upgrade_03 s = Some s'"
  shows "apply_ops downgrade_03 s' = Some s"
proof -
  let ?cols = "[defaulted ''sha256'' (Varchar 64) [], defaulted ''row_count'' Integer_t ''0'', defaulted ''file_type'' (Varchar 32) []]"
  have "upgrade_03 = map (Add_column ''files'') ?cols @ drop 3 upgrade_03" by (simp add: upgrade_03_def)
  then have "apply_ops (map (Add_column ''files'') ?cols @ drop 3 upgrade_03) s = Some s'" using assms(2) by (simp only:)
  then obtain s1 where s1: "apply_ops (map (Add_column ''files'') ?cols) s = Some s1" "apply_ops (drop 3 upgrade_03) s1 = Some s'"
    unfolding apply_ops_split by blast
  note cols = add_columns_undone [OF assms(1) s1(1)]
  have tables: "apply_ops (map Drop_table [''artifacts'', ''meeting_minutes'']) s' = Some s1"
    by (rule creation_undone [OF _ s1(2)]) (use cols in \<open>auto simp: upgrade_03_def\<close>)
  have down: "downgrade_03 = map Drop_table [''artifacts'', ''meeting_minutes''] @
      map (Drop_column ''files'') (rev (map cl_name ?cols))"
    by (simp add: downgrade_03_def defaulted_def)
  show ?thesis by (simp only: down apply_ops_append tables option.case cols)
qed

lemma undo_04:
  assumes "schema_wf s" "apply_ops upgrade_04 s = Some s'"
  shows "apply_ops downgrade_04 s' = Some s"
proof -
  let ?cols = "[defaulted ''payload'' Json_t ''{}'', nullable ''result'' Json_t, defaulted ''attempts'' Integer_t ''0'',
    defaulted ''max_attempts'' Integer_t ''3'', defaulted ''available_at'' Timestamp ''now()'', nullable ''locked_at'' Timestamp,
    nullable ''locked_by'' (Varchar 128), defaulted ''cancel_requested'' Boolean_t ''false'', nullable ''finished_at'' Timestamp]"
  have "upgrade_04 = map (Add_column ''background_tasks'') ?cols @ drop 9 upgrade_04" by (simp add: upgrade_04_def)
  then have "apply_ops (map (Add_column ''background_tasks'') ?cols @ drop 9 upgrade_04) s = Some s'" using assms(2) by (simp only:)
  then obtain s1 where s1: "apply_ops (map (Add_column ''background_tasks'') ?cols) s = Some s1"
    "apply_ops (drop 9 upgrade_04) s1 = Some s'"
    unfolding apply_ops_split by blast
  note cols = add_columns_undone [OF assms(1) s1(1)]
  have index: "apply_op (Drop_index ''ix_background_tasks_claim'') s' = Some s1"
    using s1(2) by (auto simp: upgrade_04_def filter_absent split: option.splits if_splits)
  have down: "downgrade_04 = Drop_index ''ix_background_tasks_claim'' #
      map (Drop_column ''background_tasks'') (rev (map cl_name ?cols))"
    by (simp add: downgrade_04_def defaulted_def nullable_def)
  show ?thesis by (simp only: down apply_ops.simps index option.case cols)
qed

section \<open>Properties\<close>

text \<open>
  C29: Every migration can be taken back: from any schema with unique table names and proper indexes, whether
  or not its tables hold rows, the downgrade of a revision undoes its upgrade exactly.
\<close>

theorem downgrade_undoes_upgrade:
  assumes "schema_wf s" "r \<in> set revisions" "apply_ops (rv_upgrade r) s = Some s'"
  shows "apply_ops (rv_downgrade r) s' = Some s"
  using assms undo_01 undo_02 undo_03 undo_04 by (auto simp: revisions_def simp del: apply_ops.simps)

text \<open>
  C32: The migrations build the tables the models declare: following \<open>down_revision\<close> from the head runs the four
  revisions in order, they succeed on an empty database, and every model finds its table with exactly its
  columns (name, type, nullability, primary key) and unique constraints, and there is no other table. The
  indexes differ: six that the models ask for are never created, and the index that claiming tasks uses is
  unknown to the models.
\<close>

theorem migrations_build_the_models:
  "map rv_revision (lineage 5 (Some ''20260728_04'')) = [''20260728_01'', ''20260728_02'', ''20260728_03'', ''20260728_04''] \<and>
   (\<exists>s. head_schema = Some s \<and> set (map ta_name (sc_tables s)) = set (map md_table metadata) \<and>
     list_all (model_matches s) metadata \<and>
     filter (\<lambda>i. i \<notin> set (created_indexes s)) declared_indexes =
       map (\<lambda>(t, c). (index_name t c, t, [c]))
         [(''idempotency_records'', ''tenant_id''), (''user_memories'', ''tenant_id''), (''background_tasks'', ''tenant_id''),
          (''background_tasks'', ''status''), (''background_tasks'', ''available_at''), (''schedules'', ''tenant_id'')] \<and>
     filter (\<lambda>i. i \<notin> set declared_indexes) (created_indexes s) =
       [(''ix_background_tasks_claim'', ''background_tasks'', [''status'', ''available_at''])])"
proof -
  have built: "case head_schema of None \<Rightarrow> False | Some s \<Rightarrow>
      set (map ta_name (sc_tables s)) = set (map md_table metadata) \<and> list_all (model_matches s) metadata \<and>
      filter (\<lambda>i. i \<notin> set (created_indexes s)) declared_indexes =
       map (\<lambda>(t, c). (index_name t c, t, [c]))
         [(''idempotency_records'', ''tenant_id''), (''user_memories'', ''tenant_id''), (''background_tasks'', ''tenant_id''),
          (''background_tasks'', ''status''), (''background_tasks'', ''available_at''), (''schedules'', ''tenant_id'')] \<and>
     filter (\<lambda>i. i \<notin> set declared_indexes) (created_indexes s) =
       [(''ix_background_tasks_claim'', ''background_tasks'', [''status'', ''available_at''])]"
    by code_simp
  have order: "map rv_revision (lineage 5 (Some ''20260728_04'')) =
      [''20260728_01'', ''20260728_02'', ''20260728_03'', ''20260728_04'']"
    by code_simp
  obtain s where s: "head_schema = Some s" using built by (cases head_schema) simp_all
  show ?thesis using built order unfolding s option.case by blast
qed

text \<open>A revision that any database can be at, with rows in every table, takes the next upgrade.\<close>

definition fill_tables :: "schema \<Rightarrow> schema" where
  "fill_tables s = s\<lparr>sc_tables := map (\<lambda>t. t\<lparr>ta_rows := True\<rparr>) (sc_tables s)\<rparr>"

fun upgrade_filled :: "revision list \<Rightarrow> schema \<Rightarrow> schema option" where
  "upgrade_filled [] s = Some s"
| "upgrade_filled (r # rs) s =
     (case apply_ops (rv_upgrade r) s of None \<Rightarrow> None | Some s \<Rightarrow> upgrade_filled rs (fill_tables s))"

lemma upgrades_keep_data: "upgrade_filled revisions \<lparr>sc_tables = [], sc_indexes = []\<rparr> \<noteq> None"
  by code_simp

text \<open>For a witness: the schema of the first revision holding rows, and the second upgrade.\<close>

definition demo_schema :: schema where
  "demo_schema =
     \<lparr>sc_tables = [\<lparr>ta_name = ''files'', ta_columns = [id_column (Varchar 36)], ta_uniques = [], ta_rows = True\<rparr>],
      sc_indexes = [\<lparr>ix_name = ''ix_files_id'', ix_table = ''files'', ix_columns = [''id'']\<rparr>]\<rparr>"

theorem downgrade_undoes_upgrade_witness:
  "\<exists>s'. apply_ops upgrade_03 demo_schema = Some s' \<and> apply_ops downgrade_03 s' = Some demo_schema \<and> s' \<noteq> demo_schema"
proof -
  let ?r = "\<lparr>rv_revision = ''20260728_03'', rv_down_revision = Some ''20260728_02'',
       rv_upgrade = upgrade_03, rv_downgrade = downgrade_03\<rparr>"
  have "case apply_ops upgrade_03 demo_schema of None \<Rightarrow> False | Some s' \<Rightarrow> s' \<noteq> demo_schema" by code_simp
  then obtain s' where s': "apply_ops (rv_upgrade ?r) demo_schema = Some s'" "s' \<noteq> demo_schema"
    by (cases "apply_ops upgrade_03 demo_schema") simp_all
  have "schema_wf demo_schema"
    by (simp add: schema_wf_def demo_schema_def find_table_def has_column_def id_column_def)
  from downgrade_undoes_upgrade [OF this _ s'(1)] have "apply_ops (rv_downgrade ?r) s' = Some demo_schema"
    by (simp add: revisions_def)
  with s' show ?thesis by auto
qed

end
