(* ===== verification/Request_Bodies.thy ===== *)
theory Request_Bodies
  imports Model_Json Db_Schema
begin

text \<open>
  The bodies of the requests: the models of \<open>app/schemas\<close> a route declares as its payload, with the limits of
  their fields, and the specifications the domain graphs validate (\<open>app/orchestration/worker_graphs.py\<close>).
  A route whose body its model refuses is not called; the framework answers 422.
\<close>

section \<open>Evidence, events and segments\<close>

definition source_type_labels :: "(string \<times> source_type) list" where
  "source_type_labels =
     [(''im'', Im), (''email'', Email), (''git'', Git), (''gitlab'', Gitlab), (''task'', Task), (''meeting'', Meeting),
      (''manual'', Manual), (''analysis'', Analysis)]"

definition work_statuses :: "(string \<times> work_status) list" where
  "work_statuses =
     [(''completed'', Completed_w), (''in_progress'', In_progress_w), (''blocked'', Blocked_w),
      (''planned'', Planned_w), (''unknown'', Unknown_w)]"

definition event_types :: "(string \<times> event_type) list" where
  "event_types =
     [(''task_completed'', Task_completed), (''task_progress'', Task_progress), (''problem'', Problem),
      (''decision'', Decision), (''collaboration'', Collaboration), (''meeting'', Meeting_e),
      (''code_change'', Code_change), (''plan'', Plan)]"

abbreviation between :: "'a::linorder \<Rightarrow> 'a \<Rightarrow> (json \<Rightarrow> 'a option) \<Rightarrow> json \<Rightarrow> 'a option" where
  "between least greatest \<equiv> read_limited (\<lambda>x. least \<le> x \<and> x \<le> greatest)"

definition read_evidence_ref :: "conversions \<Rightarrow> json \<Rightarrow> evidence_ref option" where
  "read_evidence_ref p v =
     do { d \<leftarrow> read_dict v;
          t \<leftarrow> read_field ''source_type'' (read_literal source_type_labels) d;
          i \<leftarrow> read_field ''source_id'' read_str d;
          url \<leftarrow> text_or_null ''evidence_url'' d;
          segment \<leftarrow> text_or_null ''segment_id'' d;
          confidence \<leftarrow> read_field_or 1 ''confidence'' (between 0 1 (lx_float p)) d;
          Some \<lparr>er_source_type = t, er_source_id = i, er_evidence_url = url, er_segment_id = segment,
                er_confidence = confidence\<rparr> }"

definition read_work_event :: "conversions \<Rightarrow> json \<Rightarrow> work_event option" where
  "read_work_event p v =
     do { d \<leftarrow> read_dict v;
          i \<leftarrow> read_field ''event_id'' read_str d;
          title \<leftarrow> read_field ''title'' read_str d;
          st \<leftarrow> read_field ''status'' (read_literal work_statuses) d;
          url \<leftarrow> text_or_null ''evidence_url'' d;
          kind \<leftarrow> read_field_or Task_progress ''event_type'' (read_literal event_types) d;
          project \<leftarrow> text_or_null ''project_id'' d;
          description \<leftarrow> text_or_null ''description'' d;
          outcome \<leftarrow> text_or_null ''result'' d;
          progress \<leftarrow> read_field_or None ''progress'' (read_nullable (between 0 100 (lx_float p))) d;
          at_time \<leftarrow> read_field_or None ''event_time'' (read_nullable (lx_time p)) d;
          source \<leftarrow> read_field_or Manual ''source_type'' (read_literal source_type_labels) d;
          source_id \<leftarrow> text_or_null ''source_id'' d;
          confidence \<leftarrow> read_field_or 1 ''confidence'' (between 0 1 (lx_float p)) d;
          sensitive \<leftarrow> read_field_or False ''sensitive'' (lx_bool p) d;
          participants \<leftarrow> read_field_or [] ''participants'' read_texts d;
          tags \<leftarrow> read_field_or [] ''tags'' read_texts d;
          evidence \<leftarrow> read_field_or [] ''evidence'' (read_list (read_evidence_ref p)) d;
          Some \<lparr>we_event_id = i, we_title = title, we_status = st, we_evidence_url = url, we_event_type = kind,
                we_project_id = project, we_description = description, we_result = outcome,
                we_progress = progress, we_event_time = at_time, we_source_type = source,
                we_source_id = source_id, we_confidence = confidence, we_sensitive = sensitive,
                we_participants = participants, we_tags = tags, we_evidence = evidence\<rparr> }"

abbreviation milliseconds :: "conversions \<Rightarrow> string \<Rightarrow> jdict \<Rightarrow> int option option" where
  "milliseconds p k \<equiv> read_field_or None k (read_nullable (read_limited (\<lambda>n. 0 \<le> n) (lx_int p)))"

definition read_segment :: "conversions \<Rightarrow> json \<Rightarrow> transcript_segment option" where
  "read_segment p v =
     do { d \<leftarrow> read_dict v;
          i \<leftarrow> read_field ''segment_id'' read_str d;
          text \<leftarrow> read_field ''text'' read_str d;
          speaker \<leftarrow> text_or_null ''speaker_id'' d;
          confidence \<leftarrow> read_field ''confidence'' (between 0 1 (lx_float p)) d;
          speaker_name \<leftarrow> text_or_null ''speaker_name'' d;
          start \<leftarrow> milliseconds p ''start_ms'' d;
          stop \<leftarrow> milliseconds p ''end_ms'' d;
          language \<leftarrow> read_field_or (U ''zh-CN'') ''language'' read_str d;
          reviewed \<leftarrow> read_field_or False ''reviewed'' (lx_bool p) d;
          Some \<lparr>ts_segment_id = i, ts_text = text, ts_speaker_id = speaker, ts_confidence = confidence,
                ts_speaker_name = speaker_name, ts_start_ms = start, ts_end_ms = stop, ts_language = language,
                ts_reviewed = reviewed\<rparr> }"

section \<open>The models of the routes\<close>

definition read_invoke_request :: "conversions \<Rightarrow> json \<Rightarrow> invoke_request option" where
  "read_invoke_request p v =
     do { d \<leftarrow> read_dict v;
          thread_id \<leftarrow> read_field ''thread_id'' (sized 1 128) d;
          message \<leftarrow> read_field ''message'' (sized 1 8000) d;
          task_input \<leftarrow> read_field_or [] ''task_input'' read_dict d;
          require_approval \<leftarrow> read_field_or False ''require_approval'' (lx_bool p) d;
          Some \<lparr>iv_thread_id = thread_id, iv_message = message, iv_task_input = task_input,
                iv_require_approval = require_approval\<rparr> }"

text \<open>A decision and its comment.\<close>

record review_request =
  rv_approved :: bool
  rv_comment :: "ustr option"

definition read_review_request :: "conversions \<Rightarrow> json \<Rightarrow> review_request option" where
  "read_review_request p v =
     do { d \<leftarrow> read_dict v;
          approved \<leftarrow> read_field ''approved'' (lx_bool p) d;
          comment \<leftarrow> read_field_or None ''comment'' (read_nullable (sized 0 1000)) d;
          Some \<lparr>rv_approved = approved, rv_comment = comment\<rparr> }"

text \<open>The models of the three decisions have the same fields.\<close>

definition read_meeting_review_request :: "conversions \<Rightarrow> json \<Rightarrow> review_request option" where
  "read_meeting_review_request = read_review_request"

definition read_resume_request :: "conversions \<Rightarrow> json \<Rightarrow> review_request option" where
  "read_resume_request = read_review_request"

definition read_report_request :: "conversions \<Rightarrow> json \<Rightarrow> report_request option" where
  "read_report_request p v =
     do { d \<leftarrow> read_dict v;
          day \<leftarrow> read_field ''report_date'' read_str d;
          kind \<leftarrow> read_field_or Daily ''report_type'' (read_literal report_types) d;
          events \<leftarrow> read_field_or [] ''events'' (read_list (read_work_event p)) d;
          mock_sources \<leftarrow> read_field_or False ''use_mock_sources'' (lx_bool p) d;
          Some \<lparr>rq_report_date = day, rq_report_type = kind, rq_events = events,
                rq_use_mock_sources = mock_sources\<rparr> }"

record minutes_request =
  mq_title :: ustr
  mq_segments :: "transcript_segment list"
  mq_meeting_date :: "ustr option"

definition read_minutes_request :: "conversions \<Rightarrow> json \<Rightarrow> minutes_request option" where
  "read_minutes_request p v =
     do { d \<leftarrow> read_dict v;
          title \<leftarrow> read_field ''title'' read_str d;
          segments \<leftarrow> read_field ''segments'' (read_list (read_segment p)) d;
          day \<leftarrow> text_or_null ''meeting_date'' d;
          Some \<lparr>mq_title = title, mq_segments = segments, mq_meeting_date = day\<rparr> }"

record polish_request =
  pq_subject :: ustr
  pq_body :: ustr
  pq_attachments :: "ustr list"

definition read_polish_request :: "json \<Rightarrow> polish_request option" where
  "read_polish_request v =
     do { d \<leftarrow> read_dict v;
          subject \<leftarrow> read_field ''subject'' read_str d;
          body \<leftarrow> read_field ''body'' read_str d;
          attachments \<leftarrow> read_field_or [] ''attachments'' read_texts d;
          Some \<lparr>pq_subject = subject, pq_body = body, pq_attachments = attachments\<rparr> }"

definition read_analysis_request :: "json \<Rightarrow> jdict list option" where
  "read_analysis_request v = do { d \<leftarrow> read_dict v; read_field ''rows'' (read_list read_dict) d }"

definition read_query_request :: "json \<Rightarrow> ustr option" where
  "read_query_request v = do { d \<leftarrow> read_dict v; read_field ''query'' (sized 1 4000) d }"

section \<open>The specifications of the domain graphs\<close>

definition report_operations :: "(string \<times> report_operation) list" where
  "report_operations = [(''draft'', Draft_op), (''review'', Review_op), (''submit'', Submit_op)]"

definition meeting_operations :: "(string \<times> meeting_operation) list" where
  "meeting_operations =
     [(''transcribe'', Transcribe_op), (''generate'', Generate_op), (''review'', Review_minutes_op), (''send'', Send_op)]"

definition read_report_spec :: "conversions \<Rightarrow> json \<Rightarrow> report_spec option" where
  "read_report_spec p v =
     do { d \<leftarrow> read_dict v;
          operation \<leftarrow> read_field ''operation'' (read_literal report_operations) d;
          day \<leftarrow> text_or_null ''report_date'' d;
          kind \<leftarrow> read_field_or Daily ''report_type'' (read_literal report_types) d;
          events \<leftarrow> read_field_or [] ''events'' (read_list (read_work_event p)) d;
          report_id \<leftarrow> text_or_null ''report_id'' d;
          approved \<leftarrow> read_field_or True ''approved'' (lx_bool p) d;
          comment \<leftarrow> text_or_null ''comment'' d;
          Some \<lparr>sp_operation = operation, sp_report_date = day, sp_report_type = kind, sp_events = events,
                sp_report_id = report_id, sp_approved = approved, sp_comment = comment\<rparr> }"

definition read_meeting_spec :: "conversions \<Rightarrow> json \<Rightarrow> meeting_spec option" where
  "read_meeting_spec p v =
     do { d \<leftarrow> read_dict v;
          operation \<leftarrow> read_field ''operation'' (read_literal meeting_operations) d;
          meeting_id \<leftarrow> read_field ''meeting_id'' read_str d;
          title \<leftarrow> text_or_null ''title'' d;
          day \<leftarrow> text_or_null ''meeting_date'' d;
          segments \<leftarrow> read_field_or [] ''segments'' (read_list (read_segment p)) d;
          approved \<leftarrow> read_field_or True ''approved'' (lx_bool p) d;
          comment \<leftarrow> text_or_null ''comment'' d;
          Some \<lparr>sm_operation = operation, sm_meeting_id = meeting_id, sm_title = title, sm_meeting_date = day,
                sm_segments = segments, sm_approved = approved, sm_comment = comment\<rparr> }"

section \<open>What the agents answer with\<close>

text \<open>\<open>SubAgentOutcome\<close> is the response format of every sub-agent; the main agent's is \<open>main_response\<close>.\<close>

datatype outcome_status = Completed_o | Partial_o | Failed_o | Blocked_o

record artifact_reference =
  af_artifact_id :: ustr
  af_kind :: ustr
  af_uri :: "ustr option"

record proposed_action =
  pa_action :: ustr
  pa_target_id :: "ustr option"
  pa_requires_approval :: bool

record sub_agent_outcome =
  so_task_id :: ustr
  so_status :: outcome_status
  so_summary :: ustr
  so_evidence_refs :: "evidence_ref list"
  so_artifact_refs :: "artifact_reference list"
  so_warnings :: "ustr list"
  so_proposed_actions :: "proposed_action list"

definition outcome_statuses :: "(string \<times> outcome_status) list" where
  "outcome_statuses = [(''completed'', Completed_o), (''partial'', Partial_o), (''failed'', Failed_o), (''blocked'', Blocked_o)]"

definition read_artifact_reference :: "json \<Rightarrow> artifact_reference option" where
  "read_artifact_reference v =
     do { d \<leftarrow> read_dict v;
          i \<leftarrow> read_field ''artifact_id'' read_str d;
          kind \<leftarrow> read_field ''kind'' read_str d;
          uri \<leftarrow> text_or_null ''uri'' d;
          Some \<lparr>af_artifact_id = i, af_kind = kind, af_uri = uri\<rparr> }"

definition read_proposed_action :: "conversions \<Rightarrow> json \<Rightarrow> proposed_action option" where
  "read_proposed_action p v =
     do { d \<leftarrow> read_dict v;
          act \<leftarrow> read_field ''action'' read_str d;
          target \<leftarrow> text_or_null ''target_id'' d;
          approval \<leftarrow> read_field_or False ''requires_approval'' (lx_bool p) d;
          Some \<lparr>pa_action = act, pa_target_id = target, pa_requires_approval = approval\<rparr> }"

definition read_sub_agent_outcome :: "conversions \<Rightarrow> json \<Rightarrow> sub_agent_outcome option" where
  "read_sub_agent_outcome p v =
     do { d \<leftarrow> read_dict v;
          task_id \<leftarrow> read_field_or [] ''task_id'' read_str d;
          st \<leftarrow> read_field ''status'' (read_literal outcome_statuses) d;
          summary \<leftarrow> read_field ''summary'' read_str d;
          evidence \<leftarrow> read_field_or [] ''evidence_refs'' (read_list (read_evidence_ref p)) d;
          artifacts \<leftarrow> read_field_or [] ''artifact_refs'' (read_list read_artifact_reference) d;
          warnings \<leftarrow> read_field_or [] ''warnings'' read_texts d;
          actions \<leftarrow> read_field_or [] ''proposed_actions'' (read_list (read_proposed_action p)) d;
          Some \<lparr>so_task_id = task_id, so_status = st, so_summary = summary, so_evidence_refs = evidence,
                so_artifact_refs = artifacts, so_warnings = warnings, so_proposed_actions = actions\<rparr> }"

section \<open>Routes behind their bodies\<close>

definition with_body :: "(json \<Rightarrow> 'b option) \<Rightarrow> ('b \<Rightarrow> 's \<Rightarrow> 'a res \<times> 's) \<Rightarrow> json \<Rightarrow> 's \<Rightarrow> 'a res \<times> 's" where
  "with_body rd handler v s =
     (case rd v of None \<Rightarrow> (Inl (Exn (HTTPException 422) []), s) | Some payload \<Rightarrow> handler payload s)"

definition post_invoke ::
  "conversions \<Rightarrow> 'a approval_repo \<Rightarrow> 'g assistant_runtime option \<Rightarrow> ustr \<Rightarrow> identity \<Rightarrow> json \<Rightarrow> 'g \<times> 'a \<Rightarrow>
   invoke_response res \<times> 'g \<times> 'a" where
  "post_invoke p A runtime uuid identity =
     with_body (read_invoke_request p) (\<lambda>payload.
       with_context identity (iv_thread_id payload) (invoke_assistant A runtime uuid payload))"

definition post_resume ::
  "conversions \<Rightarrow> 'a approval_repo \<Rightarrow> 'g assistant_runtime option \<Rightarrow> ustr \<Rightarrow> identity \<Rightarrow> ustr \<Rightarrow> json \<Rightarrow> 'g \<times> 'a \<Rightarrow>
   invoke_response res \<times> 'g \<times> 'a" where
  "post_resume p A runtime uuid identity thread_id =
     with_body (read_resume_request p) (\<lambda>payload.
       with_context identity thread_id
         (resume_assistant A runtime uuid thread_id (rv_approved payload) (rv_comment payload)))"

definition polish_email :: "unicode \<Rightarrow> json \<Rightarrow> 's \<Rightarrow> email_polish_draft res \<times> 's" where
  "polish_email u =
     with_body read_polish_request (\<lambda>payload s.
       (Inr (polish u (pq_subject payload) (pq_body payload) (pq_attachments payload)), s))"

text \<open>The rows of a body have texts as their keys.\<close>

definition analyze_data ::
  "(int \<Rightarrow> rat option) \<Rightarrow> (py_float list \<Rightarrow> py_float) \<Rightarrow> ((ustr \<times> json) list \<Rightarrow> ustr) \<Rightarrow> json \<Rightarrow> 's \<Rightarrow>
   analysis_result res \<times> 's" where
  "analyze_data float_of mean repr_items =
     with_body read_analysis_request (\<lambda>rows s.
       (analyze float_of mean repr_items (map (map (\<lambda>(k, v). (Some k, v))) rows), s))"

section \<open>Requests for approval and their columns\<close>

definition fits :: "model \<Rightarrow> string \<Rightarrow> ustr \<Rightarrow> bool" where
  "fits md c text \<longleftrightarrow>
     (case find (\<lambda>(x, indexed). cl_name x = c) (md_columns md) of
        None \<Rightarrow> False
      | Some (x, indexed) \<Rightarrow> (case cl_type x of Varchar n \<Rightarrow> length text \<le> n | Text_t \<Rightarrow> True | _ \<Rightarrow> False))"

text \<open>What the routes write into a row of \<open>approval_tasks\<close> beside the identity of the caller.\<close>

definition approval_fits :: "approval_task \<Rightarrow> bool" where
  "approval_fits r \<longleftrightarrow>
     fits approval_task_model ''target_type'' (at_target_type r) \<and>
     fits approval_task_model ''target_id'' (at_target_id r) \<and>
     (\<forall>t. at_comment r = Some t \<longrightarrow> fits approval_task_model ''comment'' t \<and> length t \<le> 1000)"

inductive posted_run :: "conversions \<Rightarrow> 'g \<times> approval_task list \<Rightarrow> bool" for p where
  start: "posted_run p (g, [])"
| invoke: "posted_run p s \<Longrightarrow> post_invoke p sql_approval_repo runtime uuid identity body s = (x, s') \<Longrightarrow>
    posted_run p s'"
| resume: "posted_run p s \<Longrightarrow>
    post_resume p sql_approval_repo runtime uuid identity thread_id body s = (x, s') \<Longrightarrow> posted_run p s'"

lemma fits_approval [simp]:
  "fits approval_task_model ''target_type'' t \<longleftrightarrow> length t \<le> 64"
  "fits approval_task_model ''target_id'' t \<longleftrightarrow> length t \<le> 128"
  "fits approval_task_model ''comment'' t"
  by (simp_all add: fits_def approval_task_model_def tenant_model_def id_column_def required_def nullable_def)

abbreviation all_fit :: "'g \<times> approval_task list \<Rightarrow> bool" where
  "all_fit s \<equiv> (\<forall>r \<in> set (snd s). approval_fits r)"

lemma select_pending_row:
  assumes "select_pending k rows = Inr (Some r)"
  shows "r \<in> set rows \<and> pending_row k r"
proof -
  have "filter (pending_row k) rows = [r]"
    using assms unfolding select_pending_def by (elim scalar_one_or_none.elims) simp_all
  then have "r \<in> set (filter (pending_row k) rows)" by simp
  then show ?thesis by simp
qed

lemma with_body_keeps:
  "P s \<Longrightarrow> (\<And>payload. rd v = Some payload \<Longrightarrow> P (snd (handler payload s))) \<Longrightarrow> P (snd (with_body rd handler v s))"
  by (cases "rd v") (simp_all add: with_body_def)

lemma create_pending_fits:
  "all_fit (g, rows) \<Longrightarrow> length ty \<le> 64 \<Longrightarrow> length i \<le> 128 \<Longrightarrow> all_fit (g, snd (sql_create_pending uuid ty i c rows))"
  by (auto simp: sql_create_pending_def approval_fits_def Let_def split: sum.split option.split)

lemma decide_fits:
  assumes "all_fit (g, rows)" "\<forall>t. comment = Some t \<longrightarrow> length t \<le> 1000"
  shows "all_fit (g, snd (sql_decide ty i ok comment c rows))"
proof (cases "select_pending (rc_tenant_id c, ty, i) rows")
  case (Inr found)
  with assms show ?thesis
    by (cases found)
       (auto simp: sql_decide_def sql_decide_commit_def Let_def set_update_row approval_fits_def
         dest!: select_pending_row)
qed (use assms(1) in \<open>simp add: sql_decide_def\<close>)

lemma on_graph_snd [simp]: "snd (snd (on_graph f s)) = snd s"
  by (simp add: on_graph_def split: prod.split)

lemma on_approvals_snd [simp]: "snd (on_approvals f s) = (fst s, snd (f (snd s)))"
  by (simp add: on_approvals_def split: prod.split)

lemma assistant_thread_length [simp]: "length assistant_thread \<le> 64"
  by (simp add: assistant_thread_def U_def)

text \<open>The sizes the two bodies are held to.\<close>

lemma accepted_invoke:
  "read_invoke_request p v = Some payload \<Longrightarrow> length (iv_thread_id payload) \<le> 128"
  by (auto simp: read_invoke_request_def read_field_def read_limited_def split: bind_splits if_splits)

lemma accepted_comment:
  "read_resume_request p v = Some payload \<Longrightarrow> \<forall>t. rv_comment payload = Some t \<longrightarrow> length t \<le> 1000"
  by (auto simp: read_resume_request_def read_review_request_def read_field_or_def read_nullable_def read_limited_def
      split: bind_splits if_splits option.splits)

lemma invoke_fits:
  assumes "all_fit s" "length (iv_thread_id payload) \<le> 128"
  shows "all_fit (snd (invoke_assistant sql_approval_repo runtime uuid payload c s))"
proof (cases runtime)
  case None
  with assms(1) show ?thesis by (simp add: invoke_assistant_def runtime_for_def)
next
  case (Some graph)
  obtain answer rows where create:
    "sql_create_pending uuid assistant_thread (iv_thread_id payload) c (snd s) = (answer, rows)" by fastforce
  with create_pending_fits [of "fst s" "snd s" assistant_thread "iv_thread_id payload" uuid c] assms
  have "\<forall>r \<in> set rows. approval_fits r" by simp
  with assms(1) create show ?thesis
    by (cases answer)
       (auto simp: invoke_assistant_def Some runtime_for_def on_graph_def on_approvals_def approval_request_def
         sql_approval_repo_def Let_def bnd_def split: prod.splits sum.splits)
qed

text \<open>Past the check of the pending approval, the thread is one whose approval is stored.\<close>

lemma gate_passed:
  "snd (snd (require_pending_approval sql_approval_repo runtime thread_id c s)) = snd s"
  "fst (require_pending_approval sql_approval_repo runtime thread_id c s) = Inr u \<Longrightarrow>
    \<exists>r \<in> set (snd s). at_target_id r = thread_id"
proof -
  obtain found where found: "sql_get_pending assistant_thread thread_id c (snd s) = (found, snd s)"
    by (simp add: sql_get_pending_def)
  show "snd (snd (require_pending_approval sql_approval_repo runtime thread_id c s)) = snd s"
    using found
    by (cases runtime; cases found)
       (auto simp: require_pending_approval_def on_approvals_def require_pending_def sql_approval_repo_def
         runtime_for_def on_graph_def bnd_def with_http_def split: prod.splits sum.splits option.splits)
  assume "fst (require_pending_approval sql_approval_repo runtime thread_id c s) = Inr u"
  then have "\<exists>a. found = Inr (Some a)"
    using found
    by (cases found; cases "projr found")
       (auto simp: require_pending_approval_def on_approvals_def require_pending_def sql_approval_repo_def
         bnd_def with_http_def split: prod.splits sum.splits option.splits)
  then obtain r where "select_pending (rc_tenant_id c, assistant_thread, thread_id) (snd s) = Inr (Some r)"
    using found by (cases "select_pending (rc_tenant_id c, assistant_thread, thread_id) (snd s)")
      (auto simp: sql_get_pending_def)
  from select_pending_row [OF this] show "\<exists>r \<in> set (snd s). at_target_id r = thread_id"
    by (auto simp: pending_row_def)
qed

lemma resume_graph_fits:
  assumes "all_fit s" "length thread_id \<le> 128" "\<forall>t. comment = Some t \<longrightarrow> length t \<le> 1000"
  shows "all_fit (snd (resume_graph sql_approval_repo graph uuid thread_id ok comment c s))"
  unfolding resume_graph_def
proof (intro bnd_keeps [where P = all_fit])
  show "all_fit (snd (on_graph (rn_invoke graph (Command (resume_payload ok comment)) thread_id c) s))"
    using assms(1) by simp
next
  fix t :: "'a \<times> approval_task list"
  assume "all_fit t"
  with decide_fits [of "fst t" "snd t" comment assistant_thread thread_id ok c] assms(3)
  show "all_fit (snd (on_approvals (approval_decide sql_approval_repo assistant_thread thread_id ok comment c) t))"
    by (simp add: approval_decide_def sql_approval_repo_def)
next
  fix result :: assistant_result and t :: "'a \<times> approval_task list"
  assume "all_fit t"
  with create_pending_fits [of "fst t" "snd t" assistant_thread thread_id uuid c] assms(2)
  show "all_fit (snd (if ar_interrupt result \<noteq> None
      then on_approvals (approval_request sql_approval_repo uuid assistant_thread thread_id c) t
      else (Inr (pending_record assistant_thread thread_id c), t)))"
    by (simp add: approval_request_def sql_approval_repo_def)
qed simp

lemma post_invoke_fits:
  assumes "all_fit s"
  shows "all_fit (snd (post_invoke p sql_approval_repo runtime uuid identity body s))"
  unfolding post_invoke_def
  by (intro with_body_keeps [where P = all_fit] with_context_state [where P = all_fit] invoke_fits assms accepted_invoke)

lemma post_resume_fits:
  assumes "all_fit s"
  shows "all_fit (snd (post_resume p sql_approval_repo runtime uuid identity thread_id body s))"
  unfolding post_resume_def
proof (intro with_body_keeps [where P = all_fit] with_context_state [where P = all_fit] assms)
  fix payload c
  assume "read_resume_request p body = Some payload"
  note comment = accepted_comment [OF this]
  note gate = gate_passed [of runtime thread_id c s]
  obtain x t where t: "require_pending_approval sql_approval_repo runtime thread_id c s = (x, t)"
    by (rule prod.exhaust)
  with gate(1) assms have fit: "all_fit t" by simp
  show "all_fit (snd (resume_assistant sql_approval_repo runtime uuid thread_id (rv_approved payload)
      (rv_comment payload) c s))"
  proof (cases "\<exists>u. x = Inr u")
    case True
    with gate(2) t obtain r where "r \<in> set (snd s)" "at_target_id r = thread_id" by fastforce
    with assms have "length thread_id \<le> 128" by (auto simp: approval_fits_def)
    from resume_graph_fits [OF fit this comment] True fit t show ?thesis
      by (cases runtime) (auto simp: resume_assistant_def runtime_for_def)
  next
    case False
    with fit show ?thesis by (cases x) (simp_all add: resume_assistant_def t)
  qed
qed

text \<open>
  C27: However the assistant is called, a request for approval fits the row it is written to. Over any sequence of
  invocations and resumes by any callers, with any bodies and whatever the agent answers, every row of
  \<open>approval_tasks\<close> keeps to the widths the model declares for its target and its type, and its comment to the
  limit of the request: a thread id longer than its column is refused with the body of the invocation, and the
  path of a resume, which nothing validates, must name a thread whose approval is already stored.
\<close>

theorem approvals_fit_their_columns:
  assumes "posted_run p s" "r \<in> set (snd s)"
  shows "fits approval_task_model ''target_type'' (at_target_type r) \<and>
    fits approval_task_model ''target_id'' (at_target_id r) \<and>
    (\<forall>t. at_comment r = Some t \<longrightarrow> fits approval_task_model ''comment'' t \<and> length t \<le> 1000)"
proof -
  from assms(1) have "all_fit s"
  proof induction
    case (invoke s runtime uuid identity body x s')
    from post_invoke_fits [OF invoke.IH, of p runtime uuid identity body] invoke.hyps(2) show ?case by simp
  next
    case (resume s runtime uuid identity thread_id body x s')
    from post_resume_fits [OF resume.IH, of p runtime uuid identity thread_id body] resume.hyps(2) show ?case by simp
  qed simp
  with assms(2) show ?thesis by (simp add: approval_fits_def)
qed

definition demo_asking :: "unit assistant_runtime" where
  "demo_asking =
     demo_agent (Inr \<lparr>ar_interrupt = Some JNull, ar_intent = Report_submission, ar_status = [], ar_message = [],
                      ar_warnings = [], ar_result = JNull\<rparr>)"

definition demo_invoke_body :: json where
  "demo_invoke_body = JObj [(U ''thread_id'', JStr (U ''th'')), (U ''message'', JStr (U ''hi''))]"

lemma demo_invoke_accepted:
  "read_invoke_request demo_conversions demo_invoke_body =
    Some \<lparr>iv_thread_id = U ''th'', iv_message = U ''hi'', iv_task_input = [], iv_require_approval = False\<rparr>"
  by (simp add: demo_invoke_body_def read_invoke_request_def read_field_def read_field_or_def read_limited_def U_def)

lemma demo_posted:
  "snd (snd (post_invoke demo_conversions sql_approval_repo (Some demo_asking) (U ''a1'') (\<lambda>_. Inr demo_reviewer)
     demo_invoke_body ((), []))) = demo_pending"
  by (simp add: post_invoke_def with_body_def demo_invoke_accepted invoke_assistant_def runtime_for_def demo_asking_def
      demo_agent_def on_graph_def on_approvals_def approval_request_def sql_approval_repo_def sql_create_pending_def
      select_pending_def demo_pending_def demo_reviewer_def RequestContext_def Let_def)

theorem approvals_fit_their_columns_witness:
  "fits approval_task_model ''target_id'' (at_target_id (hd demo_pending))"
proof -
  obtain x s' where post: "post_invoke demo_conversions sql_approval_repo (Some demo_asking) (U ''a1'')
      (\<lambda>_. Inr demo_reviewer) demo_invoke_body ((), []) = (x, s')"
    by (rule prod.exhaust)
  then have rows: "snd s' = demo_pending" using demo_posted by simp
  have "hd demo_pending \<in> set (snd s')" by (simp add: rows demo_pending_def)
  from approvals_fit_their_columns [OF posted_run.invoke [OF posted_run.start post] this] show ?thesis by blast
qed

text \<open>
  The date of a report has no such limit: its model accepts any text, while the column of \<open>reports\<close> holds ten
  characters.
\<close>

lemma report_date_beyond_its_column:
  "read_report_request p (JObj [(U ''report_date'', JStr day)]) =
     Some \<lparr>rq_report_date = day, rq_report_type = Daily, rq_events = [], rq_use_mock_sources = False\<rparr> \<and>
   (fits report_model ''report_date'' day \<longleftrightarrow> length day \<le> 10)"
  by (simp add: read_report_request_def read_field_def read_field_or_def fits_def report_model_def tenant_model_def
      id_column_def required_def)

end
