(* ===== verification/Spec2Isabelle.thy ===== *)
theory Spec2Isabelle
  imports Approval_Spec Task_Fleet Transcription App_Start Assistant_Runs Agent_Graphs Office_Overlap File_Runs Request_Bodies
begin

text \<open>
  Verification library of the office multi-agent service.

  \<^bold>\<open>The program.\<close> An HTTP API (\<open>app/api/routes.py\<close>) lets an employee talk to an agent that drafts
  reports, meeting minutes and e-mails, analyses tables and answers questions from the knowledge base.
  The agent is a supervisor graph that delegates to sub-agents, two of which are fixed graphs (reports,
  meetings). Whatever leaves the company needs a human approval, a permission and a check for sensitive
  data, is done at most once (idempotency) and is audited. Long work is queued as background tasks, which
  worker processes claim with a lease. Every store exists twice: in memory for development and on a
  database; the external systems are reached through connectors, which are stand-ins in development.

  \<^bold>\<open>Theories and code.\<close> Definitions keep the names of the code; a method \<open>m\<close> of a service \<open>S\<close> is \<open>s_m\<close>,
  with the prefix \<open>mem_\<close> or \<open>sql_\<close> when it is a repository's.

  \<^item> \<open>OMA_Prelude\<close>, \<open>Py_Text\<close>, \<open>Dates\<close>, \<open>Csv\<close>: Python's values, exceptions and state passing; \<open>str\<close>,
    \<open>dict\<close> and truth values; \<open>date\<close>; the \<open>csv\<close> module.
  \<^item> \<open>Identity\<close>: \<open>RequestContext\<close>, \<open>PermissionService\<close>, \<open>AuditService\<close>. \<open>Request_Security\<close>: the SSO token, the
    request middleware, the handler of unhandled exceptions, \<open>build_development_context\<close>.
  \<^item> \<open>Approvals\<close>, \<open>Idempotency\<close>, \<open>Sensitive_Data\<close>: the services of those names, the first two over both
    repositories. \<open>Approval_Spec\<close>: the approvals as a set of targets that wait, and its refinement by the
    service. \<open>Office\<close>: the schemas of \<open>app/schemas/workflows.py\<close> and the state of the domain services.
  \<^item> \<open>Draft_Store\<close>, \<open>Reports\<close>, \<open>Meetings\<close>: \<open>ReportService\<close> and \<open>MeetingMinutesService\<close> over both repositories.
  \<^item> \<open>Json_Cache\<close>, \<open>Memory\<close>, \<open>Memory_Cache\<close>: \<open>app/services/cache.py\<close>, \<open>MemoryService\<close> and \<open>ScheduleService\<close>.
  \<^item> \<open>Knowledge\<close>, \<open>Connectors\<close>, \<open>Work_Events\<close>: \<open>KnowledgeService\<close> with its cache and its MCP connector, the
    GitLab connector, the stand-ins and the registry of connectors, and the collection of work events.
  \<^item> \<open>Files\<close>, \<open>Analysis\<close>, \<open>Email_Polish\<close>: uploads and their records, \<open>DataAnalysisService\<close> with the exported
    artifacts, \<open>EmailPolishService\<close>.
  \<^item> \<open>Task_Queue\<close>, \<open>Task_Queue_Sql\<close>: \<open>BackgroundTaskService\<close> and the two stores of tasks. \<open>Task_Queue_Runs\<close>:
    executions of the first. \<open>Task_Worker\<close>, \<open>Transcription\<close>: \<open>AsyncTaskWorker\<close> and its handler.
    \<open>Task_Fleet\<close>: several workers over the database. \<open>Task_Liveness\<close>: progress, and \<open>run_forever\<close>.
  \<^item> \<open>Planning\<close>, \<open>Supervisor\<close>, \<open>Domain_Graphs\<close>, \<open>Agent_Tools\<close>: \<open>PlanningBudgetMiddleware\<close>,
    \<open>SupervisorRuntime\<close>, the two fixed graphs, and the tools and sub-agents. \<open>Prompts\<close>, \<open>Agent_Graphs\<close>: the
    prompts, \<open>build_supervisor\<close>, the edges and the first and last nodes of the fixed graphs.
  \<^item> \<open>Assistant_Api\<close>, \<open>Api_Routes\<close>: the routes. \<open>App_Start\<close>: settings, \<open>lifespan\<close> and \<open>run_worker\<close>.
  \<^item> \<open>Model_Json\<close>: what \<open>model_validate\<close> accepts and \<open>model_dump\<close> writes for drafts. \<open>Request_Bodies\<close>: the
    models of the request bodies with their limits, the specifications of the fixed graphs, the outcome of a
    sub-agent, and routes behind the validation of their bodies.
  \<^item> \<open>Office_Steps\<close>, \<open>Office_Runs\<close>: what one operation does to the reports and minutes of the database, and
    executions in which whole requests to the routes and whole nodes of the agent's graphs work on it one after
    another, in any order. \<open>Office_Overlap\<close>: executions in which they overlap: any requests run while one waits for
    a connector. \<open>Assistant_Runs\<close>, \<open>File_Runs\<close>: executions of the assistant's and of the file routes, one whole
    request after another.
  \<^item> \<open>Db_Schema\<close>: the migrations under \<open>migrations/versions\<close> and the models of \<open>app/models/persistence.py\<close>.

  \<^bold>\<open>State and effects.\<close> A call takes the state and returns an outcome with the new state; an exception is
  a value and keeps the state reached so far. In-memory stores hand out the very objects they keep, the
  database hands out copies: a task, a report or minutes are therefore reached through a handle, an
  address of a heap in the one case and the copy in the other. What is awaited (a connector, a handler,
  the agent graph) is a function of the whole state, because other requests run meanwhile. A method of a
  repository is one step: it holds \<open>asyncio.Lock\<close> or runs in one transaction. Where two transactions can
  overlap within one call (\<open>decide\<close>, the writes of several workers) the halves are separate definitions.
  Times and fresh identifiers are arguments.

  \<^bold>\<open>Interfaces.\<close> A locale states what a service relies on: \<open>approval_store\<close>, \<open>idem_store\<close>, \<open>task_store\<close>,
  \<open>draft_store\<close> with \<open>report_store\<close> and \<open>minutes_store\<close>, \<open>memory_store\<close>, the caches \<open>weak_cache\<close> and
  \<open>strong_cache\<close>. \<open>report_submission\<close>, \<open>minutes_sending\<close> and \<open>memory_caching\<close> combine two of them into the
  laws of a service. \<open>json_codec\<close> is a value that is written as JSON and read back, for the parts of a draft.
  They are interpreted on the repositories, caches and models of the code.

  \<^bold>\<open>What is shown.\<close> Nothing leaves without approval, permission and the check for sensitive
  data, and a repeated submission returns the first answer; approvals decide one request each and are consumed, and both stores of approvals
  refine one specification; tenants see only their own reports, files and cached answers; the queue keeps its
  invariant and its order, workers with valid leases never hold the same task, every outcome of a handler is
  recorded as documented, every task is claimed in the end; the budgets of the agent hold as long as the
  conversation is kept and the model calls only what it is offered, and a fixed graph that
  failed or was refused withdraws delegation until there is a new plan; uploads respect their limits and are
  read back as stored; exports and tokens round-trip; migrations build what the models declare and can be
  undone; the agents' tools do what the routes do. Over every execution of the routes and the agent's graphs, also
  when requests overlap, no report and no minutes leave unreviewed (\<open>office_safe\<close> is what holds at every moment,
  \<open>guarantee\<close> what every step keeps). When whole requests run one after another and the systems name what they
  accept, nothing leaves twice, every stored draft passes the validation with which it is read back, and the
  answered resumes of a thread take turns with the requests for its approval; what these requests store fits its
  columns. Where the code does less than it means to, the theorem states what it does: a
  late write of a worker, a lost cancellation, an approval consumed by a timeout, a report accepted without an
  identifier, a report sent twice by submissions that overlap.

  \<^bold>\<open>Bounds and fuel.\<close> The polling loop of the transcription handler has the number of polls the worker's
  timeout allows as its fuel, and running out is the timeout. \<open>run_forever\<close> is a partial function: \<open>None\<close> is
  a loop that never returns, and \<open>told_worker_stops\<close> shows when it returns. Every other loop is
  structural. Python integers are unbounded, so none has a width. The floats of
  JSON values (\<open>py_float\<close>) are the numbers they denote with a signed zero, the infinities and \<open>NaN\<close>; the fields
  of a schema with limits, which admit neither infinity nor \<open>NaN\<close>, and the settings are rationals (finite).

  \<^bold>\<open>Parameters.\<close> Code outside the repository is an argument: the compiled agent graph and the language
  model, the HTTP, MCP and Redis clients, the readers and writers of Office and PDF files, \<open>json\<close>, SHA-256,
  the case folding and the character classes of Unicode, time zones, and the validation library's conversions
  of numbers, truth values and times. The laws a theorem needs of them are its hypotheses; of SHA-256 none is
  assumed: where keys matter, the theorem holds or two named texts are a collision.

  \<^bold>\<open>Not modelled.\<close> The environment of the migrations (\<open>migrations/env.py\<close>); the opening of
  connections and the construction of HTTP clients; the messages of a refused body (a refusal is one answer,
  422); the re-exports of the packages. The column limits of the database are stated for the requests for
  approval only: elsewhere a text that is too long for its column, such as the date of a report, is kept.
\<close>

end
